(* ===== verification/Prelude.thy ===== *)
theory Prelude
  imports Main "HOL-Library.AList" "HOL-Library.Word" "HOL-Library.List_Lexorder"
begin

text \<open>
  Shared vocabulary of the development.

  \<^item> JavaScript values the client program uses: byte arrays, strings of UTF-16 code units,
    numbers, insertion-ordered \<open>Map\<close> and \<open>Set\<close> objects, thrown errors.
  \<^item> Generic facts on lists: splitting a byte array into fixed-size pieces and putting the pieces
    back together, and arrays of optional parts.
  \<^item> Two interfaces as locales: \<open>keyed_store\<close> (what a keyed container promises) and
    \<open>event_system\<close> (a state machine driven by events, with its invariant).
\<close>

named_theorems frame \<open>what an operation leaves alone\<close>

section \<open>JavaScript values\<close>

type_synonym byte = "8 word"
type_synonym bytes = "byte list"

lemma unat_byte: "unat (b :: byte) < 256"
proof -
  have "unat b < 2 ^ LENGTH(8)" by (rule unsigned_less)
  then show ?thesis by simp
qed

text \<open>A JavaScript string is a sequence of UTF-16 code units; \<open>length\<close> and \<open>slice\<close> count units.\<close>

type_synonym jstr = "16 word list"

definition unit_of :: "char \<Rightarrow> 16 word" where
  "unit_of c = of_nat (of_char c)"

definition js :: "string \<Rightarrow> jstr" where
  "js s = map unit_of s"

lemma of_char_less_256: "(of_char c :: nat) < 256"
proof -
  have "(of_char c :: nat) \<in> {0..<256}"
    using range_nat_of_char by blast
  then show ?thesis by simp
qed

lemma unat_unit_of: "unat (unit_of c) = of_char c"
  proof -
  have "(of_char c :: nat) < 65536"
    using of_char_less_256 [of c] by (rule less_le_trans) simp
  then show ?thesis by (simp only: unit_of_def unat_of_nat) simp
qed

lemma unit_of_inj [simp]: "unit_of c = unit_of d \<longleftrightarrow> c = d"
  by (metis unat_unit_of of_char_eq_iff)

lemma js_inj [simp]: "js s = js t \<longleftrightarrow> s = t"
proof -
  have "inj unit_of" by (simp add: inj_def)
  then show ?thesis by (simp add: js_def inj_map_eq_map)
qed

lemma js_Nil [simp]: "js [] = []"
  by (simp add: js_def)

lemma js_eq_Nil [simp]: "js s = [] \<longleftrightarrow> s = []" "[] = js s \<longleftrightarrow> s = []"
  by (auto simp: js_def)

lemma length_js [simp]: "length (js s) = length s"
  by (simp add: js_def)

text \<open>
  Numbers. \<open>NumI\<close> are the integral values, \<open>NumF m e\<close> stands for a finite value \<open>m * 10 ^ - e\<close> that
  is not integral. \<open>JSON.parse\<close> can produce the infinities (an exponent that overflows), never \<open>NaN\<close>.
\<close>

datatype jsnum = NumI int | NumF int nat | NumInf bool | NumNaN

fun is_integer :: "jsnum \<Rightarrow> bool" where
  "is_integer (NumI _) = True"
| "is_integer _ = False"

fun is_finite :: "jsnum \<Rightarrow> bool" where
  "is_finite (NumI _) = True"
| "is_finite (NumF _ _) = True"
| "is_finite _ = False"

text \<open>The operator \<open>===\<close> on numbers: \<open>NaN\<close> is not equal to itself.\<close>

definition num_eq :: "jsnum \<Rightarrow> jsnum \<Rightarrow> bool" where
  "num_eq a b \<longleftrightarrow> a = b \<and> a \<noteq> NumNaN"

text \<open>
  A thrown error: \<open>new Error(message)\<close>, or an error the engine itself raises (\<open>TypeError\<close> on a
  property of \<open>null\<close>, \<open>RangeError\<close> from \<open>Uint8Array.prototype.set\<close>, \<open>SyntaxError\<close> from
  \<open>JSON.parse\<close>, an \<open>OperationError\<close> or a \<open>DataError\<close> of Web Crypto, an \<open>InvalidCharacterError\<close> from \<open>atob\<close>).
\<close>

datatype js_error =
    Error string
  | TypeError
  | RangeError
  | SyntaxError
  | OperationError
  | DataError
  | InvalidCharacterError

type_synonym 'a result = "js_error + 'a"

definition bind_result :: "'a result \<Rightarrow> ('a \<Rightarrow> 'b result) \<Rightarrow> 'b result" where
  "bind_result r f = (case r of Inl e \<Rightarrow> Inl e | Inr a \<Rightarrow> f a)"

lemma bind_result_simps [simp]:
  "bind_result (Inl e) f = Inl e"
  "bind_result (Inr a) f = f a"
  by (simp_all add: bind_result_def)

lemma bind_result_Inr:
  "bind_result r f = Inr b \<longleftrightarrow> (\<exists>a. r = Inr a \<and> f a = Inr b)"
  by (cases r) auto

definition guard :: "bool \<Rightarrow> js_error \<Rightarrow> unit result" where
  "guard b e = (if b then Inr () else Inl e)"

lemma guard_simps [simp]:
  "guard True e = Inr ()"
  "guard False e = Inl e"
  "guard b e = Inr u \<longleftrightarrow> b"
  by (simp_all add: guard_def)

section \<open>Decimal text\<close>

text \<open>\<open>n.toString()\<close> of a natural number, and the number that decimal digits spell.\<close>

fun decimal :: "nat \<Rightarrow> jstr" where
  "decimal n = (if n < 10 then [of_nat (48 + n)] else decimal (n div 10) @ [of_nat (48 + n mod 10)])"

declare decimal.simps [simp del]

definition is_digit :: "16 word \<Rightarrow> bool" where
  "is_digit u \<longleftrightarrow> 48 \<le> unat u \<and> unat u \<le> 57"

definition digits_value :: "jstr \<Rightarrow> nat" where
  "digits_value ds = foldl (\<lambda>n d. n * 10 + (unat d - 48)) 0 ds"

lemma unat_digit: "d < 10 \<Longrightarrow> unat (of_nat (48 + d) :: 16 word) = 48 + d"
  unfolding unat_of_nat by simp

lemma is_digit_of_nat: "d < 10 \<Longrightarrow> is_digit (of_nat (48 + d))"
  unfolding is_digit_def unat_digit by simp

lemma decimal_digits: "list_all is_digit (decimal n)"
proof (induction n rule: decimal.induct)
  case (1 n)
  then show ?case
    by (subst decimal.simps) (auto simp: is_digit_of_nat simp del: of_nat_add)
qed

lemma digits_value_decimal [simp]: "digits_value (decimal n) = n"
proof (induction n rule: decimal.induct)
  case (1 n)
  then show ?case
    by (subst decimal.simps) (auto simp: digits_value_def unat_digit simp del: of_nat_add)
qed

lemma decimal_inj [simp]: "decimal m = decimal n \<longleftrightarrow> m = n"
  by (metis digits_value_decimal)

lemma decimal_not_Nil [simp]: "decimal n \<noteq> []"
  by (subst decimal.simps) simp

section \<open>Maps and sets that keep insertion order\<close>

text \<open>
  A JavaScript \<open>Map\<close> iterates in insertion order; \<open>set\<close> on a present key keeps its place. That is an
  association list with \<open>AList.update\<close> and \<open>AList.delete\<close>. A \<open>Set\<close> of numbers is the list of its
  elements in insertion order.
\<close>

type_synonym ('k, 'v) jsmap = "('k \<times> 'v) list"

definition set_add :: "'a \<Rightarrow> 'a list \<Rightarrow> 'a list" where
  "set_add x xs = (if x \<in> set xs then xs else xs @ [x])"

lemma set_set_add [simp]: "set (set_add x xs) = insert x (set xs)"
  by (auto simp: set_add_def)

lemma distinct_set_add [simp]: "distinct xs \<Longrightarrow> distinct (set_add x xs)"
  by (simp add: set_add_def)

lemma length_set_add: "length xs \<le> length (set_add x xs)"
  by (simp add: set_add_def)

lemma length_delete_le: "length (AList.delete k m) \<le> length m"
  by (simp add: AList.delete_eq)

lemma length_update:
  "length (AList.update k v m) = (if k \<in> fst ` set m then length m else Suc (length m))"
  by (induction m) auto

lemma update_absent: "k \<notin> fst ` set m \<Longrightarrow> AList.update k v m = m @ [(k, v)]"
  by (induction m) auto

lemma map_fst_update_mem:
  "k \<in> fst ` set m \<Longrightarrow> map fst (AList.update k v m) = map fst m"
  by (induction m) auto

lemma map_of_mem_keys: "map_of m k = Some v \<Longrightarrow> k \<in> fst ` set m"
  by (force dest: map_of_SomeD)

lemma set_update:
  "distinct (map fst m) \<Longrightarrow>
   set (AList.update k v m) = insert (k, v) {p \<in> set m. fst p \<noteq> k}"
  by (induction m) (auto simp: image_iff)

lemma set_delete: "set (AList.delete k m) = {p \<in> set m. fst p \<noteq> k}"
  by (auto simp: AList.delete_eq)

text \<open>What a keyed container promises its clients.\<close>

locale keyed_store =
  fixes get :: "'m \<Rightarrow> 'k \<Rightarrow> 'v option"
    and put :: "'k \<Rightarrow> 'v \<Rightarrow> 'm \<Rightarrow> 'm"
    and del :: "'k \<Rightarrow> 'm \<Rightarrow> 'm"
    and wf :: "'m \<Rightarrow> bool"
  assumes get_put: "wf m \<Longrightarrow> get (put k v m) = (get m)(k \<mapsto> v)"
    and get_del: "wf m \<Longrightarrow> get (del k m) = (get m)(k := None)"
    and wf_put: "wf m \<Longrightarrow> wf (put k v m)"
    and wf_del: "wf m \<Longrightarrow> wf (del k m)"
begin

lemmas specs = get_put get_del wf_put wf_del

text \<open>A property of all stored values survives storing a good value and deleting any.\<close>

lemma all_put:
  assumes "wf m" "\<And>k v. get m k = Some v \<Longrightarrow> P k v" "P k v" "get (put k v m) k' = Some v'"
  shows "P k' v'"
  using assms by (auto simp: get_put split: if_splits)

lemma all_del:
  assumes "wf m" "\<And>k v. get m k = Some v \<Longrightarrow> P k v" "get (del k m) k' = Some v'"
  shows "P k' v'"
  using assms by (auto simp: get_del split: if_splits)

lemma get_put_same: "wf m \<Longrightarrow> get (put k v m) k = Some v"
  by (simp add: get_put)

lemma get_put_other: "wf m \<Longrightarrow> k' \<noteq> k \<Longrightarrow> get (put k v m) k' = get m k'"
  by (simp add: get_put)

lemma get_del_same: "wf m \<Longrightarrow> get (del k m) k = None"
  by (simp add: get_del)

lemma get_del_other: "wf m \<Longrightarrow> k' \<noteq> k \<Longrightarrow> get (del k m) k' = get m k'"
  by (simp add: get_del)

end

interpretation jsmap: keyed_store map_of AList.update AList.delete "\<lambda>m. distinct (map fst m)"
  by unfold_locales
    (auto simp: update_conv' delete_conv' distinct_update distinct_delete)

section \<open>Fixed-size pieces of a list\<close>

text \<open>Piece \<open>k\<close> of a list cut every \<open>cs\<close> elements, and how many pieces there are (at least one).\<close>

definition slice_at :: "nat \<Rightarrow> 'a list \<Rightarrow> nat \<Rightarrow> 'a list" where
  "slice_at cs xs k = take cs (drop (k * cs) xs)"

definition piece_count :: "nat \<Rightarrow> nat \<Rightarrow> nat" where
  "piece_count cs n = max 1 ((n + cs - 1) div cs)"

lemma piece_count_pos [simp]: "0 < piece_count cs n"
  by (simp add: piece_count_def)

lemma piece_count_covers:
  assumes "0 < cs"
  shows "n \<le> piece_count cs n * cs"
proof -
  have "n \<le> (n + cs - 1) div cs * cs"
    using assms div_mult_mod_eq [of "n + cs - 1" cs] mod_less_divisor [OF assms, of "n + cs - 1"]
    by linarith
  also have "\<dots> \<le> piece_count cs n * cs"
    by (simp add: piece_count_def)
  finally show ?thesis .
qed

lemma piece_count_le:
  assumes "0 < cs" "n \<le> m * cs" "0 < m"
  shows "piece_count cs n \<le> m"
proof -
  have "(n + cs - 1) div cs < Suc m"
    using assms by (intro less_mult_imp_div_less) (auto simp: algebra_simps)
  then show ?thesis using assms by (simp add: piece_count_def)
qed

lemma piece_start_less:
  assumes "0 < cs" "0 < n" "k < piece_count cs n"
  shows "k * cs < n"
proof (rule ccontr)
  assume "\<not> k * cs < n"
  then have "n \<le> k * cs" by simp
  moreover have "0 < k" using assms calculation by (cases k) auto
  ultimately have "piece_count cs n \<le> k"
    using assms by (intro piece_count_le) auto
  with assms show False by simp
qed

lemma length_slice_at: "length (slice_at cs xs k) = min cs (length xs - k * cs)"
  by (simp add: slice_at_def)

lemma concat_slices_upto: "concat (map (slice_at cs xs) [0..<n]) = take (n * cs) xs"
proof (induction n)
  case 0
  then show ?case by simp
next
  case (Suc n)
  then show ?case
    by (simp add: slice_at_def take_add [symmetric] add.commute)
qed

lemma concat_slices:
  "0 < cs \<Longrightarrow> concat (map (slice_at cs xs) [0..<piece_count cs (length xs)]) = xs"
  using piece_count_covers [of cs "length xs"] by (simp add: concat_slices_upto)

section \<open>Encodings\<close>

text \<open>What an encoding promises: a good value is read back from what is written for it.\<close>

locale codec =
  fixes enc :: "'a \<Rightarrow> 'b"
    and dec :: "'b \<Rightarrow> 'a option"
    and good :: "'a \<Rightarrow> bool"
  assumes dec_enc: "good x \<Longrightarrow> dec (enc x) = Some x"
begin

lemma enc_inj: "good x \<Longrightarrow> good y \<Longrightarrow> enc x = enc y \<longleftrightarrow> x = y"
  by (metis dec_enc option.inject)

lemma dec_enc_iff: "good x \<Longrightarrow> dec (enc x) = Some y \<longleftrightarrow> y = x"
  by (auto simp: dec_enc)

lemma dec_all: "list_all good xs \<Longrightarrow> map (dec \<circ> enc) xs = map Some xs"
  by (induction xs) (simp_all add: dec_enc)

end

section \<open>State machines\<close>

text \<open>A run of a machine over a list of events, and the condition that each event may happen.\<close>

primrec run :: "('e \<Rightarrow> 's \<Rightarrow> 's) \<Rightarrow> 'e list \<Rightarrow> 's \<Rightarrow> 's" where
  "run step [] s = s"
| "run step (e # es) s = run step es (step e s)"

primrec run_ok :: "('e \<Rightarrow> 's \<Rightarrow> bool) \<Rightarrow> ('e \<Rightarrow> 's \<Rightarrow> 's) \<Rightarrow> 'e list \<Rightarrow> 's \<Rightarrow> bool" where
  "run_ok en step [] s = True"
| "run_ok en step (e # es) s = (en e s \<and> run_ok en step es (step e s))"

lemma run_append [simp]: "run step (xs @ ys) s = run step ys (run step xs s)"
  by (induction xs arbitrary: s) auto

lemma run_ok_append [simp]:
  "run_ok en step (xs @ ys) s \<longleftrightarrow> run_ok en step xs s \<and> run_ok en step ys (run step xs s)"
  by (induction xs arbitrary: s) auto

locale event_system =
  fixes step :: "'e \<Rightarrow> 's \<Rightarrow> 's"
    and enabled :: "'e \<Rightarrow> 's \<Rightarrow> bool"
    and inv :: "'s \<Rightarrow> bool"
  assumes step_inv: "inv s \<Longrightarrow> enabled e s \<Longrightarrow> inv (step e s)"
begin

lemma run_inv: "inv s \<Longrightarrow> run_ok enabled step es s \<Longrightarrow> inv (run step es s)"
  by (induction es arbitrary: s) (auto intro: step_inv)

text \<open>A relation between successive states that is reflexive and transitive spans a whole run.\<close>

lemma run_rel:
  assumes "\<And>s. R s s" "\<And>s t u. R s t \<Longrightarrow> R t u \<Longrightarrow> R s u"
    and "\<And>s e. inv s \<Longrightarrow> enabled e s \<Longrightarrow> R s (step e s)"
    and "inv s" "run_ok enabled step es s"
  shows "R s (run step es s)"
  using assms(4,5)
proof (induction es arbitrary: s)
  case Nil
  then show ?case by (simp add: assms(1))
next
  case (Cons e es)
  then have "R s (step e s)" "R (step e s) (run step es (step e s))"
    by (auto intro: assms(3) step_inv)
  then show ?case by (auto intro: assms(2))
qed

end

end
