(* ===== verification/Messages.thy ===== *)
theory Messages
  imports Prelude
begin

text \<open>
  The message types and limits of \<open>web/src/lib/crypto/session.ts\<close>, the previews shown for a message,
  and the two checks it applies to attachment metadata: \<open>sanitizeFileName\<close> and \<open>isValidMime\<close>.
  A value whose type the TypeScript declares as an optional property is an \<open>option\<close>; the
  discriminating \<open>type\<close> string is the constructor.
\<close>

section \<open>Limits\<close>

definition MAX_TRANSFER_BYTES :: nat where "MAX_TRANSFER_BYTES = 10 * 1024 * 1024"
definition MAX_IMAGE_BYTES :: nat where "MAX_IMAGE_BYTES = MAX_TRANSFER_BYTES"
definition MAX_CIPHERTEXT_BYTES :: nat where "MAX_CIPHERTEXT_BYTES = 4089446"
definition IMAGE_CHUNK_PAYLOAD_BYTES :: nat where "IMAGE_CHUNK_PAYLOAD_BYTES = 256 * 1024"
definition HISTORY_CHUNK_PAYLOAD_BYTES :: nat where
  "HISTORY_CHUNK_PAYLOAD_BYTES = IMAGE_CHUNK_PAYLOAD_BYTES"
definition TRANSFER_CHUNK_BYTES :: nat where "TRANSFER_CHUNK_BYTES = IMAGE_CHUNK_PAYLOAD_BYTES"
definition MAX_FILE_NAME_LENGTH :: nat where "MAX_FILE_NAME_LENGTH = 200"
definition MAX_MIME_LENGTH :: nat where "MAX_MIME_LENGTH = 100"
definition REPLY_PREVIEW_MAX :: nat where "REPLY_PREVIEW_MAX = 80"

lemmas limit_defs = MAX_TRANSFER_BYTES_def MAX_IMAGE_BYTES_def IMAGE_CHUNK_PAYLOAD_BYTES_def
  HISTORY_CHUNK_PAYLOAD_BYTES_def TRANSFER_CHUNK_BYTES_def

text \<open>\<open>Math.ceil(size / TRANSFER_CHUNK_BYTES)\<close>, at least one.\<close>

definition transferChunkCount :: "nat \<Rightarrow> nat" where
  "transferChunkCount n =
     max 1 ((n + TRANSFER_CHUNK_BYTES - 1) div TRANSFER_CHUNK_BYTES)"

definition transferChunkLength :: "nat \<Rightarrow> nat \<Rightarrow> nat" where
  "transferChunkLength n index =
     (let start = int index * int TRANSFER_CHUNK_BYTES
      in nat (max 0 (min (int TRANSFER_CHUNK_BYTES) (int n - start))))"

definition MAX_TRANSFER_CHUNKS :: nat where
  "MAX_TRANSFER_CHUNKS =
     (MAX_TRANSFER_BYTES + TRANSFER_CHUNK_BYTES - 1) div TRANSFER_CHUNK_BYTES"

lemma TRANSFER_CHUNK_BYTES_pos [simp]: "0 < TRANSFER_CHUNK_BYTES"
  by (simp add: limit_defs)

lemma transferChunkCount_pieces: "transferChunkCount n = piece_count TRANSFER_CHUNK_BYTES n"
  by (simp add: transferChunkCount_def piece_count_def)

lemma transferChunkCount_pos [simp]: "0 < transferChunkCount n"
  by (simp add: transferChunkCount_def)

lemma transferChunkLength_slice:
  "transferChunkLength (length xs) k = length (slice_at TRANSFER_CHUNK_BYTES xs k)"
proof -
  have "int k * int TRANSFER_CHUNK_BYTES = int (k * TRANSFER_CHUNK_BYTES)" by simp
  then show ?thesis
    by (simp only: transferChunkLength_def length_slice_at Let_def)
qed

lemma transferChunkCount_le_max:
  "n \<le> MAX_TRANSFER_BYTES \<Longrightarrow> transferChunkCount n \<le> MAX_TRANSFER_CHUNKS"
  unfolding transferChunkCount_pieces
  by (rule piece_count_le) (simp_all add: MAX_TRANSFER_CHUNKS_def limit_defs)

section \<open>Message types\<close>

datatype image_mime = Jpeg | Png | Webp | Gif

fun mime_string :: "image_mime \<Rightarrow> jstr" where
  "mime_string Jpeg = js ''image/jpeg''"
| "mime_string Png = js ''image/png''"
| "mime_string Webp = js ''image/webp''"
| "mime_string Gif = js ''image/gif''"

definition imageMimeOf :: "jstr \<Rightarrow> image_mime option" where
  "imageMimeOf s =
     (if s = js ''image/jpeg'' then Some Jpeg
      else if s = js ''image/png'' then Some Png
      else if s = js ''image/webp'' then Some Webp
      else if s = js ''image/gif'' then Some Gif
      else None)"

definition isImageMime :: "jstr \<Rightarrow> bool" where
  "isImageMime s \<longleftrightarrow>
     s = js ''image/jpeg'' \<or> s = js ''image/png'' \<or> s = js ''image/webp'' \<or> s = js ''image/gif''"

lemma imageMimeOf_mime_string [simp]: "imageMimeOf (mime_string m) = Some m"
  by (cases m) (simp_all add: imageMimeOf_def)

lemma ex_image_mime: "(\<exists>m. P m) \<longleftrightarrow> P Jpeg \<or> P Png \<or> P Webp \<or> P Gif"
  by (metis image_mime.exhaust)

lemma imageMimeOf_Some: "imageMimeOf s = Some m \<Longrightarrow> s = mime_string m"
  by (cases m) (simp_all add: imageMimeOf_def split: if_splits)

lemma isImageMime_iff: "isImageMime s \<longleftrightarrow> (\<exists>m. s = mime_string m)"
  by (simp add: ex_image_mime isImageMime_def)

record reply_ref =
  rr_id :: jstr
  rr_preview :: jstr

record text_content =
  tx_ts :: jsnum
  tx_body :: jstr
  tx_replyTo :: "reply_ref option"

record image_content =
  im_ts :: jsnum
  im_mime :: image_mime
  im_data :: bytes
  im_w :: "jsnum option"
  im_h :: "jsnum option"
  im_replyTo :: "reply_ref option"

record file_content =
  fl_ts :: jsnum
  fl_name :: jstr
  fl_mime :: jstr
  fl_data :: bytes
  fl_replyTo :: "reply_ref option"

datatype content = Text text_content | Image image_content | File file_content

record image_chunk =
  ic_id :: jstr
  ic_index :: nat
  ic_total :: nat
  ic_data :: bytes
  ic_ts :: "jsnum option"
  ic_mime :: "image_mime option"
  ic_byteLength :: "nat option"
  ic_w :: "jsnum option"
  ic_h :: "jsnum option"
  ic_replyTo :: "reply_ref option"

record history_chunk =
  hc_id :: jstr
  hc_index :: nat
  hc_total :: nat
  hc_data :: bytes
  hc_compressedLength :: "nat option"

datatype transfer_kind = KindImage | KindFile

record transfer_header =
  th_kind :: transfer_kind
  th_ts :: jsnum
  th_mime :: jstr
  th_size :: nat
  th_sha256 :: jstr
  th_name :: "jstr option"
  th_w :: "jsnum option"
  th_h :: "jsnum option"
  th_replyTo :: "reply_ref option"

record transfer_chunk =
  tc_id :: jstr
  tc_index :: nat
  tc_total :: nat
  tc_header :: transfer_header
  tc_data :: bytes

record transfer_ack =
  ta_ts :: jsnum
  ta_id :: jstr
  ta_have :: "nat list"
  ta_resend :: bool
  ta_done :: bool

text \<open>
  \<open>PlainMessage\<close>. \<open>Content\<close> carries the shared id, absent in legacy ciphertext; the arguments of the
  other constructors are the fields in the order of the TypeScript type.
\<close>

datatype plain_message =
    Content "jstr option" content
  | Delete jsnum jstr
  | ImageChunk image_chunk
  | HistoryDigest jsnum jsnum jstr "jstr option"
  | ResyncRequest jsnum jstr "jstr option"
  | ResyncAccept jsnum jstr "jstr list"
  | ResyncReject jsnum jstr "jstr option"
  | ResyncIds jsnum jstr "jstr list"
  | WipeHistory jsnum jstr
  | HistoryChunk history_chunk
  | TransferChunk transfer_chunk
  | TransferAck transfer_ack
  | TransferQuery jsnum jstr
  | TransferCancel jsnum jstr "jstr option"

text \<open>\<open>StoredMessage\<close> of \<open>backup.ts\<close>: a content message with its id and its side.\<close>

datatype side = Self | Peer

record stored_message =
  sm_id :: jstr
  sm_from :: side
  sm_content :: content

fun content_ts :: "content \<Rightarrow> jsnum" where
  "content_ts (Text t) = tx_ts t"
| "content_ts (Image i) = im_ts i"
| "content_ts (File f) = fl_ts f"

definition sm_ts :: "stored_message \<Rightarrow> jsnum" where
  "sm_ts m = content_ts (sm_content m)"

section \<open>Previews\<close>

definition file_label :: "jstr \<Rightarrow> jstr" where
  "file_label name = js ''[File] '' @ name"

fun messagePreview :: "plain_message \<Rightarrow> jstr" where
  "messagePreview (Content _ (Image _)) = js ''[Image]''"
| "messagePreview (ImageChunk _) = js ''[Image]''"
| "messagePreview (Content _ (File f)) = file_label (fl_name f)"
| "messagePreview (TransferChunk c) =
     (if th_kind (tc_header c) = KindImage then js ''[Image]''
      else file_label (case th_name (tc_header c) of None \<Rightarrow> js ''file'' | Some n \<Rightarrow> n))"
| "messagePreview (Content _ (Text t)) = tx_body t"
| "messagePreview _ = []"

definition replyPreview :: "plain_message \<Rightarrow> jstr" where
  "replyPreview msg =
     (let raw = messagePreview msg
      in if length raw \<le> REPLY_PREVIEW_MAX then raw
         else take (REPLY_PREVIEW_MAX - 1) raw @ [0x2026])"

lemma replyPreview_length: "length (replyPreview m) \<le> REPLY_PREVIEW_MAX"
  by (simp add: replyPreview_def Let_def REPLY_PREVIEW_MAX_def)

section \<open>File names\<close>

text \<open>White space and line terminators, as \<open>String.prototype.trim\<close> knows them.\<close>

definition is_space :: "16 word \<Rightarrow> bool" where
  "is_space c \<longleftrightarrow>
     9 \<le> c \<and> c \<le> 13 \<or> c = 32 \<or> c = 0xA0 \<or> c = 0x1680 \<or> 0x2000 \<le> c \<and> c \<le> 0x200A
     \<or> c = 0x2028 \<or> c = 0x2029 \<or> c = 0x202F \<or> c = 0x205F \<or> c = 0x3000 \<or> c = 0xFEFF"

definition trim :: "jstr \<Rightarrow> jstr" where
  "trim s = rev (dropWhile is_space (rev (dropWhile is_space s)))"

text \<open>Control characters, zero-width and bidirectional format characters: the class that is removed.\<close>

definition is_hidden :: "16 word \<Rightarrow> bool" where
  "is_hidden c \<longleftrightarrow>
     c \<le> 0x1F \<or> 0x7F \<le> c \<and> c \<le> 0x9F \<or> c = 0x061C \<or> 0x200B \<le> c \<and> c \<le> 0x200F
     \<or> 0x202A \<le> c \<and> c \<le> 0x202E \<or> 0x2066 \<le> c \<and> c \<le> 0x2069 \<or> c = 0xFEFF"

definition is_separator :: "16 word \<Rightarrow> bool" where
  "is_separator c \<longleftrightarrow> c = unit_of (CHR ''/'') \<or> c = unit_of (CHR 0x5C)"

definition is_reserved :: "16 word \<Rightarrow> bool" where
  "is_reserved c \<longleftrightarrow> c \<in> set (js ''<>:|?*'') \<or> c = unit_of (CHR 0x22)"

definition base_name :: "jstr \<Rightarrow> jstr" where
  "base_name s = rev (takeWhile (\<lambda>c. \<not> is_separator c) (rev s))"

text \<open>
  \<open>nfc\<close> is Unicode normalisation, \<open>String.prototype.normalize('NFC')\<close>: a table the platform owns and a
  parameter here. The argument is \<open>None\<close> where the JavaScript value is not a string.
\<close>

definition sanitizeFileName :: "(jstr \<Rightarrow> jstr) \<Rightarrow> jstr option \<Rightarrow> jstr" where
  "sanitizeFileName nfc raw =
     (let s = (case raw of Some s \<Rightarrow> s | None \<Rightarrow> []);
          base = base_name s;
          cleaned = dropWhile (\<lambda>c. c = unit_of (CHR ''.''))
            (trim (map (\<lambda>c. if is_reserved c then unit_of (CHR ''_'') else c)
              (filter (\<lambda>c. \<not> is_hidden c) (nfc base))));
          trimmed = trim (take MAX_FILE_NAME_LENGTH cleaned)
      in if trimmed = [] then js ''file'' else trimmed)"

text \<open>What a name that is shown and offered for download must not contain.\<close>

definition safe_unit :: "16 word \<Rightarrow> bool" where
  "safe_unit c \<longleftrightarrow> \<not> is_separator c \<and> \<not> is_hidden c \<and> \<not> is_reserved c"

text \<open>Normalisation composes and decomposes characters; it never makes a path separator.\<close>

definition nfc_keeps_separators_out :: "(jstr \<Rightarrow> jstr) \<Rightarrow> bool" where
  "nfc_keeps_separators_out nfc \<longleftrightarrow>
     (\<forall>s. (\<forall>c\<in>set s. \<not> is_separator c) \<longrightarrow> (\<forall>c\<in>set (nfc s). \<not> is_separator c))"

lemma set_trim: "set (trim s) \<subseteq> set s"
  unfolding trim_def by (auto dest!: set_dropWhileD)

lemma length_trim: "length (trim s) \<le> length s"
  unfolding trim_def
  by (metis length_dropWhile_le length_rev order_trans)

lemma base_name_no_separator: "c \<in> set (base_name s) \<Longrightarrow> \<not> is_separator c"
  by (auto simp: base_name_def dest: set_takeWhileD)

lemma sanitizeFileName_units:
  assumes "nfc_keeps_separators_out nfc" "c \<in> set (sanitizeFileName nfc raw)"
  shows "safe_unit c"
proof -
  let ?base = "base_name (case raw of Some s \<Rightarrow> s | None \<Rightarrow> [])"
  let ?mapped = "map (\<lambda>c. if is_reserved c then unit_of (CHR ''_'') else c)
                   (filter (\<lambda>c. \<not> is_hidden c) (nfc ?base))"
  have fallback: "\<forall>c\<in>set (js ''file''). safe_unit c"
    by (simp add: safe_unit_def is_separator_def is_hidden_def is_reserved_def js_def)
       (simp add: unit_of_def)
  have underscore: "safe_unit (unit_of (CHR ''_''))"
    by (simp add: safe_unit_def is_separator_def is_hidden_def is_reserved_def js_def)
       (simp add: unit_of_def)
  have "\<forall>c\<in>set (nfc ?base). \<not> is_separator c"
    using assms(1) base_name_no_separator unfolding nfc_keeps_separators_out_def by blast
  then have "\<forall>c\<in>set ?mapped. safe_unit c"
    using underscore by (auto simp: safe_unit_def)
  moreover have "set (sanitizeFileName nfc raw) \<subseteq> set ?mapped \<union> set (js ''file'')"
    unfolding sanitizeFileName_def Let_def
    using set_trim by (auto dest!: set_dropWhileD set_take_subset [THEN subsetD] subsetD [OF set_trim])
  ultimately show ?thesis using fallback assms(2) by blast
qed

lemma sanitizeFileName_length: "length (sanitizeFileName nfc raw) \<le> MAX_FILE_NAME_LENGTH"
  unfolding sanitizeFileName_def Let_def
  using order_trans [OF length_trim, of "take MAX_FILE_NAME_LENGTH xs" for xs]
  by (auto simp: MAX_FILE_NAME_LENGTH_def)

lemma sanitizeFileName_nonempty: "sanitizeFileName nfc raw \<noteq> []"
  by (simp add: sanitizeFileName_def Let_def)

section \<open>MIME types\<close>

definition is_lower :: "16 word \<Rightarrow> bool" where
  "is_lower c \<longleftrightarrow> unit_of (CHR ''a'') \<le> c \<and> c \<le> unit_of (CHR ''z'')"

definition is_upper :: "16 word \<Rightarrow> bool" where
  "is_upper c \<longleftrightarrow> unit_of (CHR ''A'') \<le> c \<and> c \<le> unit_of (CHR ''Z'')"

definition mime_first :: "16 word \<Rightarrow> bool" where
  "mime_first c \<longleftrightarrow> is_lower c \<or> is_upper c \<or> is_digit c"

definition mime_rest :: "16 word \<Rightarrow> bool" where
  "mime_rest c \<longleftrightarrow> mime_first c \<or> c \<in> set (js ''!#$&^_.+-'')"

text \<open>One half of the pattern: a first character of the small class, then any of the large one.\<close>

fun mime_token :: "jstr \<Rightarrow> bool" where
  "mime_token [] = False"
| "mime_token (c # cs) = (mime_first c \<and> list_all mime_rest cs)"

text \<open>The slash is outside both classes, so the pattern can only split at the first one.\<close>

definition isValidMime :: "jstr \<Rightarrow> bool" where
  "isValidMime m \<longleftrightarrow>
     0 < length m \<and> length m \<le> MAX_MIME_LENGTH \<and>
     (let slash = unit_of (CHR ''/'');
          major = takeWhile (\<lambda>c. c \<noteq> slash) m;
          rest = dropWhile (\<lambda>c. c \<noteq> slash) m
      in mime_token major \<and> rest \<noteq> [] \<and> mime_token (tl rest))"

end
