(* ===== verification/Registry.thy ===== *)
theory Registry
  imports Prelude
begin

text \<open>
  The two-level registry \<open>Map<string, Map<string, T>>\<close> in which \<open>TransferEngine\<close> (its fields \<open>out\<close>
  and \<open>inc\<close>, \<open>web/src/lib/relay/transfer.ts\<close>) keeps its transfers: room id, then transfer id. An
  inner map is created by the first insertion and removed with its last entry.
\<close>

type_synonym 'v registry = "(jstr, (jstr, 'v) jsmap) jsmap"

text \<open>\<open>this.out.get(bucketId)\<close>, with the absent inner map read as the empty one.\<close>

definition room_entries :: "'v registry \<Rightarrow> jstr \<Rightarrow> (jstr, 'v) jsmap" where
  "room_entries r b = (case map_of r b of None \<Rightarrow> [] | Some m \<Rightarrow> m)"

definition reg_get :: "'v registry \<Rightarrow> jstr \<Rightarrow> jstr \<Rightarrow> 'v option" where
  "reg_get r b k = map_of (room_entries r b) k"

definition reg_put :: "jstr \<Rightarrow> jstr \<Rightarrow> 'v \<Rightarrow> 'v registry \<Rightarrow> 'v registry" where
  "reg_put b k v r = AList.update b (AList.update k v (room_entries r b)) r"

definition reg_del :: "jstr \<Rightarrow> jstr \<Rightarrow> 'v registry \<Rightarrow> 'v registry" where
  "reg_del b k r =
     (case map_of r b of
        None \<Rightarrow> r
      | Some m \<Rightarrow>
          (let m' = AList.delete k m
           in if m' = [] then AList.delete b r else AList.update b m' r))"

definition reg_drop_room :: "jstr \<Rightarrow> 'v registry \<Rightarrow> 'v registry" where
  "reg_drop_room b r = AList.delete b r"

definition reg_values :: "'v registry \<Rightarrow> jstr \<Rightarrow> 'v list" where
  "reg_values r b = map snd (room_entries r b)"

text \<open>
  A \<open>for ... of\<close> loop over one inner map, or two nested ones over the whole registry: the loop meets
  the keys in this order and passes each value that is still there when its turn comes to the body.
\<close>

definition room_keys :: "'v registry \<Rightarrow> jstr \<Rightarrow> (jstr \<times> jstr) list" where
  "room_keys r b = map (\<lambda>(k, v). (b, k)) (room_entries r b)"

definition reg_keys :: "'v registry \<Rightarrow> (jstr \<times> jstr) list" where
  "reg_keys r = concat (map (\<lambda>(b, m). map (\<lambda>(k, v). (b, k)) m) r)"

definition visit ::
    "('s \<Rightarrow> 'v registry) \<Rightarrow> ('v \<Rightarrow> 's \<Rightarrow> 's) \<Rightarrow> (jstr \<times> jstr) list \<Rightarrow> 's \<Rightarrow> 's" where
  "visit reg body keys s =
     fold (\<lambda>(b, k) s. case reg_get (reg s) b k of None \<Rightarrow> s | Some v \<Rightarrow> body v s) keys s"

text \<open>No key twice, and no empty inner map: the outer map is empty exactly when there is no entry.\<close>

definition reg_wf :: "'v registry \<Rightarrow> bool" where
  "reg_wf r \<longleftrightarrow> distinct (map fst r) \<and>
     (\<forall>b m. map_of r b = Some m \<longrightarrow> distinct (map fst m) \<and> m \<noteq> [])"

section \<open>Laws\<close>

lemma reg_wf_Nil [simp]: "reg_wf []"
  by (simp add: reg_wf_def)

lemma room_entries_Nil [simp]: "room_entries [] b = []"
  by (simp add: room_entries_def)

lemma distinct_room_entries: "reg_wf r \<Longrightarrow> distinct (map fst (room_entries r b))"
  by (auto simp: reg_wf_def room_entries_def split: option.splits)

lemma room_entries_put:
  "room_entries (reg_put b k v r) b' =
     (if b' = b then AList.update k v (room_entries r b) else room_entries r b')"
  by (simp add: room_entries_def reg_put_def update_conv')

lemma room_entries_del:
  "room_entries (reg_del b k r) b' =
     (if b' = b then AList.delete k (room_entries r b) else room_entries r b')"
  by (auto simp: room_entries_def reg_del_def Let_def update_conv' delete_conv' split: option.splits)

lemma room_entries_drop:
  "room_entries (reg_drop_room b r) b' = (if b' = b then [] else room_entries r b')"
  by (simp add: room_entries_def reg_drop_room_def delete_conv')

lemma update_not_Nil [simp]: "AList.update k v m \<noteq> []"
  by (cases m) auto

lemma reg_wfI:
  assumes "distinct (map fst r)"
    and "\<And>b m. map_of r b = Some m \<Longrightarrow> distinct (map fst m) \<and> m \<noteq> []"
  shows "reg_wf r"
  using assms unfolding reg_wf_def by blast

lemma reg_wfD: "reg_wf r \<Longrightarrow> map_of r b = Some m \<Longrightarrow> distinct (map fst m) \<and> m \<noteq> []"
  unfolding reg_wf_def by blast

lemma reg_wf_distinct: "reg_wf r \<Longrightarrow> distinct (map fst r)"
  unfolding reg_wf_def by blast

lemma reg_wf_put:
  assumes "reg_wf r"
  shows "reg_wf (reg_put b k v r)"
proof (rule reg_wfI)
  show "distinct (map fst (reg_put b k v r))"
    unfolding reg_put_def by (rule distinct_update [OF reg_wf_distinct [OF assms]])
next
  fix b' m
  assume "map_of (reg_put b k v r) b' = Some m"
  then show "distinct (map fst m) \<and> m \<noteq> []"
    using reg_wfD [OF assms, of b' m] distinct_update [OF distinct_room_entries [OF assms], of k v b]
    unfolding reg_put_def update_conv' by (auto simp del: distinct_map split: if_splits)
qed

lemma reg_wf_del:
  assumes "reg_wf r"
  shows "reg_wf (reg_del b k r)"
proof (cases "map_of r b")
  case None
  then show ?thesis using assms by (simp add: reg_del_def)
next
  case (Some m)
  have "distinct (map fst (AList.delete k m))"
    using reg_wfD [OF assms Some] by (blast intro: distinct_delete)
  moreover have "distinct (map fst (AList.delete b r))" "distinct (map fst (AList.update b m' r))" for m'
    using reg_wf_distinct [OF assms] by (blast intro: distinct_delete distinct_update)+
  ultimately show ?thesis
    using reg_wfD [OF assms] Some
    by (intro reg_wfI)
       (auto simp: reg_del_def Let_def update_conv' delete_conv' simp del: distinct_map map_of_eq_Some_iff
             split: if_splits)
qed

lemma reg_wf_drop:
  assumes "reg_wf r"
  shows "reg_wf (reg_drop_room b r)"
proof (rule reg_wfI)
  show "distinct (map fst (reg_drop_room b r))"
    unfolding reg_drop_room_def by (rule distinct_delete [OF reg_wf_distinct [OF assms]])
next
  fix b' m
  assume "map_of (reg_drop_room b r) b' = Some m"
  then show "distinct (map fst m) \<and> m \<noteq> []"
    using reg_wfD [OF assms, of b' m]
    unfolding reg_drop_room_def delete_conv' by (auto simp del: distinct_map split: if_splits)
qed

lemma reg_get_drop:
  "reg_get (reg_drop_room b r) b' k = (if b' = b then None else reg_get r b' k)"
  by (simp add: reg_get_def room_entries_drop)

text \<open>The registry is a keyed store whose keys are pairs of room id and transfer id.\<close>

interpretation registry: keyed_store
  "\<lambda>r (b, k). reg_get r b k" "\<lambda>(b, k). reg_put b k" "\<lambda>(b, k). reg_del b k" reg_wf
  by unfold_locales
    (simp_all add: reg_get_def room_entries_put room_entries_del reg_wf_put reg_wf_del update_conv'
       delete_conv' fun_eq_iff split: prod.splits)

lemma reg_get_put:
  "reg_wf r \<Longrightarrow> reg_get (reg_put b k v r) b' k' = (if b' = b \<and> k' = k then Some v else reg_get r b' k')"
  using fun_cong [OF registry.get_put [of r "(b, k)" v], of "(b', k')"] by simp

lemma reg_get_del:
  "reg_wf r \<Longrightarrow> reg_get (reg_del b k r) b' k' = (if b' = b \<and> k' = k then None else reg_get r b' k')"
  using fun_cong [OF registry.get_del [of r "(b, k)"], of "(b', k')"] by simp

lemma reg_values_iff:
  "reg_wf r \<Longrightarrow> v \<in> set (reg_values r b) \<longleftrightarrow> (\<exists>k. reg_get r b k = Some v)"
  using distinct_room_entries [of r b]
  by (force simp: reg_values_def reg_get_def image_iff dest: map_of_SomeD intro: map_of_is_SomeI)

lemma reg_get_Some_iff:
  "reg_get r b k = Some v \<longleftrightarrow> (\<exists>m. map_of r b = Some m \<and> map_of m k = Some v)"
  by (simp add: reg_get_def room_entries_def split: option.splits)

lemma visit_Nil [simp]: "visit reg body [] s = s"
  by (simp add: visit_def)

lemma visit_Cons:
  "visit reg body ((b, k) # keys) s =
     visit reg body keys (case reg_get (reg s) b k of None \<Rightarrow> s | Some v \<Rightarrow> body v s)"
  by (simp add: visit_def)

text \<open>A loop keeps whatever its body keeps.\<close>

lemma visit_inv:
  assumes "\<And>b k v s. P s \<Longrightarrow> reg_get (reg s) b k = Some v \<Longrightarrow> P (body v s)" "P s"
  shows "P (visit reg body keys s)"
  using assms(2)
proof (induction keys arbitrary: s)
  case Nil
  then show ?case by simp
next
  case (Cons bk keys)
  then show ?case
    by (cases bk) (auto simp: visit_Cons intro: assms(1) split: option.split)
qed

lemma reg_Nil_iff:
  assumes "reg_wf r"
  shows "r = [] \<longleftrightarrow> (\<forall>b k. reg_get r b k = None)"
proof
  show "r = [] \<Longrightarrow> \<forall>b k. reg_get r b k = None"
    by (simp add: reg_get_def)
  assume none: "\<forall>b k. reg_get r b k = None"
  have False if "r = (b, m) # rest" for b m rest
  proof -
    have bm: "map_of r b = Some m" using that by simp
    then obtain k v m' where "m = (k, v) # m'"
      using reg_wfD [OF assms bm] by (cases m) auto
    with bm have "reg_get r b k = Some v"
      by (simp add: reg_get_Some_iff)
    with none show False by simp
  qed
  then show "r = []" by (cases r) auto
qed

end
