(* ===== verification/TransferEngine.thy ===== *)
theory TransferEngine
  imports Complex_Main Messages Registry
begin

text \<open>
  \<open>TransferEngine\<close> of \<open>web/src/lib/relay/transfer.ts\<close>: reliable image and file transfer over the
  lossy relay. The engine's fields \<open>out\<close>, \<open>inc\<close> and \<open>timer\<close> are the record \<open>engine\<close>; every method
  is a function from engine to engine.

  An \<open>async\<close> method runs synchronously to its first \<open>await\<close>; what follows is a separate event. The
  local variables that live across an \<open>await\<close> are kept in the state: the chunk index \<open>pump\<close> is
  sending (\<open>o_awaiting\<close>), the bytes \<open>complete\<close> is hashing (\<open>i_stage\<close>) and the transfers whose
  \<open>deliver\<close> call has not settled (\<open>e_delivering\<close>). The code compares transfers by object identity
  (\<open>isLiveOut\<close>, \<open>isLiveIn\<close>), so each object carries a fresh number. Calls on \<open>TransferDeps\<close> with an
  effect outside the engine are appended to \<open>e_log\<close>; the clock and the answers of \<open>canSend\<close> and
  \<open>hasMessage\<close> come with each event.
\<close>

section \<open>Types\<close>

datatype transfer_status = Active | Waiting | Failed

text \<open>
  The text shown for a failed transfer. \<open>CANCEL_DETAIL[reason]\<close> is a plain property read: for the name
  of an inherited property of \<open>Object.prototype\<close> it yields that property, not a text.
\<close>

datatype detail = Detail jstr | InheritedProperty jstr

datatype direction = Send | Recv

record transfer =
  t_id :: jstr
  t_direction :: direction
  t_kind :: transfer_kind
  t_progress :: rat
  t_status :: transfer_status
  t_detail :: "detail option"
  t_mime :: jstr
  t_name :: "jstr option"
  t_size :: nat
  t_w :: "jsnum option"
  t_h :: "jsnum option"
  t_from :: side
  t_replyTo :: "reply_ref option"
  t_ts :: jsnum

record outgoing_payload =
  p_id :: jstr
  p_kind :: transfer_kind
  p_ts :: jsnum
  p_mime :: jstr
  p_data :: bytes
  p_name :: "jstr option"
  p_w :: "jsnum option"
  p_h :: "jsnum option"
  p_replyTo :: "reply_ref option"

record transfer_limits =
  l_window :: nat
  l_ackEvery :: nat
  l_stallMs :: nat
  l_maxAttempts :: nat
  l_maxIncomingPerRoom :: nat
  l_maxIncomingBytesPerRoom :: nat
  l_maxOutgoingPerRoom :: nat
  l_failedTtlMs :: nat
  l_tickMs :: nat

definition DEFAULT_TRANSFER_LIMITS :: transfer_limits where
  "DEFAULT_TRANSFER_LIMITS =
     \<lparr> l_window = 12, l_ackEvery = 4, l_stallMs = 5000, l_maxAttempts = 6,
       l_maxIncomingPerRoom = 3, l_maxIncomingBytesPerRoom = 30 * 1024 * 1024,
       l_maxOutgoingPerRoom = 3, l_failedTtlMs = 10 * 60000, l_tickMs = 1000 \<rparr>"

record outgoing =
  o_oid :: nat
  o_bucketId :: jstr
  o_id :: jstr
  o_header :: transfer_header
  o_data :: bytes
  o_total :: nat
  o_acked :: "nat list"
  o_queue :: "nat list"
  o_inFlight :: "(nat, int) jsmap"
  o_status :: transfer_status
  o_detail :: "detail option"
  o_attempts :: nat
  o_lastActivityAt :: int
  o_pumping :: bool
  o_awaiting :: "nat option"

text \<open>
  Where \<open>complete\<close> stands: not running, waiting for the digest of the bytes it has placed, waiting for
  \<open>deliver\<close>, or ended by an exception with \<open>completing\<close> still set.
\<close>

datatype stage = Receiving | Hashing bytes | Delivering | Stuck

record incoming =
  i_oid :: nat
  i_bucketId :: jstr
  i_id :: jstr
  i_header :: transfer_header
  i_total :: nat
  i_parts :: "bytes option list"
  i_received :: nat
  i_status :: transfer_status
  i_detail :: "detail option"
  i_attempts :: nat
  i_lastActivityAt :: int
  i_sinceAck :: nat
  i_completing :: bool
  i_stage :: stage

datatype effect =
    Sent jstr plain_message
  | Published jstr "transfer list"
  | Persisted jstr "jstr list"
  | OnDelivered jstr jstr
  | StorageAsked jstr jstr nat nat
  | DeliverAsked jstr stored_message

record engine =
  e_out :: "outgoing registry"
  e_inc :: "incoming registry"
  e_timer :: bool
  e_limits :: transfer_limits
  e_next :: nat
  e_delivering :: "incoming list"
  e_log :: "effect list"

record env =
  v_now :: int
  v_canSend :: "jstr \<Rightarrow> bool"
  v_hasMessage :: "jstr \<Rightarrow> jstr \<Rightarrow> bool"
  v_hasStorageFor :: bool

definition new_engine :: "transfer_limits \<Rightarrow> engine" where
  "new_engine lm =
     \<lparr> e_out = [], e_inc = [], e_timer = False, e_limits = lm, e_next = 0, e_delivering = [],
       e_log = [] \<rparr>"

section \<open>Helpers of the module\<close>

definition inherited_names :: "string list" where
  "inherited_names =
     [''constructor'', ''__defineGetter__'', ''__defineSetter__'', ''hasOwnProperty'',
      ''__lookupGetter__'', ''__lookupSetter__'', ''isPrototypeOf'', ''propertyIsEnumerable'',
      ''toString'', ''valueOf'', ''__proto__'', ''toLocaleString'']"

definition cancel_detail :: "jstr option \<Rightarrow> detail" where
  "cancel_detail reason =
     (let r = (case reason of Some r \<Rightarrow> r | None \<Rightarrow> [])
      in if r = js ''busy'' then Detail (js ''Partner is busy '' @ [0x2014] @ js '' retry later'')
         else if r = js ''storage'' then Detail (js ''Partner is out of storage'')
         else if r = js ''corrupt'' then Detail (js ''File arrived corrupted'')
         else if r = js ''unavailable'' then Detail (js ''Sender no longer has this file'')
         else if r \<in> set (map js inherited_names) then InheritedProperty r
         else Detail (js ''Partner cancelled the transfer''))"

definition range_n :: "nat \<Rightarrow> nat list" where
  "range_n n = [0..<n]"

definition sameHeader :: "transfer_header \<Rightarrow> transfer_header \<Rightarrow> bool" where
  "sameHeader a b \<longleftrightarrow>
     th_kind a = th_kind b \<and> th_size a = th_size b \<and> th_sha256 a = th_sha256 b \<and>
     th_mime a = th_mime b \<and> num_eq (th_ts a) (th_ts b)"

definition matchesImageMime :: "jstr \<Rightarrow> bytes \<Rightarrow> bool" where
  "matchesImageMime mime b =
     (if mime = js ''image/jpeg'' then
        3 \<le> length b \<and> b ! 0 = 0xff \<and> b ! 1 = 0xd8 \<and> b ! 2 = 0xff
      else if mime = js ''image/png'' then
        8 \<le> length b \<and> b ! 0 = 0x89 \<and> b ! 1 = 0x50 \<and> b ! 2 = 0x4e \<and> b ! 3 = 0x47
      else if mime = js ''image/gif'' then
        4 \<le> length b \<and> b ! 0 = 0x47 \<and> b ! 1 = 0x49 \<and> b ! 2 = 0x46 \<and> b ! 3 = 0x38
      else if mime = js ''image/webp'' then
        12 \<le> length b \<and> b ! 0 = 0x52 \<and> b ! 1 = 0x49 \<and> b ! 2 = 0x46 \<and> b ! 3 = 0x46 \<and>
        b ! 8 = 0x57 \<and> b ! 9 = 0x45 \<and> b ! 10 = 0x42 \<and> b ! 11 = 0x50
      else False)"

section \<open>The engine's view, log and timer\<close>

definition emit :: "effect \<Rightarrow> engine \<Rightarrow> engine" where
  "emit x e = e\<lparr>e_log := e_log e @ [x]\<rparr>"

definition progress_of :: "nat \<Rightarrow> int \<Rightarrow> nat \<Rightarrow> nat \<Rightarrow> rat" where
  "progress_of sz bytes count tot =
     (if 0 < sz then min 1 (of_int bytes / of_nat sz) else if tot \<le> count then 1 else 0)"

definition view ::
    "jstr \<Rightarrow> direction \<Rightarrow> transfer_header \<Rightarrow> transfer_status \<Rightarrow> detail option
     \<Rightarrow> int \<Rightarrow> nat \<Rightarrow> nat \<Rightarrow> transfer" where
  "view xid direction h status detail bytes count tot =
     \<lparr> t_id = xid, t_direction = direction, t_kind = th_kind h,
       t_progress = progress_of (th_size h) bytes count tot,
       t_status = status,
       t_detail = (if detail = Some (Detail []) then None else detail),
       t_mime = th_mime h, t_name = th_name h, t_size = th_size h, t_w = th_w h, t_h = th_h h,
       t_from = (if direction = Send then Self else Peer),
       t_replyTo = th_replyTo h, t_ts = th_ts h \<rparr>"

definition acked_bytes :: "outgoing \<Rightarrow> int" where
  "acked_bytes x =
     sum_list (map (\<lambda>k. min (int TRANSFER_CHUNK_BYTES)
       (int (th_size (o_header x)) - int k * int TRANSFER_CHUNK_BYTES)) (o_acked x))"

fun part_bytes :: "bytes option list \<Rightarrow> nat" where
  "part_bytes [] = 0"
| "part_bytes (None # ps) = part_bytes ps"
| "part_bytes (Some p # ps) = length p + part_bytes ps"

definition list_transfers :: "engine \<Rightarrow> jstr \<Rightarrow> transfer list" where
  "list_transfers e b =
     map (\<lambda>x. view (o_id x) Send (o_header x) (o_status x) (o_detail x) (acked_bytes x)
                (length (o_acked x)) (o_total x)) (reg_values (e_out e) b)
     @ map (\<lambda>i. view (i_id i) Recv (i_header i) (i_status i) (i_detail i)
                (int (part_bytes (i_parts i))) (i_received i) (i_total i)) (reg_values (e_inc e) b)"

definition outgoingCount :: "engine \<Rightarrow> jstr \<Rightarrow> nat" where
  "outgoingCount e b = length (room_entries (e_out e) b)"

definition canStartSend :: "engine \<Rightarrow> jstr \<Rightarrow> bool" where
  "canStartSend e b \<longleftrightarrow> outgoingCount e b < l_maxOutgoingPerRoom (e_limits e)"

definition publish :: "jstr \<Rightarrow> engine \<Rightarrow> engine" where
  "publish b e = emit (Published b (list_transfers e b)) e"

definition persist :: "jstr \<Rightarrow> engine \<Rightarrow> engine" where
  "persist b e = emit (Persisted b (map fst (room_entries (e_out e) b))) e"

definition ensureTimer :: "engine \<Rightarrow> engine" where
  "ensureTimer e = e\<lparr>e_timer := True\<rparr>"

definition stopTimerIfIdle :: "engine \<Rightarrow> engine" where
  "stopTimerIfIdle e =
     (if e_timer e \<and> e_out e = [] \<and> e_inc e = [] then e\<lparr>e_timer := False\<rparr> else e)"

definition backoff :: "transfer_limits \<Rightarrow> nat \<Rightarrow> int" where
  "backoff lm attempts = int (l_stallMs lm) * min (2 ^ attempts) 6"

definition live_out :: "jstr \<Rightarrow> jstr \<Rightarrow> nat \<Rightarrow> engine \<Rightarrow> outgoing option" where
  "live_out b xid oid e =
     (case reg_get (e_out e) b xid of
        Some x \<Rightarrow> if o_oid x = oid then Some x else None
      | None \<Rightarrow> None)"

definition live_in :: "jstr \<Rightarrow> jstr \<Rightarrow> nat \<Rightarrow> engine \<Rightarrow> incoming option" where
  "live_in b xid oid e =
     (case reg_get (e_inc e) b xid of
        Some i \<Rightarrow> if i_oid i = oid then Some i else None
      | None \<Rightarrow> None)"

text \<open>A field of a live object has been assigned: the registry holds the changed object.\<close>

definition upd_out :: "outgoing \<Rightarrow> engine \<Rightarrow> engine" where
  "upd_out x e = e\<lparr>e_out := reg_put (o_bucketId x) (o_id x) x (e_out e)\<rparr>"

definition upd_in :: "incoming \<Rightarrow> engine \<Rightarrow> engine" where
  "upd_in i e = e\<lparr>e_inc := reg_put (i_bucketId i) (i_id i) i (e_inc e)\<rparr>"

definition deleteOut :: "outgoing \<Rightarrow> engine \<Rightarrow> engine" where
  "deleteOut x e =
     stopTimerIfIdle (persist (o_bucketId x)
       (e\<lparr>e_out := reg_del (o_bucketId x) (o_id x) (e_out e)\<rparr>))"

definition deleteIn :: "incoming \<Rightarrow> engine \<Rightarrow> engine" where
  "deleteIn i e =
     stopTimerIfIdle (e\<lparr>e_inc := reg_del (i_bucketId i) (i_id i) (e_inc e)\<rparr>)"

definition sendCtl :: "jstr \<Rightarrow> plain_message \<Rightarrow> engine \<Rightarrow> engine" where
  "sendCtl b msg e = emit (Sent b msg) e"

definition have_indices :: "bytes option list \<Rightarrow> nat list" where
  "have_indices parts = filter (\<lambda>k. parts ! k \<noteq> None) [0..<length parts]"

definition sendAck :: "env \<Rightarrow> incoming \<Rightarrow> bool \<Rightarrow> bool \<Rightarrow> engine \<Rightarrow> engine" where
  "sendAck v i resend done e =
     sendCtl (i_bucketId i)
       (TransferAck \<lparr> ta_ts = NumI (v_now v), ta_id = i_id i, ta_have = have_indices (i_parts i),
                      ta_resend = resend, ta_done = done \<rparr>) e"

definition sendCancel :: "env \<Rightarrow> jstr \<Rightarrow> jstr \<Rightarrow> string \<Rightarrow> engine \<Rightarrow> engine" where
  "sendCancel v b xid reason e =
     sendCtl b (TransferCancel (NumI (v_now v)) xid (Some (js reason))) e"

definition query :: "env \<Rightarrow> outgoing \<Rightarrow> engine \<Rightarrow> outgoing \<times> engine" where
  "query v x e =
     (let x1 = x\<lparr>o_lastActivityAt := v_now v\<rparr>
      in if \<not> v_canSend v (o_bucketId x1) then (x1\<lparr>o_status := Waiting\<rparr>, e)
         else (x1, sendCtl (o_bucketId x1) (TransferQuery (NumI (v_now v)) (o_id x1)) e))"

section \<open>Sender\<close>

definition chunk :: "outgoing \<Rightarrow> nat \<Rightarrow> transfer_chunk" where
  "chunk x index =
     (let start = index * TRANSFER_CHUNK_BYTES;
          stop = min (start + TRANSFER_CHUNK_BYTES) (th_size (o_header x))
      in \<lparr> tc_id = o_id x, tc_index = index, tc_total = o_total x, tc_header = o_header x,
           tc_data = take (stop - start) (drop start (o_data x)) \<rparr>)"

text \<open>
  The loop of \<open>pump\<close> up to its next \<open>await\<close>. An index that is already acknowledged or in flight is
  skipped; otherwise the loop stops because there is nothing to do or nothing can be sent, or it calls
  \<open>send\<close> for the index it has taken off the queue.
\<close>

datatype pump_outcome = PumpDone outgoing | PumpSend nat outgoing

function pump_scan :: "nat \<Rightarrow> bool \<Rightarrow> outgoing \<Rightarrow> pump_outcome" where
  "pump_scan window can x =
     (if o_status x = Active \<and> o_queue x \<noteq> [] \<and> length (o_inFlight x) < window then
        (let index = hd (o_queue x); x1 = x\<lparr>o_queue := tl (o_queue x)\<rparr>
         in if index \<in> set (o_acked x) \<or> index \<in> fst ` set (o_inFlight x) then
              pump_scan window can x1
            else if \<not> can then PumpDone (x1\<lparr>o_queue := index # o_queue x1, o_status := Waiting\<rparr>)
            else PumpSend index x1)
      else PumpDone x)"
  by pat_completeness auto
termination
  by (relation "measure (\<lambda>(window, can, x). length (o_queue x))") (auto simp: neq_Nil_conv)

declare pump_scan.simps [simp del]

definition pump_loop :: "env \<Rightarrow> outgoing \<Rightarrow> engine \<Rightarrow> engine" where
  "pump_loop v x e =
     (case pump_scan (l_window (e_limits e)) (v_canSend v (o_bucketId x)) x of
        PumpDone x1 \<Rightarrow>
          publish (o_bucketId x) (upd_out (x1\<lparr>o_pumping := False, o_awaiting := None\<rparr>) e)
      | PumpSend index x1 \<Rightarrow>
          emit (Sent (o_bucketId x) (TransferChunk (chunk x1 index)))
            (upd_out (x1\<lparr>o_awaiting := Some index\<rparr>) e))"

definition pump :: "env \<Rightarrow> outgoing \<Rightarrow> engine \<Rightarrow> engine" where
  "pump v x e = (if o_pumping x then e else pump_loop v (x\<lparr>o_pumping := True\<rparr>) e)"

text \<open>The continuation of \<open>pump\<close>: its call of \<open>send\<close> has settled with \<open>ok\<close> (a rejection counts as false).\<close>

definition pump_resume :: "env \<Rightarrow> jstr \<Rightarrow> jstr \<Rightarrow> nat \<Rightarrow> bool \<Rightarrow> engine \<Rightarrow> engine" where
  "pump_resume v b xid oid ok e =
     (case live_out b xid oid e of
        None \<Rightarrow> e
      | Some x \<Rightarrow>
          (case o_awaiting x of
             None \<Rightarrow> e
           | Some index \<Rightarrow>
               if \<not> ok then
                 publish b (upd_out (x\<lparr>o_queue := index # o_queue x, o_status := Waiting,
                                       o_pumping := False, o_awaiting := None\<rparr>) e)
               else
                 (let x1 = x\<lparr>o_lastActivityAt := v_now v, o_awaiting := None\<rparr>;
                      x2 = (if index \<in> set (o_acked x1) then x1
                            else x1\<lparr>o_inFlight := AList.update index (v_now v) (o_inFlight x1)\<rparr>)
                  in pump_loop v x2 e)))"

text \<open>\<open>startSend\<close> before its \<open>await\<close>: throw, return, or go on to hash the payload.\<close>

definition startSend_check :: "jstr \<Rightarrow> outgoing_payload \<Rightarrow> engine \<Rightarrow> bool result" where
  "startSend_check b p e =
     (if MAX_TRANSFER_BYTES < length (p_data p) then Inl (Error ''File too large (max 10 MB)'')
      else Inr (reg_get (e_out e) b (p_id p) = None))"

definition payload_header :: "(bytes \<Rightarrow> jstr) \<Rightarrow> outgoing_payload \<Rightarrow> transfer_header" where
  "payload_header sha p =
     \<lparr> th_kind = p_kind p, th_ts = p_ts p, th_mime = p_mime p, th_size = length (p_data p),
       th_sha256 = sha (p_data p), th_name = p_name p, th_w = p_w p, th_h = p_h p,
       th_replyTo = p_replyTo p \<rparr>"

definition new_outgoing ::
    "(bytes \<Rightarrow> jstr) \<Rightarrow> env \<Rightarrow> jstr \<Rightarrow> outgoing_payload \<Rightarrow> bool \<Rightarrow> nat \<Rightarrow> outgoing" where
  "new_outgoing sha v b p resume oid =
     (let header = payload_header sha p; tot = transferChunkCount (th_size header)
      in \<lparr> o_oid = oid, o_bucketId = b, o_id = p_id p, o_header = header, o_data = p_data p,
           o_total = tot, o_acked = [], o_queue = (if resume then [] else range_n tot),
           o_inFlight = [], o_status = Active, o_detail = None, o_attempts = 0,
           o_lastActivityAt = v_now v, o_pumping = False, o_awaiting = None \<rparr>)"

text \<open>The rest of \<open>startSend\<close>, once the digest is there.\<close>

definition startSend_hashed ::
    "(bytes \<Rightarrow> jstr) \<Rightarrow> env \<Rightarrow> jstr \<Rightarrow> outgoing_payload \<Rightarrow> bool \<Rightarrow> engine \<Rightarrow> engine" where
  "startSend_hashed sha v b p resume e =
     (let x = new_outgoing sha v b p resume (e_next e);
          e1 = ensureTimer (persist b (upd_out x (e\<lparr>e_next := Suc (e_next e)\<rparr>)));
          e2 = (if resume then (let (x1, e') = query v x e1 in upd_out x1 e') else pump v x e1)
      in publish b e2)"

definition apply_have :: "nat list \<Rightarrow> outgoing \<Rightarrow> outgoing" where
  "apply_have have x =
     fold (\<lambda>k y. if o_total y \<le> k then y
                 else y\<lparr>o_acked := set_add k (o_acked y), o_inFlight := AList.delete k (o_inFlight y)\<rparr>)
       have x"

text \<open>The \<open>resend\<close> branch of \<open>handleAck\<close>: forget what was sent long ago, queue everything missing.\<close>

definition requeue :: "int \<Rightarrow> nat \<Rightarrow> outgoing \<Rightarrow> outgoing" where
  "requeue now stallMs x =
     (let fresh = filter (\<lambda>(k, sentAt). \<not> int stallMs \<le> now - sentAt) (o_inFlight x)
      in x\<lparr>o_inFlight := fresh,
           o_queue := filter (\<lambda>k. k \<notin> set (o_acked x) \<and> k \<notin> fst ` set fresh) (range_n (o_total x)),
           o_status := Active, o_detail := None\<rparr>)"

definition ack_update :: "env \<Rightarrow> nat \<Rightarrow> transfer_ack \<Rightarrow> outgoing \<Rightarrow> outgoing" where
  "ack_update v stallMs ack x =
     (let before = length (o_acked x);
          x1 = apply_have (ta_have ack) x;
          x2 = (if before < length (o_acked x1) then x1\<lparr>o_attempts := 0\<rparr> else x1);
          x3 = x2\<lparr>o_lastActivityAt := v_now v\<rparr>
      in if ta_resend ack then requeue (v_now v) stallMs x3 else x3)"

definition handleAck :: "env \<Rightarrow> jstr \<Rightarrow> transfer_ack \<Rightarrow> engine \<Rightarrow> engine" where
  "handleAck v b ack e =
     (case reg_get (e_out e) b (ta_id ack) of
        None \<Rightarrow> if ta_resend ack \<and> \<not> ta_done ack then sendCancel v b (ta_id ack) ''unavailable'' e else e
      | Some x \<Rightarrow>
          if ta_done ack then emit (OnDelivered b (o_id x)) (publish b (deleteOut x e))
          else (let x1 = ack_update v (l_stallMs (e_limits e)) ack x
                in pump v x1 (publish b (upd_out x1 e))))"

definition handleCancel :: "jstr \<Rightarrow> jstr \<Rightarrow> jstr option \<Rightarrow> engine \<Rightarrow> engine" where
  "handleCancel b xid reason e =
     (let found_out = reg_get (e_out e) b xid;
          e1 = (case found_out of
                  None \<Rightarrow> e
                | Some x \<Rightarrow> upd_out (x\<lparr>o_status := Failed, o_detail := Some (cancel_detail reason),
                                     o_inFlight := [], o_queue := []\<rparr>) e);
          found_in = reg_get (e_inc e1) b xid;
          e2 = (case found_in of None \<Rightarrow> e1 | Some i \<Rightarrow> deleteIn i e1)
      in if found_out \<noteq> None \<or> found_in \<noteq> None then publish b e2 else e2)"

section \<open>Receiver\<close>

definition handleQuery :: "env \<Rightarrow> jstr \<Rightarrow> jstr \<Rightarrow> engine \<Rightarrow> engine" where
  "handleQuery v b xid e =
     (case reg_get (e_inc e) b xid of
        Some i \<Rightarrow>
          if i_completing i then e
          else (let i1 = i\<lparr>i_attempts := 0, i_status := Active, i_detail := None,
                           i_lastActivityAt := v_now v\<rparr>
                in publish b (sendAck v i1 True False (upd_in i1 e)))
      | None \<Rightarrow>
          (let known = v_hasMessage v b xid
           in sendCtl b (TransferAck \<lparr> ta_ts = NumI (v_now v), ta_id = xid, ta_have = [],
                                      ta_resend = \<not> known, ta_done = known \<rparr>) e))"

text \<open>\<open>parts[k] = p\<close>: JavaScript extends the array when \<open>k\<close> is beyond its end.\<close>

definition set_part :: "nat \<Rightarrow> bytes \<Rightarrow> bytes option list \<Rightarrow> bytes option list" where
  "set_part k p ps =
     (if k < length ps then ps[k := Some p] else ps @ replicate (k - length ps) None @ [Some p])"

definition part_present :: "nat \<Rightarrow> bytes option list \<Rightarrow> bool" where
  "part_present k ps \<longleftrightarrow> k < length ps \<and> ps ! k \<noteq> None"

text \<open>
  The loop of \<open>complete\<close> that copies the parts into a zeroed buffer of \<open>sz\<close> bytes: it returns when a
  part is missing, and \<open>data.set\<close> throws when a part does not fit.
\<close>

datatype placement = Missing | Overflow | Placed bytes

fun place_parts :: "nat \<Rightarrow> bytes option list \<Rightarrow> bytes \<Rightarrow> placement" where
  "place_parts sz [] acc = Placed acc"
| "place_parts sz (None # ps) acc = Missing"
| "place_parts sz (Some p # ps) acc =
     (if sz < length acc + length p then Overflow else place_parts sz ps (acc @ p))"

definition complete :: "incoming \<Rightarrow> engine \<Rightarrow> engine" where
  "complete i e =
     (case place_parts (th_size (i_header i)) (i_parts i) [] of
        Missing \<Rightarrow> upd_in (i\<lparr>i_completing := False\<rparr>) e
      | Overflow \<Rightarrow> upd_in (i\<lparr>i_completing := True, i_stage := Stuck\<rparr>) e
      | Placed acc \<Rightarrow> upd_in (i\<lparr>i_completing := True, i_stage := Hashing acc\<rparr>) e)"

definition new_incoming :: "env \<Rightarrow> jstr \<Rightarrow> transfer_chunk \<Rightarrow> nat \<Rightarrow> incoming" where
  "new_incoming v b c oid =
     \<lparr> i_oid = oid, i_bucketId = b, i_id = tc_id c, i_header = tc_header c, i_total = tc_total c,
       i_parts = replicate (tc_total c) None, i_received = 0, i_status = Active, i_detail = None,
       i_attempts = 0, i_lastActivityAt = v_now v, i_sinceAck = 0, i_completing = False,
       i_stage = Receiving \<rparr>"

text \<open>\<open>handleChunk\<close> from the point where the transfer is known.\<close>

definition store_chunk :: "env \<Rightarrow> incoming \<Rightarrow> transfer_chunk \<Rightarrow> engine \<Rightarrow> engine" where
  "store_chunk v i c e =
     (if i_completing i \<or> part_present (tc_index c) (i_parts i) then e
      else
        (let i1 = i\<lparr>i_parts := set_part (tc_index c) (tc_data c) (i_parts i),
                    i_received := Suc (i_received i), i_sinceAck := Suc (i_sinceAck i),
                    i_attempts := 0, i_status := Active, i_detail := None,
                    i_lastActivityAt := v_now v\<rparr>
         in if i_received i1 = i_total i1 then complete i1 e
            else if l_ackEvery (e_limits e) \<le> i_sinceAck i1 then
              (let i2 = i1\<lparr>i_sinceAck := 0\<rparr>
               in publish (i_bucketId i) (sendAck v i2 False False (upd_in i2 e)))
            else publish (i_bucketId i) (upd_in i1 e)))"

definition pending_bytes :: "engine \<Rightarrow> jstr \<Rightarrow> nat" where
  "pending_bytes e b = sum_list (map (\<lambda>i. th_size (i_header i)) (reg_values (e_inc e) b))"

definition handleChunk :: "env \<Rightarrow> jstr \<Rightarrow> transfer_chunk \<Rightarrow> engine \<Rightarrow> engine" where
  "handleChunk v b c e =
     (case reg_get (e_inc e) b (tc_id c) of
        None \<Rightarrow>
          if reg_get (e_out e) b (tc_id c) \<noteq> None then e
          else if v_hasMessage v b (tc_id c) then
            sendCtl b (TransferAck \<lparr> ta_ts = NumI (v_now v), ta_id = tc_id c, ta_have = [],
                                     ta_resend = False, ta_done = True \<rparr>) e
          else if l_maxIncomingPerRoom (e_limits e) \<le> length (reg_values (e_inc e) b)
               \<or> l_maxIncomingBytesPerRoom (e_limits e) < pending_bytes e b + th_size (tc_header c)
          then sendCancel v b (tc_id c) ''busy'' e
          else
            (let i = new_incoming v b c (e_next e);
                 e1 = ensureTimer (upd_in i (e\<lparr>e_next := Suc (e_next e)\<rparr>));
                 e2 = (if v_hasStorageFor v
                       then emit (StorageAsked b (i_id i) (i_oid i) (th_size (tc_header c))) e1
                       else e1)
             in store_chunk v i c e2)
      | Some i \<Rightarrow>
          if \<not> sameHeader (i_header i) (tc_header c) \<or> i_total i \<noteq> tc_total c then e
          else store_chunk v i c e)"

text \<open>The promise of \<open>hasStorageFor\<close> has settled.\<close>

definition storage_answer :: "env \<Rightarrow> jstr \<Rightarrow> jstr \<Rightarrow> nat \<Rightarrow> bool \<Rightarrow> engine \<Rightarrow> engine" where
  "storage_answer v b xid oid ok e =
     (case live_in b xid oid e of
        None \<Rightarrow> e
      | Some i \<Rightarrow>
          if ok then e else publish b (sendCancel v b (i_id i) ''storage'' (deleteIn i e)))"

definition toStored :: "incoming \<Rightarrow> bytes \<Rightarrow> stored_message" where
  "toStored i data =
     (let h = i_header i;
          isImage = (th_kind h = KindImage);
          as_image = (if isImage \<and> matchesImageMime (th_mime h) data
                      then imageMimeOf (th_mime h) else None)
      in \<lparr> sm_id = i_id i, sm_from = Peer,
           sm_content =
             (case as_image of
                Some mime \<Rightarrow>
                  Image \<lparr> im_ts = th_ts h, im_mime = mime, im_data = data, im_w = th_w h,
                          im_h = th_h h, im_replyTo = th_replyTo h \<rparr>
              | None \<Rightarrow>
                  File \<lparr> fl_ts = th_ts h,
                         fl_name = (if isImage then js ''attachment''
                                    else case th_name h of None \<Rightarrow> js ''file'' | Some n \<Rightarrow> n),
                         fl_mime = (if isImage then js ''application/octet-stream'' else th_mime h),
                         fl_data = data, fl_replyTo = th_replyTo h \<rparr>) \<rparr>)"

text \<open>\<open>complete\<close> after its first \<open>await\<close>: the digest of the buffer is known.\<close>

definition complete_hashed ::
    "(bytes \<Rightarrow> jstr) \<Rightarrow> env \<Rightarrow> jstr \<Rightarrow> jstr \<Rightarrow> nat \<Rightarrow> engine \<Rightarrow> engine" where
  "complete_hashed sha v b xid oid e =
     (case live_in b xid oid e of
        None \<Rightarrow> e
      | Some i \<Rightarrow>
          (case i_stage i of
             Hashing acc \<Rightarrow>
               (let sz = th_size (i_header i); data = acc @ replicate (sz - length acc) 0
                in if length acc \<noteq> sz \<or> sha data \<noteq> th_sha256 (i_header i) then
                     (let i1 = i\<lparr>i_attempts := Suc (i_attempts i),
                                 i_parts := map (\<lambda>_. None) (i_parts i), i_received := 0,
                                 i_sinceAck := 0, i_completing := False, i_stage := Receiving\<rparr>
                      in if 2 < i_attempts i1 then
                           publish b (sendCancel v b xid ''corrupt'' (deleteIn i1 e))
                         else
                           (let i2 = i1\<lparr>i_lastActivityAt := v_now v\<rparr>
                            in publish b (sendAck v i2 True False (upd_in i2 e))))
                   else
                     (let i1 = i\<lparr>i_stage := Delivering\<rparr>; e1 = upd_in i1 e
                      in emit (DeliverAsked b (toStored i data))
                           (e1\<lparr>e_delivering := e_delivering e1 @ [i1]\<rparr>)))
           | _ \<Rightarrow> e))"

text \<open>
  \<open>complete\<close> after its second \<open>await\<close>. There is no liveness check here: on success \<open>deleteIn\<close> removes
  whatever transfer has the id by now; on failure only the object itself is reset.
\<close>

definition deliver_settled :: "env \<Rightarrow> nat \<Rightarrow> bool \<Rightarrow> engine \<Rightarrow> engine" where
  "deliver_settled v oid ok e =
     (case find (\<lambda>i. i_oid i = oid) (e_delivering e) of
        None \<Rightarrow> e
      | Some i \<Rightarrow>
          (let b = i_bucketId i;
               e1 = e\<lparr>e_delivering := filter (\<lambda>j. i_oid j \<noteq> oid) (e_delivering e)\<rparr>
           in if ok then publish b (sendAck v i False True (deleteIn i e1))
              else
                publish b
                  (case live_in b (i_id i) oid e1 of
                     None \<Rightarrow> e1
                   | Some j \<Rightarrow>
                       upd_in (j\<lparr>i_parts := map (\<lambda>_. None) (i_parts j), i_received := 0,
                                 i_completing := False, i_status := Failed,
                                 i_detail := Some (Detail (js ''Could not save '' @ [0x2014]
                                                           @ js '' storage may be full'')),
                                 i_lastActivityAt := v_now v, i_stage := Receiving\<rparr>) e1)))"

section \<open>Lifecycle\<close>

definition reset_in :: "env \<Rightarrow> incoming \<Rightarrow> incoming" where
  "reset_in v i = i\<lparr>i_attempts := 0, i_status := Active, i_detail := None, i_lastActivityAt := v_now v\<rparr>"

definition reset_out :: "outgoing \<Rightarrow> outgoing" where
  "reset_out x = x\<lparr>o_attempts := 0, o_status := Active, o_detail := None, o_inFlight := []\<rparr>"

definition requery :: "env \<Rightarrow> outgoing \<Rightarrow> engine \<Rightarrow> engine" where
  "requery v x e = (let (x1, e1) = query v (reset_out x) e in upd_out x1 e1)"

definition reask :: "env \<Rightarrow> incoming \<Rightarrow> engine \<Rightarrow> engine" where
  "reask v i e =
     (if i_completing i then e
      else (let i1 = reset_in v i; e1 = upd_in i1 e
            in if v_canSend v (i_bucketId i) then sendAck v i1 True False e1 else e1))"

definition onConnected :: "env \<Rightarrow> jstr \<Rightarrow> engine \<Rightarrow> engine" where
  "onConnected v b e =
     (let e1 = visit e_out (requery v) (room_keys (e_out e) b) e;
          e2 = visit e_inc (reask v) (room_keys (e_inc e1) b) e1
      in publish b e2)"

definition pause_out :: "outgoing \<Rightarrow> engine \<Rightarrow> engine" where
  "pause_out x e =
     (if o_status x = Failed then e else upd_out (x\<lparr>o_inFlight := [], o_status := Waiting\<rparr>) e)"

definition pause_in :: "incoming \<Rightarrow> engine \<Rightarrow> engine" where
  "pause_in i e = (if i_status i = Failed then e else upd_in (i\<lparr>i_status := Waiting\<rparr>) e)"

definition onDisconnected :: "jstr \<Rightarrow> engine \<Rightarrow> engine" where
  "onDisconnected b e =
     (let e1 = visit e_out pause_out (room_keys (e_out e) b) e;
          e2 = visit e_inc pause_in (room_keys (e_inc e1) b) e1
      in publish b e2)"

definition retry :: "env \<Rightarrow> jstr \<Rightarrow> jstr \<Rightarrow> engine \<Rightarrow> engine" where
  "retry v b xid e =
     (let e1 = (case reg_get (e_out e) b xid of None \<Rightarrow> e | Some x \<Rightarrow> requery v x e);
          e2 = (case reg_get (e_inc e1) b xid of
                  None \<Rightarrow> e1
                | Some i \<Rightarrow>
                    if i_completing i then e1
                    else (let i1 = reset_in v i in sendAck v i1 True False (upd_in i1 e1)))
      in publish b (ensureTimer e2))"

definition drop_both :: "outgoing option \<Rightarrow> incoming option \<Rightarrow> engine \<Rightarrow> engine" where
  "drop_both xo io e =
     (let e1 = (case xo of None \<Rightarrow> e | Some x \<Rightarrow> deleteOut x e)
      in case io of None \<Rightarrow> e1 | Some i \<Rightarrow> deleteIn i e1)"

definition cancel :: "env \<Rightarrow> jstr \<Rightarrow> jstr \<Rightarrow> engine \<Rightarrow> engine" where
  "cancel v b xid e =
     (let xo = reg_get (e_out e) b xid; io = reg_get (e_inc e) b xid; e1 = drop_both xo io e
      in if xo \<noteq> None \<or> io \<noteq> None then publish b (sendCancel v b xid ''cancelled'' e1) else e1)"

definition forget :: "jstr \<Rightarrow> jstr \<Rightarrow> engine \<Rightarrow> engine" where
  "forget b xid e =
     (let xo = reg_get (e_out e) b xid; io = reg_get (e_inc e) b xid; e1 = drop_both xo io e
      in if xo \<noteq> None \<or> io \<noteq> None then publish b e1 else e1)"

definition clearBucket :: "jstr \<Rightarrow> bool \<Rightarrow> engine \<Rightarrow> engine" where
  "clearBucket b forgetPending e =
     (let e1 = e\<lparr>e_out := reg_drop_room b (e_out e), e_inc := reg_drop_room b (e_inc e)\<rparr>;
          e2 = (if forgetPending then emit (Persisted b []) e1 else e1)
      in emit (Published b []) (stopTimerIfIdle e2))"

definition clearAll :: "engine \<Rightarrow> engine" where
  "clearAll e = stopTimerIfIdle (e\<lparr>e_out := [], e_inc := []\<rparr>)"

definition tick_out ::
    "env \<Rightarrow> outgoing \<Rightarrow> engine \<times> jstr list \<Rightarrow> engine \<times> jstr list" where
  "tick_out v x et =
     (let (e, touched) = et
      in if o_status x = Failed \<or> o_pumping x then (e, touched)
         else if o_status x = Waiting then
           (if v_canSend v (o_bucketId x) then
              (let (x1, e1) = query v (x\<lparr>o_status := Active\<rparr>) e
               in (upd_out x1 e1, set_add (o_bucketId x) touched))
            else (e, touched))
         else if o_queue x \<noteq> [] \<and> length (o_inFlight x) < l_window (e_limits e) then
           (pump v x e, touched)
         else if v_now v - o_lastActivityAt x < backoff (e_limits e) (o_attempts x) then (e, touched)
         else
           (let x1 = x\<lparr>o_attempts := Suc (o_attempts x)\<rparr>
            in if l_maxAttempts (e_limits e) < o_attempts x1 then
                 (upd_out (x1\<lparr>o_status := Failed,
                             o_detail := Some (Detail (js ''Partner not responding'')),
                             o_inFlight := []\<rparr>) e, set_add (o_bucketId x) touched)
               else
                 (let (x2, e1) = query v x1 e
                  in (upd_out x2 e1, set_add (o_bucketId x) touched))))"

definition tick_in ::
    "env \<Rightarrow> incoming \<Rightarrow> engine \<times> jstr list \<Rightarrow> engine \<times> jstr list" where
  "tick_in v i et =
     (let (e, touched) = et; idle = v_now v - i_lastActivityAt i
      in if i_completing i then (e, touched)
         else if i_status i = Failed then
           (if int (l_failedTtlMs (e_limits e)) < idle
            then (deleteIn i e, set_add (i_bucketId i) touched) else (e, touched))
         else if idle < backoff (e_limits e) (i_attempts i) then (e, touched)
         else
           (let i1 = i\<lparr>i_lastActivityAt := v_now v\<rparr>
            in if \<not> v_canSend v (i_bucketId i) then
                 (if i_status i \<noteq> Waiting
                  then (upd_in (i1\<lparr>i_status := Waiting\<rparr>) e, set_add (i_bucketId i) touched)
                  else (upd_in i1 e, touched))
               else
                 (let i2 = i1\<lparr>i_attempts := Suc (i_attempts i)\<rparr>
                  in if l_maxAttempts (e_limits e) < i_attempts i2 then
                       (upd_in (i2\<lparr>i_status := Failed,
                                  i_detail := Some (Detail (js ''Transfer stalled''))\<rparr>) e,
                        set_add (i_bucketId i) touched)
                     else
                       (let i3 = i2\<lparr>i_status := Active\<rparr>
                        in (sendAck v i3 True False (upd_in i3 e), set_add (i_bucketId i) touched)))))"

definition tick :: "env \<Rightarrow> engine \<Rightarrow> engine" where
  "tick v e =
     (let et1 = visit (\<lambda>et. e_out (fst et)) (tick_out v) (reg_keys (e_out e)) (e, []);
          et2 = visit (\<lambda>et. e_inc (fst et)) (tick_in v) (reg_keys (e_inc (fst et1))) et1
      in fold publish (snd et2) (fst et2))"

section \<open>The engine as a state machine\<close>

datatype event =
    EvStartHashed jstr outgoing_payload bool
  | EvSendSettled jstr jstr nat bool
  | EvAck jstr transfer_ack
  | EvCancel jstr jstr "jstr option"
  | EvQuery jstr jstr
  | EvChunk jstr transfer_chunk
  | EvStorage jstr jstr nat bool
  | EvHashed jstr jstr nat
  | EvDeliverSettled nat bool
  | EvConnected jstr
  | EvDisconnected jstr
  | EvRetry jstr jstr
  | EvUserCancel jstr jstr
  | EvForget jstr jstr
  | EvClearBucket jstr bool
  | EvClearAll
  | EvTick

fun engine_step :: "(bytes \<Rightarrow> jstr) \<Rightarrow> env \<times> event \<Rightarrow> engine \<Rightarrow> engine" where
  "engine_step sha (v, EvStartHashed b p resume) e = startSend_hashed sha v b p resume e"
| "engine_step sha (v, EvSendSettled b xid oid ok) e = pump_resume v b xid oid ok e"
| "engine_step sha (v, EvAck b ack) e = handleAck v b ack e"
| "engine_step sha (v, EvCancel b xid reason) e = handleCancel b xid reason e"
| "engine_step sha (v, EvQuery b xid) e = handleQuery v b xid e"
| "engine_step sha (v, EvChunk b c) e = handleChunk v b c e"
| "engine_step sha (v, EvStorage b xid oid ok) e = storage_answer v b xid oid ok e"
| "engine_step sha (v, EvHashed b xid oid) e = complete_hashed sha v b xid oid e"
| "engine_step sha (v, EvDeliverSettled oid ok) e = deliver_settled v oid ok e"
| "engine_step sha (v, EvConnected b) e = onConnected v b e"
| "engine_step sha (v, EvDisconnected b) e = onDisconnected b e"
| "engine_step sha (v, EvRetry b xid) e = retry v b xid e"
| "engine_step sha (v, EvUserCancel b xid) e = cancel v b xid e"
| "engine_step sha (v, EvForget b xid) e = forget b xid e"
| "engine_step sha (v, EvClearBucket b f) e = clearBucket b f e"
| "engine_step sha (v, EvClearAll) e = clearAll e"
| "engine_step sha (v, EvTick) e = tick v e"

end
