(* ===== verification/TransferInv.thy ===== *)
theory TransferInv
  imports TransferEngine
begin

text \<open>
  The well-formedness invariant of the transfer engine and its preservation by every event.
  \<open>out_ok\<close> and \<open>in_ok\<close> describe one sending and one receiving transfer, \<open>quota_ok\<close> the limits on what
  a room may hold for its partner, \<open>timer_ok\<close> that the timer runs while there is anything to time.
\<close>

section \<open>What the small operations leave alone\<close>

lemma emit_frame [simp]:
  "e_out (emit a e) = e_out e" "e_inc (emit a e) = e_inc e" "e_timer (emit a e) = e_timer e"
  "e_limits (emit a e) = e_limits e" "e_next (emit a e) = e_next e"
  "e_delivering (emit a e) = e_delivering e" "e_log (emit a e) = e_log e @ [a]"
  by (simp_all add: emit_def)

lemmas emit_wrappers = publish_def persist_def sendCtl_def sendAck_def sendCancel_def

lemma publish_frame [simp]:
  "e_out (publish b e) = e_out e" "e_inc (publish b e) = e_inc e" "e_timer (publish b e) = e_timer e"
  "e_limits (publish b e) = e_limits e" "e_next (publish b e) = e_next e"
  "e_delivering (publish b e) = e_delivering e"
  by (simp_all add: emit_wrappers)

lemma persist_frame [simp]:
  "e_out (persist b e) = e_out e" "e_inc (persist b e) = e_inc e" "e_timer (persist b e) = e_timer e"
  "e_limits (persist b e) = e_limits e" "e_next (persist b e) = e_next e"
  "e_delivering (persist b e) = e_delivering e"
  by (simp_all add: emit_wrappers)

lemma sendCtl_frame [simp]:
  "e_out (sendCtl b m e) = e_out e" "e_inc (sendCtl b m e) = e_inc e"
  "e_timer (sendCtl b m e) = e_timer e" "e_limits (sendCtl b m e) = e_limits e"
  "e_next (sendCtl b m e) = e_next e" "e_delivering (sendCtl b m e) = e_delivering e"
  by (simp_all add: emit_wrappers)

lemma sendAck_frame [simp]:
  "e_out (sendAck v i r d e) = e_out e" "e_inc (sendAck v i r d e) = e_inc e"
  "e_timer (sendAck v i r d e) = e_timer e" "e_limits (sendAck v i r d e) = e_limits e"
  "e_next (sendAck v i r d e) = e_next e" "e_delivering (sendAck v i r d e) = e_delivering e"
  by (simp_all add: emit_wrappers)

lemma sendCancel_frame [simp]:
  "e_out (sendCancel v b k r e) = e_out e" "e_inc (sendCancel v b k r e) = e_inc e"
  "e_timer (sendCancel v b k r e) = e_timer e" "e_limits (sendCancel v b k r e) = e_limits e"
  "e_next (sendCancel v b k r e) = e_next e" "e_delivering (sendCancel v b k r e) = e_delivering e"
  by (simp_all add: emit_wrappers)

lemma ensureTimer_frame [simp]:
  "e_out (ensureTimer e) = e_out e" "e_inc (ensureTimer e) = e_inc e" "e_timer (ensureTimer e)"
  "e_limits (ensureTimer e) = e_limits e" "e_next (ensureTimer e) = e_next e"
  "e_delivering (ensureTimer e) = e_delivering e" "e_log (ensureTimer e) = e_log e"
  by (simp_all add: ensureTimer_def)

lemma stopTimerIfIdle_frame [simp]:
  "e_out (stopTimerIfIdle e) = e_out e" "e_inc (stopTimerIfIdle e) = e_inc e"
  "e_limits (stopTimerIfIdle e) = e_limits e" "e_next (stopTimerIfIdle e) = e_next e"
  "e_delivering (stopTimerIfIdle e) = e_delivering e" "e_log (stopTimerIfIdle e) = e_log e"
  by (simp_all add: stopTimerIfIdle_def)

lemma upd_frame [simp]:
  "e_out (upd_in i e) = e_out e" "e_inc (upd_out x e) = e_inc e"
  "e_out (upd_out x e) = reg_put (o_bucketId x) (o_id x) x (e_out e)"
  "e_inc (upd_in i e) = reg_put (i_bucketId i) (i_id i) i (e_inc e)"
  "e_timer (upd_out x e) = e_timer e" "e_timer (upd_in i e) = e_timer e"
  "e_limits (upd_out x e) = e_limits e" "e_limits (upd_in i e) = e_limits e"
  "e_next (upd_out x e) = e_next e" "e_next (upd_in i e) = e_next e"
  "e_delivering (upd_out x e) = e_delivering e" "e_delivering (upd_in i e) = e_delivering e"
  "e_log (upd_out x e) = e_log e" "e_log (upd_in i e) = e_log e"
  by (simp_all add: upd_out_def upd_in_def)

lemma delete_frame [simp]:
  "e_inc (deleteOut x e) = e_inc e" "e_out (deleteIn i e) = e_out e"
  "e_out (deleteOut x e) = reg_del (o_bucketId x) (o_id x) (e_out e)"
  "e_inc (deleteIn i e) = reg_del (i_bucketId i) (i_id i) (e_inc e)"
  "e_limits (deleteOut x e) = e_limits e" "e_limits (deleteIn i e) = e_limits e"
  "e_next (deleteOut x e) = e_next e" "e_next (deleteIn i e) = e_next e"
  "e_delivering (deleteOut x e) = e_delivering e" "e_delivering (deleteIn i e) = e_delivering e"
  by (simp_all add: deleteOut_def deleteIn_def)

section \<open>The invariant\<close>

text \<open>
  A sending transfer. \<open>pump\<close> is suspended exactly while an index is being sent; that index is not in
  flight yet and there is room for it in the window.
\<close>

definition sent_data_ok :: "outgoing \<Rightarrow> bool" where
  "sent_data_ok x \<longleftrightarrow>
     o_total x = transferChunkCount (th_size (o_header x)) \<and>
     length (o_data x) = th_size (o_header x) \<and> th_size (o_header x) \<le> MAX_TRANSFER_BYTES"

definition sets_ok :: "outgoing \<Rightarrow> bool" where
  "sets_ok x \<longleftrightarrow>
     distinct (o_acked x) \<and> distinct (map fst (o_inFlight x)) \<and>
     set (o_acked x) \<subseteq> {..<o_total x} \<and> set (o_queue x) \<subseteq> {..<o_total x} \<and>
     fst ` set (o_inFlight x) \<subseteq> {..<o_total x} \<and>
     set (o_acked x) \<inter> fst ` set (o_inFlight x) = {}"

definition window_ok :: "nat \<Rightarrow> outgoing \<Rightarrow> bool" where
  "window_ok w x \<longleftrightarrow>
     length (o_inFlight x) \<le> w \<and>
     (\<forall>k. o_awaiting x = Some k \<longrightarrow>
        k < o_total x \<and> length (o_inFlight x) < w \<and> k \<notin> fst ` set (o_inFlight x))"

definition out_core :: "nat \<Rightarrow> outgoing \<Rightarrow> bool" where
  "out_core w x \<longleftrightarrow> sent_data_ok x \<and> sets_ok x \<and> window_ok w x"

definition pump_ok :: "outgoing \<Rightarrow> bool" where
  "pump_ok x \<longleftrightarrow> (o_pumping x \<longleftrightarrow> o_awaiting x \<noteq> None)"

definition out_ok :: "nat \<Rightarrow> outgoing \<Rightarrow> bool" where
  "out_ok w x \<longleftrightarrow> out_core w x \<and> pump_ok x"

lemmas out_defs = out_ok_def out_core_def pump_ok_def sent_data_ok_def sets_ok_def window_ok_def

lemma out_core_fields [simp]:
  "out_core w (x\<lparr>o_attempts := a\<rparr>) = out_core w x"
  "out_core w (x\<lparr>o_lastActivityAt := t\<rparr>) = out_core w x"
  "out_core w (x\<lparr>o_status := st\<rparr>) = out_core w x"
  "out_core w (x\<lparr>o_detail := d\<rparr>) = out_core w x"
  "out_core w (x\<lparr>o_pumping := p\<rparr>) = out_core w x"
  by (simp_all add: out_defs)

text \<open>
  A receiving transfer: \<open>received\<close> counts the parts that are present, each of exactly the length its
  position requires; \<open>completing\<close> means that all parts are there and that \<open>complete\<close> is suspended.
\<close>

definition parts_ok :: "incoming \<Rightarrow> bool" where
  "parts_ok i \<longleftrightarrow>
     i_total i = transferChunkCount (th_size (i_header i)) \<and>
     th_size (i_header i) \<le> MAX_TRANSFER_BYTES \<and>
     length (i_parts i) = i_total i \<and>
     i_received i = length (have_indices (i_parts i)) \<and>
     (\<forall>k p. k < i_total i \<longrightarrow> i_parts i ! k = Some p \<longrightarrow>
        length p = transferChunkLength (th_size (i_header i)) k)"

definition stage_ok :: "incoming \<Rightarrow> bool" where
  "stage_ok i \<longleftrightarrow>
     (i_completing i \<longleftrightarrow> i_stage i \<noteq> Receiving) \<and> i_stage i \<noteq> Stuck \<and>
     (if i_completing i then i_received i = i_total i else i_received i < i_total i) \<and>
     (\<forall>acc. i_stage i = Hashing acc \<longrightarrow>
        length acc = th_size (i_header i) \<and> acc = concat (map the (i_parts i)))"

definition in_ok :: "incoming \<Rightarrow> bool" where
  "in_ok i \<longleftrightarrow> parts_ok i \<and> stage_ok i"

definition quota_ok :: "engine \<Rightarrow> bool" where
  "quota_ok e \<longleftrightarrow>
     (\<forall>b. length (reg_values (e_inc e) b) \<le> l_maxIncomingPerRoom (e_limits e) \<and>
          pending_bytes e b \<le> l_maxIncomingBytesPerRoom (e_limits e))"

definition timer_ok :: "engine \<Rightarrow> bool" where
  "timer_ok e \<longleftrightarrow> e_timer e \<or> e_out e = [] \<and> e_inc e = []"

definition outs_ok :: "engine \<Rightarrow> bool" where
  "outs_ok e \<longleftrightarrow> reg_wf (e_out e) \<and>
     (\<forall>b k x. reg_get (e_out e) b k = Some x \<longrightarrow>
        o_bucketId x = b \<and> o_id x = k \<and> out_ok (l_window (e_limits e)) x)"

definition ins_ok :: "engine \<Rightarrow> bool" where
  "ins_ok e \<longleftrightarrow> reg_wf (e_inc e) \<and>
     (\<forall>b k i. reg_get (e_inc e) b k = Some i \<longrightarrow>
        i_bucketId i = b \<and> i_id i = k \<and> in_ok i)"

definition engine_inv :: "engine \<Rightarrow> bool" where
  "engine_inv e \<longleftrightarrow> outs_ok e \<and> ins_ok e \<and> quota_ok e \<and> timer_ok e"

lemma quota_ok_cong:
  "e_inc e' = e_inc e \<Longrightarrow> e_limits e' = e_limits e \<Longrightarrow> quota_ok e' = quota_ok e"
  by (simp add: quota_ok_def pending_bytes_def)

lemma outs_ok_cong:
  "e_out e' = e_out e \<Longrightarrow> e_limits e' = e_limits e \<Longrightarrow> outs_ok e' = outs_ok e"
  by (simp add: outs_ok_def)

lemma ins_ok_cong: "e_inc e' = e_inc e \<Longrightarrow> ins_ok e' = ins_ok e"
  by (simp add: ins_ok_def)

lemma timer_ok_cong:
  "e_out e' = e_out e \<Longrightarrow> e_inc e' = e_inc e \<Longrightarrow> e_timer e' = e_timer e \<Longrightarrow> timer_ok e' = timer_ok e"
  by (simp add: timer_ok_def)

lemma engine_inv_cong:
  assumes "e_out e' = e_out e" "e_inc e' = e_inc e" "e_limits e' = e_limits e" "e_timer e' = e_timer e"
  shows "engine_inv e' = engine_inv e"
  using assms
  by (simp add: engine_inv_def quota_ok_cong [of e' e] outs_ok_cong [of e' e] ins_ok_cong [of e' e]
        timer_ok_cong [of e' e])

lemma engine_inv_quiet [simp]:
  "engine_inv (emit a e) = engine_inv e" "engine_inv (publish b e) = engine_inv e"
  "engine_inv (persist b e) = engine_inv e" "engine_inv (sendCtl b m e) = engine_inv e"
  "engine_inv (sendAck v i r d e) = engine_inv e" "engine_inv (sendCancel v b k s e) = engine_inv e"
  by (rule engine_inv_cong; simp)+

lemma engine_inv_outD:
  assumes "engine_inv e" "reg_get (e_out e) b k = Some x"
  shows "o_bucketId x = b" "o_id x = k" "out_ok (l_window (e_limits e)) x"
  using assms by (auto simp: engine_inv_def outs_ok_def)

lemma engine_inv_inD:
  assumes "engine_inv e" "reg_get (e_inc e) b k = Some i"
  shows "i_bucketId i = b" "i_id i = k" "in_ok i"
  using assms by (auto simp: engine_inv_def ins_ok_def)

lemma engine_inv_wf: "engine_inv e \<Longrightarrow> reg_wf (e_out e)" "engine_inv e \<Longrightarrow> reg_wf (e_inc e)"
  by (auto simp: engine_inv_def outs_ok_def ins_ok_def)

section \<open>Registry updates keep the invariant\<close>

lemma map_values_update:
  "map_of m k = Some v0 \<Longrightarrow> f v = f v0 \<Longrightarrow>
   map f (map snd (AList.update k v m)) = map f (map snd m)"
  by (induction m) auto

lemma quota_upd_in:
  assumes "quota_ok e" "reg_get (e_inc e) (i_bucketId i) (i_id i) = Some j"
    and "th_size (i_header i) = th_size (i_header j)"
  shows "quota_ok (upd_in i e)"
proof -
  let ?size = "\<lambda>i. th_size (i_header i)"
  have eq: "map ?size (reg_values (e_inc (upd_in i e)) b) = map ?size (reg_values (e_inc e) b)" for b
    using map_values_update [of _ _ j ?size i] assms(2,3)
    by (auto simp: reg_values_def room_entries_put reg_get_def)
  from arg_cong [OF eq, of length] arg_cong [OF eq, of sum_list] assms(1) show ?thesis
    by (simp add: quota_ok_def pending_bytes_def)
qed

lemma quota_subset:
  assumes "quota_ok e" "e_limits e' = e_limits e"
    and "\<And>b. \<exists>P. reg_values (e_inc e') b = map snd (filter P (room_entries (e_inc e) b))"
  shows "quota_ok e'"
  unfolding quota_ok_def
proof (intro allI conjI)
  fix b
  obtain P where P: "reg_values (e_inc e') b = map snd (filter P (room_entries (e_inc e) b))"
    using assms(3) by blast
  have "length (reg_values (e_inc e') b) \<le> length (reg_values (e_inc e) b)"
    unfolding P by (simp add: reg_values_def)
  with assms(1,2) show "length (reg_values (e_inc e') b) \<le> l_maxIncomingPerRoom (e_limits e')"
    by (metis quota_ok_def order_trans)
  have "pending_bytes e' b \<le> pending_bytes e b"
    unfolding pending_bytes_def P by (simp add: reg_values_def comp_def sum_list_filter_le_nat)
  with assms(1,2) show "pending_bytes e' b \<le> l_maxIncomingBytesPerRoom (e_limits e')"
    by (metis quota_ok_def order_trans)
qed

lemma quota_deleteIn:
  assumes "quota_ok e"
  shows "quota_ok (deleteIn i e)"
proof (rule quota_subset [OF assms])
  show "\<exists>P. reg_values (e_inc (deleteIn i e)) b = map snd (filter P (room_entries (e_inc e) b))" for b
    by (auto simp: reg_values_def room_entries_del AList.delete_eq intro: exI [of _ "\<lambda>_. True"])
qed simp

lemma outs_ok_upd:
  assumes "outs_ok e" "out_ok (l_window (e_limits e)) x"
  shows "outs_ok (upd_out x e)"
  using assms by (auto simp: outs_ok_def reg_wf_put reg_get_put)

lemma ins_ok_upd:
  assumes "ins_ok e" "in_ok i"
  shows "ins_ok (upd_in i e)"
  using assms by (auto simp: ins_ok_def reg_wf_put reg_get_put)

lemma timer_ok_present:
  assumes "timer_ok e" "reg_get (e_out e) b k \<noteq> None \<or> reg_get (e_inc e) b k \<noteq> None"
  shows "e_timer e"
  using assms by (auto simp: timer_ok_def reg_get_def)

lemma inv_upd_out:
  assumes "engine_inv e" "reg_get (e_out e) (o_bucketId x) (o_id x) \<noteq> None"
    and "out_ok (l_window (e_limits e)) x"
  shows "engine_inv (upd_out x e)"
proof -
  have "e_timer e"
    using assms(1,2) by (auto simp: engine_inv_def intro: timer_ok_present)
  then show ?thesis
    using assms(1,3) quota_ok_cong [of "upd_out x e" e] ins_ok_cong [of "upd_out x e" e]
    by (simp add: engine_inv_def outs_ok_upd timer_ok_def)
qed

lemma inv_upd_in:
  assumes "engine_inv e" "reg_get (e_inc e) (i_bucketId i) (i_id i) = Some j"
    and "th_size (i_header i) = th_size (i_header j)" "in_ok i"
  shows "engine_inv (upd_in i e)"
proof -
  have "e_timer e"
    using assms(1,2) by (auto simp: engine_inv_def intro: timer_ok_present)
  then show ?thesis
    using assms quota_upd_in [OF _ assms(2,3)] outs_ok_cong [of "upd_in i e" e]
    by (simp add: engine_inv_def ins_ok_upd timer_ok_def)
qed

lemma timer_ok_stop: "timer_ok (stopTimerIfIdle e) \<longleftrightarrow> e_timer e \<or> timer_ok e"
  by (auto simp: timer_ok_def stopTimerIfIdle_def)

lemma reg_del_Nil: "reg_wf r \<Longrightarrow> reg_del b k r \<noteq> [] \<Longrightarrow> r \<noteq> []"
  by (auto simp: reg_del_def)

lemma inv_deleteOut: "engine_inv e \<Longrightarrow> engine_inv (deleteOut x e)"
  using quota_ok_cong [of "deleteOut x e" e] ins_ok_cong [of "deleteOut x e" e]
  by (auto simp: engine_inv_def outs_ok_def reg_wf_del reg_get_del timer_ok_stop deleteOut_def
      split: if_splits) (auto simp: timer_ok_def reg_del_def)

lemma inv_deleteIn: "engine_inv e \<Longrightarrow> engine_inv (deleteIn i e)"
  using quota_deleteIn [of e i] outs_ok_cong [of "deleteIn i e" e]
  by (auto simp: engine_inv_def ins_ok_def reg_wf_del reg_get_del timer_ok_stop deleteIn_def
      split: if_splits) (auto simp: timer_ok_def reg_del_def)

lemma inv_drop_rooms:
  assumes "engine_inv e"
  shows "engine_inv (stopTimerIfIdle
           (e\<lparr>e_out := reg_drop_room b (e_out e), e_inc := reg_drop_room b (e_inc e)\<rparr>))"
    (is "engine_inv ?e'")
proof -
  have "quota_ok ?e'"
  proof (rule quota_subset)
    show "quota_ok e" using assms by (simp add: engine_inv_def)
    show "\<exists>P. reg_values (e_inc ?e') c = map snd (filter P (room_entries (e_inc e) c))" for c
      by (auto simp: reg_values_def room_entries_drop
          intro: exI [of _ "\<lambda>_. True"] exI [of _ "\<lambda>_. False"])
  qed simp
  then show ?thesis
    using assms
    by (auto simp: engine_inv_def outs_ok_def ins_ok_def reg_wf_drop reg_get_drop timer_ok_stop
        split: if_splits) (auto simp: timer_ok_def reg_drop_room_def)
qed

lemma inv_clearAll:
  assumes "engine_inv e"
  shows "engine_inv (clearAll e)"
  by (simp add: clearAll_def engine_inv_def outs_ok_def ins_ok_def quota_ok_def pending_bytes_def
      reg_values_def reg_get_def timer_ok_stop timer_ok_def)

section \<open>Sender operations\<close>

lemma query_frame [simp]:
  "e_out (snd (query v x e)) = e_out e" "e_inc (snd (query v x e)) = e_inc e"
  "e_limits (snd (query v x e)) = e_limits e" "e_timer (snd (query v x e)) = e_timer e"
  "e_next (snd (query v x e)) = e_next e" "e_delivering (snd (query v x e)) = e_delivering e"
  "engine_inv (snd (query v x e)) = engine_inv e"
  "o_bucketId (fst (query v x e)) = o_bucketId x" "o_id (fst (query v x e)) = o_id x"
  "o_oid (fst (query v x e)) = o_oid x"
  "o_acked (fst (query v x e)) = o_acked x" "o_queue (fst (query v x e)) = o_queue x"
  "o_inFlight (fst (query v x e)) = o_inFlight x" "o_total (fst (query v x e)) = o_total x"
  "o_header (fst (query v x e)) = o_header x" "o_data (fst (query v x e)) = o_data x"
  "o_pumping (fst (query v x e)) = o_pumping x" "o_awaiting (fst (query v x e)) = o_awaiting x"
  "o_attempts (fst (query v x e)) = o_attempts x"
  by (simp_all add: query_def Let_def)

lemma out_ok_query [simp]: "out_ok w (fst (query v x e)) = out_ok w x"
  by (simp add: out_defs)

text \<open>What \<open>pump_scan\<close> does to the transfer it scans, and what it knows about an index it sends.\<close>

definition scan_frame :: "outgoing \<Rightarrow> outgoing \<Rightarrow> bool" where
  "scan_frame x y \<longleftrightarrow>
     y = x\<lparr>o_queue := o_queue y, o_status := o_status y\<rparr> \<and> set (o_queue y) \<subseteq> set (o_queue x)"

lemma scan_frame_trans: "scan_frame x y \<Longrightarrow> scan_frame y z \<Longrightarrow> scan_frame x z"
  by (cases x; cases y; cases z) (auto simp: scan_frame_def)

lemma scan_frame_fields:
  assumes "scan_frame x y"
  shows "o_bucketId y = o_bucketId x" "o_id y = o_id x" "o_oid y = o_oid x" "o_header y = o_header x"
    "o_data y = o_data x" "o_total y = o_total x" "o_acked y = o_acked x"
    "o_inFlight y = o_inFlight x" "o_pumping y = o_pumping x" "o_awaiting y = o_awaiting x"
    "o_attempts y = o_attempts x" "o_detail y = o_detail x"
    "o_lastActivityAt y = o_lastActivityAt x"
  using assms by (cases x; cases y; simp add: scan_frame_def)+

lemma scan_frame_core: "scan_frame x y \<Longrightarrow> out_core w x \<Longrightarrow> out_core w y"
  using scan_frame_fields [of x y]
  by (auto simp: out_defs scan_frame_def)

lemma pump_scan_frame:
  "case pump_scan w can x of
     PumpDone y \<Rightarrow> scan_frame x y
   | PumpSend k y \<Rightarrow> scan_frame x y \<and> can \<and> o_status x = Active \<and> o_status y = Active \<and>
       k \<in> set (o_queue x) \<and> k \<notin> set (o_acked x) \<and> k \<notin> fst ` set (o_inFlight x) \<and>
       length (o_inFlight x) < w"
proof (induction w can x rule: pump_scan.induct)
  case (1 w can x)
  let ?x1 = "x\<lparr>o_queue := tl (o_queue x)\<rparr>"
  show ?case
  proof (cases "o_status x = Active \<and> o_queue x \<noteq> [] \<and> length (o_inFlight x) < w")
    case False
    then show ?thesis by (subst pump_scan.simps) (auto simp: scan_frame_def)
  next
    case True
    then have q: "o_queue x = hd (o_queue x) # tl (o_queue x)" by simp
    have sub: "set (tl (o_queue x)) \<subseteq> set (o_queue x)" by (subst q) auto
    show ?thesis
    proof (cases "hd (o_queue x) \<in> set (o_acked x) \<or> hd (o_queue x) \<in> fst ` set (o_inFlight x)")
      case skip: True
      have step: "scan_frame x ?x1" using sub by (cases x) (simp add: scan_frame_def)
      have "pump_scan w can x = pump_scan w can ?x1"
        using True skip by (subst pump_scan.simps) (simp add: Let_def)
      then show ?thesis
        using "1.IH" [OF True refl refl skip] scan_frame_trans [OF step] sub True
        by (auto split: pump_outcome.splits)
    next
      case False
      then show ?thesis
        using True sub by (subst pump_scan.simps) (auto simp: Let_def scan_frame_def)
    qed
  qed
qed

lemma pump_scan_Done: "pump_scan w can x = PumpDone y \<Longrightarrow> scan_frame x y"
  using pump_scan_frame [where w = w and can = can and x = x] by simp

lemma pump_scan_Send:
  "pump_scan w can x = PumpSend k y \<Longrightarrow>
   scan_frame x y \<and> can \<and> o_status x = Active \<and> o_status y = Active \<and>
   k \<in> set (o_queue x) \<and> k \<notin> set (o_acked x) \<and> k \<notin> fst ` set (o_inFlight x) \<and>
   length (o_inFlight x) < w"
  using pump_scan_frame [where w = w and can = can and x = x] by simp

lemma inv_pump_loop:
  assumes inv: "engine_inv e" and present: "reg_get (e_out e) (o_bucketId x) (o_id x) \<noteq> None"
    and core: "out_core (l_window (e_limits e)) x" and idle: "o_pumping x" "o_awaiting x = None"
  shows "engine_inv (pump_loop v x e)"
proof (cases "pump_scan (l_window (e_limits e)) (v_canSend v (o_bucketId x)) x")
  case (PumpDone y)
  have frame: "scan_frame x y" by (rule pump_scan_Done [OF PumpDone])
  let ?y = "y\<lparr>o_pumping := False, o_awaiting := None\<rparr>"
  have "out_ok (l_window (e_limits e)) ?y"
    using scan_frame_core [OF frame core] by (auto simp: out_defs)
  then have "engine_inv (upd_out ?y e)"
    using inv present scan_frame_fields [OF frame] by (intro inv_upd_out) auto
  then show ?thesis using PumpDone by (simp add: pump_loop_def)
next
  case (PumpSend k y)
  note send = pump_scan_Send [OF PumpSend]
  then have frame: "scan_frame x y" by simp
  let ?y = "y\<lparr>o_awaiting := Some k\<rparr>"
  have "k < o_total x" using core send by (auto simp: out_defs)
  then have "out_ok (l_window (e_limits e)) ?y"
    using scan_frame_core [OF frame core] scan_frame_fields [OF frame] send idle
    by (auto simp: out_defs)
  then have "engine_inv (upd_out ?y e)"
    using inv present scan_frame_fields [OF frame] by (intro inv_upd_out) auto
  then show ?thesis using PumpSend by (simp add: pump_loop_def)
qed

lemma inv_pump:
  assumes "engine_inv e" "reg_get (e_out e) (o_bucketId x) (o_id x) \<noteq> None"
    and "out_ok (l_window (e_limits e)) x"
  shows "engine_inv (pump v x e)"
proof (cases "o_pumping x")
  case True
  then show ?thesis using assms(1) by (simp add: pump_def)
next
  case False
  then have "engine_inv (pump_loop v (x\<lparr>o_pumping := True\<rparr>) e)"
    using assms by (intro inv_pump_loop) (auto simp: out_defs)
  with False show ?thesis by (simp add: pump_def)
qed

lemma live_out_Some:
  "live_out b k oid e = Some x \<longleftrightarrow> reg_get (e_out e) b k = Some x \<and> o_oid x = oid"
  by (auto simp: live_out_def split: option.splits if_splits)

lemma live_in_Some:
  "live_in b k oid e = Some i \<longleftrightarrow> reg_get (e_inc e) b k = Some i \<and> i_oid i = oid"
  by (auto simp: live_in_def split: option.splits if_splits)

lemma inv_pump_resume:
  assumes inv: "engine_inv e"
  shows "engine_inv (pump_resume v b k oid ok e)"
proof (cases "live_out b k oid e")
  case None
  then show ?thesis using inv by (simp add: pump_resume_def)
next
  case (Some x)
  then have get: "reg_get (e_out e) b k = Some x" by (simp add: live_out_Some)
  note ok = engine_inv_outD [OF inv get]
  show ?thesis
  proof (cases "o_awaiting x")
    case None
    then show ?thesis using Some inv by (simp add: pump_resume_def)
  next
    case aw: (Some index)
    let ?fail = "x\<lparr>o_queue := index # o_queue x, o_status := Waiting, o_pumping := False,
                   o_awaiting := None\<rparr>"
    let ?x1 = "x\<lparr>o_lastActivityAt := v_now v, o_awaiting := None\<rparr>"
    let ?x2 = "if index \<in> set (o_acked ?x1) then ?x1
               else ?x1\<lparr>o_inFlight := AList.update index (v_now v) (o_inFlight ?x1)\<rparr>"
    have fail: "out_ok (l_window (e_limits e)) ?fail"
      using ok(3) aw by (auto simp: out_defs)
    have new: "index \<notin> fst ` set (o_inFlight x)" "index < o_total x"
      "length (o_inFlight x) < l_window (e_limits e)"
      using ok(3) aw by (auto simp: out_defs)
    have core: "out_core (l_window (e_limits e)) ?x2"
      using ok(3) new
      by (auto simp: out_defs distinct_update dom_update length_update simp del: distinct_map)
    have "o_pumping ?x2" using ok(3) aw by (auto simp: out_defs)
    then show ?thesis
      using inv get ok fail core Some aw
      by (auto simp: pump_resume_def Let_def intro!: inv_upd_out inv_pump_loop)
  qed
qed

lemma apply_have_Cons:
  "apply_have (k # ks) x =
     apply_have ks (if o_total x \<le> k then x
       else x\<lparr>o_acked := set_add k (o_acked x), o_inFlight := AList.delete k (o_inFlight x)\<rparr>)"
  by (simp add: apply_have_def)

lemma apply_have_Nil [simp]: "apply_have [] x = x"
  by (simp add: apply_have_def)

lemma apply_have_frame [simp]:
  "o_bucketId (apply_have ks x) = o_bucketId x" "o_id (apply_have ks x) = o_id x"
  "o_oid (apply_have ks x) = o_oid x" "o_header (apply_have ks x) = o_header x"
  "o_data (apply_have ks x) = o_data x" "o_total (apply_have ks x) = o_total x"
  "o_queue (apply_have ks x) = o_queue x" "o_status (apply_have ks x) = o_status x"
  "o_pumping (apply_have ks x) = o_pumping x" "o_awaiting (apply_have ks x) = o_awaiting x"
  "o_attempts (apply_have ks x) = o_attempts x" "o_detail (apply_have ks x) = o_detail x"
  by (induction ks arbitrary: x) (auto simp: apply_have_Cons)

lemma apply_have_acked:
  "set (o_acked (apply_have ks x)) = set (o_acked x) \<union> {k \<in> set ks. k < o_total x}"
  by (induction ks arbitrary: x) (auto simp: apply_have_Cons)

lemma apply_have_inFlight:
  "set (o_inFlight (apply_have ks x)) =
     {p \<in> set (o_inFlight x). \<not> (fst p \<in> set ks \<and> fst p < o_total x)}"
  by (induction ks arbitrary: x) (auto simp: apply_have_Cons set_delete)

lemma apply_have_core: "out_core w x \<Longrightarrow> out_core w (apply_have ks x)"
proof (induction ks arbitrary: x)
  case Nil
  then show ?case by simp
next
  case (Cons k ks)
  let ?x = "x\<lparr>o_acked := set_add k (o_acked x), o_inFlight := AList.delete k (o_inFlight x)\<rparr>"
  have "out_core w ?x" if "k < o_total x"
    using Cons.prems that length_delete_le [of k "o_inFlight x"]
    by (auto simp: out_defs set_delete distinct_delete simp del: distinct_map
        intro: order_trans [OF length_delete_le] le_less_trans [OF length_delete_le])
  then show ?case
    using Cons by (auto simp: apply_have_Cons)
qed

lemma requeue_core: "out_core w x \<Longrightarrow> out_core w (requeue now stall x)"
  unfolding requeue_def Let_def
  by (auto simp: out_defs range_n_def distinct_map_filter simp del: distinct_map
      intro: order_trans [OF length_filter_le] le_less_trans [OF length_filter_le])

lemma requeue_frame [simp]:
  "o_bucketId (requeue now stall x) = o_bucketId x" "o_id (requeue now stall x) = o_id x"
  "o_oid (requeue now stall x) = o_oid x" "o_header (requeue now stall x) = o_header x"
  "o_data (requeue now stall x) = o_data x" "o_total (requeue now stall x) = o_total x"
  "o_acked (requeue now stall x) = o_acked x" "o_pumping (requeue now stall x) = o_pumping x"
  "o_awaiting (requeue now stall x) = o_awaiting x" "o_attempts (requeue now stall x) = o_attempts x"
  by (simp_all add: requeue_def Let_def)

lemma ack_update_frame [simp]:
  "o_bucketId (ack_update v stall ack x) = o_bucketId x" "o_id (ack_update v stall ack x) = o_id x"
  "o_oid (ack_update v stall ack x) = o_oid x" "o_header (ack_update v stall ack x) = o_header x"
  "o_data (ack_update v stall ack x) = o_data x" "o_total (ack_update v stall ack x) = o_total x"
  "o_pumping (ack_update v stall ack x) = o_pumping x"
  "o_awaiting (ack_update v stall ack x) = o_awaiting x"
  by (simp_all add: ack_update_def Let_def)

lemma ack_update_ok:
  assumes "out_ok w x"
  shows "out_ok w (ack_update v stall ack x)"
proof -
  let ?y = "apply_have (ta_have ack) x"
  have "out_core w (?y\<lparr>o_lastActivityAt := t\<rparr>)"
       "out_core w (?y\<lparr>o_attempts := 0, o_lastActivityAt := t\<rparr>)" for t
    using assms apply_have_core [of w x "ta_have ack"] by (simp_all add: out_ok_def)
  then have "out_core w (ack_update v stall ack x)"
    by (simp add: ack_update_def Let_def requeue_core)
  then show ?thesis
    using assms by (simp add: out_ok_def pump_ok_def)
qed

lemma inv_handleAck:
  assumes inv: "engine_inv e"
  shows "engine_inv (handleAck v b ack e)"
proof (cases "reg_get (e_out e) b (ta_id ack)")
  case None
  then show ?thesis using inv by (simp add: handleAck_def)
next
  case (Some x)
  note x = engine_inv_outD [OF inv Some]
  let ?x1 = "ack_update v (l_stallMs (e_limits e)) ack x"
  have ok: "out_ok (l_window (e_limits e)) ?x1" by (rule ack_update_ok [OF x(3)])
  have "engine_inv (upd_out ?x1 e)"
    using inv Some x ok by (intro inv_upd_out) auto
  then have "engine_inv (pump v ?x1 (publish b (upd_out ?x1 e)))"
    using ok engine_inv_wf [OF inv] by (intro inv_pump) (auto simp: reg_get_put)
  then show ?thesis
    using Some inv by (simp add: handleAck_def Let_def inv_deleteOut)
qed

lemma inv_insert_out:
  assumes "engine_inv e" "out_ok (l_window (e_limits e)) x"
  shows "engine_inv (ensureTimer (persist b (upd_out x (e\<lparr>e_next := n\<rparr>))))" (is "engine_inv ?e'")
proof -
  have "outs_ok (e\<lparr>e_next := n\<rparr>)"
    using assms(1) outs_ok_cong [of "e\<lparr>e_next := n\<rparr>" e] by (simp add: engine_inv_def)
  then have "outs_ok (upd_out x (e\<lparr>e_next := n\<rparr>))"
    using assms(2) by (intro outs_ok_upd) auto
  then have "outs_ok ?e'"
    using outs_ok_cong [of ?e' "upd_out x (e\<lparr>e_next := n\<rparr>)"] by simp
  then show ?thesis
    using assms(1) ins_ok_cong [of ?e' e] quota_ok_cong [of ?e' e]
    by (simp add: engine_inv_def timer_ok_def)
qed

lemma new_outgoing_ok:
  "length (p_data p) \<le> MAX_TRANSFER_BYTES \<Longrightarrow> out_ok w (new_outgoing sha v b p resume oid)"
  by (auto simp: out_defs new_outgoing_def payload_header_def Let_def range_n_def)

lemma inv_startSend:
  assumes inv: "engine_inv e" and sz: "length (p_data p) \<le> MAX_TRANSFER_BYTES"
  shows "engine_inv (startSend_hashed sha v b p resume e)"
proof -
  let ?x = "new_outgoing sha v b p resume (e_next e)"
  let ?e1 = "ensureTimer (persist b (upd_out ?x (e\<lparr>e_next := Suc (e_next e)\<rparr>)))"
  note ok = new_outgoing_ok [OF sz]
  have inv1: "engine_inv ?e1" by (rule inv_insert_out [OF inv ok])
  have present: "reg_get (e_out ?e1) (o_bucketId ?x) (o_id ?x) \<noteq> None"
    using engine_inv_wf [OF inv] by (simp add: reg_get_put)
  have "engine_inv (pump v ?x ?e1)"
    by (rule inv_pump [OF inv1 present ok])
  moreover have "engine_inv (upd_out (fst (query v ?x ?e1)) (snd (query v ?x ?e1)))"
    using inv1 present ok by (intro inv_upd_out) auto
  ultimately show ?thesis
    by (cases resume) (simp_all add: startSend_hashed_def Let_def split_beta)
qed

lemma inv_handleCancel:
  assumes inv: "engine_inv e"
  shows "engine_inv (handleCancel b k reason e)"
proof -
  let ?e1 = "case reg_get (e_out e) b k of None \<Rightarrow> e
             | Some x \<Rightarrow> upd_out (x\<lparr>o_status := Failed, o_detail := Some (cancel_detail reason),
                                   o_inFlight := [], o_queue := []\<rparr>) e"
  have inv1: "engine_inv ?e1"
  proof (cases "reg_get (e_out e) b k")
    case None
    then show ?thesis using inv by simp
  next
    case (Some x)
    then show ?thesis
      using inv engine_inv_outD [OF inv Some] by (auto intro!: inv_upd_out simp: out_defs)
  qed
  then have "engine_inv (case reg_get (e_inc ?e1) b k of None \<Rightarrow> ?e1 | Some i \<Rightarrow> deleteIn i ?e1)"
    by (cases "reg_get (e_inc ?e1) b k") (simp_all add: inv_deleteIn)
  then show ?thesis
    unfolding handleCancel_def Let_def
    by (simp only: if_distrib [of engine_inv] engine_inv_quiet if_cancel)
qed

section \<open>Receiver operations\<close>

lemma length_have_indices: "length (have_indices ps) = length (filter (\<lambda>p. p \<noteq> None) ps)"
proof -
  have "filter (\<lambda>p. p \<noteq> None) (map (nth ps) [0..<length ps]) = map (nth ps) (have_indices ps)"
    by (simp add: have_indices_def filter_map comp_def)
  then show ?thesis by (metis length_map map_nth)
qed

lemma count_parts_update:
  "k < length ps \<Longrightarrow> ps ! k = None \<Longrightarrow>
   length (filter (\<lambda>p. p \<noteq> None) (ps[k := Some p])) = Suc (length (filter (\<lambda>p. p \<noteq> None) ps))"
proof (induction ps arbitrary: k)
  case Nil
  then show ?case by simp
next
  case (Cons a ps)
  then show ?case by (cases k) auto
qed

lemma have_indices_update:
  "k < length ps \<Longrightarrow> ps ! k = None \<Longrightarrow>
   length (have_indices (ps[k := Some p])) = Suc (length (have_indices ps))"
  unfolding length_have_indices by (rule count_parts_update)

lemma count_parts_le: "length (have_indices ps) \<le> length ps"
  by (simp add: length_have_indices)

lemma count_parts_all:
  "length (have_indices ps) = length ps \<longleftrightarrow> (\<forall>p\<in>set ps. p \<noteq> None)"
  unfolding length_have_indices
  by (metis (mono_tags, lifting) filter_True length_filter_less less_irrefl)

lemma set_part_inside: "k < length ps \<Longrightarrow> set_part k p ps = ps[k := Some p]"
  by (simp add: set_part_def)

lemma sum_piece_lengths: "sum_list (map (transferChunkLength n) [0..<transferChunkCount n]) = n"
proof -
  let ?xs = "replicate n (0::nat)"
  have "concat (map (slice_at TRANSFER_CHUNK_BYTES ?xs) [0..<transferChunkCount n]) = ?xs"
    using concat_slices [of TRANSFER_CHUNK_BYTES ?xs] by (simp add: transferChunkCount_pieces)
  from arg_cong [OF this, of length]
  have "sum_list (map (\<lambda>k. length (slice_at TRANSFER_CHUNK_BYTES ?xs k)) [0..<transferChunkCount n]) = n"
    by (simp add: length_concat comp_def)
  moreover have "transferChunkLength n = (\<lambda>k. length (slice_at TRANSFER_CHUNK_BYTES ?xs k))"
    using transferChunkLength_slice [of ?xs] by (intro ext) simp
  ultimately show ?thesis by simp
qed

text \<open>When every part is present and of the right length the buffer is filled exactly.\<close>

lemma place_parts_all:
  "(\<forall>p\<in>set ps. p \<noteq> None) \<Longrightarrow> length acc + length (concat (map the ps)) \<le> n \<Longrightarrow>
   place_parts n ps acc = Placed (acc @ concat (map the ps))"
proof (induction ps arbitrary: acc)
  case Nil
  then show ?case by simp
next
  case (Cons p ps)
  then show ?case by (cases p) auto
qed

lemma complete_parts:
  assumes "parts_ok i" "i_received i = i_total i"
  shows "\<forall>p\<in>set (i_parts i). p \<noteq> None"
    and "length (concat (map the (i_parts i))) = th_size (i_header i)"
    and "place_parts (th_size (i_header i)) (i_parts i) [] = Placed (concat (map the (i_parts i)))"
proof -
  let ?n = "th_size (i_header i)"
  have len: "length (i_parts i) = transferChunkCount ?n"
    using assms(1) by (simp add: parts_ok_def)
  show all: "\<forall>p\<in>set (i_parts i). p \<noteq> None"
    using assms count_parts_all [of "i_parts i"] by (simp add: parts_ok_def)
  have "length (the (i_parts i ! k)) = transferChunkLength ?n k" if "k < transferChunkCount ?n" for k
  proof -
    have "i_parts i ! k \<in> set (i_parts i)" using that len by simp
    then obtain p where p: "i_parts i ! k = Some p" using all by blast
    moreover have "k < i_total i" using assms(1) that by (simp add: parts_ok_def)
    ultimately show ?thesis using assms(1) by (simp add: parts_ok_def)
  qed
  then have "map (length \<circ> the) (i_parts i) = map (transferChunkLength ?n) [0..<transferChunkCount ?n]"
    by (intro nth_equalityI) (simp_all add: len)
  then show eq: "length (concat (map the (i_parts i))) = ?n"
    by (simp add: length_concat sum_piece_lengths)
  show "place_parts ?n (i_parts i) [] = Placed (concat (map the (i_parts i)))"
    using place_parts_all [OF all, of "[]" ?n] eq by simp
qed

text \<open>A chunk as \<open>decodePlaintext\<close> lets it through.\<close>

definition chunk_valid :: "transfer_chunk \<Rightarrow> bool" where
  "chunk_valid c \<longleftrightarrow>
     tc_total c = transferChunkCount (th_size (tc_header c)) \<and> tc_index c < tc_total c \<and>
     th_size (tc_header c) \<le> MAX_TRANSFER_BYTES \<and>
     length (tc_data c) = transferChunkLength (th_size (tc_header c)) (tc_index c)"

lemmas in_defs = in_ok_def parts_ok_def stage_ok_def

lemma in_ok_fields [simp]:
  "in_ok (i\<lparr>i_attempts := a\<rparr>) = in_ok i" "in_ok (i\<lparr>i_status := s\<rparr>) = in_ok i"
  "in_ok (i\<lparr>i_detail := d\<rparr>) = in_ok i" "in_ok (i\<lparr>i_lastActivityAt := t\<rparr>) = in_ok i"
  "in_ok (i\<lparr>i_sinceAck := n\<rparr>) = in_ok i"
  by (simp_all add: in_defs)

lemma store_parts:
  assumes "parts_ok i" "k < i_total i" "i_parts i ! k = None"
    and "length p = transferChunkLength (th_size (i_header i)) k"
  shows "parts_ok (i\<lparr>i_parts := set_part k p (i_parts i), i_received := Suc (i_received i),
                    i_sinceAck := a, i_attempts := m, i_status := st, i_detail := d,
                    i_lastActivityAt := t\<rparr>)"
  using assms
  by (auto simp: parts_ok_def set_part_inside have_indices_update nth_list_update)

lemma inv_complete:
  assumes inv: "engine_inv e" and get: "reg_get (e_inc e) (i_bucketId i) (i_id i) = Some j"
    and sz: "th_size (i_header i) = th_size (i_header j)"
    and ok: "parts_ok i" "i_received i = i_total i"
  shows "engine_inv (complete i e)"
proof -
  have "in_ok (i\<lparr>i_completing := True, i_stage := Hashing (concat (map the (i_parts i)))\<rparr>)"
    using ok complete_parts(2) [OF ok] by (simp add: in_defs)
  then have "engine_inv (upd_in (i\<lparr>i_completing := True,
                                   i_stage := Hashing (concat (map the (i_parts i)))\<rparr>) e)"
    using inv get sz by (intro inv_upd_in [where j = j]) simp_all
  then show ?thesis
    unfolding complete_def complete_parts(3) [OF ok] by simp
qed

lemma inv_store_chunk:
  assumes inv: "engine_inv e" and get: "reg_get (e_inc e) (i_bucketId i) (i_id i) = Some i"
    and c: "tc_index c < i_total i"
      "length (tc_data c) = transferChunkLength (th_size (i_header i)) (tc_index c)"
  shows "engine_inv (store_chunk v i c e)"
proof (cases "i_completing i \<or> part_present (tc_index c) (i_parts i)")
  case True
  then show ?thesis using inv by (simp add: store_chunk_def)
next
  case False
  note i = engine_inv_inD(3) [OF inv get]
  let ?i1 = "i\<lparr>i_parts := set_part (tc_index c) (tc_data c) (i_parts i),
               i_received := Suc (i_received i), i_sinceAck := Suc (i_sinceAck i),
               i_attempts := 0, i_status := Active, i_detail := None,
               i_lastActivityAt := v_now v\<rparr>"
  have parts: "parts_ok ?i1"
    using i c False by (intro store_parts) (auto simp: in_defs part_present_def)
  show ?thesis
  proof (cases "Suc (i_received i) = i_total i")
    case True
    then have "engine_inv (complete ?i1 e)"
      using inv get parts by (intro inv_complete) auto
    with True False show ?thesis by (simp add: store_chunk_def Let_def)
  next
    case more: False
    have "Suc (i_received i) \<le> i_total i"
      using parts count_parts_le [of "i_parts ?i1"] by (simp add: parts_ok_def)
    with more False i parts have "in_ok ?i1"
      by (auto simp: in_ok_def stage_ok_def)
    moreover from this have "in_ok (?i1\<lparr>i_sinceAck := 0\<rparr>)"
      by (simp only: in_ok_fields)
    ultimately have "engine_inv (upd_in ?i1 e)" "engine_inv (upd_in (?i1\<lparr>i_sinceAck := 0\<rparr>) e)"
      using inv get by (auto intro!: inv_upd_in [where j = i] simp del: in_ok_fields)
    with more False show ?thesis by (simp add: store_chunk_def Let_def)
  qed
qed

lemma inv_handleQuery:
  assumes inv: "engine_inv e"
  shows "engine_inv (handleQuery v b k e)"
proof (cases "reg_get (e_inc e) b k")
  case None
  then show ?thesis using inv by (simp add: handleQuery_def Let_def)
next
  case (Some i)
  note i = engine_inv_inD [OF inv Some]
  have "engine_inv (upd_in (i\<lparr>i_attempts := 0, i_status := Active, i_detail := None,
                             i_lastActivityAt := v_now v\<rparr>) e)"
    using inv Some i by (intro inv_upd_in [where j = i]) simp_all
  then show ?thesis using inv Some by (simp add: handleQuery_def Let_def)
qed

lemma new_incoming_ok:
  assumes "chunk_valid c"
  shows "in_ok (new_incoming v b c oid)"
proof -
  have "have_indices (replicate n None) = []" for n
    by (simp add: have_indices_def)
  then show ?thesis
    using assms by (auto simp: in_defs new_incoming_def chunk_valid_def)
qed

lemma inv_insert_in:
  assumes inv: "engine_inv e" and ok: "in_ok i"
    and absent: "reg_get (e_inc e) (i_bucketId i) (i_id i) = None"
    and room: "length (reg_values (e_inc e) (i_bucketId i)) < l_maxIncomingPerRoom (e_limits e)"
    and bytes: "pending_bytes e (i_bucketId i) + th_size (i_header i)
                \<le> l_maxIncomingBytesPerRoom (e_limits e)"
  shows "engine_inv (ensureTimer (upd_in i (e\<lparr>e_next := n\<rparr>)))" (is "engine_inv ?e'")
proof -
  have fresh: "AList.update (i_id i) i (room_entries (e_inc e) (i_bucketId i))
               = room_entries (e_inc e) (i_bucketId i) @ [(i_id i, i)]"
    using absent by (intro update_absent) (auto simp: reg_get_def map_of_eq_None_iff)
  have "reg_values (e_inc ?e') b =
          (if b = i_bucketId i then reg_values (e_inc e) b @ [i] else reg_values (e_inc e) b)" for b
    by (simp add: reg_values_def room_entries_put fresh)
  then have "quota_ok ?e'"
    using inv room bytes by (simp add: engine_inv_def quota_ok_def pending_bytes_def)
  moreover have "ins_ok ?e'"
    using inv ok ins_ok_upd [of "e\<lparr>e_next := n\<rparr>" i]
      ins_ok_cong [of "e\<lparr>e_next := n\<rparr>" e] ins_ok_cong [of ?e' "upd_in i (e\<lparr>e_next := n\<rparr>)"]
    by (simp add: engine_inv_def)
  ultimately show ?thesis
    using inv outs_ok_cong [of ?e' e] by (simp add: engine_inv_def timer_ok_def)
qed

lemma new_incoming_fields [simp]:
  "i_bucketId (new_incoming v b c oid) = b" "i_id (new_incoming v b c oid) = tc_id c"
  "i_header (new_incoming v b c oid) = tc_header c" "i_total (new_incoming v b c oid) = tc_total c"
  "i_oid (new_incoming v b c oid) = oid" "i_completing (new_incoming v b c oid) = False"
  "i_parts (new_incoming v b c oid) = replicate (tc_total c) None"
  "i_received (new_incoming v b c oid) = 0" "i_sinceAck (new_incoming v b c oid) = 0"
  by (simp_all add: new_incoming_def)

lemma inv_handleChunk:
  assumes inv: "engine_inv e" and valid: "chunk_valid c"
  shows "engine_inv (handleChunk v b c e)"
proof (cases "reg_get (e_inc e) b (tc_id c)")
  case (Some i)
  note i = engine_inv_inD [OF inv Some]
  have "engine_inv (store_chunk v i c e)"
    if "sameHeader (i_header i) (tc_header c)" "i_total i = tc_total c"
    using that inv Some i valid
    by (intro inv_store_chunk) (simp_all add: sameHeader_def chunk_valid_def)
  then show ?thesis using Some inv by (simp add: handleChunk_def)
next
  case None
  let ?i = "new_incoming v b c (e_next e)"
  let ?e1 = "ensureTimer (upd_in ?i (e\<lparr>e_next := Suc (e_next e)\<rparr>))"
  let ?e2 = "if v_hasStorageFor v
             then emit (StorageAsked b (i_id ?i) (i_oid ?i) (th_size (tc_header c))) ?e1 else ?e1"
  have "engine_inv (store_chunk v ?i c ?e2)"
    if "length (reg_values (e_inc e) b) < l_maxIncomingPerRoom (e_limits e)"
      "pending_bytes e b + th_size (tc_header c) \<le> l_maxIncomingBytesPerRoom (e_limits e)"
  proof (rule inv_store_chunk)
    have "engine_inv ?e1"
      using inv new_incoming_ok [OF valid] None that by (intro inv_insert_in) simp_all
    then show "engine_inv ?e2" by simp
    show "reg_get (e_inc ?e2) (i_bucketId ?i) (i_id ?i) = Some ?i"
      using engine_inv_wf [OF inv] by (simp add: reg_get_put)
    show "tc_index c < i_total ?i"
      "length (tc_data c) = transferChunkLength (th_size (i_header ?i)) (tc_index c)"
      using valid by (simp_all add: chunk_valid_def)
  qed
  then show ?thesis
    using None inv by (auto simp: handleChunk_def Let_def not_le not_less)
qed

lemma inv_storage_answer:
  assumes "engine_inv e"
  shows "engine_inv (storage_answer v b k oid ok e)"
  using assms by (simp add: storage_answer_def inv_deleteIn split: option.split)

text \<open>All parts dropped: the transfer waits for every chunk again.\<close>

lemma in_ok_emptied:
  assumes "parts_ok i"
  shows "in_ok (i\<lparr>i_attempts := a, i_parts := map (\<lambda>_. None) (i_parts i), i_received := 0,
                 i_sinceAck := n, i_completing := False, i_stage := Receiving\<rparr>)"
proof -
  have "have_indices (map (\<lambda>_. None) ps) = []" for ps :: "bytes option list"
    by (simp add: have_indices_def)
  then show ?thesis using assms by (auto simp: in_defs)
qed

lemma inv_complete_hashed:
  assumes inv: "engine_inv e"
  shows "engine_inv (complete_hashed sha v b k oid e)"
proof (cases "live_in b k oid e")
  case None
  then show ?thesis using inv by (simp add: complete_hashed_def)
next
  case (Some i)
  then have get: "reg_get (e_inc e) b k = Some i" by (simp add: live_in_Some)
  note i = engine_inv_inD [OF inv get]
  show ?thesis
  proof (cases "\<exists>acc. i_stage i = Hashing acc")
    case False
    then show ?thesis
      using Some inv by (auto simp: complete_hashed_def split: stage.split)
  next
    case True
    then obtain acc where acc: "i_stage i = Hashing acc" ..
    let ?i1 = "i\<lparr>i_attempts := Suc (i_attempts i), i_parts := map (\<lambda>_. None) (i_parts i),
                 i_received := 0, i_sinceAck := 0, i_completing := False, i_stage := Receiving\<rparr>"
    let ?i2 = "?i1\<lparr>i_lastActivityAt := v_now v\<rparr>"
    have "in_ok ?i1" using i(3) in_ok_emptied [where i = i and a = "Suc (i_attempts i)" and n = 0] by (simp add: in_ok_def)
    then have "in_ok ?i2" by (simp only: in_ok_fields)
    then have inv2: "engine_inv (upd_in ?i2 e)"
      using inv get i by (intro inv_upd_in [where j = i]) simp_all
    have "in_ok (i\<lparr>i_stage := Delivering\<rparr>)"
      using i(3) acc by (auto simp: in_defs split: if_splits)
    then have inv3: "engine_inv (upd_in (i\<lparr>i_stage := Delivering\<rparr>) e)"
      using inv get i by (intro inv_upd_in [where j = i]) simp_all
    have inv4: "engine_inv (f\<lparr>e_delivering := xs\<rparr>) = engine_inv f" for f xs
      by (rule engine_inv_cong) simp_all
    show ?thesis
      using Some acc inv inv2 inv3
      by (simp add: complete_hashed_def Let_def inv4 inv_deleteIn)
  qed
qed

lemma inv_deliver_settled:
  assumes inv: "engine_inv e"
  shows "engine_inv (deliver_settled v oid ok e)"
proof (cases "find (\<lambda>i. i_oid i = oid) (e_delivering e)")
  case None
  then show ?thesis using inv by (simp add: deliver_settled_def)
next
  case (Some i)
  let ?e1 = "e\<lparr>e_delivering := filter (\<lambda>j. i_oid j \<noteq> oid) (e_delivering e)\<rparr>"
  have inv1: "engine_inv ?e1" using inv engine_inv_cong [of ?e1 e] by simp
  have "engine_inv (case live_in (i_bucketId i) (i_id i) oid ?e1 of
          None \<Rightarrow> ?e1
        | Some j \<Rightarrow> upd_in (j\<lparr>i_parts := map (\<lambda>_. None) (i_parts j), i_received := 0,
                             i_completing := False, i_status := Failed, i_detail := Some d,
                             i_lastActivityAt := v_now v, i_stage := Receiving\<rparr>) ?e1)" for d
  proof (cases "live_in (i_bucketId i) (i_id i) oid ?e1")
    case None
    then show ?thesis using inv1 by simp
  next
    case (Some j)
    then have get: "reg_get (e_inc ?e1) (i_bucketId i) (i_id i) = Some j" by (simp add: live_in_Some)
    note j = engine_inv_inD [OF inv1 get]
    have "in_ok (j\<lparr>i_attempts := i_attempts j, i_parts := map (\<lambda>_. None) (i_parts j),
                  i_received := 0, i_sinceAck := i_sinceAck j, i_completing := False,
                  i_stage := Receiving\<rparr>)"
      using j(3) by (intro in_ok_emptied) (simp add: in_ok_def)
    then have "in_ok (j\<lparr>i_parts := map (\<lambda>_. None) (i_parts j), i_received := 0,
                        i_completing := False, i_status := Failed, i_detail := Some d,
                        i_lastActivityAt := v_now v, i_stage := Receiving\<rparr>)"
      by (simp add: in_defs)
    then show ?thesis
      using inv1 get j Some by (auto intro!: inv_upd_in [where j = j])
  qed
  then show ?thesis
    using Some inv1 by (simp add: deliver_settled_def Let_def inv_deleteIn)
qed

section \<open>Lifecycle operations and the timer\<close>

lemma inv_requery:
  assumes "engine_inv e" "reg_get (e_out e) b k = Some x"
  shows "engine_inv (requery v x e)"
proof -
  note x = engine_inv_outD [OF assms]
  have "out_ok (l_window (e_limits e)) (reset_out x)"
    using x(3) by (auto simp: out_defs reset_out_def)
  then show ?thesis
    using assms x by (auto simp: requery_def split_beta reset_out_def intro!: inv_upd_out)
qed

lemma in_ok_reset [simp]: "in_ok (reset_in v i) = in_ok i"
  by (simp add: reset_in_def)

lemma reset_in_fields [simp]:
  "i_bucketId (reset_in v i) = i_bucketId i" "i_id (reset_in v i) = i_id i"
  "i_header (reset_in v i) = i_header i"
  by (simp_all add: reset_in_def)

lemma inv_upd_same:
  assumes "engine_inv e" "reg_get (e_inc e) b k = Some j"
    and "i_bucketId i = i_bucketId j" "i_id i = i_id j" "i_header i = i_header j"
    and "in_ok j \<Longrightarrow> in_ok i"
  shows "engine_inv (upd_in i e)"
  using assms engine_inv_inD [OF assms(1,2)] by (intro inv_upd_in [where j = j]) auto

lemma inv_reask:
  assumes "engine_inv e" "reg_get (e_inc e) b k = Some i"
  shows "engine_inv (reask v i e)"
  using inv_upd_same [OF assms, of "reset_in v i"] assms(1)
  by (simp add: reask_def Let_def)

lemma inv_onConnected: "engine_inv e \<Longrightarrow> engine_inv (onConnected v b e)"
  unfolding onConnected_def Let_def
  by (auto intro!: visit_inv [where P = engine_inv] inv_requery inv_reask)

lemma inv_pause_out:
  assumes "engine_inv e" "reg_get (e_out e) b k = Some x"
  shows "engine_inv (pause_out x e)"
  using assms engine_inv_outD [OF assms]
  by (auto simp: pause_out_def out_defs intro!: inv_upd_out)

lemma inv_pause_in:
  assumes "engine_inv e" "reg_get (e_inc e) b k = Some i"
  shows "engine_inv (pause_in i e)"
  using inv_upd_same [OF assms, of "i\<lparr>i_status := Waiting\<rparr>"] assms(1)
  by (simp add: pause_in_def)

lemma inv_onDisconnected: "engine_inv e \<Longrightarrow> engine_inv (onDisconnected b e)"
  unfolding onDisconnected_def Let_def
  by (auto intro!: visit_inv [where P = engine_inv] inv_pause_out inv_pause_in)

lemma engine_inv_ensureTimer [simp]: "engine_inv e \<Longrightarrow> engine_inv (ensureTimer e)"
  using outs_ok_cong [of "ensureTimer e" e] ins_ok_cong [of "ensureTimer e" e]
    quota_ok_cong [of "ensureTimer e" e]
  by (simp add: engine_inv_def timer_ok_def)

lemma inv_retry:
  assumes inv: "engine_inv e"
  shows "engine_inv (retry v b k e)"
proof -
  let ?e1 = "case reg_get (e_out e) b k of None \<Rightarrow> e | Some x \<Rightarrow> requery v x e"
  have inv1: "engine_inv ?e1"
    using inv by (auto simp: inv_requery split: option.split)
  have "engine_inv (case reg_get (e_inc ?e1) b k of
                      None \<Rightarrow> ?e1
                    | Some i \<Rightarrow> if i_completing i then ?e1
                        else sendAck v (reset_in v i) True False (upd_in (reset_in v i) ?e1))"
  proof (cases "reg_get (e_inc ?e1) b k")
    case None
    then show ?thesis using inv1 by (simp only: option.case)
  next
    case (Some i)
    have "engine_inv (upd_in (reset_in v i) ?e1)"
      by (rule inv_upd_same [OF inv1 Some]) simp_all
    then show ?thesis
      using inv1 unfolding Some by (simp only: option.case engine_inv_quiet split: if_split) blast
  qed
  then show ?thesis
    unfolding retry_def Let_def by (simp only: engine_inv_quiet engine_inv_ensureTimer)
qed

lemma inv_drop_both: "engine_inv e \<Longrightarrow> engine_inv (drop_both xo io e)"
  by (auto simp: drop_both_def Let_def inv_deleteOut inv_deleteIn split: option.split)

lemma inv_cancel: "engine_inv e \<Longrightarrow> engine_inv (cancel v b k e)"
  unfolding cancel_def Let_def
  by (simp only: if_distrib [of engine_inv] engine_inv_quiet if_cancel inv_drop_both)

lemma inv_forget: "engine_inv e \<Longrightarrow> engine_inv (forget b k e)"
  unfolding forget_def Let_def
  by (simp only: if_distrib [of engine_inv] engine_inv_quiet if_cancel inv_drop_both)

lemma inv_clearBucket:
  assumes "engine_inv e"
  shows "engine_inv (clearBucket b f e)"
proof -
  have "stopTimerIfIdle (emit a d) = emit a (stopTimerIfIdle d)" for a d
    by (simp add: stopTimerIfIdle_def emit_def)
  then show ?thesis
    using inv_drop_rooms [OF assms, of b] by (simp add: clearBucket_def Let_def)
qed


lemma inv_tick_out:
  assumes inv: "engine_inv e" and get: "reg_get (e_out e) b k = Some x"
  shows "engine_inv (fst (tick_out v x (e, touched)))"
proof -
  note x = engine_inv_outD [OF inv get]
  have upd: "engine_inv (upd_out y e')"
    if "e_out e' = e_out e" "engine_inv e'" "o_bucketId y = b" "o_id y = k"
      "out_ok (l_window (e_limits e')) y" for y e'
    using that get by (intro inv_upd_out) auto
  have "engine_inv (upd_out (fst (query v y e)) (snd (query v y e)))"
    if "o_bucketId y = b" "o_id y = k" "out_ok (l_window (e_limits e)) y" for y
    using that inv by (intro upd) auto
  moreover have "engine_inv (pump v x e)"
    using inv get x by (intro inv_pump) auto
  moreover have "out_ok (l_window (e_limits e)) (x\<lparr>o_status := Active\<rparr>)"
    "out_ok (l_window (e_limits e)) (x\<lparr>o_attempts := a\<rparr>)"
    "out_ok (l_window (e_limits e)) (x\<lparr>o_attempts := a, o_status := Failed, o_detail := d, o_inFlight := []\<rparr>)"
    for a d
    using x(3) by (auto simp: out_defs)
  ultimately show ?thesis
    using inv x upd by (simp add: tick_out_def Let_def split_beta)
qed

lemma inv_tick_in:
  assumes inv: "engine_inv e" and get: "reg_get (e_inc e) b k = Some i"
  shows "engine_inv (fst (tick_in v i (e, touched)))"
proof -
  note upd = inv_upd_same [OF inv get]
  have "engine_inv (upd_in (i\<lparr>i_lastActivityAt := t, i_status := st\<rparr>) e)"
    "engine_inv (upd_in (i\<lparr>i_lastActivityAt := t\<rparr>) e)"
    "engine_inv (upd_in (i\<lparr>i_lastActivityAt := t, i_attempts := a, i_status := st\<rparr>) e)"
    "engine_inv (upd_in (i\<lparr>i_lastActivityAt := t, i_attempts := a, i_status := st, i_detail := d\<rparr>) e)"
    for t a st d
    by (rule upd; simp)+
  then show ?thesis
    using inv inv_deleteIn [OF inv] by (simp add: tick_in_def Let_def)
qed

lemma inv_fold_publish: "engine_inv e \<Longrightarrow> engine_inv (fold publish bs e)"
  by (induction bs arbitrary: e) auto

lemma inv_tick:
  assumes "engine_inv e"
  shows "engine_inv (tick v e)"
proof -
  have out: "engine_inv (fst (visit (\<lambda>et. e_out (fst et)) (tick_out v) keys (e, [])))" for keys
  proof (rule visit_inv [where P = "\<lambda>et. engine_inv (fst et)"])
    show "engine_inv (fst (tick_out v x et))"
      if "engine_inv (fst et)" "reg_get (e_out (fst et)) b k = Some x" for b k x et
      using inv_tick_out [OF that, where touched = "snd et"] by simp
  qed (simp add: assms)
  have "engine_inv (fst (visit (\<lambda>et. e_inc (fst et)) (tick_in v) keys et))"
    if "engine_inv (fst et)" for keys et
  proof (rule visit_inv [where P = "\<lambda>et. engine_inv (fst et)"])
    show "engine_inv (fst (tick_in v i et))"
      if "engine_inv (fst et)" "reg_get (e_inc (fst et)) b k = Some i" for b k i et
      using inv_tick_in [OF that, where touched = "snd et"] by simp
  qed (rule that)
  with out show ?thesis
    by (simp add: tick_def Let_def inv_fold_publish)
qed

section \<open>The machine\<close>

text \<open>
  What the callers guarantee: \<open>startSend\<close> has checked the size before it hashes, and \<open>onMessage\<close>
  passes on chunks that \<open>decodePlaintext\<close> has accepted. Nothing is assumed of the other events: any
  promise may settle at any time, and a partner may send any acknowledgement.
\<close>

fun event_enabled :: "env \<times> event \<Rightarrow> engine \<Rightarrow> bool" where
  "event_enabled (v, EvStartHashed b p resume) e = (length (p_data p) \<le> MAX_TRANSFER_BYTES)"
| "event_enabled (v, EvChunk b c) e = chunk_valid c"
| "event_enabled (v, _) e = True"

lemma inv_engine_step:
  assumes inv: "engine_inv e" and en: "event_enabled ve e"
  shows "engine_inv (engine_step sha ve e)"
proof -
  obtain v ev where ve: "ve = (v, ev)" by (cases ve)
  show ?thesis
    using inv en unfolding ve
    by (cases ev)
      (simp_all add: inv_startSend inv_pump_resume inv_handleAck inv_handleCancel inv_handleQuery
        inv_handleChunk inv_storage_answer inv_complete_hashed inv_deliver_settled inv_onConnected
        inv_onDisconnected inv_retry inv_cancel inv_forget inv_clearBucket inv_clearAll inv_tick)
qed

lemma inv_new_engine: "engine_inv (new_engine lm)"
  by (simp add: new_engine_def engine_inv_def outs_ok_def ins_ok_def quota_ok_def timer_ok_def
      pending_bytes_def reg_values_def reg_get_def)

interpretation engine: event_system "engine_step sha" event_enabled engine_inv
  by unfold_locales (rule inv_engine_step)

end
