(* ===== verification/TransferTrace.thy ===== *)
theory TransferTrace
  imports TransferInv
begin

text \<open>
  Where the bytes of a delivered message come from. \<open>calm e e'\<close> says that a step hands no message to
  \<open>deliver\<close>, creates no incoming transfer and gives none a new part; every operation is calm except
  \<open>handleChunk\<close> and the continuation of \<open>complete\<close>. The invariant \<open>provenance\<close> ties every stored part
  to a chunk that has arrived, over any run of the engine.
\<close>

section \<open>Deliveries and steps without any\<close>

fun deliveries :: "effect list \<Rightarrow> (jstr \<times> stored_message) list" where
  "deliveries [] = []"
| "deliveries (DeliverAsked b m # xs) = (b, m) # deliveries xs"
| "deliveries (_ # xs) = deliveries xs"

lemma deliveries_append [simp]: "deliveries (xs @ ys) = deliveries xs @ deliveries ys"
  by (induction xs rule: deliveries.induct) auto

definition part_at :: "incoming \<Rightarrow> nat \<Rightarrow> bytes option" where
  "part_at i k = (if k < length (i_parts i) then i_parts i ! k else None)"

definition derived :: "incoming \<Rightarrow> incoming \<Rightarrow> bool" where
  "derived i j \<longleftrightarrow> i_header j = i_header i \<and> (\<forall>k p. part_at j k = Some p \<longrightarrow> part_at i k = Some p)"

definition calm :: "engine \<Rightarrow> engine \<Rightarrow> bool" where
  "calm e e' \<longleftrightarrow> e_limits e' = e_limits e \<and> deliveries (e_log e') = deliveries (e_log e) \<and>
     (\<forall>b k j. reg_get (e_inc e') b k = Some j \<longrightarrow>
        (\<exists>i. reg_get (e_inc e) b k = Some i \<and> derived i j))"

lemma derived_refl [simp]: "derived i i"
  by (simp add: derived_def)

lemma derived_trans: "derived i j \<Longrightarrow> derived j k \<Longrightarrow> derived i k"
  by (simp add: derived_def)

lemma derived_fields [simp]:
  "derived i (j\<lparr>i_attempts := a\<rparr>) = derived i j" "derived i (j\<lparr>i_status := st\<rparr>) = derived i j"
  "derived i (j\<lparr>i_detail := d\<rparr>) = derived i j" "derived i (j\<lparr>i_lastActivityAt := t\<rparr>) = derived i j"
  "derived i (j\<lparr>i_sinceAck := n\<rparr>) = derived i j" "derived i (j\<lparr>i_received := n\<rparr>) = derived i j"
  "derived i (j\<lparr>i_completing := c\<rparr>) = derived i j" "derived i (j\<lparr>i_stage := sg\<rparr>) = derived i j"
  "derived i (reset_in v j) = derived i j"
  by (simp_all add: derived_def part_at_def reset_in_def)

lemma derived_emptied [simp]: "derived i (i\<lparr>i_parts := map (\<lambda>_. None) (i_parts i)\<rparr>)"
  by (simp add: derived_def part_at_def)

lemma calm_refl [simp]: "calm e e"
  by (auto simp: calm_def)

lemma calm_trans: "calm e f \<Longrightarrow> calm f g \<Longrightarrow> calm e g"
  unfolding calm_def by (metis derived_trans)

lemma calm_same:
  assumes "e_inc e' = e_inc e" "e_limits e' = e_limits e" "deliveries (e_log e') = deliveries (e_log e)"
  shows "calm e0 e' = calm e0 e"
  using assms by (simp add: calm_def)

lemma calm_quiet [simp]:
  "calm e0 (publish b e) = calm e0 e" "calm e0 (persist b e) = calm e0 e"
  "calm e0 (sendCtl b m e) = calm e0 e" "calm e0 (sendAck v i r d e) = calm e0 e"
  "calm e0 (sendCancel v b k s e) = calm e0 e" "calm e0 (upd_out x e) = calm e0 e"
  "calm e0 (ensureTimer e) = calm e0 e" "calm e0 (stopTimerIfIdle e) = calm e0 e"
  "calm e0 (emit (Sent b m) e) = calm e0 e" "calm e0 (emit (OnDelivered b k) e) = calm e0 e"
  "calm e0 (emit (StorageAsked b k oid n) e) = calm e0 e" "calm e0 (emit (Published b ts) e) = calm e0 e"
  "calm e0 (emit (Persisted b ks) e) = calm e0 e" "calm e0 (deleteOut x e) = calm e0 e"
  "calm e0 (snd (query v x e)) = calm e0 e"
  by (rule calm_same; simp add: emit_wrappers deleteOut_def query_def Let_def)+

lemma calm_upd_in:
  assumes "calm e0 e" "reg_wf (e_inc e)" "reg_get (e_inc e) (i_bucketId j) (i_id j) = Some i" "derived i j"
  shows "calm e0 (upd_in j e)"
  using assms unfolding calm_def
  by (auto simp: reg_get_put) (metis derived_trans)

lemma calm_deleteIn:
  assumes "calm e0 e" "reg_wf (e_inc e)"
  shows "calm e0 (deleteIn i e)"
proof -
  have "e_log (deleteIn i e) = e_log e" by (simp add: deleteIn_def)
  then show ?thesis
    using assms by (auto simp: calm_def reg_get_del split: if_splits)
qed

lemma calm_pump_loop [simp]: "calm e0 (pump_loop v x e) = calm e0 e"
  by (simp add: pump_loop_def split: pump_outcome.split)

lemma calm_pump [simp]: "calm e0 (pump v x e) = calm e0 e"
  by (simp add: pump_def)


section \<open>The calm operations\<close>

lemma calm_upd_same:
  assumes "engine_inv e" "reg_get (e_inc e) b k = Some i"
    and "i_bucketId j = i_bucketId i" "i_id j = i_id i" "derived i j"
  shows "calm e (upd_in j e)"
  using assms engine_inv_inD [OF assms(1,2)] engine_inv_wf [OF assms(1)]
  by (intro calm_upd_in [where i = i]) auto

lemma calm_startSend: "calm e (startSend_hashed sha v b p resume e)"
  by (cases resume)
    (simp_all add: startSend_hashed_def Let_def split_beta calm_same [of "e\<lparr>e_next := n\<rparr>" e for n])

lemma calm_pump_resume: "calm e (pump_resume v b k oid ok e)"
  by (simp add: pump_resume_def Let_def split: option.split)

lemma calm_handleAck: "calm e (handleAck v b ack e)"
  by (simp add: handleAck_def Let_def split: option.split)

lemma calm_handleCancel:
  assumes "engine_inv e"
  shows "calm e (handleCancel b k reason e)"
proof -
  have "reg_wf (e_inc e)" by (rule engine_inv_wf [OF assms])
  then show ?thesis
    by (simp add: handleCancel_def Let_def calm_deleteIn split: option.split)
qed

lemma calm_handleQuery:
  assumes "engine_inv e"
  shows "calm e (handleQuery v b k e)"
  using calm_upd_same [OF assms]
  by (auto simp: handleQuery_def Let_def split: option.split)

lemma calm_storage_answer:
  assumes "engine_inv e"
  shows "calm e (storage_answer v b k oid ok e)"
  using engine_inv_wf [OF assms]
  by (simp add: storage_answer_def calm_deleteIn split: option.split)

lemma calm_requery: "calm e0 (requery v x e) = calm e0 e"
  by (simp add: requery_def split_beta)

lemma calm_visit:
  assumes "engine_inv e0"
    and "\<And>b k y e. engine_inv e \<Longrightarrow> reg_get (reg e) b k = Some y \<Longrightarrow> engine_inv (body y e) \<and> calm e (body y e)"
  shows "engine_inv (visit reg body ks e0) \<and> calm e0 (visit reg body ks e0)"
  by (rule visit_inv [where P = "\<lambda>e. engine_inv e \<and> calm e0 e"])
    (use assms calm_trans in blast, simp add: assms(1))

lemma calm_reask:
  assumes "engine_inv e" "reg_get (e_inc e) b k = Some i"
  shows "calm e (reask v i e)"
  using calm_upd_same [OF assms, of "reset_in v i"] by (simp add: reask_def Let_def)

lemma calm_onConnected:
  assumes "engine_inv e"
  shows "calm e (onConnected v b e)"
proof -
  let ?e1 = "visit e_out (requery v) (room_keys (e_out e) b) e"
  have one: "engine_inv ?e1 \<and> calm e ?e1"
    by (rule calm_visit [OF assms]) (simp add: inv_requery calm_requery)
  have "calm ?e1 (visit e_inc (reask v) ks ?e1)" for ks
    using calm_visit [of ?e1 e_inc "reask v" ks] one by (auto simp: inv_reask calm_reask)
  with one show ?thesis
    by (auto simp: onConnected_def Let_def intro: calm_trans)
qed

lemma calm_pause_in:
  assumes "engine_inv e" "reg_get (e_inc e) b k = Some i"
  shows "calm e (pause_in i e)"
  using calm_upd_same [OF assms, of "i\<lparr>i_status := Waiting\<rparr>"] by (simp add: pause_in_def)

lemma calm_pause_out: "calm e0 (pause_out x e) = calm e0 e"
  by (simp add: pause_out_def)

lemma calm_onDisconnected:
  assumes "engine_inv e"
  shows "calm e (onDisconnected b e)"
proof -
  let ?e1 = "visit e_out pause_out (room_keys (e_out e) b) e"
  have one: "engine_inv ?e1 \<and> calm e ?e1"
    by (rule calm_visit [OF assms]) (auto simp: calm_pause_out inv_pause_out)
  have "calm ?e1 (visit e_inc pause_in ks ?e1)" for ks
    using calm_visit [of ?e1 e_inc pause_in ks] one by (auto simp: inv_pause_in calm_pause_in)
  with one show ?thesis
    by (auto simp: onDisconnected_def Let_def intro: calm_trans)
qed

lemma calm_retry:
  assumes "engine_inv e"
  shows "calm e (retry v b k e)"
proof -
  let ?e1 = "case reg_get (e_out e) b k of None \<Rightarrow> e | Some x \<Rightarrow> requery v x e"
  have inv1: "engine_inv ?e1" and one: "calm e ?e1"
    using assms by (auto simp: inv_requery calm_requery split: option.split)
  have "calm ?e1 (case reg_get (e_inc ?e1) b k of
                    None \<Rightarrow> ?e1
                  | Some i \<Rightarrow> if i_completing i then ?e1
                      else sendAck v (reset_in v i) True False (upd_in (reset_in v i) ?e1))"
  proof (cases "reg_get (e_inc ?e1) b k")
    case None
    then show ?thesis by (simp only: option.case calm_refl)
  next
    case (Some i)
    have "calm ?e1 (upd_in (reset_in v i) ?e1)"
      by (rule calm_upd_same [OF inv1 Some]) simp_all
    then show ?thesis unfolding Some by (simp only: option.case calm_quiet calm_refl split: if_split) blast
  qed
  from calm_trans [OF one this] show ?thesis
    unfolding retry_def Let_def by (simp only: calm_quiet)
qed

lemma calm_drop_both:
  assumes "engine_inv e"
  shows "calm e (drop_both xo io e)"
  using engine_inv_wf [OF assms]
  by (auto simp: drop_both_def Let_def calm_deleteIn split: option.split)

lemma calm_cancel: "engine_inv e \<Longrightarrow> calm e (cancel v b k e)"
  unfolding cancel_def Let_def by (simp only: if_distrib [of "calm e"] calm_quiet if_cancel calm_drop_both)

lemma calm_forget: "engine_inv e \<Longrightarrow> calm e (forget b k e)"
  unfolding forget_def Let_def by (simp only: if_distrib [of "calm e"] calm_quiet if_cancel calm_drop_both)

lemma calm_clearBucket: "engine_inv e \<Longrightarrow> calm e (clearBucket b f e)"
  by (auto simp: clearBucket_def Let_def calm_def reg_get_drop emit_def split: if_splits)

lemma calm_clearAll: "calm e (clearAll e)"
  by (auto simp: clearAll_def calm_def reg_get_def)

lemma calm_tick_out: "calm e0 (fst (tick_out v x (e, ts))) = calm e0 e"
  by (simp add: tick_out_def Let_def split_beta)

lemma calm_tick_in:
  assumes "engine_inv e" "reg_get (e_inc e) b k = Some i"
  shows "calm e (fst (tick_in v i (e, ts)))"
proof -
  note upd = calm_upd_same [OF assms]
  have "calm e (upd_in (i\<lparr>i_lastActivityAt := t, i_status := st\<rparr>) e)"
    "calm e (upd_in (i\<lparr>i_lastActivityAt := t\<rparr>) e)"
    "calm e (upd_in (i\<lparr>i_lastActivityAt := t, i_attempts := a, i_status := st\<rparr>) e)"
    "calm e (upd_in (i\<lparr>i_lastActivityAt := t, i_attempts := a, i_status := st, i_detail := d\<rparr>) e)"
    for t a st d
    by (rule upd; simp)+
  then show ?thesis
    using engine_inv_wf [OF assms(1)] by (simp add: tick_in_def Let_def calm_deleteIn)
qed

lemma calm_fold_publish [simp]: "calm e0 (fold publish bs e) = calm e0 e"
  by (induction bs arbitrary: e) auto

lemma calm_tick:
  assumes "engine_inv e"
  shows "calm e (tick v e)"
proof -
  let ?one = "visit (\<lambda>et. e_out (fst et)) (tick_out v) (reg_keys (e_out e)) (e, [])"
  have one: "engine_inv (fst ?one) \<and> calm e (fst ?one)"
  proof (rule visit_inv [where P = "\<lambda>et. engine_inv (fst et) \<and> calm e (fst et)"])
    show "engine_inv (fst (tick_out v x et)) \<and> calm e (fst (tick_out v x et))"
      if "engine_inv (fst et) \<and> calm e (fst et)" "reg_get (e_out (fst et)) b k = Some x" for b k x et
      using that inv_tick_out [of "fst et" b k x v "snd et"] calm_tick_out [of e v x "fst et" "snd et"]
      by simp
  qed (simp add: assms)
  have "engine_inv (fst (visit (\<lambda>et. e_inc (fst et)) (tick_in v) ks ?one)) \<and>
        calm e (fst (visit (\<lambda>et. e_inc (fst et)) (tick_in v) ks ?one))" for ks
  proof (rule visit_inv [where P = "\<lambda>et. engine_inv (fst et) \<and> calm e (fst et)"])
    show "engine_inv (fst (tick_in v i et)) \<and> calm e (fst (tick_in v i et))"
      if "engine_inv (fst et) \<and> calm e (fst et)" "reg_get (e_inc (fst et)) b k = Some i" for b k i et
      using that inv_tick_in [of "fst et" b k i v "snd et"] calm_tick_in [of "fst et" b k i v "snd et"]
      by (auto intro: calm_trans)
  qed (rule one)
  then show ?thesis by (simp add: tick_def Let_def)
qed


section \<open>Where parts and deliveries come from\<close>

text \<open>The chunks that have arrived so far, each with its room.\<close>

fun chunks_in :: "(env \<times> event) list \<Rightarrow> (jstr \<times> transfer_chunk) set" where
  "chunks_in [] = {}"
| "chunks_in ((v, EvChunk b c) # evs) = insert (b, c) (chunks_in evs)"
| "chunks_in (_ # evs) = chunks_in evs"

lemma chunks_in_append [simp]: "chunks_in (xs @ ys) = chunks_in xs \<union> chunks_in ys"
  by (induction xs rule: chunks_in.induct) auto

text \<open>Chunk \<open>c\<close> of transfer \<open>k\<close> in room \<open>b\<close> has arrived, with the digest and size of header \<open>h\<close>.\<close>

definition arrived ::
    "(jstr \<times> transfer_chunk) set \<Rightarrow> jstr \<Rightarrow> jstr \<Rightarrow> transfer_header \<Rightarrow> transfer_chunk \<Rightarrow> bool" where
  "arrived hist b k h c \<longleftrightarrow>
     (b, c) \<in> hist \<and> tc_id c = k \<and> th_sha256 (tc_header c) = th_sha256 h \<and>
     th_size (tc_header c) = th_size h"

definition from_chunks :: "(jstr \<times> transfer_chunk) set \<Rightarrow> jstr \<Rightarrow> jstr \<Rightarrow> incoming \<Rightarrow> bool" where
  "from_chunks hist b k i \<longleftrightarrow>
     (\<exists>c. arrived hist b k (i_header i) c) \<and>
     (\<forall>n p. part_at i n = Some p \<longrightarrow>
        (\<exists>c. arrived hist b k (i_header i) c \<and> tc_index c = n \<and> tc_data c = p))"

fun content_data :: "content \<Rightarrow> bytes" where
  "content_data (Image im) = im_data im"
| "content_data (File fl) = fl_data fl"
| "content_data _ = []"

text \<open>
  The message \<open>m\<close> carries data whose digest is the one announced for its id, and each of its pieces is
  the payload of a chunk that has arrived.
\<close>

definition genuine ::
    "(bytes \<Rightarrow> jstr) \<Rightarrow> (jstr \<times> transfer_chunk) set \<Rightarrow> jstr \<Rightarrow> stored_message \<Rightarrow> bool" where
  "genuine sha hist b m \<longleftrightarrow>
     (let data = content_data (sm_content m)
      in \<exists>h. th_sha256 h = sha data \<and> th_size h = length data \<and>
           (\<forall>n < transferChunkCount (length data).
              \<exists>c. arrived hist b (sm_id m) h c \<and> tc_index c = n \<and>
                  tc_data c = slice_at TRANSFER_CHUNK_BYTES data n))"

definition provenance ::
    "(bytes \<Rightarrow> jstr) \<Rightarrow> (jstr \<times> transfer_chunk) set \<Rightarrow> engine \<Rightarrow> bool" where
  "provenance sha hist e \<longleftrightarrow>
     (\<forall>b k i. reg_get (e_inc e) b k = Some i \<longrightarrow> from_chunks hist b k i) \<and>
     (\<forall>(b, m) \<in> set (deliveries (e_log e)). genuine sha hist b m)"

lemma arrived_mono: "arrived hist b k h c \<Longrightarrow> hist \<subseteq> hist' \<Longrightarrow> arrived hist' b k h c"
  by (auto simp: arrived_def)

lemma from_chunks_mono: "from_chunks hist b k i \<Longrightarrow> hist \<subseteq> hist' \<Longrightarrow> from_chunks hist' b k i"
  unfolding from_chunks_def by (meson arrived_mono)

lemma genuine_mono: "genuine sha hist b m \<Longrightarrow> hist \<subseteq> hist' \<Longrightarrow> genuine sha hist' b m"
  unfolding genuine_def Let_def by (meson arrived_mono)

lemma provenance_mono: "provenance sha hist e \<Longrightarrow> hist \<subseteq> hist' \<Longrightarrow> provenance sha hist' e"
  unfolding provenance_def by (fast intro: from_chunks_mono genuine_mono)

lemma from_chunks_derived: "from_chunks hist b k i \<Longrightarrow> derived i j \<Longrightarrow> from_chunks hist b k j"
  by (auto simp: from_chunks_def derived_def)

lemma provenance_calm:
  assumes "provenance sha hist e" "calm e e'"
  shows "provenance sha hist e'"
  using assms unfolding provenance_def calm_def by (metis from_chunks_derived)

text \<open>An arriving chunk: the transfer it belongs to is new or keeps its header, and gains its part.\<close>

lemma from_chunks_set_part:
  assumes "from_chunks hist b k i" "arrived hist b k (i_header i) c" "tc_index c < length (i_parts i)"
    and "i_header j = i_header i" "i_parts j = set_part (tc_index c) (tc_data c) (i_parts i)"
  shows "from_chunks hist b k j"
  using assms by (auto simp: from_chunks_def part_at_def set_part_inside nth_list_update)

lemma provenance_upd_in:
  assumes "provenance sha hist e" "reg_wf (e_inc e)" "from_chunks hist (i_bucketId j) (i_id j) j"
  shows "provenance sha hist (upd_in j e)"
  using assms by (auto simp: provenance_def reg_get_put)

lemma provenance_quiet:
  assumes "e_inc e' = e_inc e" "deliveries (e_log e') = deliveries (e_log e)"
  shows "provenance sha hist e' = provenance sha hist e"
  using assms by (simp add: provenance_def)

lemma provenance_emits [simp]:
  "provenance sha hist (publish b e) = provenance sha hist e"
  "provenance sha hist (sendAck v i r d e) = provenance sha hist e"
  "provenance sha hist (sendCancel v b k s e) = provenance sha hist e"
  "provenance sha hist (sendCtl b m e) = provenance sha hist e"
  "provenance sha hist (ensureTimer e) = provenance sha hist e"
  "provenance sha hist (emit (StorageAsked b k oid n) e) = provenance sha hist e"
  by (rule provenance_quiet; simp add: emit_wrappers)+

lemma provenance_store_chunk:
  assumes "provenance sha hist e" "engine_inv e" "reg_get (e_inc e) (i_bucketId i) (i_id i) = Some i"
    and "arrived hist (i_bucketId i) (i_id i) (i_header i) c" "tc_index c < i_total i"
  shows "provenance sha hist (store_chunk v i c e)"
proof -
  have prior: "from_chunks hist (i_bucketId i) (i_id i) i"
    using assms(1,3) by (simp add: provenance_def)
  have len: "tc_index c < length (i_parts i)"
    using engine_inv_inD(3) [OF assms(2,3)] assms(5) by (simp add: in_defs)
  have upd: "provenance sha hist (upd_in j e)"
    if "i_bucketId j = i_bucketId i" "i_id j = i_id i" "i_header j = i_header i"
      "i_parts j = set_part (tc_index c) (tc_data c) (i_parts i)" for j
    using that provenance_upd_in [OF assms(1) engine_inv_wf(2) [OF assms(2)], of j]
      from_chunks_set_part [OF prior assms(4) len that(3,4)] by simp
  show ?thesis
    by (auto simp: store_chunk_def complete_def Let_def upd assms(1) split: placement.split)
qed

lemma provenance_handleChunk:
  assumes prov: "provenance sha hist e" and inv: "engine_inv e" and valid: "chunk_valid c"
    and new: "(b, c) \<in> hist"
  shows "provenance sha hist (handleChunk v b c e)"
proof (cases "reg_get (e_inc e) b (tc_id c)")
  case (Some i)
  note i = engine_inv_inD [OF inv Some]
  have "provenance sha hist (store_chunk v i c e)"
    if "sameHeader (i_header i) (tc_header c)" "i_total i = tc_total c"
    using that prov inv Some i valid new
    by (intro provenance_store_chunk) (auto simp: sameHeader_def chunk_valid_def arrived_def)
  then show ?thesis using Some prov by (simp add: handleChunk_def)
next
  case None
  let ?i = "new_incoming v b c (e_next e)"
  let ?e1 = "ensureTimer (upd_in ?i (e\<lparr>e_next := Suc (e_next e)\<rparr>))"
  let ?e2 = "if v_hasStorageFor v
             then emit (StorageAsked b (i_id ?i) (i_oid ?i) (th_size (tc_header c))) ?e1 else ?e1"
  have "provenance sha hist (store_chunk v ?i c ?e2)"
    if "length (reg_values (e_inc e) b) < l_maxIncomingPerRoom (e_limits e)"
      "pending_bytes e b + th_size (tc_header c) \<le> l_maxIncomingBytesPerRoom (e_limits e)"
  proof (rule provenance_store_chunk)
    have "from_chunks hist b (tc_id c) ?i"
      using new by (auto simp: from_chunks_def arrived_def part_at_def new_incoming_def)
    then have "provenance sha hist (upd_in ?i (e\<lparr>e_next := Suc (e_next e)\<rparr>))"
      using prov engine_inv_wf [OF inv]
      by (intro provenance_upd_in) (simp_all add: provenance_def)
    then show "provenance sha hist ?e2" by simp
    have "engine_inv ?e1"
      using inv new_incoming_ok [OF valid] None that by (intro inv_insert_in) simp_all
    then show "engine_inv ?e2" by simp
    show "reg_get (e_inc ?e2) (i_bucketId ?i) (i_id ?i) = Some ?i"
      using engine_inv_wf [OF inv] by (simp add: reg_get_put)
    show "arrived hist (i_bucketId ?i) (i_id ?i) (i_header ?i) c" "tc_index c < i_total ?i"
      using valid new by (simp_all add: chunk_valid_def arrived_def)
  qed
  then show ?thesis
    using None prov by (auto simp: handleChunk_def Let_def not_le not_less)
qed


text \<open>Putting pieces of the right lengths together and cutting again gives the pieces back.\<close>

lemma slice_at_concat:
  assumes "k < length ps" "\<And>j. j < length ps \<Longrightarrow> length (ps ! j) \<le> cs"
    and "\<And>j. Suc j < length ps \<Longrightarrow> length (ps ! j) = cs"
  shows "slice_at cs (concat ps) k = ps ! k"
  using assms
proof (induction ps arbitrary: k)
  case Nil
  then show ?case by simp
next
  case (Cons p ps)
  have le: "length (ps ! j) \<le> cs" if "j < length ps" for j
    using Cons.prems(2) [of "Suc j"] that by simp
  have eq: "length (ps ! j) = cs" if "Suc j < length ps" for j
    using Cons.prems(3) [of "Suc j"] that by simp
  have p: "length p \<le> cs" "ps \<noteq> [] \<Longrightarrow> length p = cs"
    using Cons.prems(2,3) [of 0] by auto
  show ?case
  proof (cases k)
    case 0
    then show ?thesis using p by (cases "ps = []") (simp_all add: slice_at_def)
  next
    case (Suc k')
    then have "k' < length ps" using Cons.prems(1) by simp
    moreover from this have "length p = cs" by (intro p(2)) auto
    ultimately show ?thesis
      using Cons.IH [of k'] le eq Suc by (simp add: slice_at_def)
  qed
qed

text \<open>The buffer that \<open>complete\<close> hashes is cut by the chunks' positions into the stored parts.\<close>

lemma transferChunkLength_cases:
  assumes "k < transferChunkCount n"
  shows "transferChunkLength n k \<le> TRANSFER_CHUNK_BYTES"
    and "Suc k < transferChunkCount n \<Longrightarrow> transferChunkLength n k = TRANSFER_CHUNK_BYTES"
proof -
  have len: "transferChunkLength n k = min TRANSFER_CHUNK_BYTES (n - k * TRANSFER_CHUNK_BYTES)"
    using transferChunkLength_slice [of "replicate n (0::nat)" k] by (simp add: length_slice_at)
  then show "transferChunkLength n k \<le> TRANSFER_CHUNK_BYTES" by simp
  assume more: "Suc k < transferChunkCount n"
  have "0 < TRANSFER_CHUNK_BYTES" by (simp add: limit_defs)
  moreover have "0 < n"
  proof (rule ccontr)
    assume "\<not> 0 < n"
    then have "transferChunkCount n \<le> 1"
      unfolding transferChunkCount_pieces by (intro piece_count_le) (simp_all add: limit_defs)
    with more show False by simp
  qed
  ultimately have "\<not> n \<le> Suc k * TRANSFER_CHUNK_BYTES"
    using piece_count_le [of TRANSFER_CHUNK_BYTES n "Suc k"] more
    by (auto simp: transferChunkCount_pieces)
  then show "transferChunkLength n k = TRANSFER_CHUNK_BYTES"
    unfolding len by simp
qed

lemma buffer_pieces:
  assumes "in_ok i" "i_stage i = Hashing acc" "n < transferChunkCount (th_size (i_header i))"
  shows "length acc = th_size (i_header i)"
    and "part_at i n = Some (slice_at TRANSFER_CHUNK_BYTES acc n)"
proof -
  have parts: "parts_ok i" "i_received i = i_total i" and acc: "acc = concat (map the (i_parts i))"
    and len: "length acc = th_size (i_header i)"
    using assms(1,2) by (auto simp: in_defs split: if_splits)
  show "length acc = th_size (i_header i)" by (rule len)
  have tot: "length (i_parts i) = transferChunkCount (th_size (i_header i))"
    using parts by (simp add: parts_ok_def)
  have part: "\<exists>p. i_parts i ! j = Some p \<and> length p = transferChunkLength (th_size (i_header i)) j"
    if "j < length (i_parts i)" for j
  proof -
    have "i_parts i ! j \<noteq> None" using complete_parts(1) [OF parts] that by auto
    then show ?thesis using parts(1) that by (auto simp: parts_ok_def)
  qed
  have "slice_at TRANSFER_CHUNK_BYTES acc n = map the (i_parts i) ! n"
    unfolding acc
  proof (rule slice_at_concat)
    show "n < length (map the (i_parts i))" using assms(3) tot by simp
    fix j
    assume "j < length (map the (i_parts i))"
    then show "length (map the (i_parts i) ! j) \<le> TRANSFER_CHUNK_BYTES"
      using part [of j] transferChunkLength_cases(1) [of j] tot by auto
  next
    fix j
    assume "Suc j < length (map the (i_parts i))"
    then show "length (map the (i_parts i) ! j) = TRANSFER_CHUNK_BYTES"
      using part [of j] transferChunkLength_cases(2) [of j] tot by auto
  qed
  with part [of n] assms(3) tot show "part_at i n = Some (slice_at TRANSFER_CHUNK_BYTES acc n)"
    by (auto simp: part_at_def)
qed

lemma toStored_data [simp]: "content_data (sm_content (toStored i data)) = data"
  "sm_id (toStored i data) = i_id i"
  by (simp_all add: toStored_def Let_def split: option.split)

lemma genuine_toStored:
  assumes "in_ok i" "i_stage i = Hashing acc" "from_chunks hist b (i_id i) i"
    and "sha acc = th_sha256 (i_header i)"
  shows "genuine sha hist b (toStored i acc)"
proof -
  have len: "length acc = th_size (i_header i)"
    using buffer_pieces(1) [OF assms(1,2), of 0] by simp
  have "\<exists>c. arrived hist b (i_id i) (i_header i) c \<and> tc_index c = n \<and>
            tc_data c = slice_at TRANSFER_CHUNK_BYTES acc n"
    if "n < transferChunkCount (length acc)" for n
    using buffer_pieces(2) [OF assms(1,2), of n] assms(3) that by (auto simp: from_chunks_def len)
  then show ?thesis
    using assms(4) len by (auto simp: genuine_def)
qed


lemma provenance_complete_hashed:
  assumes prov: "provenance sha hist e" and inv: "engine_inv e"
  shows "provenance sha hist (complete_hashed sha v b k oid e)"
proof (cases "live_in b k oid e")
  case None
  then show ?thesis using prov by (simp add: complete_hashed_def)
next
  case (Some i)
  then have get: "reg_get (e_inc e) b k = Some i" by (simp add: live_in_Some)
  note i = engine_inv_inD [OF inv get] and wf = engine_inv_wf(2) [OF inv]
  have src: "from_chunks hist b k i" using prov get by (simp add: provenance_def)
  have upd: "provenance sha hist (upd_in j e)"
    if "i_bucketId j = b" "i_id j = k" "derived i j" for j
    using that prov wf from_chunks_derived [OF src] by (intro provenance_upd_in) auto
  have gone: "provenance sha hist (deleteIn j e)" for j
    using prov wf by (intro provenance_calm [OF prov] calm_deleteIn) simp_all
  show ?thesis
  proof (cases "\<exists>acc. i_stage i = Hashing acc")
    case False
    then show ?thesis
      using Some prov by (auto simp: complete_hashed_def split: stage.split)
  next
    case True
    then obtain acc where acc: "i_stage i = Hashing acc" ..
    let ?i1 = "i\<lparr>i_attempts := Suc (i_attempts i), i_parts := map (\<lambda>_. None) (i_parts i),
                 i_received := 0, i_sinceAck := 0, i_completing := False, i_stage := Receiving\<rparr>"
    have "derived i (i\<lparr>i_attempts := Suc (i_attempts i), i_parts := map (\<lambda>_. None) (i_parts i)\<rparr>)"
      by (simp add: derived_def part_at_def)
    then have again: "provenance sha hist (upd_in (?i1\<lparr>i_lastActivityAt := v_now v\<rparr>) e)"
      using i by (intro upd) simp_all
    have stage: "provenance sha hist (upd_in (i\<lparr>i_stage := Delivering\<rparr>) e)"
      using i by (intro upd) simp_all
    have len: "length acc = th_size (i_header i)"
      using buffer_pieces(1) [OF i(3) acc, of 0] by simp
    have good: "genuine sha hist b (toStored i acc)" if "sha acc = th_sha256 (i_header i)"
      using genuine_toStored [OF i(3) acc] src that i by simp
    have emitted: "provenance sha hist (emit (DeliverAsked b m) (f\<lparr>e_delivering := ds\<rparr>))"
      if "provenance sha hist f" "genuine sha hist b m" for f m ds
      using that by (simp add: provenance_def)
    show ?thesis
      using Some acc len gone again emitted [OF stage good]
      by (simp add: complete_hashed_def Let_def)
  qed
qed

lemma calm_deliver_settled:
  assumes "engine_inv e"
  shows "calm e (deliver_settled v oid ok e)"
proof (cases "find (\<lambda>i. i_oid i = oid) (e_delivering e)")
  case None
  then show ?thesis by (simp add: deliver_settled_def)
next
  case (Some i)
  let ?e1 = "e\<lparr>e_delivering := filter (\<lambda>j. i_oid j \<noteq> oid) (e_delivering e)\<rparr>"
  have inv1: "engine_inv ?e1" using assms engine_inv_cong [of ?e1 e] by simp
  have one: "calm e ?e1" using calm_same [of ?e1 e e] by simp
  have "calm e (deleteIn i ?e1)"
    using one engine_inv_wf(2) [OF inv1] by (rule calm_deleteIn)
  moreover have "calm e (upd_in (j\<lparr>i_parts := map (\<lambda>_. None) (i_parts j), i_received := 0,
                    i_completing := False, i_status := Failed, i_detail := d,
                    i_lastActivityAt := v_now v, i_stage := Receiving\<rparr>) ?e1)"
    if "live_in (i_bucketId i) (i_id i) oid ?e1 = Some j" for j d
  proof -
    have get: "reg_get (e_inc ?e1) (i_bucketId i) (i_id i) = Some j"
      using that by (simp add: live_in_Some)
    have "derived j (j\<lparr>i_parts := map (\<lambda>_. None) (i_parts j)\<rparr>)" by simp
    then show ?thesis by (intro calm_trans [OF one calm_upd_same [OF inv1 get]]) simp_all
  qed
  ultimately show ?thesis
    using Some one by (auto simp: deliver_settled_def Let_def split: option.split)
qed

text \<open>Every event other than an arriving chunk or a digest is calm.\<close>

fun is_calm :: "event \<Rightarrow> bool" where
  "is_calm (EvChunk b c) = False"
| "is_calm (EvHashed b k oid) = False"
| "is_calm _ = True"

lemma calm_step:
  assumes "engine_inv e" "is_calm ev"
  shows "calm e (engine_step sha (v, ev) e)"
  using assms
  by (cases ev)
    (simp_all add: calm_startSend calm_pump_resume calm_handleAck calm_handleCancel calm_handleQuery
      calm_storage_answer calm_deliver_settled calm_onConnected calm_onDisconnected calm_retry
      calm_cancel calm_forget calm_clearBucket calm_clearAll calm_tick)

lemma provenance_step:
  assumes "engine_inv e" "event_enabled (v, ev) e" "provenance sha hist e"
  shows "provenance sha (hist \<union> chunks_in [(v, ev)]) (engine_step sha (v, ev) e)"
proof -
  have mono: "provenance sha (hist \<union> chunks_in [(v, ev)]) e"
    using assms(3) by (rule provenance_mono) simp
  consider (chunk) b c where "ev = EvChunk b c" | (hashed) b k oid where "ev = EvHashed b k oid"
    | (other) "is_calm ev"
    by (cases ev) auto
  then show ?thesis
  proof cases
    case chunk
    then show ?thesis
      using provenance_handleChunk [OF mono assms(1)] assms(2) by simp
  next
    case hashed
    then show ?thesis
      using provenance_complete_hashed [OF mono assms(1)] by simp
  next
    case other
    then show ?thesis by (intro provenance_calm [OF mono] calm_step assms(1))
  qed
qed

lemma provenance_run:
  assumes "run_ok event_enabled (engine_step sha) evs (new_engine lm)"
  shows "provenance sha (chunks_in evs) (run (engine_step sha) evs (new_engine lm))"
  using assms
proof (induction evs rule: rev_induct)
  case Nil
  then show ?case by (simp add: provenance_def new_engine_def reg_get_def)
next
  case (snoc ve evs)
  obtain v ev where "ve = (v, ev)" by (cases ve)
  with snoc show ?case
    using provenance_step [of "run (engine_step sha) evs (new_engine lm)" v ev sha "chunks_in evs"]
      engine.run_inv [OF inv_new_engine] by simp
qed

end
