(* ===== verification/TransferProps.thy ===== *)
theory TransferProps
  imports TransferTrace
begin

text \<open>
  The properties of the transfer engine: bounds on what it keeps, reassembly, acknowledgement,
  failure. The concrete states of the witnesses are small; \<open>toy_sha\<close> stands in for SHA-256 in them,
  while the theorems hold for every digest function.
\<close>

section \<open>Limits never change\<close>

lemma limits_complete_hashed: "e_limits (complete_hashed sha v b k oid e) = e_limits e"
  by (simp add: complete_hashed_def Let_def split: option.split stage.split)

lemma limits_store_chunk: "e_limits (store_chunk v i c e) = e_limits e"
  by (simp add: store_chunk_def complete_def Let_def split: placement.split)

lemma limits_handleChunk: "e_limits (handleChunk v b c e) = e_limits e"
  by (simp add: handleChunk_def Let_def limits_store_chunk split: option.split)

lemma limits_step:
  assumes "engine_inv e"
  shows "e_limits (engine_step sha (v, ev) e) = e_limits e"
proof (cases "is_calm ev")
  case True
  then show ?thesis using calm_step [OF assms] by (simp add: calm_def)
next
  case False
  then show ?thesis by (cases ev) (simp_all add: limits_handleChunk limits_complete_hashed)
qed

definition run_from :: "transfer_limits \<Rightarrow> (bytes \<Rightarrow> jstr) \<Rightarrow> (env \<times> event) list \<Rightarrow> engine" where
  "run_from lm sha evs = run (engine_step sha) evs (new_engine lm)"

definition can_run :: "transfer_limits \<Rightarrow> (bytes \<Rightarrow> jstr) \<Rightarrow> (env \<times> event) list \<Rightarrow> bool" where
  "can_run lm sha evs \<longleftrightarrow> run_ok event_enabled (engine_step sha) evs (new_engine lm)"

lemma inv_run_from: "can_run lm sha evs \<Longrightarrow> engine_inv (run_from lm sha evs)"
  unfolding can_run_def run_from_def by (rule engine.run_inv [OF inv_new_engine])

lemma limits_run_from:
  assumes "can_run lm sha evs"
  shows "e_limits (run_from lm sha evs) = lm"
proof -
  have "e_limits (engine_step sha ve e) = e_limits e" if "engine_inv e" for ve e
    using limits_step [OF that] by (cases ve) simp
  then have "e_limits (run (engine_step sha) evs (new_engine lm)) = e_limits (new_engine lm)"
    using assms inv_new_engine unfolding can_run_def
    by (intro engine.run_rel [where R = "\<lambda>e e'. e_limits e' = e_limits e"]) auto
  then show ?thesis by (simp add: run_from_def new_engine_def)
qed

section \<open>Concrete data for the witnesses\<close>

definition toy_sha :: "bytes \<Rightarrow> jstr" where
  "toy_sha d = map ucast d"

definition toy_header :: "bytes \<Rightarrow> transfer_header" where
  "toy_header d =
     \<lparr> th_kind = KindFile, th_ts = NumI 7, th_mime = [], th_size = length d,
       th_sha256 = toy_sha d, th_name = None, th_w = None, th_h = None, th_replyTo = None \<rparr>"

definition toy_chunk :: transfer_chunk where
  "toy_chunk = \<lparr> tc_id = [1], tc_index = 0, tc_total = 1, tc_header = toy_header [1, 2, 3],
                 tc_data = [1, 2, 3] \<rparr>"

definition toy_env :: "int \<Rightarrow> env" where
  "toy_env now = \<lparr> v_now = now, v_canSend = (\<lambda>b. True), v_hasMessage = (\<lambda>b k. False),
                   v_hasStorageFor = False \<rparr>"

definition toy_payload :: outgoing_payload where
  "toy_payload = \<lparr> p_id = [2], p_kind = KindFile, p_ts = NumI 7, p_mime = [], p_data = [4, 5],
                   p_name = None, p_w = None, p_h = None, p_replyTo = None \<rparr>"

definition toy_events :: "(env \<times> event) list" where
  "toy_events =
     [(toy_env 0, EvStartHashed [9] toy_payload False), (toy_env 0, EvChunk [9] toy_chunk),
      (toy_env 1, EvHashed [9] [1] 1), (toy_env 2, EvSendSettled [9] [2] 0 True)]"

lemmas toy_defs = toy_sha_def toy_header_def toy_chunk_def toy_env_def toy_payload_def toy_events_def
  DEFAULT_TRANSFER_LIMITS_def

lemmas registry_eval = reg_get_def room_entries_def reg_put_def reg_values_def reg_del_def Let_def

lemmas engine_eval = registry_eval new_engine_def handleChunk_def pending_bytes_def new_incoming_def
  store_chunk_def part_present_def set_part_def ensureTimer_def complete_def upd_in_def emit_def
  complete_hashed_def live_in_def toStored_def startSend_hashed_def new_outgoing_def
  payload_header_def persist_def publish_def upd_out_def pump_def pump_loop_def pump_resume_def
  live_out_def query_def sendCtl_def range_n_def chunk_def transferChunkCount_def
  transferChunkLength_def limit_defs

lemma toy_can_run: "can_run DEFAULT_TRANSFER_LIMITS toy_sha toy_events"
  by (simp add: can_run_def toy_events_def chunk_valid_def toy_chunk_def toy_header_def
      toy_payload_def transferChunkCount_def transferChunkLength_def limit_defs)

definition toy_engine :: engine where
  "toy_engine = run_from DEFAULT_TRANSFER_LIMITS toy_sha toy_events"

lemma toy_delivered:
  "\<exists>m. ([9], m) \<in> set (deliveries (e_log toy_engine)) \<and> content_data (sm_content m) = [1, 2, 3]"
  by (simp add: toy_engine_def run_from_def toy_defs engine_eval pump_scan.simps)

lemma toy_sending:
  "\<exists>x. reg_get (e_out toy_engine) [9] [2] = Some x \<and> length (o_inFlight x) = 1"
  by (simp add: toy_engine_def run_from_def toy_defs engine_eval pump_scan.simps)

section \<open>What is delivered\<close>

text \<open>C1
  End-to-end integrity of received transfers. In any run of the engine, started empty and driven by any
  events, a message handed to \<open>deliver\<close> in room \<open>b\<close> carries bytes whose digest and length are those
  announced for its id, and every piece of them is the payload of a chunk that has arrived in that
  room for that id at that position. Nothing else ever reaches storage.
\<close>

theorem delivered_is_genuine:
  assumes "can_run lm sha evs" "(b, m) \<in> set (deliveries (e_log (run_from lm sha evs)))"
  shows "genuine sha (chunks_in evs) b m"
  using provenance_run [of sha evs lm] assms
  unfolding can_run_def run_from_def provenance_def by blast

theorem delivered_is_genuine_witness:
  "\<exists>m. content_data (sm_content m) = [1, 2, 3] \<and> genuine toy_sha (chunks_in toy_events) [9] m"
  using delivered_is_genuine [OF toy_can_run] toy_delivered unfolding toy_engine_def by blast

section \<open>Bounds\<close>

text \<open>C2
  The sender's window. Whatever the partner acknowledges and however sends settle, a sending transfer
  never has more chunks in flight than the window allows, no chunk is both acknowledged and in flight,
  every index it keeps is one of its chunks, and \<open>pump\<close> is suspended on exactly one index while
  \<open>pumping\<close> is set, with room in the window for that index.
\<close>

theorem sender_window:
  assumes "can_run lm sha evs" "reg_get (e_out (run_from lm sha evs)) b k = Some x"
  shows "length (o_inFlight x) \<le> l_window lm \<and>
    set (o_acked x) \<inter> fst ` set (o_inFlight x) = {} \<and>
    set (o_acked x) \<union> fst ` set (o_inFlight x) \<union> set (o_queue x)
      \<subseteq> {..<transferChunkCount (length (o_data x))} \<and>
    (if o_pumping x
     then \<exists>n. o_awaiting x = Some n \<and> n < o_total x \<and>
            length (o_inFlight x) < l_window lm \<and> n \<notin> fst ` set (o_inFlight x)
     else o_awaiting x = None)"
  using engine_inv_outD(3) [OF inv_run_from [OF assms(1)] assms(2)] limits_run_from [OF assms(1)]
  by (auto simp: out_defs)

theorem sender_window_witness:
  "\<exists>x. reg_get (e_out toy_engine) [9] [2] = Some x \<and> length (o_inFlight x) = 1 \<and>
       length (o_inFlight x) \<le> 12"
  using toy_sending sender_window [OF toy_can_run, of "[9]" "[2]"]
  unfolding toy_engine_def by (force simp: DEFAULT_TRANSFER_LIMITS_def)

lemma part_bytes_le:
  "list_all2 (\<lambda>p n. p = None \<or> length (the p) = n) ps ns \<Longrightarrow> part_bytes ps \<le> sum_list ns"
proof (induction ps ns rule: list_all2_induct)
  case Nil
  then show ?case by simp
next
  case (Cons p ps n ns)
  then show ?case by (cases p) auto
qed

lemma part_bytes_in_ok:
  assumes "in_ok i"
  shows "part_bytes (i_parts i) \<le> th_size (i_header i)"
proof -
  let ?n = "th_size (i_header i)"
  have "list_all2 (\<lambda>p n. p = None \<or> length (the p) = n) (i_parts i)
          (map (transferChunkLength ?n) [0..<transferChunkCount ?n])"
    unfolding list_all2_conv_all_nth
  proof (intro conjI allI impI)
    show "length (i_parts i) = length (map (transferChunkLength ?n) [0..<transferChunkCount ?n])"
      using assms by (simp add: in_defs)
    fix k
    assume "k < length (i_parts i)"
    then show "i_parts i ! k = None \<or>
        length (the (i_parts i ! k)) = map (transferChunkLength ?n) [0..<transferChunkCount ?n] ! k"
      using assms by (cases "i_parts i ! k") (auto simp: in_ok_def parts_ok_def)
  qed
  from part_bytes_le [OF this] show ?thesis by (simp add: sum_piece_lengths)
qed

text \<open>C3
  The receiver's quotas. A partner cannot make the client hold more than \<open>maxIncomingPerRoom\<close> incoming
  transfers or more than \<open>maxIncomingBytesPerRoom\<close> announced bytes in a room, and the bytes really
  stored for a room stay within the announced ones.
\<close>

theorem receiver_quota:
  assumes "can_run lm sha evs"
  shows "length (reg_values (e_inc (run_from lm sha evs)) b) \<le> l_maxIncomingPerRoom lm \<and>
    pending_bytes (run_from lm sha evs) b \<le> l_maxIncomingBytesPerRoom lm \<and>
    sum_list (map (\<lambda>i. part_bytes (i_parts i)) (reg_values (e_inc (run_from lm sha evs)) b))
           \<le> l_maxIncomingBytesPerRoom lm"
proof -
  let ?e = "run_from lm sha evs"
  have inv: "engine_inv ?e" by (rule inv_run_from [OF assms])
  have count: "length (reg_values (e_inc ?e) b) \<le> l_maxIncomingPerRoom lm"
    and quota: "pending_bytes ?e b \<le> l_maxIncomingBytesPerRoom lm"
    using inv limits_run_from [OF assms] by (auto simp: engine_inv_def quota_ok_def)
  have "part_bytes (i_parts i) \<le> th_size (i_header i)" if "i \<in> set (reg_values (e_inc ?e) b)" for i
    using that engine_inv_inD(3) [OF inv] engine_inv_wf [OF inv]
    by (auto simp: reg_values_iff intro: part_bytes_in_ok)
  then have "sum_list (map (\<lambda>i. part_bytes (i_parts i)) (reg_values (e_inc ?e) b)) \<le> pending_bytes ?e b"
    unfolding pending_bytes_def by (rule sum_list_mono)
  with count quota show ?thesis by simp
qed

theorem receiver_quota_witness:
  "length (reg_values (e_inc toy_engine) [9]) \<le> 3"
  using receiver_quota [OF toy_can_run, of "[9]"]
  unfolding toy_engine_def by (simp add: DEFAULT_TRANSFER_LIMITS_def)

text \<open>C4
  The timer runs whenever a transfer exists, in every reachable state, so a silent transfer is noticed.
\<close>

theorem timer_runs_while_needed:
  assumes "can_run lm sha evs" "reg_get (e_out (run_from lm sha evs)) b k \<noteq> None \<or>
                               reg_get (e_inc (run_from lm sha evs)) b k \<noteq> None"
  shows "e_timer (run_from lm sha evs)"
  using inv_run_from [OF assms(1)] assms(2) by (auto simp: engine_inv_def intro: timer_ok_present)

theorem timer_runs_while_needed_witness: "e_timer toy_engine"
  using timer_runs_while_needed [OF toy_can_run, of "[9]" "[2]"] toy_sending
  unfolding toy_engine_def by blast

end
