(* ===== verification/TransferFlow.thy ===== *)
theory TransferFlow
  imports TransferProps
begin

text \<open>
  What the transfer engine achieves: a payload is reassembled from its chunks in any order, a resend
  request queues everything that is missing, a silent partner is noticed, a corrupt transfer is
  dropped, and what happens to a transfer that is cancelled while a chunk is being sent.
\<close>

section \<open>Reassembly\<close>

lemma chunk_data: "sent_data_ok x \<Longrightarrow> tc_data (chunk x k) = slice_at TRANSFER_CHUNK_BYTES (o_data x) k"
proof -
  let ?s = "k * TRANSFER_CHUNK_BYTES"
  assume "sent_data_ok x"
  then have len: "th_size (o_header x) = length (o_data x)" by (simp add: sent_data_ok_def)
  have "min (?s + TRANSFER_CHUNK_BYTES) (length (o_data x)) - ?s =
        min TRANSFER_CHUNK_BYTES (length (drop ?s (o_data x)))"
    by simp
  then show ?thesis
    by (simp add: chunk_def Let_def slice_at_def len take_all_iff min_def)
qed

lemma chunk_fields [simp]:
  "tc_id (chunk x k) = o_id x" "tc_index (chunk x k) = k" "tc_total (chunk x k) = o_total x"
  "tc_header (chunk x k) = o_header x"
  by (simp_all add: chunk_def Let_def)

text \<open>Every chunk the sender builds passes the receiver's checks.\<close>

lemma chunk_of_valid:
  assumes "sent_data_ok x" "k < o_total x"
  shows "chunk_valid (chunk x k)"
  using assms chunk_data [OF assms(1)] transferChunkLength_slice [of "o_data x" k]
  by (simp add: chunk_valid_def sent_data_ok_def)

text \<open>A transfer that has received exactly the chunks in \<open>S\<close> of what \<open>x\<close> sends.\<close>

definition holds_chunks :: "jstr \<Rightarrow> outgoing \<Rightarrow> nat set \<Rightarrow> incoming \<Rightarrow> bool" where
  "holds_chunks b x S i \<longleftrightarrow>
     i_bucketId i = b \<and> i_id i = o_id x \<and> i_header i = o_header x \<and> i_total i = o_total x \<and>
     length (i_parts i) = o_total x \<and> i_stage i \<noteq> Delivering \<and>
     (\<forall>k < o_total x. i_parts i ! k =
        (if k \<in> S then Some (slice_at TRANSFER_CHUNK_BYTES (o_data x) k) else None))"

lemma holds_chunks_frame [simp]:
  "holds_chunks b x S (i\<lparr>i_received := r\<rparr>) = holds_chunks b x S i"
  "holds_chunks b x S (i\<lparr>i_sinceAck := n\<rparr>) = holds_chunks b x S i"
  "holds_chunks b x S (i\<lparr>i_attempts := n\<rparr>) = holds_chunks b x S i"
  "holds_chunks b x S (i\<lparr>i_status := st\<rparr>) = holds_chunks b x S i"
  "holds_chunks b x S (i\<lparr>i_detail := d\<rparr>) = holds_chunks b x S i"
  "holds_chunks b x S (i\<lparr>i_lastActivityAt := t\<rparr>) = holds_chunks b x S i"
  "holds_chunks b x S (i\<lparr>i_completing := c\<rparr>) = holds_chunks b x S i"
  by (simp_all add: holds_chunks_def)

lemma holds_chunks_stage:
  "holds_chunks b x S i \<Longrightarrow> sg \<noteq> Delivering \<Longrightarrow> holds_chunks b x S (i\<lparr>i_stage := sg\<rparr>)"
  by (simp add: holds_chunks_def)

lemma holds_chunks_insert:
  assumes "holds_chunks b x S i" "k < o_total x"
  shows "holds_chunks b x (insert k S)
           (i\<lparr>i_parts := set_part k (slice_at TRANSFER_CHUNK_BYTES (o_data x) k) (i_parts i)\<rparr>)"
  using assms by (simp add: holds_chunks_def set_part_inside nth_list_update)

lemma store_chunk_holds:
  assumes inv: "engine_inv e" and get: "reg_get (e_inc e) b (o_id x) = Some i"
    and holds: "holds_chunks b x S i" and sent: "sent_data_ok x" and k: "k < o_total x"
  shows "\<exists>j. reg_get (e_inc (store_chunk v i (chunk x k) e)) b (o_id x) = Some j \<and>
             holds_chunks b x (insert k S) j"
proof (cases "i_completing i \<or> part_present k (i_parts i)")
  case True
  have "k \<in> S"
  proof (rule ccontr)
    assume "k \<notin> S"
    then have none: "i_parts i ! k = None" and len: "k < length (i_parts i)"
      using holds k by (simp_all add: holds_chunks_def)
    then have comp: "i_completing i" using True by (simp add: part_present_def)
    then have "parts_ok i" "i_received i = i_total i"
      using engine_inv_inD(3) [OF inv get] by (auto simp: in_defs)
    from complete_parts(1) [OF this] none len show False by (metis nth_mem)
  qed
  then have "insert k S = S" by blast
  with True get holds show ?thesis by (simp add: store_chunk_def)
next
  case False
  note wf = engine_inv_wf(2) [OF inv]
  let ?i1 = "i\<lparr>i_parts := set_part k (slice_at TRANSFER_CHUNK_BYTES (o_data x) k) (i_parts i),
               i_received := Suc (i_received i), i_sinceAck := Suc (i_sinceAck i),
               i_attempts := 0, i_status := Active, i_detail := None, i_lastActivityAt := v_now v\<rparr>"
  have "holds_chunks b x (insert k S) ?i1"
    using holds_chunks_insert [OF holds k] by simp
  moreover have "i_bucketId i = b" "i_id i = o_id x" using holds by (simp_all add: holds_chunks_def)
  moreover have "reg_get (reg_put b (o_id x) j (e_inc e)) b (o_id x) = Some j" for j
    using wf by (simp add: reg_get_put)
  ultimately show ?thesis
    using False chunk_data [OF sent, of k]
    by (simp add: store_chunk_def complete_def Let_def holds_chunks_stage split: placement.split)
qed

text \<open>One chunk for a room with a free place opens the transfer.\<close>

definition accepts :: "env \<Rightarrow> jstr \<Rightarrow> outgoing \<Rightarrow> engine \<Rightarrow> bool" where
  "accepts v b x e \<longleftrightarrow>
     reg_get (e_inc e) b (o_id x) = None \<and> reg_get (e_out e) b (o_id x) = None \<and>
     \<not> v_hasMessage v b (o_id x) \<and>
     length (reg_values (e_inc e) b) < l_maxIncomingPerRoom (e_limits e) \<and>
     pending_bytes e b + th_size (o_header x) \<le> l_maxIncomingBytesPerRoom (e_limits e)"

lemma handleChunk_opens:
  assumes inv: "engine_inv e" and acc: "accepts v b x e" and sent: "sent_data_ok x" "k < o_total x"
  shows "\<exists>j. reg_get (e_inc (handleChunk v b (chunk x k) e)) b (o_id x) = Some j \<and>
             holds_chunks b x {k} j"
proof -
  let ?c = "chunk x k"
  let ?i = "new_incoming v b ?c (e_next e)"
  let ?e1 = "ensureTimer (upd_in ?i (e\<lparr>e_next := Suc (e_next e)\<rparr>))"
  let ?e2 = "if v_hasStorageFor v
             then emit (StorageAsked b (i_id ?i) (i_oid ?i) (th_size (tc_header ?c))) ?e1 else ?e1"
  have valid: "chunk_valid ?c" by (rule chunk_of_valid [OF sent])
  have "engine_inv ?e1"
    using inv new_incoming_ok [OF valid] acc by (intro inv_insert_in) (simp_all add: accepts_def)
  then have inv2: "engine_inv ?e2" by simp
  have get: "reg_get (e_inc ?e2) b (o_id x) = Some ?i"
    using engine_inv_wf [OF inv] by (simp add: reg_get_put)
  have "holds_chunks b x {} ?i"
    by (simp add: holds_chunks_def new_incoming_def)
  from store_chunk_holds [OF inv2 get this sent, of v] acc show ?thesis
    by (simp add: handleChunk_def Let_def accepts_def)
qed

lemma handleChunk_holds:
  assumes inv: "engine_inv e" and get: "reg_get (e_inc e) b (o_id x) = Some i"
    and holds: "holds_chunks b x S i" and sent: "sent_data_ok x" "k < o_total x"
    and ts: "th_ts (o_header x) \<noteq> NumNaN"
  shows "\<exists>j. reg_get (e_inc (handleChunk v b (chunk x k) e)) b (o_id x) = Some j \<and>
             holds_chunks b x (insert k S) j"
  using store_chunk_holds [OF inv get holds sent, of v] get holds ts
  by (simp add: handleChunk_def holds_chunks_def sameHeader_def num_eq_def)

definition chunk_events :: "jstr \<Rightarrow> outgoing \<Rightarrow> (env \<times> nat) list \<Rightarrow> (env \<times> event) list" where
  "chunk_events b x vks = map (\<lambda>(v, k). (v, EvChunk b (chunk x k))) vks"

lemma holds_after_events:
  assumes "engine_inv e" "reg_get (e_inc e) b (o_id x) = Some i" "holds_chunks b x S i"
    and "sent_data_ok x" "snd ` set vks \<subseteq> {..<o_total x}" "th_ts (o_header x) \<noteq> NumNaN"
  shows "\<exists>j. reg_get (e_inc (run (engine_step sha) (chunk_events b x vks) e)) b (o_id x) = Some j \<and>
             holds_chunks b x (S \<union> snd ` set vks) j \<and>
             engine_inv (run (engine_step sha) (chunk_events b x vks) e)"
  using assms
proof (induction vks arbitrary: e i S)
  case Nil
  then show ?case by (simp add: chunk_events_def)
next
  case (Cons vk vks)
  obtain v k where vk: "vk = (v, k)" by (cases vk)
  let ?e1 = "handleChunk v b (chunk x k) e"
  have k: "k < o_total x" using Cons.prems vk by simp
  obtain j where "reg_get (e_inc ?e1) b (o_id x) = Some j" "holds_chunks b x (insert k S) j"
    using handleChunk_holds [OF Cons.prems(1,2,3,4) k Cons.prems(6), of v] by blast
  moreover have "engine_inv ?e1"
    using Cons.prems(1) chunk_of_valid [OF Cons.prems(4) k] by (rule inv_handleChunk)
  ultimately show ?case
    using Cons.IH [of ?e1 j "insert k S"] Cons.prems vk
    by (simp add: chunk_events_def insert_commute)
qed

lemma holds_all:
  assumes "in_ok i" "holds_chunks b x {..<o_total x} i" "sent_data_ok x"
  shows "i_stage i = Hashing (o_data x)"
proof -
  let ?cut = "map (slice_at TRANSFER_CHUNK_BYTES (o_data x)) [0..<o_total x]"
  have parts: "map the (i_parts i) = ?cut"
    using assms(2) by (intro nth_equalityI) (simp_all add: holds_chunks_def)
  have "o_total x = piece_count TRANSFER_CHUNK_BYTES (length (o_data x))"
    using assms(3) by (simp add: sent_data_ok_def transferChunkCount_pieces)
  then have whole: "concat ?cut = o_data x"
    by (simp add: concat_slices)
  have "\<forall>p\<in>set (i_parts i). p \<noteq> None"
    using assms(2) by (auto simp: in_set_conv_nth holds_chunks_def)
  then have "i_received i = i_total i"
    using assms(1) count_parts_all [of "i_parts i"] by (simp add: in_ok_def parts_ok_def)
  then have "i_stage i \<noteq> Receiving" "i_stage i \<noteq> Stuck" "i_stage i \<noteq> Delivering"
    using assms(1,2) by (auto simp: in_ok_def stage_ok_def holds_chunks_def split: if_splits)
  then obtain acc where "i_stage i = Hashing acc" by (cases "i_stage i") auto
  with assms(1) show ?thesis by (simp add: in_ok_def stage_ok_def parts whole)
qed

text \<open>C5
  Reassembly in any order. Let a sender hold a transfer \<open>x\<close>, and let the receiver have room for it. The
  chunks \<open>x\<close> sends may arrive in any order, any number of times: once each index has arrived at least
  once, the receiver holds the transfer with all parts placed and is hashing exactly the bytes of \<open>x\<close>.
\<close>

theorem reassembles_in_any_order:
  assumes "engine_inv e" "sent_data_ok x" "th_ts (o_header x) \<noteq> NumNaN"
    and "accepts v b x e" "snd ` set ((v, k) # vks) = {..<o_total x}"
  shows "\<exists>i. reg_get (e_inc (run (engine_step sha) (chunk_events b x ((v, k) # vks)) e)) b (o_id x) = Some i \<and>
             i_header i = o_header x \<and> i_stage i = Hashing (o_data x)"
proof -
  let ?e1 = "handleChunk v b (chunk x k) e"
  have k: "k < o_total x" and sub: "snd ` set vks \<subseteq> {..<o_total x}" and
    all: "{k} \<union> snd ` set vks = {..<o_total x}"
    using assms(5) by auto
  obtain j where j: "reg_get (e_inc ?e1) b (o_id x) = Some j" "holds_chunks b x {k} j"
    using handleChunk_opens [OF assms(1,4,2) k] by blast
  have "engine_inv ?e1"
    using assms(1) chunk_of_valid [OF assms(2) k] by (rule inv_handleChunk)
  from holds_after_events [OF this j assms(2) sub assms(3), of sha] obtain i where
    i: "reg_get (e_inc (run (engine_step sha) (chunk_events b x vks) ?e1)) b (o_id x) = Some i"
      "holds_chunks b x {..<o_total x} i"
      "engine_inv (run (engine_step sha) (chunk_events b x vks) ?e1)"
    unfolding all by blast
  have "run (engine_step sha) (chunk_events b x ((v, k) # vks)) e =
        run (engine_step sha) (chunk_events b x vks) ?e1"
    by (simp add: chunk_events_def)
  with i holds_all [OF engine_inv_inD(3) [OF i(3,1)] i(2) assms(2)] show ?thesis
    by (auto simp: holds_chunks_def)
qed


definition two_chunks :: outgoing where
  "two_chunks = new_outgoing toy_sha (toy_env 0) [9]
     (toy_payload\<lparr>p_data := replicate (TRANSFER_CHUNK_BYTES + 1) 5\<rparr>) False 0"

theorem reassembles_in_any_order_witness:
  "\<exists>i. reg_get (e_inc (run (engine_step toy_sha)
           (chunk_events [9] two_chunks [(toy_env 0, 1), (toy_env 1, 1), (toy_env 2, 0)])
           (new_engine DEFAULT_TRANSFER_LIMITS))) [9] [2] = Some i \<and>
       i_stage i = Hashing (replicate (TRANSFER_CHUNK_BYTES + 1) 5)"
proof -
  have shape: "o_id two_chunks = [2]" "o_data two_chunks = replicate (TRANSFER_CHUNK_BYTES + 1) 5"
    "th_ts (o_header two_chunks) = NumI 7"
    "th_size (o_header two_chunks) = TRANSFER_CHUNK_BYTES + 1" "o_total two_chunks = 2"
    by (simp_all add: two_chunks_def new_outgoing_def payload_header_def toy_payload_def Let_def
        transferChunkCount_def limit_defs)
  then have sent: "sent_data_ok two_chunks"
    by (simp add: sent_data_ok_def transferChunkCount_def limit_defs)
  have acc: "accepts (toy_env 0) [9] two_chunks (new_engine DEFAULT_TRANSFER_LIMITS)"
    using shape by (simp add: accepts_def new_engine_def registry_eval toy_env_def pending_bytes_def
        DEFAULT_TRANSFER_LIMITS_def limit_defs)
  have all: "snd ` set [(toy_env 0, 1), (toy_env 1, 1), (toy_env 2, 0)] = {..<o_total two_chunks}"
    using shape by auto
  show ?thesis
    using reassembles_in_any_order [OF inv_new_engine sent _ acc all, of toy_sha] shape by auto
qed

section \<open>Acknowledgements\<close>

text \<open>Every chunk is acknowledged, in flight, queued, or being sent right now.\<close>

definition accounted :: "outgoing \<Rightarrow> nat set \<Rightarrow> bool" where
  "accounted x extra \<longleftrightarrow>
     {..<o_total x} \<subseteq> set (o_acked x) \<union> fst ` set (o_inFlight x) \<union> set (o_queue x) \<union> extra"

lemma accounted_frame [simp]:
  "accounted (x\<lparr>o_status := st\<rparr>) A = accounted x A" "accounted (x\<lparr>o_pumping := p\<rparr>) A = accounted x A"
  "accounted (x\<lparr>o_awaiting := w\<rparr>) A = accounted x A" "accounted (x\<lparr>o_detail := d\<rparr>) A = accounted x A"
  "accounted (x\<lparr>o_lastActivityAt := t\<rparr>) A = accounted x A"
  "accounted (x\<lparr>o_attempts := a\<rparr>) A = accounted x A"
  by (simp_all add: accounted_def)

lemma pump_scan_accounted:
  "accounted x {} \<Longrightarrow>
   (case pump_scan w can x of PumpDone y \<Rightarrow> accounted y {} | PumpSend k y \<Rightarrow> accounted y {k})"
proof (induction w can x rule: pump_scan.induct)
  case (1 w can x)
  let ?x1 = "x\<lparr>o_queue := tl (o_queue x)\<rparr>"
  show ?case
  proof (cases "o_status x = Active \<and> o_queue x \<noteq> [] \<and> length (o_inFlight x) < w")
    case False
    then show ?thesis using "1.prems" by (subst pump_scan.simps) auto
  next
    case True
    then have q: "set (o_queue x) = insert (hd (o_queue x)) (set (tl (o_queue x)))"
      by (cases "o_queue x") auto
    show ?thesis
    proof (cases "hd (o_queue x) \<in> set (o_acked x) \<or> hd (o_queue x) \<in> fst ` set (o_inFlight x)")
      case skip: True
      have "accounted ?x1 {}" using "1.prems" q skip by (auto simp: accounted_def)
      moreover have "pump_scan w can x = pump_scan w can ?x1"
        using True skip by (subst pump_scan.simps) (simp add: Let_def)
      ultimately show ?thesis using "1.IH" [OF True refl refl skip] by simp
    next
      case False
      then show ?thesis
        using True "1.prems" q by (subst pump_scan.simps) (auto simp: Let_def accounted_def)
    qed
  qed
qed

lemma requeue_accounted: "accounted (requeue now stall x) A"
  by (auto simp: accounted_def requeue_def Let_def range_n_def)

lemma pump_get:
  assumes "reg_wf (e_out e)" "reg_get (e_out e) (o_bucketId x) (o_id x) = Some x" "pump_ok x" "accounted x {}"
  shows "\<exists>y. reg_get (e_out (pump v x e)) (o_bucketId x) (o_id x) = Some y \<and> o_acked y = o_acked x \<and>
             o_total y = o_total x \<and> accounted y (set_option (o_awaiting y))"
proof (cases "o_pumping x")
  case True
  then show ?thesis using assms by (auto simp: pump_def accounted_def)
next
  case False
  let ?x = "x\<lparr>o_pumping := True\<rparr>"
  have acc: "accounted ?x {}" using assms(4) by simp
  show ?thesis
  proof (cases "pump_scan (l_window (e_limits e)) (v_canSend v (o_bucketId x)) ?x")
    case (PumpDone y)
    have "scan_frame ?x y" by (rule pump_scan_Done [OF PumpDone])
    from scan_frame_fields [OF this] PumpDone False assms(1) show ?thesis
      using pump_scan_accounted [OF acc, of "l_window (e_limits e)" "v_canSend v (o_bucketId x)"]
      by (simp add: pump_def pump_loop_def reg_get_put)
  next
    case (PumpSend k y)
    then have "scan_frame ?x y" using pump_scan_Send by blast
    from scan_frame_fields [OF this] PumpSend False assms(1) show ?thesis
      using pump_scan_accounted [OF acc, of "l_window (e_limits e)" "v_canSend v (o_bucketId x)"]
      by (simp add: pump_def pump_loop_def reg_get_put)
  qed
qed

text \<open>
  No chunk is lost to a resend request. After an acknowledgement with \<open>resend\<close> for a live transfer, every
  chunk is acknowledged, in flight, queued, or being sent at this moment; and the acknowledged chunks
  are those known before together with those the receiver reports, reported indices outside the
  transfer being ignored.
\<close>

theorem resend_accounts_for_all:
  assumes inv: "engine_inv e" and get: "reg_get (e_out e) b (ta_id ack) = Some x"
    and ack: "ta_resend ack" "\<not> ta_done ack"
  shows "\<exists>y. reg_get (e_out (handleAck v b ack e)) b (ta_id ack) = Some y \<and>
             set (o_acked y) = set (o_acked x) \<union> {k \<in> set (ta_have ack). k < o_total x} \<and>
             o_total y = o_total x \<and> accounted y (set_option (o_awaiting y))"
proof -
  note x = engine_inv_outD [OF inv get] and wf = engine_inv_wf(1) [OF inv]
  let ?x1 = "ack_update v (l_stallMs (e_limits e)) ack x"
  let ?e1 = "publish b (upd_out ?x1 e)"
  have "out_ok (l_window (e_limits e)) ?x1" by (rule ack_update_ok [OF x(3)])
  then have "pump_ok ?x1" by (simp add: out_ok_def)
  moreover have "accounted ?x1 {}"
    using ack by (simp add: ack_update_def Let_def requeue_accounted)
  moreover have "reg_get (e_out ?e1) (o_bucketId ?x1) (o_id ?x1) = Some ?x1"
    using wf by (simp add: reg_get_put)
  moreover have "reg_wf (e_out ?e1)" using wf by (simp add: reg_wf_put)
  ultimately obtain y where "reg_get (e_out (pump v ?x1 ?e1)) b (ta_id ack) = Some y"
    "o_acked y = o_acked ?x1" "o_total y = o_total x" "accounted y (set_option (o_awaiting y))"
    using pump_get [of ?e1 ?x1 v] x by auto
  moreover have "set (o_acked ?x1) = set (o_acked x) \<union> {k \<in> set (ta_have ack). k < o_total x}"
    using ack by (simp add: ack_update_def Let_def apply_have_acked)
  ultimately show ?thesis using get ack by (simp add: handleAck_def Let_def)
qed

lemma toy_inv: "engine_inv toy_engine"
  unfolding toy_engine_def by (rule inv_run_from [OF toy_can_run])

theorem resend_accounts_for_all_witness:
  "\<exists>y. reg_get (e_out (handleAck (toy_env 3) [9]
          \<lparr> ta_ts = NumI 3, ta_id = [2], ta_have = [0, 7], ta_resend = True, ta_done = False \<rparr>
          toy_engine)) [9] [2] = Some y \<and> set (o_acked y) = {0}"
proof -
  obtain x where x: "reg_get (e_out toy_engine) [9] [2] = Some x" "o_total x = 1" "o_acked x = []"
    by (simp add: toy_engine_def run_from_def toy_defs engine_eval pump_scan.simps)
  have "{k. (k = 0 \<or> k = 7) \<and> k < Suc 0} = {0::nat}" by auto
  then show ?thesis
    using resend_accounts_for_all [OF toy_inv, of "[9]"
      "\<lparr> ta_ts = NumI 3, ta_id = [2], ta_have = [0, 7], ta_resend = True, ta_done = False \<rparr>" x "toy_env 3"] x
    by auto
qed


text \<open>
  The final acknowledgement. An acknowledgement with \<open>done\<close> for a live transfer removes it, and only it;
  the list of pending ids is persisted without it before the view is published and \<open>onDelivered\<close> is
  called, once; the same acknowledgement arriving again does nothing.
\<close>

theorem done_finishes_once:
  assumes inv: "engine_inv e" and get: "reg_get (e_out e) b (ta_id ack) = Some x" and ack: "ta_done ack"
  shows "(\<forall>b' k'. reg_get (e_out (handleAck v b ack e)) b' k' =
            (if b' = b \<and> k' = ta_id ack then None else reg_get (e_out e) b' k')) \<and>
         e_inc (handleAck v b ack e) = e_inc e \<and>
         (\<exists>ks ts. e_log (handleAck v b ack e) =
            e_log e @ [Persisted b ks, Published b ts, OnDelivered b (ta_id ack)] \<and> ta_id ack \<notin> set ks) \<and>
         handleAck v' b ack (handleAck v b ack e) = handleAck v b ack e"
proof -
  note x = engine_inv_outD [OF inv get] and wf = engine_inv_wf(1) [OF inv]
  let ?r = "reg_del b (ta_id ack) (e_out e)"
  have eq: "handleAck v b ack e = emit (OnDelivered b (ta_id ack)) (publish b (deleteOut x e))"
    using get ack x by (simp add: handleAck_def)
  have out: "e_out (handleAck v b ack e) = ?r" and inc: "e_inc (handleAck v b ack e) = e_inc e"
    using x by (simp_all add: eq)
  have gone: "reg_get ?r b (ta_id ack) = None" using wf by (simp add: reg_get_del)
  have log: "e_log (handleAck v b ack e) =
     e_log e @ [Persisted b (map fst (room_entries ?r b)), Published b (list_transfers (deleteOut x e) b),
                OnDelivered b (ta_id ack)]"
    using x by (simp add: eq emit_wrappers deleteOut_def)
  have absent: "ta_id ack \<notin> set (map fst (room_entries ?r b))"
    using gone by (auto simp: reg_get_def map_of_eq_None_iff)
  have again: "handleAck v' b ack (handleAck v b ack e) = handleAck v b ack e"
    using ack out gone by (simp add: handleAck_def [of v'])
  show ?thesis
    using out inc log absent again wf by (auto simp: reg_get_del)
qed

theorem done_finishes_once_witness:
  "reg_get (e_out (handleAck (toy_env 3) [9]
          \<lparr> ta_ts = NumI 3, ta_id = [2], ta_have = [], ta_resend = False, ta_done = True \<rparr>
          toy_engine)) [9] [2] = None"
proof -
  obtain x where "reg_get (e_out toy_engine) [9] [2] = Some x" using toy_sending by blast
  then show ?thesis
    using done_finishes_once [OF toy_inv, of "[9]"
      "\<lparr> ta_ts = NumI 3, ta_id = [2], ta_have = [], ta_resend = False, ta_done = True \<rparr>" x "toy_env 3"]
    by simp
qed

section \<open>Stored parts and corrupt transfers\<close>

lemma part_at_kept:
  assumes "part_at y n = Some p" "\<not> part_present m (i_parts y)" "i_parts j = set_part m q (i_parts y)"
  shows "part_at j n = Some p"
  using assms
  by (auto simp: part_at_def set_part_def part_present_def nth_append nth_list_update split: if_splits)

lemma complete_shape:
  "\<exists>j. i_header j = i_header i \<and> i_parts j = i_parts i \<and>
       e_inc (complete i f) = reg_put (i_bucketId i) (i_id i) j (e_inc f)"
proof -
  have put: "\<exists>j. i_header j = i_header i \<and> i_parts j = i_parts i \<and>
         e_inc (upd_in y f) = reg_put (i_bucketId i) (i_id i) j (e_inc f)"
    if "i_header y = i_header i" "i_parts y = i_parts i" "i_bucketId y = i_bucketId i" "i_id y = i_id i"
    for y
    using that by (intro exI [of _ y]) simp
  show ?thesis
    unfolding complete_def
    by (cases "place_parts (th_size (i_header i)) (i_parts i) []"; simp only: placement.case; rule put; simp)
qed

lemma store_chunk_shape:
  "e_inc (store_chunk v y c f) = e_inc f \<or>
   (\<exists>j. \<not> part_present (tc_index c) (i_parts y) \<and> i_header j = i_header y \<and>
      e_inc (store_chunk v y c f) = reg_put (i_bucketId y) (i_id y) j (e_inc f) \<and>
      i_parts j = set_part (tc_index c) (tc_data c) (i_parts y))"
proof (cases "i_completing y \<or> part_present (tc_index c) (i_parts y)")
  case True
  then show ?thesis by (simp add: store_chunk_def)
next
  case False
  let ?i1 = "y\<lparr>i_parts := set_part (tc_index c) (tc_data c) (i_parts y),
               i_received := Suc (i_received y), i_sinceAck := Suc (i_sinceAck y),
               i_attempts := 0, i_status := Active, i_detail := None, i_lastActivityAt := v_now v\<rparr>"
  have put: "?thesis" if "e_inc (store_chunk v y c f) = reg_put (i_bucketId y) (i_id y) j (e_inc f)"
    "i_header j = i_header y" "i_parts j = set_part (tc_index c) (tc_data c) (i_parts y)" for j
    using that False by blast
  show ?thesis
  proof (cases "Suc (i_received y) = i_total y")
    case True
    then have "store_chunk v y c f = complete ?i1 f"
      using False by (simp add: store_chunk_def Let_def)
    with complete_shape [of ?i1 f] put show ?thesis by auto
  next
    case more: False
    show ?thesis
    proof (cases "l_ackEvery (e_limits f) \<le> Suc (i_sinceAck y)")
      case True
      then show ?thesis
        using more False by (intro put [of "?i1\<lparr>i_sinceAck := 0\<rparr>"]) (simp_all add: store_chunk_def Let_def)
    next
      case few: False
      then show ?thesis
        using more False by (intro put [of ?i1]) (simp_all add: store_chunk_def Let_def)
    qed
  qed
qed

text \<open>First writer wins. Once a part of an incoming transfer is stored, no arriving chunk changes it,
  whatever header, index or data the chunk has; nor does a chunk of one transfer change another.
\<close>

theorem stored_parts_are_kept:
  assumes inv: "engine_inv e" and get: "reg_get (e_inc e) b k = Some i" and part: "part_at i n = Some p"
    and valid: "chunk_valid c"
  shows "\<exists>j. reg_get (e_inc (handleChunk v b' c e)) b k = Some j \<and> i_header j = i_header i \<and>
             part_at j n = Some p"
proof -
  note wf = engine_inv_wf(2) [OF inv]
  have store: "\<exists>j. reg_get (e_inc (store_chunk v y c f)) b k = Some j \<and> i_header j = i_header i \<and>
                   part_at j n = Some p"
    if "reg_wf (e_inc f)" "reg_get (e_inc f) b k = Some i"
      "i_bucketId y = b \<and> i_id y = k \<longrightarrow> y = i" for y f
    using store_chunk_shape [of v y c f]
  proof (elim disjE exE conjE)
    assume "e_inc (store_chunk v y c f) = e_inc f"
    then show ?thesis using that part by simp
  next
    fix j
    assume new: "\<not> part_present (tc_index c) (i_parts y)" "i_header j = i_header y"
      "e_inc (store_chunk v y c f) = reg_put (i_bucketId y) (i_id y) j (e_inc f)"
      "i_parts j = set_part (tc_index c) (tc_data c) (i_parts y)"
    then have "part_at j n = Some p" if "y = i"
      using part part_at_kept [of y n p "tc_index c" j] that by simp
    with that new part show ?thesis by (auto simp: reg_get_put)
  qed
  show ?thesis
  proof (cases "reg_get (e_inc e) b' (tc_id c)")
    case (Some y)
    then have "i_bucketId y = b \<and> i_id y = k \<longrightarrow> y = i"
      using engine_inv_inD [OF inv Some] get by auto
    from store [OF wf get this] show ?thesis
      using Some get part by (simp add: handleChunk_def)
  next
    case None
    let ?i = "new_incoming v b' c (e_next e)"
    let ?e1 = "ensureTimer (upd_in ?i (e\<lparr>e_next := Suc (e_next e)\<rparr>))"
    let ?e2 = "if v_hasStorageFor v
               then emit (StorageAsked b' (i_id ?i) (i_oid ?i) (th_size (tc_header c))) ?e1 else ?e1"
    have "\<not> (b' = b \<and> tc_id c = k)" using None get by auto
    then have "\<exists>j. reg_get (e_inc (store_chunk v ?i c ?e2)) b k = Some j \<and> i_header j = i_header i \<and>
                   part_at j n = Some p"
      using wf get by (intro store) (auto simp: reg_wf_put reg_get_put)
    then show ?thesis
      using None get part by (simp add: handleChunk_def Let_def)
  qed
qed

definition half_engine :: engine where
  "half_engine = handleChunk (toy_env 0) [9] (chunk two_chunks 1) (new_engine DEFAULT_TRANSFER_LIMITS)"

lemma two_chunks_shape:
  "o_id two_chunks = [2]" "o_data two_chunks = replicate (TRANSFER_CHUNK_BYTES + 1) 5"
  "th_ts (o_header two_chunks) = NumI 7" "o_total two_chunks = 2" "sent_data_ok two_chunks"
  "accepts (toy_env 0) [9] two_chunks (new_engine DEFAULT_TRANSFER_LIMITS)"
  by (simp_all add: two_chunks_def new_outgoing_def payload_header_def toy_payload_def Let_def
      transferChunkCount_def limit_defs sent_data_ok_def accepts_def new_engine_def registry_eval
      toy_env_def pending_bytes_def DEFAULT_TRANSFER_LIMITS_def)

lemma second_slice: "slice_at TRANSFER_CHUNK_BYTES (o_data two_chunks) 1 = [5]"
  by (simp add: two_chunks_shape slice_at_def limit_defs)

lemma half_engine_part:
  "\<exists>i. reg_get (e_inc half_engine) [9] [2] = Some i \<and> part_at i 1 = Some [5]"
proof -
  obtain j where "reg_get (e_inc half_engine) [9] [2] = Some j" "holds_chunks [9] two_chunks {1} j"
    using handleChunk_opens [OF inv_new_engine two_chunks_shape(6,5), of 1] two_chunks_shape(1,4)
    by (auto simp: half_engine_def)
  then show ?thesis
    using two_chunks_shape(4) second_slice by (auto simp: holds_chunks_def part_at_def)
qed

lemma half_engine_inv: "engine_inv half_engine"
  unfolding half_engine_def
  using two_chunks_shape by (intro inv_handleChunk inv_new_engine chunk_of_valid) simp_all

theorem stored_parts_are_kept_witness:
  "\<exists>j. reg_get (e_inc (handleChunk (toy_env 1) [9]
          ((chunk two_chunks 1)\<lparr>tc_data := [6]\<rparr>) half_engine)) [9] [2] = Some j \<and> part_at j 1 = Some [5]"
proof -
  obtain i where i: "reg_get (e_inc half_engine) [9] [2] = Some i" "part_at i 1 = Some [5]"
    using half_engine_part by blast
  have "chunk_valid ((chunk two_chunks 1)\<lparr>tc_data := [6]\<rparr>)"
    using two_chunks_shape(4) chunk_of_valid [OF two_chunks_shape(5), of 1]
      chunk_data [OF two_chunks_shape(5), of 1] second_slice
    by (simp add: chunk_valid_def)
  from stored_parts_are_kept [OF half_engine_inv i this, of "toy_env 1" "[9]"] show ?thesis by auto
qed

text \<open>C9
  A corrupt payload. When the digest of a fully received transfer is not the announced one, nothing is
  delivered: on the first two failures every part is forgotten and the sender is asked for all chunks
  again, on the third the transfer is dropped and the sender is told so.
\<close>

theorem corrupt_transfer_is_not_delivered:
  assumes inv: "engine_inv e" and get: "reg_get (e_inc e) b k = Some i" "i_stage i = Hashing acc"
    and bad: "sha acc \<noteq> th_sha256 (i_header i)"
  shows "deliveries (e_log (complete_hashed sha v b k (i_oid i) e)) = deliveries (e_log e) \<and>
    (if i_attempts i \<ge> 2
     then reg_get (e_inc (complete_hashed sha v b k (i_oid i) e)) b k = None \<and>
          Sent b (TransferCancel (NumI (v_now v)) k (Some (js ''corrupt'')))
            \<in> set (e_log (complete_hashed sha v b k (i_oid i) e))
     else (\<exists>j. reg_get (e_inc (complete_hashed sha v b k (i_oid i) e)) b k = Some j \<and>
            i_attempts j = Suc (i_attempts i) \<and> \<not> i_completing j \<and> (\<forall>n. part_at j n = None)) \<and>
          Sent b (TransferAck \<lparr> ta_ts = NumI (v_now v), ta_id = k, ta_have = [], ta_resend = True,
                               ta_done = False \<rparr>)
            \<in> set (e_log (complete_hashed sha v b k (i_oid i) e)))"
proof -
  note i = engine_inv_inD [OF inv get(1)] and wf = engine_inv_wf(2) [OF inv]
  have live: "live_in b k (i_oid i) e = Some i" using get by (simp add: live_in_Some)
  have len: "length acc = th_size (i_header i)"
    using buffer_pieces(1) [OF i(3) get(2), of 0] by simp
  have none: "have_indices (map (\<lambda>_. None) ps) = []" for ps :: "bytes option list"
    by (simp add: have_indices_def)
  show ?thesis
    using live get(2) bad len i wf
    by (simp add: complete_hashed_def Let_def emit_wrappers deleteIn_def reg_get_del reg_get_put none
        part_at_def)
qed

definition bad_sha :: "bytes \<Rightarrow> jstr" where "bad_sha d = []"

definition full_engine :: engine where
  "full_engine = handleChunk (toy_env 0) [9] toy_chunk (new_engine DEFAULT_TRANSFER_LIMITS)"

theorem corrupt_transfer_is_not_delivered_witness:
  "deliveries (e_log (complete_hashed bad_sha (toy_env 1) [9] [1] 0 full_engine)) = []"
proof -
  have inv: "engine_inv full_engine"
    unfolding full_engine_def
    by (intro inv_handleChunk inv_new_engine)
      (simp add: chunk_valid_def toy_chunk_def toy_header_def transferChunkCount_def
        transferChunkLength_def limit_defs)
  obtain i where i: "reg_get (e_inc full_engine) [9] [1] = Some i" "i_stage i = Hashing [1, 2, 3]"
    "i_oid i = 0" "i_header i = toy_header [1, 2, 3]" "deliveries (e_log full_engine) = []"
    by (simp add: full_engine_def toy_defs engine_eval)
  then have "bad_sha [1, 2, 3] \<noteq> th_sha256 (i_header i)"
    by (simp add: bad_sha_def toy_header_def toy_sha_def)
  then show ?thesis
    using corrupt_transfer_is_not_delivered [where sha = bad_sha and v = "toy_env 1", OF inv i(1,2)] i
    by simp
qed


section \<open>A silent partner\<close>

lemma visit_untouched:
  assumes "\<And>b' k' y s. P s \<Longrightarrow> reg_get (reg s) b' k' = Some y \<Longrightarrow> P (body y s) \<and>
             ((b', k') \<noteq> (b, k) \<longrightarrow> reg_get (reg (body y s)) b k = reg_get (reg s) b k)"
    and "P s" "(b, k) \<notin> set ks"
  shows "P (visit reg body ks s) \<and> reg_get (reg (visit reg body ks s)) b k = reg_get (reg s) b k"
  using assms(2,3)
proof (induction ks arbitrary: s)
  case Nil
  then show ?case by simp
next
  case (Cons bk ks)
  obtain b' k' where bk: "bk = (b', k')" by (cases bk)
  show ?case
  proof (cases "reg_get (reg s) b' k'")
    case None
    then show ?thesis using Cons bk by (simp add: visit_Cons)
  next
    case (Some y)
    from assms(1) [OF Cons.prems(1) Some] Cons.prems(2) bk
    have "P (body y s)" "reg_get (reg (body y s)) b k = reg_get (reg s) b k" by auto
    with Cons.IH [of "body y s"] Cons.prems(2) bk Some show ?thesis by (simp add: visit_Cons)
  qed
qed

text \<open>A loop over all keys, whose body only touches its own key, applies the body once to each.\<close>

lemma visit_once:
  assumes step: "\<And>b' k' y s. P s \<Longrightarrow> reg_get (reg s) b' k' = Some y \<Longrightarrow> P (body y s) \<and>
             ((b', k') \<noteq> (b, k) \<longrightarrow> reg_get (reg (body y s)) b k = reg_get (reg s) b k)"
    and "P s" "(b, k) \<in> set ks" "distinct ks" "reg_get (reg s) b k = Some x"
  shows "\<exists>t. P t \<and> reg_get (reg t) b k = Some x \<and>
             reg_get (reg (visit reg body ks s)) b k = reg_get (reg (body x t)) b k"
  using assms(2-5)
proof (induction ks arbitrary: s)
  case Nil
  then show ?case by simp
next
  case (Cons bk ks)
  obtain b' k' where bk: "bk = (b', k')" by (cases bk)
  show ?case
  proof (cases "bk = (b, k)")
    case True
    have "P (body x s)" using step [OF Cons.prems(1,4)] by simp
    from visit_untouched [of P reg body b k, OF step this, of ks] True Cons.prems show ?thesis
      by (auto simp: visit_Cons)
  next
    case False
    show ?thesis
    proof (cases "reg_get (reg s) b' k'")
      case None
      then show ?thesis using Cons False bk by (auto simp: visit_Cons)
    next
      case (Some y)
      from step [OF Cons.prems(1) Some] False bk Cons.prems
      have "P (body y s)" "reg_get (reg (body y s)) b k = Some x" by auto
      with Cons.IH [of "body y s"] Cons.prems False bk Some show ?thesis by (auto simp: visit_Cons)
    qed
  qed
qed

lemma reg_keys_mem: "reg_get r b k = Some x \<Longrightarrow> (b, k) \<in> set (reg_keys r)"
  by (force simp: reg_get_Some_iff reg_keys_def dest: map_of_SomeD)

lemma reg_keys_distinct:
  assumes "reg_wf r"
  shows "distinct (reg_keys r)"
proof -
  have "distinct (concat (map (\<lambda>(b, m). map (\<lambda>(k, v). (b, k)) m) r'))"
    if "distinct (map fst r')" "\<And>b m. (b, m) \<in> set r' \<Longrightarrow> distinct (map fst m)"
    for r' :: "'a registry"
    using that
  proof (induction r')
    case Nil
    then show ?case by simp
  next
    case (Cons bm r')
    obtain b m where bm: "bm = (b, m)" by (cases bm)
    have "map (\<lambda>(k, v). (b, k)) m = map (Pair b) (map fst m)" by auto
    moreover have "distinct (map (Pair b) (map fst m))"
      using Cons.prems(2) [of b m] bm by (subst distinct_map) (auto simp: inj_on_def)
    moreover have "distinct (concat (map (\<lambda>(b, m). map (\<lambda>(k, v). (b, k)) m) r'))"
      using Cons.prems by (intro Cons.IH) auto
    moreover have "b \<notin> fst ` set r'" using Cons.prems(1) bm by simp
    then have "set (map (Pair b) (map fst m)) \<inter>
               set (concat (map (\<lambda>(b, m). map (\<lambda>(k, v). (b, k)) m) r')) = {}"
      by force
    ultimately show ?case unfolding bm by (simp only: list.map prod.case concat.simps distinct_append)
  qed
  moreover have "distinct (map fst m)" if "(b, m) \<in> set r" for b m
    using reg_wfD [OF assms, of b m] reg_wf_distinct [OF assms] that by (simp add: map_of_eq_Some_iff)
  ultimately show ?thesis
    using reg_wf_distinct [OF assms] unfolding reg_keys_def by blast
qed

lemma tick_in_out [simp]: "e_out (fst (tick_in v i et)) = e_out (fst et)"
  by (simp add: tick_in_def split_beta Let_def)

lemma publish_all_out [simp]: "e_out (fold publish bs e) = e_out e"
  by (induction bs arbitrary: e) auto

lemma tick_out_touches:
  assumes "engine_inv e" "reg_get (e_out e) b' k' = Some y" "(b', k') \<noteq> (b, k)"
  shows "reg_get (e_out (fst (tick_out v y (e, ts)))) b k = reg_get (e_out e) b k"
proof -
  note y = engine_inv_outD [OF assms(1,2)] and wf = engine_inv_wf(1) [OF assms(1)]
  have "reg_get (e_out (pump_loop v (y\<lparr>o_pumping := True\<rparr>) e)) b k = reg_get (e_out e) b k"
  proof (cases "pump_scan (l_window (e_limits e)) (v_canSend v b') (y\<lparr>o_pumping := True\<rparr>)")
    case (PumpDone z)
    from scan_frame_fields [OF pump_scan_Done [OF this]] PumpDone y wf assms(3) show ?thesis
      by (auto simp: pump_loop_def reg_get_put)
  next
    case (PumpSend n z)
    then have "scan_frame (y\<lparr>o_pumping := True\<rparr>) z" using pump_scan_Send by blast
    from scan_frame_fields [OF this] PumpSend y wf assms(3) show ?thesis
      by (auto simp: pump_loop_def reg_get_put)
  qed
  then show ?thesis
    using y wf assms(3) by (auto simp: tick_out_def Let_def split_beta reg_get_put pump_def)
qed

text \<open>What one tick does to a sending transfer.\<close>

lemma tick_get:
  assumes inv: "engine_inv e" and get: "reg_get (e_out e) b k = Some x"
  shows "\<exists>e' ts. engine_inv e' \<and> e_limits e' = e_limits e \<and> reg_get (e_out e') b k = Some x \<and>
           reg_get (e_out (tick v e)) b k = reg_get (e_out (fst (tick_out v x (e', ts)))) b k"
proof -
  let ?P = "\<lambda>et. engine_inv (fst et) \<and> calm e (fst et)"
  let ?one = "visit (\<lambda>et. e_out (fst et)) (tick_out v) (reg_keys (e_out e)) (e, [])"
  have "\<exists>t. ?P t \<and> reg_get (e_out (fst t)) b k = Some x \<and>
          reg_get (e_out (fst ?one)) b k = reg_get (e_out (fst (tick_out v x t))) b k"
  proof (rule visit_once [where P = ?P])
    show "?P (tick_out v y s) \<and>
        ((b', k') \<noteq> (b, k) \<longrightarrow> reg_get (e_out (fst (tick_out v y s))) b k = reg_get (e_out (fst s)) b k)"
      if "?P s" "reg_get (e_out (fst s)) b' k' = Some y" for b' k' y s
      using that inv_tick_out [of "fst s" b' k' y v "snd s"] calm_tick_out [of e v y "fst s" "snd s"]
        tick_out_touches [of "fst s" b' k' y b k v "snd s"] by simp
  qed (use inv get reg_keys_mem [OF get] reg_keys_distinct [OF engine_inv_wf(1) [OF inv]] in simp_all)
  moreover have "e_out (fst (visit (\<lambda>et. e_inc (fst et)) (tick_in v) ks et)) = e_out (fst et)" for ks et
    by (rule visit_inv [where P = "\<lambda>s. e_out (fst s) = e_out (fst et)"]) simp_all
  ultimately obtain t where "?P t" "reg_get (e_out (fst t)) b k = Some x"
    "reg_get (e_out (tick v e)) b k = reg_get (e_out (fst (tick_out v x (fst t, snd t)))) b k"
    by (auto simp: tick_def Let_def)
  then show ?thesis unfolding calm_def by blast
qed

lemma tick_silent:
  assumes inv: "engine_inv e" and get: "reg_get (e_out e) b k = Some x"
    and x: "o_status x = Active" "\<not> o_pumping x" "o_queue x = []"
    and can: "v_canSend v b" and late: "backoff (e_limits e) (o_attempts x) \<le> v_now v - o_lastActivityAt x"
  shows "reg_get (e_out (tick v e)) b k =
    (if l_maxAttempts (e_limits e) < Suc (o_attempts x)
     then Some (x\<lparr>o_attempts := Suc (o_attempts x), o_status := Failed,
                  o_detail := Some (Detail (js ''Partner not responding'')), o_inFlight := []\<rparr>)
     else Some (x\<lparr>o_attempts := Suc (o_attempts x), o_lastActivityAt := v_now v\<rparr>))"
proof -
  obtain e' ts where e': "engine_inv e'" "e_limits e' = e_limits e" "reg_get (e_out e') b k = Some x"
    "reg_get (e_out (tick v e)) b k = reg_get (e_out (fst (tick_out v x (e', ts)))) b k"
    using tick_get [OF inv get] by blast
  note b = engine_inv_outD [OF e'(1,3)] and wf = engine_inv_wf(1) [OF e'(1)]
  show ?thesis
    unfolding e'(4) using e'(2) b wf x can late
    by (auto simp: tick_out_def Let_def split_beta query_def reg_get_put not_less)
qed

text \<open>Ticks at the times \<open>ts\<close>, each at least the backoff after the one before.\<close>

fun patient :: "transfer_limits \<Rightarrow> nat \<Rightarrow> int \<Rightarrow> int list \<Rightarrow> bool" where
  "patient lm a last_at [] = True"
| "patient lm a last_at (t # ts) \<longleftrightarrow> backoff lm a \<le> t - last_at \<and> patient lm (Suc a) t ts"

definition ticks :: "env \<Rightarrow> int list \<Rightarrow> (env \<times> event) list" where
  "ticks v ts = map (\<lambda>t. (v\<lparr>v_now := t\<rparr>, EvTick)) ts"


lemma toy_sent:
  "\<exists>x. reg_get (e_out toy_engine) [9] [2] = Some x \<and> o_status x = Active \<and> \<not> o_pumping x \<and>
       o_queue x = [] \<and> o_attempts x = 0 \<and> o_lastActivityAt x = 2 \<and> e_limits toy_engine = DEFAULT_TRANSFER_LIMITS"
  by (simp add: toy_engine_def run_from_def toy_defs engine_eval pump_scan.simps)


section \<open>A cancel that meets a send\<close>

text \<open>
  Cancelling does not stick while a chunk is being sent. The partner's cancel fails the transfer and
  empties its queue, but when the \<open>send\<close> that \<open>pump\<close> is waiting for then returns false, \<open>pump\<close>
  overwrites the status: the transfer is \<open>waiting\<close> again with the chunk queued, and the next tick on a
  usable connection makes it active and queries the partner.
\<close>

theorem cancel_is_undone_by_failed_send:
  assumes inv: "engine_inv e" and get: "reg_get (e_out e) b k = Some x" and aw: "o_awaiting x = Some n"
  shows "(\<exists>y. reg_get (e_out (handleCancel b k reason e)) b k = Some y \<and> o_status y = Failed \<and> o_queue y = []) \<and>
    (\<exists>y. reg_get (e_out (pump_resume v b k (o_oid x) False (handleCancel b k reason e))) b k = Some y \<and>
         o_status y = Waiting \<and> o_queue y = [n]) \<and>
    (v_canSend w b \<longrightarrow>
      (\<exists>y. reg_get (e_out (tick w (pump_resume v b k (o_oid x) False (handleCancel b k reason e)))) b k = Some y \<and>
           o_status y = Active))"
proof -
  note x = engine_inv_outD [OF inv get] and wf = engine_inv_wf(1) [OF inv]
  let ?c = "handleCancel b k reason e"
  let ?r = "pump_resume v b k (o_oid x) False ?c"
  let ?x = "x\<lparr>o_status := Failed, o_detail := Some (cancel_detail reason), o_inFlight := [], o_queue := []\<rparr>"
  have out: "e_out ?c = reg_put b k ?x (e_out e)"
    using get x by (simp add: handleCancel_def Let_def split: option.split)
  then have getc: "reg_get (e_out ?c) b k = Some ?x" using wf by (simp add: reg_get_put)
  let ?y = "?x\<lparr>o_queue := [n], o_status := Waiting, o_pumping := False, o_awaiting := None\<rparr>"
  have invr: "engine_inv ?r" by (rule inv_pump_resume [OF inv_handleCancel [OF inv]])
  have getr: "reg_get (e_out ?r) b k = Some ?y"
    using getc aw x wf
    by (simp add: pump_resume_def live_out_def out reg_get_put reg_wf_put)
  have "\<exists>y. reg_get (e_out (tick w ?r)) b k = Some y \<and> o_status y = Active" if "v_canSend w b"
  proof -
    obtain e' ts where e': "engine_inv e'" "reg_get (e_out e') b k = Some ?y"
      "reg_get (e_out (tick w ?r)) b k = reg_get (e_out (fst (tick_out w ?y (e', ts)))) b k"
      using tick_get [OF invr getr] by blast
    note y = engine_inv_outD [OF e'(1,2)] and wf' = engine_inv_wf(1) [OF e'(1)]
    show ?thesis
      unfolding e'(3) using that x wf' by (simp add: tick_out_def Let_def split_beta query_def reg_get_put)
  qed
  with getc getr show ?thesis by simp
qed

definition sending_engine :: engine where
  "sending_engine = run_from DEFAULT_TRANSFER_LIMITS toy_sha [(toy_env 0, EvStartHashed [9] toy_payload False)]"

theorem cancel_is_undone_by_failed_send_witness:
  "\<exists>y. reg_get (e_out (tick (toy_env 5) (pump_resume (toy_env 1) [9] [2] 0 False
          (handleCancel [9] [2] (Some (js ''cancelled'')) sending_engine)))) [9] [2] = Some y \<and> o_status y = Active"
proof -
  have "can_run DEFAULT_TRANSFER_LIMITS toy_sha [(toy_env 0, EvStartHashed [9] toy_payload False)]"
    by (simp add: can_run_def toy_payload_def limit_defs)
  then have inv: "engine_inv sending_engine" unfolding sending_engine_def by (rule inv_run_from)
  obtain x where "reg_get (e_out sending_engine) [9] [2] = Some x" "o_awaiting x = Some 0" "o_oid x = 0"
    by (simp add: sending_engine_def run_from_def toy_defs engine_eval pump_scan.simps)
  with cancel_is_undone_by_failed_send [OF inv this(1,2), of "Some (js ''cancelled'')" "toy_env 1" "toy_env 5"]
  show ?thesis by (simp add: toy_env_def)
qed

end
