(* ===== verification/Uuid.thy ===== *)
theory Uuid
  imports Prelude
begin

text \<open>
  \<open>uuidV7\<close> of \<open>web/src/lib/crypto/id.ts\<close>: message ids that sort by time. The module's variables
  \<open>lastMs\<close> and \<open>lastSeq\<close> are the state; the clock, \<open>Math.random\<close> and \<open>crypto.getRandomValues\<close> are the
  inputs of each call. The clock is a number of milliseconds below \<open>2 ^ 48\<close>.
\<close>

record uuid_state =
  us_lastMs :: int
  us_lastSeq :: nat

definition initial_uuid_state :: uuid_state where
  "initial_uuid_state = \<lparr> us_lastMs = - 1, us_lastSeq = 0 \<rparr>"

definition hex_digit :: "nat \<Rightarrow> char" where
  "hex_digit n = (if n < 10 then char_of (48 + n) else char_of (87 + n))"

definition hex_byte :: "byte \<Rightarrow> string" where
  "hex_byte b = [hex_digit (unat b div 16), hex_digit (unat b mod 16)]"

definition bytesToUuid :: "bytes \<Rightarrow> string" where
  "bytesToUuid bs =
     (let hex = map hex_byte (take 16 bs)
      in concat (take 4 hex) @ ''-'' @ concat (take 2 (drop 4 hex)) @ ''-'' @
         concat (take 2 (drop 6 hex)) @ ''-'' @ concat (take 2 (drop 8 hex)) @ ''-'' @
         concat (take 6 (drop 10 hex)))"

text \<open>The state part of a call: \<open>draw\<close> is \<open>Math.floor(Math.random() * 0x1000)\<close>.\<close>

definition uuid_tick :: "int \<Rightarrow> nat \<Rightarrow> uuid_state \<Rightarrow> uuid_state" where
  "uuid_tick now draw s =
     (if now = us_lastMs s
      then (let seq = (us_lastSeq s + 1) mod 0x1000
            in \<lparr> us_lastMs = (if seq = 0 then now + 1 else now), us_lastSeq = seq \<rparr>)
      else \<lparr> us_lastMs = now, us_lastSeq = draw \<rparr>)"

definition ms_byte :: "int \<Rightarrow> nat \<Rightarrow> byte" where
  "ms_byte ms k = of_int (ms div 2 ^ k)"

definition uuid_bytes :: "int \<Rightarrow> nat \<Rightarrow> bytes \<Rightarrow> bytes" where
  "uuid_bytes ms seq rand =
     [ms_byte ms 40, ms_byte ms 32, ms_byte ms 24, ms_byte ms 16, ms_byte ms 8, ms_byte ms 0,
      or 0x70 (and (of_nat (seq div 256)) 0x0f), of_nat seq,
      or 0x80 (and (rand ! 0) 0x3f)] @ take 7 (drop 1 rand)"

definition uuidV7 :: "int \<Rightarrow> nat \<Rightarrow> bytes \<Rightarrow> uuid_state \<Rightarrow> string \<times> uuid_state" where
  "uuidV7 now draw rand s =
     (let s1 = uuid_tick now draw s
      in (bytesToUuid (uuid_bytes (us_lastMs s1) (us_lastSeq s1) rand), s1))"

section \<open>The order of ids\<close>

text \<open>JavaScript compares strings by code units: \<open><\<close> on \<open>js\<close> of the characters.\<close>

definition uuid_wf :: "uuid_state \<Rightarrow> bool" where
  "uuid_wf s \<longleftrightarrow> us_lastSeq s < 0x1000"

definition uuid_input :: "int \<Rightarrow> nat \<Rightarrow> bytes \<Rightarrow> bool" where
  "uuid_input now draw rand \<longleftrightarrow> 0 \<le> now \<and> now < 2 ^ 48 - 1 \<and> draw < 0x1000 \<and> length rand = 8"

lemma unat_hex_digit: "n < 16 \<Longrightarrow> unat (unit_of (hex_digit n)) = (if n < 10 then 48 + n else 87 + n)"
  by (simp add: unat_unit_of hex_digit_def)

lemma hex_digit_less:
  assumes "m < 16" "n < 16"
  shows "unit_of (hex_digit m) < unit_of (hex_digit n) \<longleftrightarrow> m < n"
  unfolding word_less_nat_alt unat_hex_digit [OF assms(1)] unat_hex_digit [OF assms(2)]
  using assms by auto

lemma hex_digit_eq:
  assumes "m < 16" "n < 16"
  shows "hex_digit m = hex_digit n \<longleftrightarrow> m = n"
  using hex_digit_less [OF assms] hex_digit_less [OF assms(2,1)] by (metis less_irrefl nat_neq_iff)

lemma nibbles:
  fixes a b :: nat
  shows "a < b \<longleftrightarrow> a div 16 < b div 16 \<or> a div 16 = b div 16 \<and> a mod 16 < b mod 16"
    and "a = b \<longleftrightarrow> a div 16 = b div 16 \<and> a mod 16 = b mod 16"
proof -
  have a: "a = a div 16 * 16 + a mod 16" and b: "b = b div 16 * 16 + b mod 16" by simp_all
  have "a mod 16 < 16" "b mod 16 < 16" by simp_all
  with a b show "a < b \<longleftrightarrow> a div 16 < b div 16 \<or> a div 16 = b div 16 \<and> a mod 16 < b mod 16"
    by linarith
  from a b show "a = b \<longleftrightarrow> a div 16 = b div 16 \<and> a mod 16 = b mod 16" by metis
qed

text \<open>Hexadecimal digits of fixed width keep the order of bytes.\<close>

lemma hex_byte_order:
  "js (hex_byte a) @ r < js (hex_byte b) @ r' \<longleftrightarrow> a < b \<or> a = b \<and> r < r'"
proof -
  have bound: "unat c div 16 < 16" "unat c mod 16 < 16" for c :: byte
    using unat_byte [of c] by auto
  have "a < b \<longleftrightarrow> unat a div 16 < unat b div 16 \<or> unat a div 16 = unat b div 16 \<and> unat a mod 16 < unat b mod 16"
    unfolding word_less_nat_alt by (rule nibbles)
  moreover have "a = b \<longleftrightarrow> unat a div 16 = unat b div 16 \<and> unat a mod 16 = unat b mod 16"
    unfolding word_unat_eq_iff by (rule nibbles)
  ultimately show ?thesis
    using bound [of a] bound [of b] by (auto simp: hex_byte_def js_def hex_digit_less hex_digit_eq)
qed

lemma js_append [simp]: "js (s @ t) = js s @ js t"
  by (simp add: js_def)

lemma js_concat_hex: "js (hex_byte b @ s) = js (hex_byte b) @ js s"
  by simp

lemma bytes16: "length bs = 16 \<Longrightarrow> \<exists>b0 b1 b2 b3 b4 b5 b6 b7 b8 b9 b10 b11 b12 b13 b14 b15.
    bs = [b0, b1, b2, b3, b4, b5, b6, b7, b8, b9, b10, b11, b12, b13, b14, b15]"
  by (auto simp: length_Suc_conv eval_nat_numeral)

lemma uuid_text_order:
  assumes "length bs = 16" "length cs = 16"
  shows "js (bytesToUuid bs) < js (bytesToUuid cs) \<longleftrightarrow> bs < cs"
proof -
  have dash: "js ''-'' @ r < js ''-'' @ r' \<longleftrightarrow> r < r'" for r r' by (simp add: js_def)
  have last: "js (hex_byte a) < js (hex_byte b) \<longleftrightarrow> a < b" for a b
    using hex_byte_order [of a "[]" b "[]"] by simp
  from assms bytes16 [of bs] bytes16 [of cs] show ?thesis
    by (auto simp: bytesToUuid_def Let_def eval_nat_numeral hex_byte_order dash last
        simp del: append_Cons)
qed

lemma uint_ms_byte: "uint (ms_byte ms k) = ms div 2 ^ k mod 256"
  by (simp add: ms_byte_def uint_word_of_int)

text \<open>One byte of the big-endian timestamp at a time.\<close>

lemma ms_byte_step:
  assumes "0 \<le> a" "0 \<le> b"
  shows "a div 2 ^ k < b div 2 ^ k \<longleftrightarrow>
           a div 2 ^ (k + 8) < b div 2 ^ (k + 8) \<or>
           a div 2 ^ (k + 8) = b div 2 ^ (k + 8) \<and> ms_byte a k < ms_byte b k"
    and "a div 2 ^ k = b div 2 ^ k \<longleftrightarrow>
           a div 2 ^ (k + 8) = b div 2 ^ (k + 8) \<and> ms_byte a k = ms_byte b k"
proof -
  have up: "x div 2 ^ (k + 8) = x div 2 ^ k div 256" if "0 \<le> x" for x :: int
    using that by (simp add: power_add zdiv_zmult2_eq)
  have less: "ms_byte a k < ms_byte b k \<longleftrightarrow> a div 2 ^ k mod 256 < b div 2 ^ k mod 256"
    by (simp add: word_less_def uint_ms_byte)
  have eq: "ms_byte a k = ms_byte b k \<longleftrightarrow> a div 2 ^ k mod 256 = b div 2 ^ k mod 256"
    by (simp add: word_uint_eq_iff uint_ms_byte)
  have split: "x < y \<longleftrightarrow> x div 256 < y div 256 \<or> x div 256 = y div 256 \<and> x mod 256 < y mod 256"
    "x = y \<longleftrightarrow> x div 256 = y div 256 \<and> x mod 256 = y mod 256" for x y :: int
  proof -
    have xy: "x = x div 256 * 256 + x mod 256" "y = y div 256 * 256 + y mod 256" by simp_all
    then show "x = y \<longleftrightarrow> x div 256 = y div 256 \<and> x mod 256 = y mod 256" by metis
    have "0 \<le> x mod 256" "x mod 256 < 256" "0 \<le> y mod 256" "y mod 256 < 256" by simp_all
    with xy show "x < y \<longleftrightarrow> x div 256 < y div 256 \<or> x div 256 = y div 256 \<and> x mod 256 < y mod 256"
      by linarith
  qed
  show "a div 2 ^ k < b div 2 ^ k \<longleftrightarrow>
           a div 2 ^ (k + 8) < b div 2 ^ (k + 8) \<or>
           a div 2 ^ (k + 8) = b div 2 ^ (k + 8) \<and> ms_byte a k < ms_byte b k"
    unfolding up [OF assms(1)] up [OF assms(2)] less by (rule split)
  show "a div 2 ^ k = b div 2 ^ k \<longleftrightarrow>
           a div 2 ^ (k + 8) = b div 2 ^ (k + 8) \<and> ms_byte a k = ms_byte b k"
    unfolding up [OF assms(1)] up [OF assms(2)] eq by (rule split)
qed

definition ms_bytes :: "int \<Rightarrow> bytes" where
  "ms_bytes ms = [ms_byte ms 40, ms_byte ms 32, ms_byte ms 24, ms_byte ms 16, ms_byte ms 8, ms_byte ms 0]"

lemma ms_bytes_order:
  assumes "0 \<le> a" "a < 2 ^ 48" "0 \<le> b" "b < 2 ^ 48"
  shows "ms_bytes a @ r < ms_bytes b @ r' \<longleftrightarrow> a < b \<or> a = b \<and> r < r'"
proof -
  have top: "a div 2 ^ (40 + 8) = 0" "b div 2 ^ (40 + 8) = 0" using assms by simp_all
  note step = ms_byte_step [OF assms(1,3)]
  have less: "a < b \<longleftrightarrow> ms_byte a 40 < ms_byte b 40 \<or> ms_byte a 40 = ms_byte b 40 \<and>
     (ms_byte a 32 < ms_byte b 32 \<or> ms_byte a 32 = ms_byte b 32 \<and>
     (ms_byte a 24 < ms_byte b 24 \<or> ms_byte a 24 = ms_byte b 24 \<and>
     (ms_byte a 16 < ms_byte b 16 \<or> ms_byte a 16 = ms_byte b 16 \<and>
     (ms_byte a 8 < ms_byte b 8 \<or> ms_byte a 8 = ms_byte b 8 \<and> ms_byte a 0 < ms_byte b 0))))"
    using step(1) [of 0] step(1) [of 8] step(1) [of 16] step(1) [of 24] step(1) [of 32] step(1) [of 40]
      step(2) [of 8] step(2) [of 16] step(2) [of 24] step(2) [of 32] step(2) [of 40] top
    by (simp del: div_pos_pos_trivial) blast
  have eq: "a = b \<longleftrightarrow> ms_bytes a = ms_bytes b"
    using step(2) [of 0] step(2) [of 8] step(2) [of 16] step(2) [of 24] step(2) [of 32] step(2) [of 40] top
    by (simp add: ms_bytes_def del: div_pos_pos_trivial)
  show ?thesis unfolding less eq by (auto simp: ms_bytes_def)
qed

definition seq_bytes :: "nat \<Rightarrow> bytes" where
  "seq_bytes seq = [or 0x70 (and (of_nat (seq div 256)) 0x0f), of_nat seq]"

lemma version_byte:
  assumes "q < 16"
  shows "unat (or 0x70 (and (of_nat q) 0x0f) :: byte) = 112 + q"
proof -
  have "\<forall>q \<in> set [0..<16]. unat (or 0x70 (and (of_nat q) 0x0f) :: byte) = 112 + q" by code_simp
  with assms show ?thesis by simp
qed

lemma seq_bytes_order:
  assumes "n < 0x1000" "m < n"
  shows "seq_bytes m @ r < seq_bytes n @ r'"
proof -
  have "m div 256 < 16" "n div 256 < 16" using assms by auto
  then have high: "unat (or 0x70 (and (of_nat (m div 256)) 0x0f) :: byte) = 112 + m div 256"
    "unat (or 0x70 (and (of_nat (n div 256)) 0x0f) :: byte) = 112 + n div 256"
    by (simp_all only: version_byte)
  have low: "unat (of_nat k :: byte) = k mod 256" for k by (simp add: unat_of_nat)
  have "m div 256 < n div 256 \<or> m div 256 = n div 256 \<and> m mod 256 < n mod 256"
  proof -
    have "m = m div 256 * 256 + m mod 256" "n = n div 256 * 256 + n mod 256" by simp_all
    moreover have "m mod 256 < 256" "n mod 256 < 256" by simp_all
    ultimately show ?thesis using assms(2) by linarith
  qed
  then show ?thesis
    by (auto simp: seq_bytes_def word_less_nat_alt word_unat_eq_iff high low)
qed

lemma uuid_bytes_split:
  "uuid_bytes ms seq rand = ms_bytes ms @ seq_bytes seq @ or 0x80 (and (rand ! 0) 0x3f) # take 7 (drop 1 rand)"
  by (simp add: uuid_bytes_def ms_bytes_def seq_bytes_def)

lemma length_uuid_bytes: "length rand = 8 \<Longrightarrow> length (uuid_bytes ms seq rand) = 16"
  by (simp add: uuid_bytes_def)

text \<open>Ids are ordered by their timestamp, then by their sequence number.\<close>

lemma uuid_order:
  assumes "0 \<le> a" "a < 2 ^ 48" "0 \<le> b" "b < 2 ^ 48" "length r = 8" "length r' = 8"
    and "a < b \<or> a = b \<and> m < n" "n < 0x1000"
  shows "js (bytesToUuid (uuid_bytes a m r)) < js (bytesToUuid (uuid_bytes b n r'))"
proof -
  have "uuid_bytes a m r < uuid_bytes b n r'"
    unfolding uuid_bytes_split ms_bytes_order [OF assms(1-4)]
    using assms(7,8) seq_bytes_order by blast
  then show ?thesis
    using assms(5,6) by (simp only: uuid_text_order length_uuid_bytes)
qed



text \<open>
  Ids can go backwards although the clock does not. When the sequence counter has run full within one
  millisecond, the id after it takes the next millisecond; a further id within the same millisecond
  finds its clock different from that, starts anew with the clock's own reading, and sorts before.
\<close>

theorem uuid_goes_backwards_after_wrap:
  assumes "uuid_input now draw rand" "uuid_input now draw' rand'"
    and "us_lastMs s = now" "us_lastSeq s = 0xfff"
  shows "js (fst (uuidV7 now draw' rand' (snd (uuidV7 now draw rand s)))) < js (fst (uuidV7 now draw rand s))"
  using assms by (auto simp: uuidV7_def uuid_tick_def Let_def uuid_input_def intro!: uuid_order)

theorem uuid_goes_backwards_after_wrap_witness:
  "js (fst (uuidV7 1000 7 [1,1,1,1,1,1,1,1]
       (snd (uuidV7 1000 5 [0,0,0,0,0,0,0,0] \<lparr> us_lastMs = 1000, us_lastSeq = 0xfff \<rparr>)))) <
   js (fst (uuidV7 1000 5 [0,0,0,0,0,0,0,0] \<lparr> us_lastMs = 1000, us_lastSeq = 0xfff \<rparr>))"
  by (rule uuid_goes_backwards_after_wrap) (simp_all add: uuid_input_def)

end
