(* ===== verification/Pow.thy ===== *)
theory Pow
  imports Complex_Main Prelude
begin

text \<open>
  The client half of the relay's proof-of-work gate, \<open>web/src/lib/relay/pow.ts\<close>. The digest of the
  UTF-8 encoding of a string is a parameter; \<open>fetch\<close> and the clock answer through arguments. The
  module's \<open>challengeCache\<close> is the state.
\<close>

section \<open>Difficulty\<close>

text \<open>The inner loop over the bits of a byte that is not zero.\<close>

fun zero_bits :: "nat \<Rightarrow> byte \<Rightarrow> nat \<Rightarrow> nat" where
  "zero_bits 0 b n = n"
| "zero_bits (Suc k) b n = (if and b 0x80 \<noteq> 0 then n else zero_bits k (push_bit 1 b) (n + 1))"

fun zero_bytes :: "bytes \<Rightarrow> nat \<Rightarrow> nat" where
  "zero_bytes [] n = n"
| "zero_bytes (b # bs) n = (if b = 0 then zero_bytes bs (n + 8) else zero_bits 8 b n)"

definition leadingZeroBits :: "bytes \<Rightarrow> nat" where
  "leadingZeroBits bs = zero_bytes bs 0"

text \<open>The bits of a byte string, most significant first.\<close>

definition byte_bits :: "byte \<Rightarrow> bool list" where
  "byte_bits b = map (bit b) [7, 6, 5, 4, 3, 2, 1, 0]"

definition bits_of :: "bytes \<Rightarrow> bool list" where
  "bits_of bs = concat (map byte_bits bs)"

definition zero_prefix :: "bool list \<Rightarrow> nat" where
  "zero_prefix xs = length (takeWhile Not xs)"

lemma top_bit: "and b 0x80 \<noteq> 0 \<longleftrightarrow> bit b 7" for b :: byte
proof -
  have "\<forall>n \<in> set [0..<8]. bit (0x80 :: byte) n \<longleftrightarrow> n = 7" by code_simp
  then have "n < 8 \<Longrightarrow> bit (0x80 :: byte) n \<longleftrightarrow> n = 7" for n by simp
  then have "bit (and b 0x80) n \<longleftrightarrow> n = 7 \<and> bit b 7" if "n < 8" for n
    using that by (auto simp: bit_and_iff)
  moreover have "and b 0x80 \<noteq> 0 \<longleftrightarrow> (\<exists>n<8. bit (and b 0x80) n)"
    unfolding bit_eq_iff [of "and b 0x80"] by auto
  moreover have "(7::nat) < 8" by simp
  ultimately show ?thesis by blast
qed

lemma bit_shifted: "j < 7 \<Longrightarrow> bit (push_bit 1 b) (7 - j) \<longleftrightarrow> bit b (7 - Suc j)" for b :: byte
  by (subst bit_push_bit_iff) auto

lemma zero_bits_eq: "zero_bits k b n = n + zero_prefix (map (\<lambda>j. bit b (7 - j)) [0..<k])" if "k \<le> 8"
  using that
proof (induction k arbitrary: b n)
  case 0
  then show ?case by (simp add: zero_prefix_def)
next
  case (Suc k)
  have "map (\<lambda>j. bit b (7 - j)) [0..<Suc k] = bit b 7 # map (\<lambda>j. bit (push_bit 1 b) (7 - j)) [0..<k]"
    using Suc.prems bit_shifted [of _ b] by (simp add: map_upt_Suc del: upt_Suc push_bit_Suc)
  then show ?case using Suc by (simp add: top_bit zero_prefix_def)
qed

lemma zero_prefix_append:
  "zero_prefix (xs @ ys) = (if True \<in> set xs then zero_prefix xs else length xs + zero_prefix ys)"
  by (induction xs) (auto simp: zero_prefix_def)

lemma byte_bits_zero: "True \<in> set (byte_bits b) \<longleftrightarrow> b \<noteq> 0"
proof -
  have "b \<noteq> 0 \<longleftrightarrow> (\<exists>n<8. bit b n)" by (auto simp: bit_eq_iff)
  also have "\<dots> \<longleftrightarrow> True \<in> set (byte_bits b)"
    by (auto simp: byte_bits_def eval_nat_numeral less_Suc_eq)
  finally show ?thesis by simp
qed

lemma zero_bytes_eq: "zero_bytes bs n = n + zero_prefix (bits_of bs)"
proof (induction bs arbitrary: n)
  case Nil
  then show ?case by (simp add: bits_of_def zero_prefix_def)
next
  case (Cons b bs)
  have "byte_bits b = map (\<lambda>j. bit b (7 - j)) [0..<8]"
    by (simp add: byte_bits_def upt_rec)
  then have "zero_bits 8 b n = n + zero_prefix (byte_bits b)" by (simp add: zero_bits_eq)
  then show ?case
    using Cons.IH by (simp add: bits_of_def zero_prefix_append byte_bits_zero) (simp add: byte_bits_def)
qed


lemma zero_prefix_ge: "d \<le> zero_prefix xs \<longleftrightarrow> d \<le> length xs \<and> (\<forall>b\<in>set (take d xs). \<not> b)"
proof (induction xs arbitrary: d)
  case Nil
  then show ?case by (simp add: zero_prefix_def)
next
  case (Cons x xs)
  then show ?case by (cases d) (auto simp: zero_prefix_def)
qed

text \<open>C16
  \<open>leadingZeroBits\<close> counts the zero bits before the first one bit of the byte string read as bits, most
  significant first; in particular a digest meets difficulty \<open>d\<close> exactly when it has at least \<open>d\<close> bits
  and the first \<open>d\<close> of them are zero.
\<close>

theorem leadingZeroBits_spec:
  "leadingZeroBits bs = length (takeWhile Not (bits_of bs)) \<and>
   (d \<le> leadingZeroBits bs \<longleftrightarrow> d \<le> 8 * length bs \<and> True \<notin> set (take d (bits_of bs)))"
proof -
  have "length (bits_of bs) = 8 * length bs"
    by (induction bs) (simp_all add: bits_of_def byte_bits_def)
  then show ?thesis
    by (auto simp: leadingZeroBits_def zero_bytes_eq zero_prefix_ge simp flip: zero_prefix_def)
qed

section \<open>Solving a challenge\<close>

definition SOLVE_TIMEOUT_MS :: int where "SOLVE_TIMEOUT_MS = 20000"

text \<open>
  The loop from iteration \<open>i\<close> on. \<open>clock i\<close> is what \<open>Date.now()\<close> returns at the checkpoint of
  iteration \<open>i\<close>; the loop has no other bound, so it is a partial function, \<open>None\<close> meaning that it never
  returns.
\<close>

definition checkpoint_late :: "(nat \<Rightarrow> int) \<Rightarrow> int \<Rightarrow> nat \<Rightarrow> bool" where
  "checkpoint_late clock deadline i \<longleftrightarrow> 0 < i \<and> i mod 512 = 0 \<and> deadline < clock i"

definition meets :: "(jstr \<Rightarrow> bytes) \<Rightarrow> jstr \<Rightarrow> rat \<Rightarrow> nat \<Rightarrow> bool" where
  "meets digest challenge difficulty i \<longleftrightarrow>
     difficulty \<le> of_nat (leadingZeroBits (digest (challenge @ decimal i)))"

partial_function (option) solve_from ::
    "(jstr \<Rightarrow> bytes) \<Rightarrow> (nat \<Rightarrow> int) \<Rightarrow> jstr \<Rightarrow> rat \<Rightarrow> int \<Rightarrow> nat \<Rightarrow> jstr result option" where
  "solve_from digest clock challenge difficulty deadline i =
     (if meets digest challenge difficulty i then Some (Inr (decimal i))
      else if checkpoint_late clock deadline i
           then Some (Inl (Error ''pow: no solution within the time limit''))
      else solve_from digest clock challenge difficulty deadline (Suc i))"

definition solvePowChallenge ::
    "(jstr \<Rightarrow> bytes) \<Rightarrow> (nat \<Rightarrow> int) \<Rightarrow> int \<Rightarrow> jstr \<Rightarrow> rat \<Rightarrow> int \<Rightarrow> jstr result option" where
  "solvePowChallenge digest clock start challenge difficulty timeoutMs =
     solve_from digest clock challenge difficulty (start + timeoutMs) 0"

lemma solve_from_first:
  assumes "i \<le> n" "\<And>j. i \<le> j \<Longrightarrow> j < n \<Longrightarrow>
             \<not> meets digest challenge difficulty j \<and> \<not> checkpoint_late clock deadline j"
  shows "solve_from digest clock challenge difficulty deadline i =
         solve_from digest clock challenge difficulty deadline n"
  using assms
proof (induction "n - i" arbitrary: i)
  case 0
  then show ?case by simp
next
  case (Suc m)
  then have "\<not> meets digest challenge difficulty i \<and> \<not> checkpoint_late clock deadline i" by simp
  then have "solve_from digest clock challenge difficulty deadline i =
             solve_from digest clock challenge difficulty deadline (Suc i)"
    by (subst solve_from.simps) simp
  also have "\<dots> = solve_from digest clock challenge difficulty deadline n"
    using Suc.hyps(2) Suc.prems by (intro Suc.hyps(1)) auto
  finally show ?case .
qed


definition toy_digest :: "jstr \<Rightarrow> bytes" where
  "toy_digest s = (if s = [1] @ decimal 3 then [0, 255] else [255, 255])"


section \<open>Fetching the challenge\<close>

record pow_info =
  pi_required :: bool
  pi_challenge :: "jstr option"
  pi_difficulty :: "rat option"

definition not_required :: pow_info where
  "not_required = \<lparr> pi_required = False, pi_challenge = None, pi_difficulty = None \<rparr>"

record cache_entry =
  ce_info :: pow_info
  ce_expiresAt :: int

definition NEGATIVE_CACHE_MS :: int where "NEGATIVE_CACHE_MS = 60000"

text \<open>How \<open>fetch\<close> and \<open>resp.json()\<close> may settle: rejected, not \<open>ok\<close>, or a parsed body.\<close>

datatype response = Unreachable | NotOk | Body pow_info

definition fetch_challenge ::
    "jstr \<Rightarrow> int \<Rightarrow> response \<Rightarrow> (jstr, cache_entry) jsmap \<Rightarrow> pow_info \<times> bool \<times> (jstr, cache_entry) jsmap" where
  "fetch_challenge origin now response cache =
     (let negative = AList.update origin
            \<lparr> ce_info = not_required, ce_expiresAt = now + NEGATIVE_CACHE_MS \<rparr> cache
      in case response of
           Unreachable \<Rightarrow> (not_required, True, cache)
         | NotOk \<Rightarrow> (not_required, True, negative)
         | Body info \<Rightarrow> if \<not> pi_required info then (not_required, True, negative) else (info, True, cache))"

text \<open>The second component tells whether the endpoint was fetched at all.\<close>

definition getPowChallenge ::
    "jstr \<Rightarrow> int \<Rightarrow> response \<Rightarrow> (jstr, cache_entry) jsmap \<Rightarrow> pow_info \<times> bool \<times> (jstr, cache_entry) jsmap" where
  "getPowChallenge origin now response cache =
     (case map_of cache origin of
        Some c \<Rightarrow> if now < ce_expiresAt c then (ce_info c, False, cache) else fetch_challenge origin now response cache
      | None \<Rightarrow> fetch_challenge origin now response cache)"


text \<open>
  \<open>solvePowForConnect\<close>: the \<open>pow\<close> query value, or \<open>null\<close> when the relay requires none. An empty
  challenge and a difficulty of zero count as absent. \<open>None\<close> in front means that it never settles.
\<close>

definition solvePowForConnect ::
    "(jstr \<Rightarrow> bytes) \<Rightarrow> (nat \<Rightarrow> int) \<Rightarrow> int \<Rightarrow> pow_info \<Rightarrow> jstr option result option" where
  "solvePowForConnect digest clock start info =
     (case (pi_challenge info, pi_difficulty info) of
        (Some challenge, Some difficulty) \<Rightarrow>
          if \<not> pi_required info \<or> challenge = [] \<or> difficulty = 0 then Some (Inr None)
          else (case solvePowChallenge digest clock start challenge difficulty SOLVE_TIMEOUT_MS of
                  None \<Rightarrow> None
                | Some (Inl err) \<Rightarrow> Some (Inl err)
                | Some (Inr solution) \<Rightarrow> Some (Inr (Some (challenge @ js '':'' @ solution))))
      | _ \<Rightarrow> Some (Inr None))"

text \<open>A sequence of calls, each with its origin, its time and what the network would answer.\<close>

definition challenge_calls ::
    "(jstr \<times> int \<times> response) list \<Rightarrow> (jstr, cache_entry) jsmap \<Rightarrow> (jstr, cache_entry) jsmap" where
  "challenge_calls = run (\<lambda>(origin, now, response) cache. snd (snd (getPowChallenge origin now response cache)))"

definition only_negative :: "(jstr, cache_entry) jsmap \<Rightarrow> bool" where
  "only_negative cache \<longleftrightarrow> (\<forall>origin c. map_of cache origin = Some c \<longrightarrow> ce_info c = not_required)"

lemma only_negative_call:
  "only_negative cache \<Longrightarrow> only_negative (snd (snd (getPowChallenge origin now response cache)))"
  by (auto simp: only_negative_def getPowChallenge_def fetch_challenge_def Let_def update_conv'
      split: option.splits response.splits if_splits)

lemma only_negative_calls: "only_negative cache \<Longrightarrow> only_negative (challenge_calls calls cache)"
  unfolding challenge_calls_def
  by (induction calls arbitrary: cache) (auto simp: only_negative_call)

text \<open>Only "not required" answers are cached. After any calls, a call that does not fetch answers "not
  required", and it is served from an entry that has not expired; so a relay that requires a proof is
  asked for a fresh challenge by every call, and a relay that starts to require one is noticed within
  \<open>NEGATIVE_CACHE_MS\<close> of the last fetch.
\<close>

theorem required_is_never_cached:
  assumes "getPowChallenge origin now response (challenge_calls calls []) = (info, fetched, cache)"
  shows "(\<not> fetched \<longrightarrow> info = not_required \<and>
            (\<exists>c. map_of (challenge_calls calls []) origin = Some c \<and> now < ce_expiresAt c)) \<and>
         (pi_required info \<longrightarrow> fetched \<and> response = Body info \<and> cache = challenge_calls calls []) \<and>
         (cache \<noteq> challenge_calls calls [] \<longrightarrow> fetched)"
proof -
  have "only_negative (challenge_calls calls [])"
    by (rule only_negative_calls) (simp add: only_negative_def)
  with assms show ?thesis
    by (auto simp: only_negative_def getPowChallenge_def fetch_challenge_def Let_def not_required_def
        split: option.splits response.splits if_splits)
qed

theorem required_is_never_cached_witness:
  "fst (getPowChallenge [1] 100 NotOk (challenge_calls [([1], 0, NotOk)] [])) = not_required"
proof -
  have eq: "getPowChallenge [1] 100 NotOk (challenge_calls [([1], 0, NotOk)] []) =
     (not_required, False, challenge_calls [([1], 0, NotOk)] [])"
    by (simp add: getPowChallenge_def fetch_challenge_def challenge_calls_def NEGATIVE_CACHE_MS_def)
  from required_is_never_cached [OF eq] eq show ?thesis by simp
qed

text \<open>
  \<open>solvePowForConnect\<close> can throw. When the clock is past the deadline at a checkpoint and no number up to
  there meets the difficulty, its promise is rejected with the timeout error instead of yielding
  \<open>null\<close>.
\<close>

theorem solvePowForConnect_throws:
  assumes "pi_required info" "pi_challenge info = Some challenge" "challenge \<noteq> []"
    and "pi_difficulty info = Some difficulty" "difficulty \<noteq> 0"
    and "checkpoint_late clock (start + SOLVE_TIMEOUT_MS) n"
    and "\<forall>j \<le> n. \<not> meets digest challenge difficulty j"
  shows "solvePowForConnect digest clock start info =
           Some (Inl (Error ''pow: no solution within the time limit''))"
proof -
  let ?late = "checkpoint_late clock (start + SOLVE_TIMEOUT_MS)"
  define m where "m = (LEAST i. ?late i)"
  have late: "?late m" unfolding m_def using assms(6) by (rule LeastI)
  have m: "m \<le> n" unfolding m_def using assms(6) by (rule Least_le)
  have before: "\<not> ?late j" if "j < m" for j using that unfolding m_def by (rule not_less_Least)
  have "solvePowChallenge digest clock start challenge difficulty SOLVE_TIMEOUT_MS =
        solve_from digest clock challenge difficulty (start + SOLVE_TIMEOUT_MS) m"
    unfolding solvePowChallenge_def using before assms(7) m by (intro solve_from_first) auto
  also have "\<dots> = Some (Inl (Error ''pow: no solution within the time limit''))"
    using late assms(7) m by (subst solve_from.simps) auto
  finally show ?thesis using assms(1-5) by (simp add: solvePowForConnect_def)
qed

theorem solvePowForConnect_throws_witness:
  "solvePowForConnect (\<lambda>s. [255]) (\<lambda>i. 30000) 0
     \<lparr> pi_required = True, pi_challenge = Some [1], pi_difficulty = Some 8 \<rparr> =
   Some (Inl (Error ''pow: no solution within the time limit''))"
proof (rule solvePowForConnect_throws [where n = 512])
  have "leadingZeroBits [255] = 0" by code_simp
  then show "\<forall>j \<le> 512. \<not> meets (\<lambda>s. [255]) [1] 8 j" by (simp add: meets_def)
qed (simp_all add: checkpoint_late_def SOLVE_TIMEOUT_MS_def)

end
