(* ===== verification/Utf8.thy ===== *)
theory Utf8
  imports Prelude
begin

text \<open>
  \<open>TextEncoder\<close> and \<open>TextDecoder\<close>, through which every string of the program becomes bytes and back.
  The encoder replaces a lone surrogate by U+FFFD. The decoder is the one of the Encoding standard: a
  malformed sequence becomes U+FFFD, up to the byte that cannot continue it, and a byte order mark at
  the start is dropped.
\<close>

section \<open>Code units and code points\<close>

definition is_high :: "16 word \<Rightarrow> bool" where
  "is_high u \<longleftrightarrow> 0xD800 \<le> unat u \<and> unat u < 0xDC00"

definition is_low :: "16 word \<Rightarrow> bool" where
  "is_low u \<longleftrightarrow> 0xDC00 \<le> unat u \<and> unat u < 0xE000"

definition join_pair :: "16 word \<Rightarrow> 16 word \<Rightarrow> nat" where
  "join_pair u v = 0x10000 + (unat u - 0xD800) * 0x400 + (unat v - 0xDC00)"

fun code_points :: "jstr \<Rightarrow> nat list" where
  "code_points [] = []"
| "code_points [u] = [if is_high u \<or> is_low u then 0xFFFD else unat u]"
| "code_points (u # v # us) =
     (if is_high u \<and> is_low v then join_pair u v # code_points us
      else (if is_high u \<or> is_low u then 0xFFFD else unat u) # code_points (v # us))"

definition units_of :: "nat \<Rightarrow> jstr" where
  "units_of cp =
     (if cp < 0x10000 then [of_nat cp]
      else [of_nat (0xD800 + (cp - 0x10000) div 0x400), of_nat (0xDC00 + (cp - 0x10000) mod 0x400)])"

text \<open>No surrogate without its partner.\<close>

fun well_formed :: "jstr \<Rightarrow> bool" where
  "well_formed [] = True"
| "well_formed [u] \<longleftrightarrow> \<not> is_high u \<and> \<not> is_low u"
| "well_formed (u # v # us) \<longleftrightarrow>
     (if is_high u then is_low v \<and> well_formed us else \<not> is_low u \<and> well_formed (v # us))"

definition scalar :: "nat \<Rightarrow> bool" where
  "scalar cp \<longleftrightarrow> cp < 0x110000 \<and> \<not> (0xD800 \<le> cp \<and> cp < 0xE000)"

lemma unat_unit: "unat (u :: 16 word) < 65536"
proof -
  have "unat u < 2 ^ LENGTH(16)" by (rule unsigned_less)
  then show ?thesis by simp
qed

lemma units_of_single [simp]: "units_of (unat u) = [u]"
  using unat_unit [of u] by (simp add: units_of_def)

lemma units_of_pair:
  assumes "is_high u" "is_low v"
  shows "units_of (join_pair u v) = [u, v]"
proof -
  have "(unat u - 0xD800) * 0x400 + (unat v - 0xDC00) = join_pair u v - 0x10000"
    by (simp add: join_pair_def)
  moreover have "unat v - 0xDC00 < 0x400" using assms(2) by (auto simp: is_low_def)
  ultimately have "(join_pair u v - 0x10000) div 0x400 = unat u - 0xD800"
    "(join_pair u v - 0x10000) mod 0x400 = unat v - 0xDC00"
    by (metis div_mult_self3 div_less add_0 add.commute zero_neq_numeral, metis mod_mult_self3 mod_less)
  then show ?thesis
    using assms by (simp add: units_of_def is_high_def is_low_def) (simp add: join_pair_def)
qed

lemma units_of_code_points:
  "well_formed s \<Longrightarrow> concat (map units_of (code_points s)) = s"
  by (induction s rule: well_formed.induct) (auto simp: units_of_pair split: if_splits)

lemma code_points_scalar: "well_formed s \<Longrightarrow> list_all scalar (code_points s)"
proof (induction s rule: well_formed.induct)
  case (2 u)
  then show ?case using unat_unit [of u] by (auto simp: scalar_def is_high_def is_low_def)
next
  case (3 u v us)
  then show ?case using unat_unit [of u]
    by (auto simp: scalar_def is_high_def is_low_def join_pair_def split: if_splits)
qed simp

section \<open>Encoding\<close>

definition encode_point :: "nat \<Rightarrow> bytes" where
  "encode_point cp =
     (if cp < 0x80 then [of_nat cp]
      else if cp < 0x800 then [of_nat (0xC0 + cp div 64), of_nat (0x80 + cp mod 64)]
      else if cp < 0x10000 then
        [of_nat (0xE0 + cp div 4096), of_nat (0x80 + cp div 64 mod 64), of_nat (0x80 + cp mod 64)]
      else [of_nat (0xF0 + cp div 262144), of_nat (0x80 + cp div 4096 mod 64),
            of_nat (0x80 + cp div 64 mod 64), of_nat (0x80 + cp mod 64)])"

definition utf8_encode :: "jstr \<Rightarrow> bytes" where
  "utf8_encode s = concat (map encode_point (code_points s))"

section \<open>Decoding\<close>

text \<open>A lead byte: how many bytes follow, the bounds on the first of them, and the bits it carries.\<close>

definition lead :: "nat \<Rightarrow> (nat \<times> nat \<times> nat \<times> nat) option" where
  "lead b =
     (if 0xC2 \<le> b \<and> b \<le> 0xDF then Some (1, 0x80, 0xBF, b - 0xC0)
      else if 0xE0 \<le> b \<and> b \<le> 0xEF then
        Some (2, if b = 0xE0 then 0xA0 else 0x80, if b = 0xED then 0x9F else 0xBF, b - 0xE0)
      else if 0xF0 \<le> b \<and> b \<le> 0xF4 then
        Some (3, if b = 0xF0 then 0x90 else 0x80, if b = 0xF4 then 0x8F else 0xBF, b - 0xF0)
      else None)"

fun continuation :: "nat \<Rightarrow> nat \<Rightarrow> nat \<Rightarrow> nat \<Rightarrow> bytes \<Rightarrow> nat \<times> bytes" where
  "continuation 0 lo hi cp bs = (cp, bs)"
| "continuation (Suc n) lo hi cp [] = (0xFFFD, [])"
| "continuation (Suc n) lo hi cp (b # bs) =
     (if lo \<le> unat b \<and> unat b \<le> hi then continuation n 0x80 0xBF (cp * 64 + (unat b - 0x80)) bs
      else (0xFFFD, b # bs))"

lemma continuation_length: "length (snd (continuation n lo hi cp bs)) \<le> length bs"
  by (induction n lo hi cp bs rule: continuation.induct) auto

function decode_points :: "bytes \<Rightarrow> nat list" where
  "decode_points [] = []"
| "decode_points (b # bs) =
     (if unat b < 0x80 then unat b # decode_points bs
      else case lead (unat b) of
             None \<Rightarrow> 0xFFFD # decode_points bs
           | Some (n, lo, hi, cp) \<Rightarrow>
               fst (continuation n lo hi cp bs) # decode_points (snd (continuation n lo hi cp bs)))"
  by pat_completeness auto
termination
  by (relation "measure length") (auto simp: le_imp_less_Suc continuation_length)

declare decode_points.simps(2) [simp del]

definition strip_bom :: "nat list \<Rightarrow> nat list" where
  "strip_bom cps = (case cps of [] \<Rightarrow> [] | cp # rest \<Rightarrow> if cp = 0xFEFF then rest else cps)"

definition utf8_decode :: "bytes \<Rightarrow> jstr" where
  "utf8_decode bs = concat (map units_of (strip_bom (decode_points bs)))"

section \<open>Round trip\<close>

lemma unat_small: "n < 256 \<Longrightarrow> unat (of_nat n :: byte) = n"
  by (simp add: unat_of_nat)

lemma decode_one:
  "cp < 0x80 \<Longrightarrow> decode_points (encode_point cp @ bs) = cp # decode_points bs"
  by (simp add: encode_point_def decode_points.simps(2) unat_small)

lemma decode_lead:
  assumes "b < 256" "0x80 \<le> b" "lead b = Some (n, lo, hi, x)"
    and "continuation n lo hi x (ts @ bs) = (cp, bs)"
  shows "decode_points (of_nat b # ts @ bs) = cp # decode_points bs"
  using assms by (simp add: decode_points.simps(2) unat_small)

lemma continuation_step:
  assumes "lo \<le> 0x80 + t" "0x80 + t \<le> hi" "t < 64"
  shows "continuation (Suc n) lo hi x (of_nat (0x80 + t) # bs) = continuation n 0x80 0xBF (x * 64 + t) bs"
proof -
  have "unat (of_nat (0x80 + t) :: byte) = 0x80 + t" using assms(3) by (intro unat_small) simp
  with assms(1,2) show ?thesis by (simp only: continuation.simps) simp
qed

lemma decode_two:
  assumes "0x80 \<le> cp" "cp < 0x800"
  shows "decode_points (encode_point cp @ bs) = cp # decode_points bs"
proof -
  have q: "2 \<le> cp div 64" "cp div 64 < 32" using assms by auto
  have "decode_points (of_nat (0xC0 + cp div 64) # [of_nat (0x80 + cp mod 64)] @ bs) = cp # decode_points bs"
  proof (rule decode_lead)
    show "lead (0xC0 + cp div 64) = Some (1, 0x80, 0xBF, cp div 64)" using q by (simp add: lead_def)
    show "continuation 1 0x80 0xBF (cp div 64) ([of_nat (0x80 + cp mod 64)] @ bs) = (cp, bs)"
      using continuation_step [of "0x80" "cp mod 64" "0xBF" 0 "cp div 64" bs] by simp
  qed (use q in simp_all)
  with assms show ?thesis by (simp add: encode_point_def)
qed

lemma two_digits: "(n div 4096 * 64 + n div 64 mod 64) * 64 + n mod 64 = (n :: nat)"
proof -
  have "n div 4096 = n div 64 div 64" by (simp flip: div_mult2_eq)
  then show ?thesis by (simp only: div_mult_mod_eq)
qed

lemma three_digits:
  "((n div 262144 * 64 + n div 4096 mod 64) * 64 + n div 64 mod 64) * 64 + n mod 64 = (n :: nat)"
proof -
  have "n div 262144 = n div 64 div 4096" "n div 4096 = n div 64 div 64" by (simp_all flip: div_mult2_eq)
  then show ?thesis by (simp only: two_digits div_mult_mod_eq)
qed

lemma decode_three:
  assumes "0x800 \<le> cp" "cp < 0x10000" "scalar cp"
  shows "decode_points (encode_point cp @ bs) = cp # decode_points bs"
proof -
  let ?q = "cp div 4096" and ?m = "cp div 64 mod 64" and ?r = "cp mod 64"
  have q: "?q < 16" using assms by auto
  have cp: "(?q * 64 + ?m) * 64 + ?r = cp" by (rule two_digits)
  have m: "?m < 64" "?r < 64" by simp_all
  let ?lo = "if 0xE0 + ?q = 0xE0 then 0xA0 else 0x80 :: nat"
  let ?hi = "if 0xE0 + ?q = 0xED then 0x9F else 0xBF :: nat"
  have bounds: "?lo \<le> 0x80 + ?m" "0x80 + ?m \<le> ?hi"
    using assms m cp q by (auto simp: scalar_def)
  have "decode_points (of_nat (0xE0 + ?q) # [of_nat (0x80 + ?m), of_nat (0x80 + ?r)] @ bs) = cp # decode_points bs"
  proof (rule decode_lead)
    show "lead (0xE0 + ?q) = Some (2, ?lo, ?hi, ?q)" using q by (simp add: lead_def)
    show "continuation 2 ?lo ?hi ?q ([of_nat (0x80 + ?m), of_nat (0x80 + ?r)] @ bs) = (cp, bs)"
      using continuation_step [OF bounds m(1), of 1 ?q "of_nat (0x80 + ?r) # bs"]
        continuation_step [of "0x80" ?r "0xBF" 0 "?q * 64 + ?m" bs] cp
      by (simp add: numeral_2_eq_2)
  qed (use q in simp_all)
  with assms show ?thesis by (simp add: encode_point_def)
qed

lemma decode_four:
  assumes "0x10000 \<le> cp" "scalar cp"
  shows "decode_points (encode_point cp @ bs) = cp # decode_points bs"
proof -
  let ?q = "cp div 262144" and ?l = "cp div 4096 mod 64" and ?m = "cp div 64 mod 64" and ?r = "cp mod 64"
  have top: "cp < 0x110000" using assms by (simp add: scalar_def)
  have q: "?q < 5" using top by auto
  have cp: "((?q * 64 + ?l) * 64 + ?m) * 64 + ?r = cp"
    by (rule three_digits)
  have m: "?l < 64" "?m < 64" "?r < 64" by simp_all
  let ?lo = "if 0xF0 + ?q = 0xF0 then 0x90 else 0x80 :: nat"
  let ?hi = "if 0xF0 + ?q = 0xF4 then 0x8F else 0xBF :: nat"
  have bounds: "?lo \<le> 0x80 + ?l" "0x80 + ?l \<le> ?hi"
    using assms(1) top m cp q by auto
  have "decode_points (of_nat (0xF0 + ?q) # [of_nat (0x80 + ?l), of_nat (0x80 + ?m), of_nat (0x80 + ?r)] @ bs)
      = cp # decode_points bs"
  proof (rule decode_lead)
    show "lead (0xF0 + ?q) = Some (3, ?lo, ?hi, ?q)" using q by (simp add: lead_def)
    show "continuation 3 ?lo ?hi ?q ([of_nat (0x80 + ?l), of_nat (0x80 + ?m), of_nat (0x80 + ?r)] @ bs) = (cp, bs)"
      using continuation_step [OF bounds m(1), of 2 ?q "of_nat (0x80 + ?m) # of_nat (0x80 + ?r) # bs"]
        continuation_step [of "0x80" ?m "0xBF" 1 "?q * 64 + ?l" "of_nat (0x80 + ?r) # bs"]
        continuation_step [of "0x80" ?r "0xBF" 0 "(?q * 64 + ?l) * 64 + ?m" bs] cp
      by (simp add: numeral_2_eq_2 numeral_3_eq_3)
  qed (use q in simp_all)
  with assms show ?thesis by (simp add: encode_point_def)
qed

lemma decode_encode_point:
  "scalar cp \<Longrightarrow> decode_points (encode_point cp @ bs) = cp # decode_points bs"
  using decode_one [of cp bs] decode_two [of cp bs] decode_three [of cp bs] decode_four [of cp bs]
  by linarith

lemma decode_encode_points: "list_all scalar cps \<Longrightarrow> decode_points (concat (map encode_point cps)) = cps"
  by (induction cps) (auto simp: decode_encode_point)

lemma code_points_hd: "s = [] \<or> hd s \<noteq> 0xFEFF \<Longrightarrow> strip_bom (code_points s) = code_points s"
proof (cases s rule: code_points.cases)
  case (2 u)
  assume "s = [] \<or> hd s \<noteq> 0xFEFF"
  then have "unat u \<noteq> 0xFEFF" using 2 by (metis list.distinct(1) list.sel(1) of_nat_numeral of_nat_unat ucast_id)
  then show ?thesis using 2 by (simp add: strip_bom_def)
next
  case (3 u v us)
  assume "s = [] \<or> hd s \<noteq> 0xFEFF"
  then have "unat u \<noteq> 0xFEFF" using 3 by (metis list.distinct(1) list.sel(1) of_nat_numeral of_nat_unat ucast_id)
  then show ?thesis using 3 by (simp add: strip_bom_def join_pair_def)
qed (simp add: strip_bom_def)

text \<open>Text without lone surrogates that does not start with a byte order mark survives unchanged.\<close>

lemma utf8_roundtrip:
  assumes "well_formed s" "s = [] \<or> hd s \<noteq> 0xFEFF"
  shows "utf8_decode (utf8_encode s) = s"
  using assms code_points_scalar [OF assms(1)]
  by (simp add: utf8_decode_def utf8_encode_def decode_encode_points code_points_hd units_of_code_points)

end
