(* ===== verification/Json.thy ===== *)
theory Json
  imports Utf8
begin

text \<open>
  \<open>JSON.stringify\<close> and \<open>JSON.parse\<close>, as the wire format, the backups and the stored records use them.
  Numbers are exact decimals: a double's rounding is not modelled, and a number is written without an
  exponent. A member read from a value is \<open>undefined\<close> (\<open>None\<close>) when it is absent, and an exception on
  \<open>null\<close>.
\<close>

datatype json =
    JNull
  | JBool bool
  | JNum jsnum
  | JStr jstr
  | JArr "json list"
  | JObj "(jstr \<times> json) list"

section \<open>Writing\<close>

definition hex_unit :: "nat \<Rightarrow> 16 word" where
  "hex_unit d = of_nat (if d < 10 then 48 + d else 87 + d)"

definition unicode_escape :: "16 word \<Rightarrow> jstr" where
  "unicode_escape u =
     [0x5C, 0x75, hex_unit (unat u div 4096), hex_unit (unat u div 256 mod 16),
      hex_unit (unat u div 16 mod 16), hex_unit (unat u mod 16)]"

definition escape_unit :: "16 word \<Rightarrow> jstr" where
  "escape_unit u =
     (if u = 0x22 then [0x5C, 0x22]
      else if u = 0x5C then [0x5C, 0x5C]
      else if u = 8 then [0x5C, 0x62]
      else if u = 12 then [0x5C, 0x66]
      else if u = 10 then [0x5C, 0x6E]
      else if u = 13 then [0x5C, 0x72]
      else if u = 9 then [0x5C, 0x74]
      else if u < 0x20 \<or> is_high u \<or> is_low u then unicode_escape u
      else [u])"

fun escape :: "jstr \<Rightarrow> jstr" where
  "escape [] = []"
| "escape [u] = escape_unit u"
| "escape (u # v # us) =
     (if is_high u \<and> is_low v then u # v # escape us else escape_unit u @ escape (v # us))"

definition quote :: "jstr \<Rightarrow> jstr" where
  "quote s = 0x22 # escape s @ [0x22]"

fun pad_left :: "nat \<Rightarrow> jstr \<Rightarrow> jstr" where
  "pad_left n s = replicate (n - length s) 0x30 @ s"

definition with_sign :: "int \<Rightarrow> jstr \<Rightarrow> jstr" where
  "with_sign i s = (if i < 0 then 0x2D # s else s)"

definition null_text :: jstr where "null_text = [0x6E, 0x75, 0x6C, 0x6C]"
definition true_text :: jstr where "true_text = [0x74, 0x72, 0x75, 0x65]"
definition false_text :: jstr where "false_text = [0x66, 0x61, 0x6C, 0x73, 0x65]"

fun number_text :: "jsnum \<Rightarrow> jstr" where
  "number_text (NumI i) = with_sign i (decimal (nat \<bar>i\<bar>))"
| "number_text (NumF m e) =
     (let a = nat \<bar>m\<bar>
      in with_sign m (decimal (a div 10 ^ e) @ 0x2E # pad_left e (decimal (a mod 10 ^ e))))"
| "number_text _ = null_text"

fun commas :: "jstr list \<Rightarrow> jstr" where
  "commas [] = []"
| "commas [s] = s"
| "commas (s # ss) = s @ 0x2C # commas ss"

fun stringify :: "json \<Rightarrow> jstr" where
  "stringify JNull = null_text"
| "stringify (JBool b) = (if b then true_text else false_text)"
| "stringify (JNum n) = number_text n"
| "stringify (JStr s) = quote s"
| "stringify (JArr xs) = 0x5B # commas (map stringify xs) @ [0x5D]"
| "stringify (JObj ms) = 0x7B # commas (map (\<lambda>(k, v). quote k @ 0x3A # stringify v) ms) @ [0x7D]"

section \<open>Reading\<close>

definition is_ws :: "16 word \<Rightarrow> bool" where
  "is_ws u \<longleftrightarrow> u = 0x20 \<or> u = 0x0A \<or> u = 0x0D \<or> u = 0x09"

definition skip_ws :: "jstr \<Rightarrow> jstr" where
  "skip_ws s = dropWhile is_ws s"

definition hex_value :: "16 word \<Rightarrow> nat option" where
  "hex_value u =
     (let n = unat u
      in if 48 \<le> n \<and> n \<le> 57 then Some (n - 48)
         else if 97 \<le> n \<and> n \<le> 102 then Some (n - 87)
         else if 65 \<le> n \<and> n \<le> 70 then Some (n - 55) else None)"

fun hex4 :: "jstr \<Rightarrow> 16 word option" where
  "hex4 (a # b # c # d # s) =
     (case (hex_value a, hex_value b, hex_value c, hex_value d) of
        (Some a, Some b, Some c, Some d) \<Rightarrow> Some (of_nat (((a * 16 + b) * 16 + c) * 16 + d))
      | _ \<Rightarrow> None)"
| "hex4 _ = None"

definition simple_escape :: "16 word \<Rightarrow> 16 word option" where
  "simple_escape e =
     (if e = 0x22 \<or> e = 0x5C \<or> e = 0x2F then Some e
      else if e = 0x62 then Some 8
      else if e = 0x66 then Some 12
      else if e = 0x6E then Some 10
      else if e = 0x72 then Some 13
      else if e = 0x74 then Some 9
      else None)"

text \<open>The characters of a string up to its closing quotation mark, and what follows it.\<close>

definition cons_unit :: "16 word \<Rightarrow> (jstr \<times> jstr) option \<Rightarrow> (jstr \<times> jstr) option" where
  "cons_unit u r = map_option (\<lambda>(s, rest). (u # s, rest)) r"

function read_string :: "jstr \<Rightarrow> (jstr \<times> jstr) option" where
  "read_string [] = None"
| "read_string (u # us) =
     (if u = 0x22 then Some ([], us)
      else if u = 0x5C then
        (if us = [] then None
         else if hd us = 0x75 then
           (case hex4 (tl us) of None \<Rightarrow> None | Some c \<Rightarrow> cons_unit c (read_string (drop 5 us)))
         else (case simple_escape (hd us) of None \<Rightarrow> None | Some c \<Rightarrow> cons_unit c (read_string (tl us))))
      else if u < 0x20 then None
      else cons_unit u (read_string us))"
  by pat_completeness auto
termination by (relation "measure length") auto

declare read_string.simps(2) [simp del]

text \<open>\<open>m * 10 ^ x\<close> as a number: beyond the range of doubles it is infinite.\<close>

fun norm_fraction :: "int \<Rightarrow> nat \<Rightarrow> jsnum" where
  "norm_fraction m 0 = NumI m"
| "norm_fraction m (Suc e) = (if m mod 10 = 0 then norm_fraction (m div 10) e else NumF m (Suc e))"

definition huge :: int where "huge = 2 ^ 1024 - 2 ^ 970"

definition make_number :: "bool \<Rightarrow> nat \<Rightarrow> int \<Rightarrow> jsnum" where
  "make_number neg m x =
     (let v = (if neg then - int m else int m)
      in if x < 0 then norm_fraction v (nat (- x))
         else if huge \<le> int m * 10 ^ nat x then NumInf neg else NumI (v * 10 ^ nat x))"

definition read_int :: "jstr \<Rightarrow> (jstr \<times> jstr) option" where
  "read_int s =
     (case s of
        [] \<Rightarrow> None
      | u # us \<Rightarrow>
          if u = 0x30 then Some ([u], us)
          else if is_digit u then Some (takeWhile is_digit s, dropWhile is_digit s) else None)"

definition read_frac :: "jstr \<Rightarrow> jstr \<times> jstr" where
  "read_frac s =
     (if s \<noteq> [] \<and> hd s = 0x2E \<and> takeWhile is_digit (tl s) \<noteq> []
      then (takeWhile is_digit (tl s), dropWhile is_digit (tl s)) else ([], s))"

definition read_exp :: "jstr \<Rightarrow> int \<times> jstr" where
  "read_exp s =
     (if s \<noteq> [] \<and> (hd s = 0x65 \<or> hd s = 0x45) then
        (let r = tl s;
             neg = (r \<noteq> [] \<and> hd r = 0x2D);
             r1 = (if r \<noteq> [] \<and> (hd r = 0x2D \<or> hd r = 0x2B) then tl r else r);
             ds = takeWhile is_digit r1
         in if ds = [] then (0, s)
            else (if neg then - int (digits_value ds) else int (digits_value ds), dropWhile is_digit r1))
      else (0, s))"

definition read_number :: "jstr \<Rightarrow> (jsnum \<times> jstr) option" where
  "read_number s =
     (let neg = (s \<noteq> [] \<and> hd s = 0x2D); s1 = (if neg then tl s else s)
      in case read_int s1 of
           None \<Rightarrow> None
         | Some (ds, s2) \<Rightarrow>
             (let (fs, s3) = read_frac s2; (x, s4) = read_exp s3
              in Some (make_number neg (digits_value (ds @ fs)) (x - int (length fs)), s4)))"

text \<open>
  One value. The first argument bounds the depth of the recursion; at each level a value, or the rest
  of a list of elements or members, is read. \<open>read_fuel\<close> below shows that a bound above twice the
  length of the text never matters.
\<close>

definition obj_of :: "(jstr \<times> json) list \<Rightarrow> json" where
  "obj_of ms = JObj (fold (\<lambda>(k, v). AList.update k v) ms [])"

fun read_value :: "nat \<Rightarrow> jstr \<Rightarrow> (json \<times> jstr) option"
  and read_elements :: "nat \<Rightarrow> jstr \<Rightarrow> (json list \<times> jstr) option"
  and read_members :: "nat \<Rightarrow> jstr \<Rightarrow> ((jstr \<times> json) list \<times> jstr) option" where
  "read_value 0 s = None"
| "read_value (Suc n) s =
     (case skip_ws s of
        [] \<Rightarrow> None
      | u # us \<Rightarrow>
          if u = 0x7B then
            (if skip_ws us \<noteq> [] \<and> hd (skip_ws us) = 0x7D then Some (JObj [], tl (skip_ws us))
             else map_option (\<lambda>(ms, r). (obj_of ms, r)) (read_members n us))
          else if u = 0x5B then
            (if skip_ws us \<noteq> [] \<and> hd (skip_ws us) = 0x5D then Some (JArr [], tl (skip_ws us))
             else map_option (\<lambda>(vs, r). (JArr vs, r)) (read_elements n us))
          else if u = 0x22 then map_option (\<lambda>(t, r). (JStr t, r)) (read_string us)
          else if take 4 (u # us) = null_text then Some (JNull, drop 4 (u # us))
          else if take 4 (u # us) = true_text then Some (JBool True, drop 4 (u # us))
          else if take 5 (u # us) = false_text then Some (JBool False, drop 5 (u # us))
          else map_option (\<lambda>(x, r). (JNum x, r)) (read_number (u # us)))"
| "read_elements 0 s = None"
| "read_elements (Suc n) s =
     (case read_value n s of
        None \<Rightarrow> None
      | Some (v, r) \<Rightarrow>
          (case skip_ws r of
             [] \<Rightarrow> None
           | u # us \<Rightarrow>
               if u = 0x2C then map_option (\<lambda>(vs, r'). (v # vs, r')) (read_elements n us)
               else if u = 0x5D then Some ([v], us) else None))"
| "read_members 0 s = None"
| "read_members (Suc n) s =
     (case skip_ws s of
        [] \<Rightarrow> None
      | q # qs \<Rightarrow>
          if q \<noteq> 0x22 then None
          else (case read_string qs of
            None \<Rightarrow> None
          | Some (k, r0) \<Rightarrow>
              (case skip_ws r0 of
                 [] \<Rightarrow> None
               | c # cs \<Rightarrow>
                   if c \<noteq> 0x3A then None
                   else (case read_value n cs of
                     None \<Rightarrow> None
                   | Some (v, r) \<Rightarrow>
                       (case skip_ws r of
                          [] \<Rightarrow> None
                        | u # us \<Rightarrow>
                            if u = 0x2C then map_option (\<lambda>(ms, r'). ((k, v) # ms, r')) (read_members n us)
                            else if u = 0x7D then Some ([(k, v)], us) else None)))))"

definition parse :: "jstr \<Rightarrow> json option" where
  "parse s =
     (case read_value (Suc (2 * length s)) s of
        None \<Rightarrow> None
      | Some (v, r) \<Rightarrow> if skip_ws r = [] then Some v else None)"

text \<open>Reading a member: \<open>x.k\<close> of a parsed value.\<close>

fun member :: "json \<Rightarrow> jstr \<Rightarrow> json option" where
  "member (JObj ms) k = map_of ms k"
| "member _ k = None"

section \<open>Strings read back\<close>

lemma hex_digits: "d < 16 \<Longrightarrow> hex_value (hex_unit d) = Some d"
proof -
  have "\<forall>d \<in> set [0..<16]. hex_value (hex_unit d) = Some d" by code_simp
  then show "d < 16 \<Longrightarrow> hex_value (hex_unit d) = Some d" by simp
qed

lemma hex4_escape:
  "hex4 (hex_unit (unat u div 4096) # hex_unit (unat u div 256 mod 16) # hex_unit (unat u div 16 mod 16) #
         hex_unit (unat u mod 16) # s) = Some u"
proof -
  let ?n = "unat u"
  have "?n div 4096 < 16" using unat_unit [of u] by auto
  moreover have "((?n div 4096 * 16 + ?n div 256 mod 16) * 16 + ?n div 16 mod 16) * 16 + ?n mod 16 = ?n"
  proof -
    have "?n div 4096 = ?n div 256 div 16" "?n div 256 = ?n div 16 div 16" by (simp_all flip: div_mult2_eq)
    then show ?thesis by (simp only: div_mult_mod_eq)
  qed
  ultimately show ?thesis by (simp add: hex_digits del: of_nat_add of_nat_mult)
qed

lemma read_raw: "u \<noteq> 0x22 \<Longrightarrow> u \<noteq> 0x5C \<Longrightarrow> \<not> u < 0x20 \<Longrightarrow> read_string (u # t) = cons_unit u (read_string t)"
  by (simp add: read_string.simps(2))

lemma read_escape_unit: "read_string (escape_unit u @ t) = cons_unit u (read_string t)"
proof (cases "u < 0x20 \<or> is_high u \<or> is_low u")
  case True
  have "read_string (unicode_escape u @ t) = cons_unit u (read_string t)"
    by (simp add: unicode_escape_def read_string.simps(2) hex4_escape drop_Cons' del: hex4.simps)
  then show ?thesis by (auto simp: escape_unit_def read_string.simps(2) simple_escape_def)
next
  case False
  then show ?thesis by (auto simp: escape_unit_def read_string.simps(2) simple_escape_def)
qed

lemma surrogate_plain:
  assumes "is_high u \<or> is_low u"
  shows "u \<noteq> 0x22" "u \<noteq> 0x5C" "\<not> u < 0x20"
  using assms by (auto simp: is_high_def is_low_def word_less_nat_alt)

lemma read_escape: "read_string (escape s @ 0x22 # t) = Some (s, t)"
proof (induction s rule: escape.induct)
  case 1
  then show ?case by (simp add: read_string.simps(2))
next
  case (2 u)
  then show ?case by (simp add: read_escape_unit read_string.simps(2) cons_unit_def)
next
  case (3 u v us)
  show ?case
  proof (cases "is_high u \<and> is_low v")
    case True
    then have "read_string (u # v # escape us @ 0x22 # t) = cons_unit u (cons_unit v (read_string (escape us @ 0x22 # t)))"
      by (simp add: read_raw surrogate_plain)
    then show ?thesis using 3 True by (simp add: cons_unit_def)
  next
    case False
    then show ?thesis using 3 by (auto simp: read_escape_unit cons_unit_def)
  qed
qed

lemma quote_Cons: "quote s @ t = 0x22 # escape s @ 0x22 # t"
  by (simp add: quote_def)

section \<open>Numbers read back\<close>

text \<open>What follows a value in a text: nothing, a comma or a closing bracket.\<close>

definition stops :: "jstr \<Rightarrow> bool" where
  "stops t \<longleftrightarrow> t = [] \<or> hd t = 0x2C \<or> hd t = 0x5D \<or> hd t = 0x7D"

fun good_num :: "jsnum \<Rightarrow> bool" where
  "good_num (NumI i) \<longleftrightarrow> \<bar>i\<bar> < huge"
| "good_num (NumF m e) \<longleftrightarrow> 0 < e \<and> m mod 10 \<noteq> 0"
| "good_num _ = False"

lemma not_digit_code: "\<not> is_digit 0x2C" "\<not> is_digit 0x5D" "\<not> is_digit 0x7D" "\<not> is_digit 0x2E" "\<not> is_digit 0x2D"
  "\<not> is_digit 0x65" "\<not> is_digit 0x45"
  by (simp_all add: is_digit_def)

lemma stops_not_digit: "stops t \<Longrightarrow> t \<noteq> [] \<Longrightarrow> \<not> is_digit (hd t)"
  by (auto simp: stops_def not_digit_code)

lemma take_digits:
  assumes "list_all is_digit ds" "t = [] \<or> \<not> is_digit (hd t)"
  shows "takeWhile is_digit (ds @ t) = ds" "dropWhile is_digit (ds @ t) = t"
  using assms by (induction ds) (cases t; auto)+

lemma decimal_hd: "0 < n \<Longrightarrow> hd (decimal n) \<noteq> 0x30 \<and> is_digit (hd (decimal n))"
proof (induction n rule: decimal.induct)
  case (1 n)
  show ?case
  proof (cases "n < 10")
    case True
    then have "unat (hd (decimal n)) = 48 + n"
      by (subst decimal.simps) (simp add: unat_digit del: of_nat_add)
    then have "unat (hd (decimal n)) \<noteq> unat (0x30 :: 16 word)" using 1 by simp
    moreover have "hd (decimal n) = of_nat (48 + n)" using True by (subst decimal.simps) simp
    ultimately show ?thesis using is_digit_of_nat [OF True] by metis
  next
    case False
    then have "hd (decimal n) = hd (decimal (n div 10))"
      by (subst decimal.simps) (simp add: hd_append)
    then show ?thesis using 1 False by simp
  qed
qed

lemma decimal_0: "decimal 0 = [0x30]"
  by (subst decimal.simps) simp

lemma read_int_decimal:
  assumes "t = [] \<or> \<not> is_digit (hd t)"
  shows "read_int (decimal n @ t) = Some (decimal n, t)"
proof (cases "n = 0")
  case True
  then show ?thesis by (simp add: read_int_def decimal_0)
next
  case False
  then obtain u us where "decimal n = u # us" by (cases "decimal n") simp_all
  with False decimal_hd [of n] take_digits [OF decimal_digits assms, of n] show ?thesis
    by (simp add: read_int_def)
qed

lemma digits_value_append:
  "digits_value (ds @ es) = digits_value ds * 10 ^ length es + digits_value es"
proof (induction es rule: rev_induct)
  case Nil
  then show ?case by (simp add: digits_value_def)
next
  case (snoc e es)
  have "digits_value (ds @ es @ [e]) = digits_value (ds @ es) * 10 + (unat e - 48)" for ds
    by (simp add: digits_value_def)
  from this [of ds] this [of "[]"] snoc show ?case by (simp add: algebra_simps)
qed

lemma zeros: "digits_value (replicate n 0x30) = 0" "list_all is_digit (replicate n 0x30)"
  by (induction n) (simp_all add: digits_value_def is_digit_def)

lemma decimal_length: "0 < e \<Longrightarrow> n < 10 ^ e \<Longrightarrow> length (decimal n) \<le> e"
proof (induction n arbitrary: e rule: decimal.induct)
  case (1 n)
  show ?case
  proof (cases "n < 10")
    case True
    then show ?thesis using 1 by (subst decimal.simps) simp
  next
    case False
    have "e \<noteq> 1" using 1 False by auto
    then obtain e' where e: "e = Suc e'" "0 < e'" using 1 by (cases e) auto
    then have "n div 10 < 10 ^ e'" using 1 by (simp add: div_less_iff_less_mult mult.commute)
    then show ?thesis using 1 e False by (subst decimal.simps) simp
  qed
qed

lemma pad_left_facts:
  assumes "0 < e" "n < 10 ^ e"
  shows "length (pad_left e (decimal n)) = e" "digits_value (pad_left e (decimal n)) = n"
    "list_all is_digit (pad_left e (decimal n))"
  using decimal_length [OF assms] zeros decimal_digits [of n]
  by (simp_all add: digits_value_append list_all_append)

lemma norm_fraction_id: "good_num (NumF m e) \<Longrightarrow> norm_fraction m e = NumF m e"
  by (cases e) simp_all

lemma read_frac_none: "t = [] \<or> hd t \<noteq> 0x2E \<Longrightarrow> read_frac t = ([], t)"
  by (auto simp: read_frac_def)

lemma read_exp_none: "t = [] \<or> hd t \<noteq> 0x65 \<and> hd t \<noteq> 0x45 \<Longrightarrow> read_exp t = (0, t)"
  by (auto simp: read_exp_def)

lemma with_sign_split:
  assumes "s \<noteq> []" "hd s \<noteq> 0x2D"
  shows "with_sign i s @ t \<noteq> [] \<and> (hd (with_sign i s @ t) = 0x2D \<longleftrightarrow> i < 0) \<and>
         (if i < 0 then tl (with_sign i s @ t) else with_sign i s @ t) = s @ t"
  using assms by (simp add: with_sign_def)

lemma decimal_hd_not_minus: "hd (decimal n @ t) \<noteq> 0x2D"
proof -
  have "is_digit (hd (decimal n))"
    using decimal_hd [of n] by (cases "n = 0") (simp_all add: decimal_0 is_digit_def)
  then show ?thesis using not_digit_code(5) by (auto simp: hd_append)
qed

lemma read_number_text:
  assumes "good_num n" "stops t"
  shows "read_number (number_text n @ t) = Some (n, t)"
proof (cases n)
  case (NumI i)
  have t: "t = [] \<or> \<not> is_digit (hd t)" using assms(2) stops_not_digit by blast
  have "read_frac t = ([], t)" "read_exp t = (0, t)"
    using assms(2) by (auto simp: stops_def intro!: read_frac_none read_exp_none)
  moreover have "make_number (i < 0) (nat \<bar>i\<bar>) 0 = NumI i"
    using assms(1) NumI by (simp add: make_number_def Let_def)
  ultimately show ?thesis
    using with_sign_split [of "decimal (nat \<bar>i\<bar>)" i t] decimal_hd_not_minus [of _ "[]"]
    by (simp add: NumI read_number_def Let_def read_int_decimal [OF t])
next
  case (NumF m e)
  let ?a = "nat \<bar>m\<bar>"
  let ?fs = "pad_left e (decimal (?a mod 10 ^ e))"
  let ?s = "decimal (?a div 10 ^ e) @ 0x2E # ?fs"
  have e: "0 < e" "m mod 10 \<noteq> 0" using assms(1) NumF by auto
  have fs: "length ?fs = e" "digits_value ?fs = ?a mod 10 ^ e" "list_all is_digit ?fs"
    using pad_left_facts [OF e(1), of "?a mod 10 ^ e"] by simp_all
  have t: "t = [] \<or> \<not> is_digit (hd t)" using assms(2) stops_not_digit by blast
  have int_part: "read_int (?s @ t) = Some (decimal (?a div 10 ^ e), 0x2E # ?fs @ t)"
    using read_int_decimal [of "0x2E # ?fs @ t" "?a div 10 ^ e"] not_digit_code(4) by simp
  have "?fs \<noteq> []" using fs(1) e(1) by (metis list.size(3) less_irrefl)
  then have frac: "read_frac (0x2E # ?fs @ t) = (?fs, t)"
    using take_digits [OF fs(3) t] by (simp add: read_frac_def del: pad_left.simps)
  have exp: "read_exp t = (0, t)" using assms(2) by (auto simp: stops_def intro!: read_exp_none)
  have "digits_value (decimal (?a div 10 ^ e) @ ?fs) = ?a"
    using fs(1,2) by (simp only: digits_value_append digits_value_decimal div_mult_mod_eq)
  then have "make_number (m < 0) (digits_value (decimal (?a div 10 ^ e) @ ?fs)) (0 - int (length ?fs)) = NumF m e"
    using fs(1) e norm_fraction_id [of m e] by (simp add: make_number_def Let_def del: pad_left.simps)
  moreover have "?s \<noteq> []" "hd ?s \<noteq> 0x2D" using decimal_hd_not_minus by simp_all
  ultimately show ?thesis
    using with_sign_split [of ?s m t] int_part frac exp
    by (simp add: NumF read_number_def Let_def del: pad_left.simps)
qed (use assms in simp_all)


section \<open>Values read back\<close>

text \<open>What \<open>JSON.stringify\<close> can write without loss: finite numbers, and no member twice.\<close>

fun good_json :: "json \<Rightarrow> bool" where
  "good_json (JNum n) = good_num n"
| "good_json (JArr xs) = (\<forall>x \<in> set xs. good_json x)"
| "good_json (JObj ms) = (distinct (map fst ms) \<and> (\<forall>(k, v) \<in> set ms. good_json v))"
| "good_json _ = True"

lemma obj_of_distinct: "distinct (map fst ms) \<Longrightarrow> obj_of ms = JObj ms"
proof -
  have "fold (\<lambda>(k, v). AList.update k v) ms acc = acc @ ms"
    if "distinct (map fst (acc @ ms))" for acc
    using that
  proof (induction ms arbitrary: acc)
    case Nil
    then show ?case by simp
  next
    case (Cons m ms)
    obtain k v where m: "m = (k, v)" by (cases m)
    have "AList.update k v acc = acc @ [(k, v)]"
      using Cons.prems m by (intro update_absent) (auto simp del: distinct_map)
    then show ?case using Cons m by simp
  qed
  from this [of "[]"] show "distinct (map fst ms) \<Longrightarrow> obj_of ms = JObj ms" by (simp add: obj_of_def)
qed

lemma skip_ws_visible: "\<not> is_ws u \<Longrightarrow> skip_ws (u # us) = u # us"
  by (simp add: skip_ws_def)

lemma number_text_hd:
  assumes "good_num n"
  shows "\<exists>u us. number_text n = u # us \<and> (u = 0x2D \<or> is_digit u)"
proof -
  have "\<exists>u us. decimal k @ t = u # us \<and> is_digit u" for k t
  proof (cases "decimal k")
    case (Cons u us)
    then show ?thesis using decimal_digits [of k] by simp
  qed simp
  note hd = this
  show ?thesis
  proof (cases n)
    case (NumI i)
    then show ?thesis using hd [of "nat \<bar>i\<bar>" "[]"] by (auto simp: with_sign_def)
  next
    case (NumF m e)
    let ?a = "nat \<bar>m\<bar>"
    show ?thesis
      using NumF hd [of "?a div 10 ^ e" "0x2E # pad_left e (decimal (?a mod 10 ^ e))"]
      by (auto simp: with_sign_def Let_def simp del: pad_left.simps)
  qed (use assms in simp_all)
qed

lemma digit_codes:
  assumes "u = 0x2D \<or> is_digit u"
  shows "\<not> is_ws u" "u \<noteq> 0x7B" "u \<noteq> 0x5B" "u \<noteq> 0x22" "u \<noteq> 0x6E" "u \<noteq> 0x74" "u \<noteq> 0x66" "u \<noteq> 0x5D" "u \<noteq> 0x7D"
  using assms by (auto simp: is_ws_def is_digit_def)

lemma stringify_hd:
  assumes "good_json j"
  shows "\<exists>u us. stringify j = u # us \<and> \<not> is_ws u \<and> u \<noteq> 0x5D \<and> u \<noteq> 0x7D"
proof (cases j)
  case (JNum n)
  then show ?thesis using assms number_text_hd [of n] digit_codes by fastforce
qed (auto simp: null_text_def true_text_def false_text_def quote_def is_ws_def)

definition read_ok :: "json \<Rightarrow> bool" where
  "read_ok j \<longleftrightarrow> (\<forall>n t. length (stringify j) \<le> n \<longrightarrow> stops t \<longrightarrow> read_value n (stringify j @ t) = Some (j, t))"

lemma stops_close [simp]: "stops (0x5D # t)" "stops (0x7D # t)" "stops (0x2C # t)" "stops []"
  by (simp_all add: stops_def)

lemma read_elements_ok:
  assumes "xs \<noteq> []" "\<forall>x \<in> set xs. good_json x \<and> read_ok x" "length (commas (map stringify xs)) < n"
  shows "read_elements n (commas (map stringify xs) @ 0x5D # t) = Some (xs, t)"
  using assms
proof (induction xs arbitrary: n)
  case Nil
  then show ?case by simp
next
  case (Cons x xs)
  obtain n' where n: "n = Suc n'" using Cons.prems(3) by (cases n) simp_all
  have x: "read_ok x" using Cons.prems(2) by simp
  show ?case
  proof (cases xs)
    case Nil
    then have "read_value n' (stringify x @ 0x5D # t) = Some (x, 0x5D # t)"
      using x Cons.prems(3) n by (simp add: read_ok_def)
    then show ?thesis using Nil n by (simp add: skip_ws_visible is_ws_def)
  next
    case (Cons y ys)
    let ?rest = "commas (map stringify xs) @ 0x5D # t"
    have shape: "commas (map stringify (x # xs)) = stringify x @ 0x2C # commas (map stringify xs)"
      using Cons by simp
    then have "read_value n' (stringify x @ 0x2C # ?rest) = Some (x, 0x2C # ?rest)"
      using x Cons.prems(3) n by (simp add: read_ok_def)
    moreover have "read_elements n' ?rest = Some (xs, t)"
      using Cons.IH [of n'] Cons.prems Cons shape n by simp
    ultimately show ?thesis using n shape by (simp add: skip_ws_visible is_ws_def)
  qed
qed

definition member_text :: "jstr \<times> json \<Rightarrow> jstr" where
  "member_text = (\<lambda>(k, v). quote k @ 0x3A # stringify v)"

lemma read_members_ok:
  assumes "ms \<noteq> []" "\<forall>(k, v) \<in> set ms. good_json v \<and> read_ok v" "length (commas (map member_text ms)) < n"
  shows "read_members n (commas (map member_text ms) @ 0x7D # t) = Some (ms, t)"
  using assms
proof (induction ms arbitrary: n)
  case Nil
  then show ?case by simp
next
  case (Cons m ms)
  obtain k v where m: "m = (k, v)" by (cases m)
  obtain n' where n: "n = Suc n'" using Cons.prems(3) by (cases n) simp_all
  have v: "read_ok v" using Cons.prems(2) m by simp
  show ?case
  proof (cases ms)
    case Nil
    then have "read_value n' (stringify v @ 0x7D # t) = Some (v, 0x7D # t)"
      using v Cons.prems(3) n m by (simp add: read_ok_def member_text_def)
    then show ?thesis
      using Nil n m by (simp add: member_text_def quote_def skip_ws_visible is_ws_def read_escape)
  next
    case (Cons y ys)
    let ?rest = "commas (map member_text ms) @ 0x7D # t"
    have shape: "commas (map member_text (m # ms)) = quote k @ 0x3A # stringify v @ 0x2C # commas (map member_text ms)"
      using Cons m by (simp add: member_text_def)
    then have "read_value n' (stringify v @ 0x2C # ?rest) = Some (v, 0x2C # ?rest)"
      using v Cons.prems(3) n by (simp add: read_ok_def)
    moreover have "read_members n' ?rest = Some (ms, t)"
      using Cons.IH [of n'] Cons.prems Cons shape n by simp
    ultimately show ?thesis
      using n shape m by (simp add: quote_def skip_ws_visible is_ws_def read_escape)
  qed
qed


lemma stringify_obj: "stringify (JObj ms) = 0x7B # commas (map member_text ms) @ [0x7D]"
  by (simp add: member_text_def)

lemma commas_hd:
  assumes "xs \<noteq> []" "\<forall>x \<in> set xs. \<exists>u us. x = u # us \<and> P u"
  shows "\<exists>u us. commas xs @ t = u # us \<and> P u"
  using assms by (cases xs rule: commas.cases) auto

lemma read_back: "good_json j \<Longrightarrow> read_ok j"
proof (induction j)
  case (JNum x)
  obtain u us where hd: "number_text x = u # us" "u = 0x2D \<or> is_digit u"
    using number_text_hd [of x] JNum.prems by auto
  note codes = digit_codes [OF hd(2)]
  show ?case
    unfolding read_ok_def
  proof (intro allI impI)
    fix n t
    assume "length (stringify (JNum x)) \<le> n" "stops t"
    moreover from this obtain n' where "n = Suc n'" using hd by (cases n) simp_all
    ultimately show "read_value n (stringify (JNum x) @ t) = Some (JNum x, t)"
      using hd codes read_number_text [of x t] JNum
      by (simp add: skip_ws_visible null_text_def true_text_def false_text_def)
  qed
next
  case (JArr xs)
  show ?case
    unfolding read_ok_def
  proof (intro allI impI)
    fix n t
    assume n: "length (stringify (JArr xs)) \<le> n" and "stops t"
    then obtain n' where n': "n = Suc n'" by (cases n) simp_all
    show "read_value n (stringify (JArr xs) @ t) = Some (JArr xs, t)"
    proof (cases "xs = []")
      case True
      then show ?thesis using n' by (simp add: skip_ws_visible is_ws_def)
    next
      case False
      obtain u us where hd: "commas (map stringify xs) @ 0x5D # t = u # us" "\<not> is_ws u \<and> u \<noteq> 0x5D"
        using commas_hd [of "map stringify xs" "\<lambda>u. \<not> is_ws u \<and> u \<noteq> 0x5D" "0x5D # t"] False stringify_hd JArr.prems
        by fastforce
      have "read_elements n' (commas (map stringify xs) @ 0x5D # t) = Some (xs, t)"
        using False JArr n n' by (intro read_elements_ok) auto
      with hd show ?thesis
        using n' by (simp add: skip_ws_visible is_ws_def null_text_def true_text_def false_text_def)
    qed
  qed
next
  case (JObj ms)
  show ?case
    unfolding read_ok_def
  proof (intro allI impI)
    fix n t
    assume n: "length (stringify (JObj ms)) \<le> n" and "stops t"
    then obtain n' where n': "n = Suc n'" by (cases n) simp_all
    have dist: "distinct (map fst ms)" using JObj.prems by simp
    show "read_value n (stringify (JObj ms) @ t) = Some (JObj ms, t)"
    proof (cases "ms = []")
      case True
      then show ?thesis using n' by (simp add: skip_ws_visible is_ws_def)
    next
      case False
      have "\<forall>x \<in> set (map member_text ms). \<exists>u us. x = u # us \<and> u = 0x22"
        by (auto simp: member_text_def quote_def)
      then obtain u us where hd: "commas (map member_text ms) @ 0x7D # t = u # us" "u = 0x22"
        using commas_hd [of "map member_text ms" "\<lambda>u. u = 0x22" "0x7D # t"] False by auto
      have "read_members n' (commas (map member_text ms) @ 0x7D # t) = Some (ms, t)"
        using False JObj n n' unfolding stringify_obj by (intro read_members_ok) (auto simp: stringify_obj)
      with hd show ?thesis
        using n' dist unfolding stringify_obj
        by (simp add: skip_ws_visible is_ws_def obj_of_distinct)
    qed
  qed
next
  case (JStr x)
  have "read_value n (quote x @ t) = Some (JStr x, t)" if "0 < n" for n t
    using that by (cases n) (simp_all add: quote_def read_escape skip_ws_visible is_ws_def)
  then show ?case by (auto simp: read_ok_def quote_def)
next
  case (JBool x)
  have "read_value n ((if x then true_text else false_text) @ t) = Some (JBool x, t)" if "0 < n" for n t
    using that by (cases n)
      (simp_all add: skip_ws_visible is_ws_def null_text_def true_text_def false_text_def take_Cons' drop_Cons')
  then show ?case by (auto simp: read_ok_def true_text_def false_text_def)
next
  case JNull
  have "read_value n (null_text @ t) = Some (JNull, t)" if "0 < n" for n t
    using that by (cases n) (simp_all add: skip_ws_visible is_ws_def null_text_def take_Cons' drop_Cons')
  then show ?case by (auto simp: read_ok_def null_text_def)
qed

lemma parse_stringify: "good_json j \<Longrightarrow> parse (stringify j) = Some j"
proof -
  assume "good_json j"
  then have "length (stringify j) \<le> n \<longrightarrow> stops [] \<longrightarrow> read_value n (stringify j @ []) = Some (j, [])" for n
    using read_back [of j] unfolding read_ok_def by blast
  from this [of "Suc (2 * length (stringify j))"]
  have "read_value (Suc (2 * length (stringify j))) (stringify j @ []) = Some (j, [])"
    by (simp del: read_value.simps)
  then show ?thesis by (simp add: parse_def skip_ws_def del: read_value.simps)
qed

section \<open>Written text is well-formed UTF-16\<close>

lemma well_formed_append: "well_formed s \<Longrightarrow> well_formed t \<Longrightarrow> well_formed (s @ t)"
  by (induction s rule: well_formed.induct) (cases t; auto split: if_splits)+

lemma well_formed_Cons: "\<not> is_high u \<Longrightarrow> \<not> is_low u \<Longrightarrow> well_formed t \<Longrightarrow> well_formed (u # t)"
  using well_formed_append [of "[u]" t] by simp

lemma well_formed_plain: "\<forall>u \<in> set s. \<not> is_high u \<and> \<not> is_low u \<Longrightarrow> well_formed s"
  by (induction s) (simp_all add: well_formed_Cons)

lemma plain_codes: "unat u < 0xD800 \<Longrightarrow> \<not> is_high u \<and> \<not> is_low u"
  by (simp add: is_high_def is_low_def)

lemma hex_unit_plain: "d < 16 \<Longrightarrow> \<not> is_high (hex_unit d) \<and> \<not> is_low (hex_unit d)"
  by (rule plain_codes) (simp add: hex_unit_def unat_of_nat)

lemma escape_unit_plain: "well_formed (escape_unit u)"
proof -
  have "unat u div 4096 < 16" using unat_unit [of u] by auto
  then have "well_formed (unicode_escape u)"
    by (intro well_formed_plain) (auto simp: unicode_escape_def hex_unit_plain plain_codes)
  then show ?thesis by (auto simp: escape_unit_def plain_codes)
qed

lemma escape_well_formed: "well_formed (escape s)"
  by (induction s rule: escape.induct) (auto simp: escape_unit_plain well_formed_append)

lemma quote_well_formed: "well_formed (quote s)"
  unfolding quote_def
  by (intro well_formed_Cons well_formed_append escape_well_formed) (simp_all add: plain_codes)

lemma digits_well_formed: "list_all is_digit ds \<Longrightarrow> well_formed ds"
  by (intro well_formed_plain) (auto simp: list_all_iff is_digit_def intro!: plain_codes)

lemma commas_well_formed: "\<forall>s \<in> set ss. well_formed s \<Longrightarrow> well_formed (commas ss)"
  by (induction ss rule: commas.induct)
    (auto intro!: well_formed_append well_formed_Cons simp: plain_codes)

lemma with_sign_well_formed: "well_formed s \<Longrightarrow> well_formed (with_sign i s)"
  by (simp add: with_sign_def well_formed_Cons plain_codes)

lemma number_well_formed: "well_formed (number_text n)"
proof (cases n)
  case (NumI i)
  then show ?thesis by (simp add: with_sign_well_formed digits_well_formed decimal_digits)
next
  case (NumF m e)
  have "well_formed (pad_left e (decimal k))" for k
    by (intro digits_well_formed) (simp add: decimal_digits zeros list_all_append)
  then have "well_formed (0x2E # pad_left e (decimal k))" for k
    by (intro well_formed_Cons) (simp_all add: plain_codes)
  then have "well_formed (decimal h @ 0x2E # pad_left e (decimal k))" for h k
    by (rule well_formed_append [OF digits_well_formed [OF decimal_digits]])
  then show ?thesis unfolding NumF number_text.simps Let_def by (rule with_sign_well_formed)
qed (simp_all add: null_text_def plain_codes)

lemma stringify_well_formed: "well_formed (stringify j)"
proof (induction j)
  case (JObj ms)
  have "well_formed (commas (map member_text ms))"
    using JObj by (intro commas_well_formed)
      (auto simp: member_text_def quote_well_formed plain_codes intro!: well_formed_append well_formed_Cons)
  then show ?case
    unfolding stringify_obj by (intro well_formed_Cons well_formed_append) (simp_all add: plain_codes)
next
  case (JArr xs)
  then have "well_formed (commas (map stringify xs))" by (intro commas_well_formed) auto
  then show ?case
    by (simp add: plain_codes) (intro well_formed_Cons well_formed_append; simp add: plain_codes)
qed (simp_all add: number_well_formed quote_well_formed null_text_def true_text_def false_text_def plain_codes)


section \<open>The bound on the reader is no restriction\<close>

lemma skip_ws_length: "length (skip_ws s) \<le> length s"
  by (simp add: skip_ws_def length_dropWhile_le)

lemma skip_ws_Cons: "skip_ws s = u # us \<Longrightarrow> length us < length s"
  using skip_ws_length [of s] by simp

lemma cons_unit_Some: "cons_unit u r = Some (s, t) \<longleftrightarrow> (\<exists>s'. r = Some (s', t) \<and> s = u # s')"
  by (auto simp: cons_unit_def)

lemma read_string_shorter: "read_string s = Some (v, r) \<Longrightarrow> length r < length s"
proof (induction s arbitrary: v rule: measure_induct_rule [of length])
  case (less s)
  show ?case
  proof (cases s)
    case Nil
    then show ?thesis using less.prems by simp
  next
    case (Cons u us)
    have IH: "length r < length s" if "read_string t = Some (w, r)" "length t < length s" for t w
      using less.IH [OF that(2,1)] that(2) by simp
    show ?thesis
      using less.prems Cons IH [of us] IH [of "tl us"] IH [of "drop 5 us"]
      by (auto simp: read_string.simps(2) cons_unit_Some split: if_splits option.splits)
  qed
qed

lemma read_number_shorter: "read_number s = Some (v, r) \<Longrightarrow> length r < length s"
proof -
  assume num: "read_number s = Some (v, r)"
  let ?s1 = "if s \<noteq> [] \<and> hd s = 0x2D then tl s else s"
  have s1: "length ?s1 \<le> length s" by simp
  have int_part: "length s2 < length s1" if "read_int s1 = Some (ds, s2)" for s1 s2 ds
    using that length_dropWhile_le [of is_digit] by (auto simp: read_int_def le_imp_less_Suc split: list.splits if_splits)
  have frac: "length (snd (read_frac t)) \<le> length t" for t
    using length_dropWhile_le [of is_digit "tl t"] by (auto simp: read_frac_def)
  have exp: "length (snd (read_exp t)) \<le> length t" for t
    using length_dropWhile_le [of is_digit "tl t"] length_dropWhile_le [of is_digit "tl (tl t)"]
    by (auto simp: read_exp_def Let_def)
  obtain ds s2 where s2: "read_int ?s1 = Some (ds, s2)"
    and r: "r = snd (read_exp (snd (read_frac s2)))"
    using num by (auto simp: read_number_def Let_def split: option.splits prod.splits)
  show ?thesis
    using int_part [OF s2] frac [of s2] exp [of "snd (read_frac s2)"] s1 unfolding r by linarith
qed

lemma read_shorter:
  "read_value n s = Some (v, r) \<Longrightarrow> length r < length s"
  "read_elements n s = Some (vs, r) \<Longrightarrow> length r < length s"
  "read_members n s = Some (ms, r) \<Longrightarrow> length r < length s"
proof (induction n arbitrary: s v vs ms r)
  case 0
  { case 1 then show ?case by simp next case 2 then show ?case by simp next case 3 then show ?case by simp }
next
  case (Suc n)
  { case 1
    show ?case
    proof (cases "skip_ws s")
      case Nil
      then show ?thesis using 1 by simp
    next
      case (Cons u us)
      have "length us < length s" by (rule skip_ws_Cons [OF Cons])
      moreover have "length (tl (skip_ws us)) \<le> length us" using skip_ws_length [of us] by simp
      moreover have "length (drop k (u # us)) < length s" if "0 < k" for k
        using that skip_ws_length [of s] Cons by simp
      moreover have "length r < length s" if "read_number (u # us) = Some (x, r)" for x
        using read_number_shorter [OF that] skip_ws_length [of s] Cons by simp
      ultimately show ?thesis
        using 1 Cons by (auto split: if_splits dest!: Suc.IH read_string_shorter simp del: drop_Suc_Cons)
    qed
  next
    case 2
    then obtain v r0 u us where "read_value n s = Some (v, r0)" "skip_ws r0 = u # us"
      "r = us \<or> (\<exists>vs. read_elements n us = Some (vs, r))"
      by (auto split: option.splits list.splits if_splits)
    with Suc.IH(1) [of s v r0] Suc.IH(2) [of us _ r] skip_ws_Cons [of r0 u us] show ?case by fastforce
  next
    case 3
    then obtain q qs k r0 c cs v r1 u us where
      "skip_ws s = q # qs" "read_string qs = Some (k, r0)" "skip_ws r0 = c # cs"
      "read_value n cs = Some (v, r1)" "skip_ws r1 = u # us"
      "r = us \<or> (\<exists>ms. read_members n us = Some (ms, r))"
      by (auto split: option.splits list.splits if_splits)
    with Suc.IH(1) [of cs v r1] Suc.IH(3) [of us _ r] skip_ws_Cons [of s q qs] skip_ws_Cons [of r0 c cs]
      skip_ws_Cons [of r1 u us] read_string_shorter [of qs k r0]
    show ?case by fastforce }
qed


lemma read_fuel:
  "2 * length s < n \<Longrightarrow> 2 * length s < m \<Longrightarrow> read_value n s = read_value m s"
  "Suc (2 * length s) < n \<Longrightarrow> Suc (2 * length s) < m \<Longrightarrow> read_elements n s = read_elements m s"
  "Suc (2 * length s) < n \<Longrightarrow> Suc (2 * length s) < m \<Longrightarrow> read_members n s = read_members m s"
proof (induction n arbitrary: s m)
  case 0
  { case 1 then show ?case by simp next case 2 then show ?case by simp next case 3 then show ?case by simp }
next
  case (Suc n)
  { case 1
    then obtain m' where m: "m = Suc m'" by (cases m) simp_all
    show ?case
    proof (cases "skip_ws s")
      case Nil
      then show ?thesis using m by simp
    next
      case (Cons u us)
      then have "length us < length s" by (rule skip_ws_Cons)
      then have "read_elements n us = read_elements m' us" "read_members n us = read_members m' us"
        using 1 m by (intro Suc.IH; simp)+
      then show ?thesis using Cons m by (simp cong: if_cong)
    qed
  next
    case 2
    then obtain m' where m: "m = Suc m'" by (cases m) simp_all
    have v: "read_value n s = read_value m' s" using 2 m by (intro Suc.IH) simp_all
    have "read_elements n us = read_elements m' us"
      if "read_value m' s = Some (x, r)" "skip_ws r = u # us" for x r u us
      using read_shorter(1) [OF that(1)] skip_ws_Cons [OF that(2)] 2 m by (intro Suc.IH) simp_all
    then show ?case using m v by (simp cong: list.case_cong split: option.split list.split)
  next
    case 3
    then obtain m' where m: "m = Suc m'" by (cases m) simp_all
    have v: "read_value n cs = read_value m' cs"
      if "skip_ws s = q # qs" "read_string qs = Some (k, r0)" "skip_ws r0 = c # cs" for q qs k r0 c cs
      using skip_ws_Cons [OF that(1)] read_string_shorter [OF that(2)] skip_ws_Cons [OF that(3)] 3 m
      by (intro Suc.IH) simp_all
    have ms: "read_members n us = read_members m' us"
      if "skip_ws s = q # qs" "read_string qs = Some (k, r0)" "skip_ws r0 = c # cs"
        "read_value m' cs = Some (x, r)" "skip_ws r = u # us" for q qs k r0 c cs x r u us
      using skip_ws_Cons [OF that(1)] read_string_shorter [OF that(2)] skip_ws_Cons [OF that(3)]
        read_shorter(1) [OF that(4)] skip_ws_Cons [OF that(5)] 3 m
      by (intro Suc.IH) simp_all
    show ?case
      using m v ms by (auto split: option.split list.split) }
qed

lemma parse_any_bound:
  assumes "2 * length s < n"
  shows "parse s = (case read_value n s of None \<Rightarrow> None | Some (v, r) \<Rightarrow> if skip_ws r = [] then Some v else None)"
  unfolding parse_def using read_fuel(1) [of s "Suc (2 * length s)" n] assms by (simp del: read_value.simps)

section \<open>Values as bytes\<close>

definition json_bytes :: "json \<Rightarrow> bytes" where
  "json_bytes j = utf8_encode (stringify j)"

definition json_of_bytes :: "bytes \<Rightarrow> json option" where
  "json_of_bytes bs = parse (utf8_decode bs)"

lemma stringify_first: "stringify j \<noteq> [] \<and> hd (stringify j) \<noteq> 0xFEFF"
proof (cases j)
  case (JNum n)
  have dec: "decimal k @ t \<noteq> [] \<and> hd (decimal k @ t) \<noteq> 0xFEFF" for k t
  proof -
    have "is_digit (hd (decimal k))"
      using decimal_hd [of k] by (cases "k = 0") (simp_all add: decimal_0 is_digit_def)
    then show ?thesis by (auto simp: is_digit_def)
  qed
  have "hd (with_sign i (decimal k @ t)) \<noteq> 0xFEFF \<and> with_sign i (decimal k @ t) \<noteq> []" for i k t
    using dec [of k t] by (simp add: with_sign_def)
  from this [of _ _ "[]"] this JNum show ?thesis
    by (cases n) (simp_all add: Let_def null_text_def)
qed (simp_all add: null_text_def true_text_def false_text_def quote_def)

lemma json_roundtrip: "good_json j \<Longrightarrow> json_of_bytes (json_bytes j) = Some j"
  using stringify_first [of j]
  by (simp add: json_bytes_def json_of_bytes_def utf8_roundtrip stringify_well_formed parse_stringify)

interpretation json: codec json_bytes json_of_bytes good_json
  by unfold_locales (rule json_roundtrip)

lemma json_obj_first: "\<exists>bs. json_bytes (JObj ms) = 0x7B # bs"
proof -
  have "code_points (0x7B # us) = 0x7B # code_points us" for us
    by (cases us) (simp_all add: plain_codes)
  then show ?thesis by (simp add: json_bytes_def utf8_encode_def encode_point_def)
qed

end
