(* ===== verification/Base64.thy ===== *)
theory Base64
  imports Prelude
begin

text \<open>
  The base64 helpers of \<open>web/src/lib/crypto/session.ts\<close> over \<open>btoa\<close> and \<open>atob\<close>: keys, digests and tokens
  travel in the URL-safe alphabet without padding, images in backups in the standard one. \<open>atob\<close> is
  the forgiving decoder of the Infra standard.
\<close>

section \<open>btoa and atob\<close>

definition b64_alphabet :: jstr where
  "b64_alphabet = js ''ABCDEFGHIJKLMNOPQRSTUVWXYZabcdefghijklmnopqrstuvwxyz0123456789+/''"

definition b64_unit :: "nat \<Rightarrow> 16 word" where
  "b64_unit n = (if n < 26 then of_nat (65 + n) else if n < 52 then of_nat (71 + n)
                 else if n < 62 then of_nat (n - 4) else if n = 62 then 43 else 47)"

definition b64_value :: "16 word \<Rightarrow> nat option" where
  "b64_value u =
     (let n = unat u
      in if 65 \<le> n \<and> n \<le> 90 then Some (n - 65)
         else if 97 \<le> n \<and> n \<le> 122 then Some (n - 71)
         else if 48 \<le> n \<and> n \<le> 57 then Some (n + 4)
         else if n = 43 then Some 62 else if n = 47 then Some 63 else None)"

text \<open>Three bytes are four groups of six bits; what is missing at the end counts as zero.\<close>

fun sextets :: "bytes \<Rightarrow> nat list" where
  "sextets [] = []"
| "sextets [a] = [unat a div 4, unat a mod 4 * 16]"
| "sextets [a, b] = [unat a div 4, unat a mod 4 * 16 + unat b div 16, unat b mod 16 * 4]"
| "sextets (a # b # c # bs) =
     [unat a div 4, unat a mod 4 * 16 + unat b div 16, unat b mod 16 * 4 + unat c div 64, unat c mod 64]
     @ sextets bs"

definition pad_of :: "nat \<Rightarrow> jstr" where
  "pad_of n = replicate (if n mod 4 = 0 then 0 else 4 - n mod 4) 0x3D"

definition btoa :: "bytes \<Rightarrow> jstr" where
  "btoa bs = map b64_unit (sextets bs) @ pad_of (length (sextets bs))"

fun from_sextets :: "nat list \<Rightarrow> bytes" where
  "from_sextets [] = []"
| "from_sextets [p] = []"
| "from_sextets [p, q] = [of_nat (p * 4 + q div 16)]"
| "from_sextets [p, q, r] = [of_nat (p * 4 + q div 16), of_nat (q mod 16 * 16 + r div 4)]"
| "from_sextets (p # q # r # t # ns) =
     of_nat (p * 4 + q div 16) # of_nat (q mod 16 * 16 + r div 4) # of_nat (r mod 4 * 64 + t) # from_sextets ns"

definition ascii_ws :: "16 word \<Rightarrow> bool" where
  "ascii_ws u \<longleftrightarrow> u = 0x20 \<or> u = 0x09 \<or> u = 0x0A \<or> u = 0x0C \<or> u = 0x0D"

definition drop_last_pad :: "jstr \<Rightarrow> jstr" where
  "drop_last_pad s = (if s \<noteq> [] \<and> last s = 0x3D then butlast s else s)"

definition atob :: "jstr \<Rightarrow> bytes result" where
  "atob s =
     (let s1 = filter (\<lambda>u. \<not> ascii_ws u) s;
          s2 = (if length s1 mod 4 = 0 then drop_last_pad (drop_last_pad s1) else s1)
      in if length s2 mod 4 = 1 \<or> (\<exists>u \<in> set s2. b64_value u = None) then Inl InvalidCharacterError
         else Inr (from_sextets (map (the \<circ> b64_value) s2)))"

section \<open>The program's functions\<close>

definition bytesToBase64 :: "bytes \<Rightarrow> jstr" where
  "bytesToBase64 bs = btoa bs"

definition base64ToBytes :: "jstr \<Rightarrow> bytes result" where
  "base64ToBytes s = atob s"

definition replace_unit :: "16 word \<Rightarrow> 16 word \<Rightarrow> jstr \<Rightarrow> jstr" where
  "replace_unit u v s = map (\<lambda>w. if w = u then v else w) s"

definition strip_pads :: "jstr \<Rightarrow> jstr" where
  "strip_pads s = rev (dropWhile (\<lambda>u. u = 0x3D) (rev s))"

definition bytesToBase64Url :: "bytes \<Rightarrow> jstr" where
  "bytesToBase64Url bs = strip_pads (replace_unit 0x2F 0x5F (replace_unit 0x2B 0x2D (btoa bs)))"

definition base64UrlToBytes :: "jstr \<Rightarrow> bytes result" where
  "base64UrlToBytes s =
     atob (replace_unit 0x5F 0x2F (replace_unit 0x2D 0x2B s) @
           (if length s mod 4 = 0 then [] else replicate (4 - length s mod 4) 0x3D))"

section \<open>Round trips\<close>

lemma b64_table:
  assumes "n < 64"
  shows "b64_value (b64_unit n) = Some n" "b64_unit n \<noteq> 0x3D" "\<not> ascii_ws (b64_unit n)"
    "b64_unit n \<noteq> 0x2D" "b64_unit n \<noteq> 0x5F"
proof -
  have "\<forall>n \<in> set [0..<64]. b64_value (b64_unit n) = Some n \<and> b64_unit n \<noteq> 0x3D \<and> \<not> ascii_ws (b64_unit n) \<and>
          b64_unit n \<noteq> 0x2D \<and> b64_unit n \<noteq> 0x5F"
    by code_simp
  with assms show "b64_value (b64_unit n) = Some n" "b64_unit n \<noteq> 0x3D" "\<not> ascii_ws (b64_unit n)"
    "b64_unit n \<noteq> 0x2D" "b64_unit n \<noteq> 0x5F"
    by simp_all
qed

lemma b64_alphabet_units: "map b64_unit [0..<64] = b64_alphabet"
  by code_simp

lemma sextets_small: "list_all (\<lambda>n. n < 64) (sextets bs)"
proof (induction bs rule: sextets.induct)
  case (2 a)
  then show ?case using unat_byte [of a] by auto
next
  case (3 a b)
  have "unat a mod 4 < 4" "unat b div 16 < 16" "unat b mod 16 < 16" using unat_byte [of b] by auto
  then show ?case using unat_byte [of a] by auto
next
  case (4 a b c bs)
  have "unat a mod 4 < 4" "unat b div 16 < 16" "unat b mod 16 < 16" "unat c div 64 < 4"
    using unat_byte [of b] unat_byte [of c] by auto
  then show ?case using 4 unat_byte [of a] by auto
qed simp

lemma length_sextets: "length (sextets bs) mod 4 \<noteq> 1"
  by (induction bs rule: sextets.induct) auto

lemma from_sextets_sextets: "from_sextets (sextets bs) = bs"
proof (induction bs rule: sextets.induct)
  case (2 a)
  have "unat a div 4 * 4 + unat a mod 4 * 16 div 16 = unat a" by simp
  then show ?case by (simp del: of_nat_add of_nat_mult)
next
  case (3 a b)
  have "(unat a mod 4 * 16 + unat b div 16) div 16 = unat a mod 4"
    "(unat a mod 4 * 16 + unat b div 16) mod 16 = unat b div 16"
    using unat_byte [of b] by auto
  then show ?case by (simp del: of_nat_add of_nat_mult)
next
  case (4 a b c bs)
  have "(unat a mod 4 * 16 + unat b div 16) div 16 = unat a mod 4"
    "(unat a mod 4 * 16 + unat b div 16) mod 16 = unat b div 16"
    "(unat b mod 16 * 4 + unat c div 64) div 4 = unat b mod 16"
    "(unat b mod 16 * 4 + unat c div 64) mod 4 = unat c div 64"
    using unat_byte [of b] unat_byte [of c] by auto
  then show ?case using 4 by (simp del: of_nat_add of_nat_mult)
qed simp


lemma drop_pad_unit: "list_all (\<lambda>n. n < 64) ns \<Longrightarrow> drop_last_pad (map b64_unit ns) = map b64_unit ns"
  by (cases ns rule: rev_cases) (auto simp: drop_last_pad_def b64_table)

lemma drop_pads:
  assumes "list_all (\<lambda>n. n < 64) ns" "length ns mod 4 \<noteq> 1"
  shows "drop_last_pad (drop_last_pad (map b64_unit ns @ pad_of (length ns))) = map b64_unit ns"
proof -
  have "length ns mod 4 = 0 \<or> length ns mod 4 = 2 \<or> length ns mod 4 = 3"
    using assms(2) mod_less_divisor [of 4 "length ns"] by linarith
  then have "pad_of (length ns) = [] \<or> pad_of (length ns) = [0x3D] \<or> pad_of (length ns) = [0x3D, 0x3D]"
    by (elim disjE) (simp_all add: pad_of_def numeral_2_eq_2)
  moreover have "drop_last_pad (t @ [0x3D]) = t" for t by (simp add: drop_last_pad_def)
  moreover have "drop_last_pad (t @ [0x3D, 0x3D]) = t @ [0x3D]" for t by (simp add: drop_last_pad_def butlast_append)
  ultimately show ?thesis using drop_pad_unit [OF assms(1)] by auto
qed

lemma atob_units:
  assumes "list_all (\<lambda>n. n < 64) ns" "length ns mod 4 \<noteq> 1"
  shows "atob (map b64_unit ns @ pad_of (length ns)) = Inr (from_sextets ns)"
proof -
  let ?s = "map b64_unit ns @ pad_of (length ns)"
  have not_ws_pad: "\<not> ascii_ws 0x3D" by (simp add: ascii_ws_def)
  have "filter (\<lambda>u. \<not> ascii_ws u) ?s = ?s"
    using assms(1) not_ws_pad by (intro filter_True) (auto simp: list_all_iff b64_table pad_of_def)
  moreover have "length ?s mod 4 = 0" by (auto simp: pad_of_def) presburger
  moreover have "map (the \<circ> b64_value) (map b64_unit ns) = ns"
    using assms(1) by (auto simp: list_all_iff b64_table intro: map_idI)
  moreover have "\<not> (\<exists>u \<in> set (map b64_unit ns). b64_value u = None)"
    using assms(1) by (auto simp: list_all_iff b64_table)
  ultimately show ?thesis
    using drop_pads [OF assms] assms(2) by (simp add: atob_def Let_def)
qed

lemma base64_roundtrip: "base64ToBytes (bytesToBase64 bs) = Inr bs"
  by (simp add: base64ToBytes_def bytesToBase64_def btoa_def atob_units sextets_small
      length_sextets [simplified] from_sextets_sextets)

definition url_unit :: "nat \<Rightarrow> 16 word" where
  "url_unit n = (if n = 62 then 0x2D else if n = 63 then 0x5F else b64_unit n)"

definition to_url :: "16 word \<Rightarrow> 16 word" where
  "to_url w = (let w' = (if w = 0x2B then 0x2D else w) in if w' = 0x2F then 0x5F else w')"

definition from_url :: "16 word \<Rightarrow> 16 word" where
  "from_url w = (let w' = (if w = 0x2D then 0x2B else w) in if w' = 0x5F then 0x2F else w')"

lemma replace_url: "replace_unit 0x2F 0x5F (replace_unit 0x2B 0x2D s) = map to_url s"
  "replace_unit 0x5F 0x2F (replace_unit 0x2D 0x2B s) = map from_url s"
  by (simp_all add: replace_unit_def to_url_def from_url_def Let_def)

lemma url_table:
  assumes "n < 64"
  shows "to_url (b64_unit n) = url_unit n" "from_url (url_unit n) = b64_unit n" "url_unit n \<noteq> 0x3D"
proof -
  have "\<forall>n \<in> set [0..<64]. to_url (b64_unit n) = url_unit n \<and> from_url (url_unit n) = b64_unit n \<and> url_unit n \<noteq> 0x3D"
    by code_simp
  with assms show "to_url (b64_unit n) = url_unit n" "from_url (url_unit n) = b64_unit n" "url_unit n \<noteq> 0x3D"
    by simp_all
qed

lemma strip_pads_units:
  assumes "\<forall>u \<in> set s. u \<noteq> 0x3D"
  shows "strip_pads (s @ replicate n 0x3D) = s"
proof -
  have "dropWhile (\<lambda>u. u = 0x3D) (replicate n 0x3D @ rev s) = rev s"
    using assms by (induction n) (auto simp: dropWhile_eq_self_iff hd_rev)
  then show ?thesis by (simp add: strip_pads_def)
qed

lemma base64url_units: "bytesToBase64Url bs = map url_unit (sextets bs)"
proof -
  have "to_url 0x3D = 0x3D" by code_simp
  then have "map to_url (map b64_unit (sextets bs) @ pad_of n) = map url_unit (sextets bs) @ pad_of n" for n
    using sextets_small [of bs] by (auto simp: pad_of_def list_all_iff url_table)
  moreover have "\<forall>u \<in> set (map url_unit (sextets bs)). u \<noteq> 0x3D"
    using sextets_small [of bs] by (auto simp: list_all_iff url_table)
  ultimately show ?thesis
    using strip_pads_units by (simp add: bytesToBase64Url_def btoa_def pad_of_def replace_url del: map_map map_append)
qed

lemma base64url_roundtrip: "base64UrlToBytes (bytesToBase64Url bs) = Inr bs"
proof -
  let ?ns = "sextets bs"
  have "map from_url (map url_unit ?ns) = map b64_unit ?ns"
    using sextets_small [of bs] by (auto simp: list_all_iff url_table)
  then have "base64UrlToBytes (bytesToBase64Url bs) = atob (map b64_unit ?ns @ pad_of (length ?ns))"
    by (simp add: base64UrlToBytes_def base64url_units pad_of_def replace_url del: map_map)
  then show ?thesis
    by (simp add: atob_units sextets_small length_sextets [simplified] from_sextets_sextets)
qed

interpretation base64: codec bytesToBase64 "\<lambda>s. case base64ToBytes s of Inl e \<Rightarrow> None | Inr bs \<Rightarrow> Some bs" "\<lambda>bs. True"
  by unfold_locales (simp add: base64_roundtrip)

interpretation base64url: codec bytesToBase64Url "\<lambda>s. case base64UrlToBytes s of Inl e \<Rightarrow> None | Inr bs \<Rightarrow> Some bs" "\<lambda>bs. True"
  by unfold_locales (simp add: base64url_roundtrip)

definition url_safe :: "16 word \<Rightarrow> bool" where
  "url_safe u \<longleftrightarrow> 65 \<le> unat u \<and> unat u \<le> 90 \<or> 97 \<le> unat u \<and> unat u \<le> 122 \<or> is_digit u \<or> u = 0x2D \<or> u = 0x5F"

lemma base64url_safe: "list_all url_safe (bytesToBase64Url bs)"
proof -
  have "\<forall>n \<in> set [0..<64]. url_safe (url_unit n)" by code_simp
  then show ?thesis using sextets_small [of bs] by (auto simp: base64url_units list_all_iff)
qed

text \<open>C23
  Base64. Decoding what was encoded gives the bytes back, in both alphabets; the URL-safe text uses only
  letters, digits, minus and underscore, has no padding, and two byte strings have the same text only
  when they are equal.
\<close>

theorem base64_roundtrips:
  "base64ToBytes (bytesToBase64 bs) = Inr bs \<and> base64UrlToBytes (bytesToBase64Url bs) = Inr bs \<and>
   list_all url_safe (bytesToBase64Url bs) \<and>
   (bytesToBase64Url bs = bytesToBase64Url cs \<longleftrightarrow> bs = cs) \<and>
   length (bytesToBase64Url bs) = (4 * length bs + 2) div 3"
proof -
  have "length (sextets bs) = (4 * length bs + 2) div 3"
    by (induction bs rule: sextets.induct) auto
  then show ?thesis
    using base64url_safe [of bs] base64url.enc_inj [of bs cs] base64_roundtrip [of bs] base64url_roundtrip [of bs]
    by (simp add: base64url_units [of bs])
qed

end
