(* ===== verification/Wire.thy ===== *)
theory Wire
  imports Json Base64 TransferInv
begin

text \<open>
  \<open>encodePlaintext\<close>, \<open>decodePlaintext\<close> and the message envelope of \<open>web/src/lib/crypto/session.ts\<close>: the
  wire format of every message two clients exchange. Text-like messages are UTF-8 JSON; images and
  chunks are a mark byte, a two-byte length, JSON metadata and the raw payload. Unicode normalisation
  (\<open>String.prototype.normalize\<close>) is the parameter \<open>nfc\<close>, AES-GCM the parameters \<open>seal\<close> and \<open>unseal\<close>.
\<close>

section \<open>Encoding\<close>

definition IMAGE_PLAIN_MARK :: byte where "IMAGE_PLAIN_MARK = 2"
definition IMAGE_CHUNK_MARK :: byte where "IMAGE_CHUNK_MARK = 3"
definition HISTORY_CHUNK_MARK :: byte where "HISTORY_CHUNK_MARK = 4"
definition TRANSFER_CHUNK_MARK :: byte where "TRANSFER_CHUNK_MARK = 5"

lemmas mark_defs = IMAGE_PLAIN_MARK_def IMAGE_CHUNK_MARK_def HISTORY_CHUNK_MARK_def TRANSFER_CHUNK_MARK_def

definition str :: "string \<Rightarrow> jstr \<Rightarrow> jstr \<times> json" where
  "str k s = (js k, JStr s)"

definition num :: "string \<Rightarrow> jsnum \<Rightarrow> jstr \<times> json" where
  "num k n = (js k, JNum n)"

definition count :: "string \<Rightarrow> nat \<Rightarrow> jstr \<times> json" where
  "count k n = (js k, JNum (NumI (int n)))"

definition opt :: "('a \<Rightarrow> jstr \<times> json) \<Rightarrow> 'a option \<Rightarrow> (jstr \<times> json) list" where
  "opt f x = (case x of None \<Rightarrow> [] | Some a \<Rightarrow> [f a])"

text \<open>\<open>if (x) obj.k = x\<close> for a string: the empty one is left out too.\<close>

definition opt_str :: "string \<Rightarrow> jstr option \<Rightarrow> (jstr \<times> json) list" where
  "opt_str k x = (case x of None \<Rightarrow> [] | Some s \<Rightarrow> if s = [] then [] else [str k s])"

definition reply_json :: "reply_ref \<Rightarrow> jstr \<times> json" where
  "reply_json r = (js ''replyTo'', JObj [str ''id'' (rr_id r), str ''preview'' (rr_preview r)])"

definition v1 :: "jstr \<times> json" where
  "v1 = count ''v'' 1"

definition kind_text :: "transfer_kind \<Rightarrow> jstr" where
  "kind_text k = (case k of KindImage \<Rightarrow> js ''image'' | KindFile \<Rightarrow> js ''file'')"

definition header_json :: "transfer_header \<Rightarrow> json" where
  "header_json h =
     JObj ([str ''kind'' (kind_text (th_kind h)), num ''ts'' (th_ts h), str ''mime'' (th_mime h),
            count ''size'' (th_size h), str ''sha256'' (th_sha256 h)]
           @ opt (str ''name'') (th_name h) @ opt (num ''w'') (th_w h) @ opt (num ''h'') (th_h h)
           @ opt reply_json (th_replyTo h))"

definition encodeBinaryEnvelope :: "byte \<Rightarrow> json \<Rightarrow> bytes \<Rightarrow> bytes result" where
  "encodeBinaryEnvelope mark metaObj payload =
     (let meta = json_bytes metaObj
      in if 0xffff < length meta then Inl (Error ''image meta too large'')
         else Inr (mark # of_nat (length meta div 256) # of_nat (length meta) # meta @ payload))"

definition json_frame :: "(jstr \<times> json) list \<Rightarrow> bytes result" where
  "json_frame ms = Inr (json_bytes (JObj ms))"

definition with_id :: "jstr \<Rightarrow> bytes result \<Rightarrow> bytes result" where
  "with_id i r = (if i = [] then Inl (Error ''message id required'') else r)"

definition plain_json :: "string \<Rightarrow> jsnum \<Rightarrow> jstr \<Rightarrow> (jstr \<times> json) list" where
  "plain_json kind ts i = [v1, num ''ts'' ts, str ''type'' (js kind), str ''id'' i]"

definition ids_json :: "jstr list \<Rightarrow> jstr \<times> json" where
  "ids_json ids = (js ''ids'', JArr (map JStr ids))"

definition chunk_json :: "string \<Rightarrow> jstr \<Rightarrow> nat \<Rightarrow> nat \<Rightarrow> (jstr \<times> json) list" where
  "chunk_json kind i k n = [v1, str ''type'' (js kind), str ''id'' i, count ''index'' k, count ''total'' n]"

definition image_chunk_meta :: "image_chunk \<Rightarrow> json result" where
  "image_chunk_meta c =
     (let base = chunk_json ''image_chunk'' (ic_id c) (ic_index c) (ic_total c)
      in if ic_index c \<noteq> 0 then Inr (JObj base)
         else case (ic_ts c, ic_mime c, ic_byteLength c) of
                (Some ts, Some mime, Some len) \<Rightarrow>
                  Inr (JObj (base @ [num ''ts'' ts, str ''mime'' (mime_string mime), count ''byteLength'' len]
                             @ opt (num ''w'') (ic_w c) @ opt (num ''h'') (ic_h c) @ opt reply_json (ic_replyTo c)))
              | _ \<Rightarrow> Inl (Error ''image chunk 0 meta incomplete''))"

definition history_chunk_meta :: "history_chunk \<Rightarrow> json result" where
  "history_chunk_meta c =
     (let base = chunk_json ''history_chunk'' (hc_id c) (hc_index c) (hc_total c)
      in if hc_index c \<noteq> 0 then Inr (JObj base)
         else case hc_compressedLength c of
                None \<Rightarrow> Inl (Error ''history chunk 0 meta incomplete'')
              | Some len \<Rightarrow> Inr (JObj (base @ [count ''compressedLength'' len])))"

definition text_json :: "text_content \<Rightarrow> jstr \<Rightarrow> (jstr \<times> json) list" where
  "text_json t i =
     [v1, num ''ts'' (tx_ts t), str ''type'' (js ''text''), str ''body'' (tx_body t), str ''id'' i]
     @ opt reply_json (tx_replyTo t)"

definition image_meta :: "image_content \<Rightarrow> jstr \<Rightarrow> json" where
  "image_meta im i =
     JObj ([v1, num ''ts'' (im_ts im), str ''type'' (js ''image''), str ''mime'' (mime_string (im_mime im)), str ''id'' i]
           @ opt (num ''w'') (im_w im) @ opt (num ''h'') (im_h im) @ opt reply_json (im_replyTo im))"

definition transfer_chunk_meta :: "transfer_chunk \<Rightarrow> json" where
  "transfer_chunk_meta c =
     JObj [v1, str ''type'' (js ''xfer_chunk''), str ''id'' (tc_id c), count ''index'' (tc_index c),
           count ''total'' (tc_total c), (js ''header'', header_json (tc_header c))]"

definition ack_json :: "transfer_ack \<Rightarrow> (jstr \<times> json) list" where
  "ack_json a =
     [v1, num ''ts'' (ta_ts a), str ''type'' (js ''xfer_ack''), str ''id'' (ta_id a),
      (js ''have'', JArr (map (\<lambda>k. JNum (NumI (int k))) (ta_have a)))]
     @ (if ta_resend a then [(js ''resend'', JBool True)] else [])
     @ (if ta_done a then [(js ''done'', JBool True)] else [])"

fun encodePlaintext :: "plain_message \<Rightarrow> bytes result" where
  "encodePlaintext (TransferChunk c) = encodeBinaryEnvelope TRANSFER_CHUNK_MARK (transfer_chunk_meta c) (tc_data c)"
| "encodePlaintext (TransferAck a) = json_frame (ack_json a)"
| "encodePlaintext (TransferQuery ts i) = json_frame (plain_json ''xfer_query'' ts i)"
| "encodePlaintext (TransferCancel ts i reason) =
     json_frame (plain_json ''xfer_cancel'' ts i @ opt_str ''reason'' reason)"
| "encodePlaintext (Content i (File f)) = Inl (Error ''file messages are sent as xfer_chunk frames'')"
| "encodePlaintext (HistoryDigest ts n idHash fp) =
     json_frame ([v1, num ''ts'' ts, str ''type'' (js ''history_digest''), num ''count'' n, str ''idHash'' idHash]
                 @ opt_str ''deviceFp'' fp)"
| "encodePlaintext (ResyncRequest ts i fp) =
     with_id i (json_frame (plain_json ''resync_request'' ts i @ opt_str ''deviceFp'' fp))"
| "encodePlaintext (WipeHistory ts i) = with_id i (json_frame (plain_json ''wipe_history'' ts i))"
| "encodePlaintext (ResyncReject ts i reason) =
     with_id i (json_frame (plain_json ''resync_reject'' ts i @ opt_str ''reason'' reason))"
| "encodePlaintext (ResyncAccept ts i ids) =
     with_id i (json_frame (plain_json ''resync_accept'' ts i @ [ids_json ids]))"
| "encodePlaintext (ResyncIds ts i ids) =
     with_id i (json_frame (plain_json ''resync_ids'' ts i @ [ids_json ids]))"
| "encodePlaintext (HistoryChunk c) =
     with_id (hc_id c) (bind_result (history_chunk_meta c)
       (\<lambda>meta. encodeBinaryEnvelope HISTORY_CHUNK_MARK meta (hc_data c)))"
| "encodePlaintext (Delete ts i) = with_id i (json_frame (plain_json ''delete'' ts i))"
| "encodePlaintext (Content i (Text t)) =
     (case i of None \<Rightarrow> Inl (Error ''message id required'') | Some i \<Rightarrow> with_id i (json_frame (text_json t i)))"
| "encodePlaintext (ImageChunk c) =
     with_id (ic_id c) (bind_result (image_chunk_meta c)
       (\<lambda>meta. encodeBinaryEnvelope IMAGE_CHUNK_MARK meta (ic_data c)))"
| "encodePlaintext (Content i (Image im)) =
     (case i of None \<Rightarrow> Inl (Error ''message id required'')
      | Some i \<Rightarrow> with_id i (encodeBinaryEnvelope IMAGE_PLAIN_MARK (image_meta im i) (im_data im)))"


section \<open>Decoding\<close>

text \<open>The tests the decoder makes on a member: a string, a non-empty string, a number, an integer.\<close>

definition get_str :: "json \<Rightarrow> string \<Rightarrow> jstr option" where
  "get_str j k = (case member j (js k) of Some (JStr s) \<Rightarrow> Some s | _ \<Rightarrow> None)"

definition get_text :: "json \<Rightarrow> string \<Rightarrow> jstr option" where
  "get_text j k = (case get_str j k of Some s \<Rightarrow> if s = [] then None else Some s | None \<Rightarrow> None)"

definition get_num :: "json \<Rightarrow> string \<Rightarrow> jsnum option" where
  "get_num j k = (case member j (js k) of Some (JNum n) \<Rightarrow> Some n | _ \<Rightarrow> None)"

definition get_int :: "json \<Rightarrow> string \<Rightarrow> int option" where
  "get_int j k = (case member j (js k) of Some (JNum (NumI i)) \<Rightarrow> Some i | _ \<Rightarrow> None)"

definition get_true :: "json \<Rightarrow> string \<Rightarrow> bool" where
  "get_true j k \<longleftrightarrow> member j (js k) = Some (JBool True)"

definition is_v1 :: "json \<Rightarrow> bool" where
  "is_v1 j \<longleftrightarrow> get_num j ''v'' = Some (NumI 1)"

definition is_type :: "json \<Rightarrow> string \<Rightarrow> bool" where
  "is_type j t \<longleftrightarrow> get_str j ''type'' = Some (js t)"

definition get_mime :: "json \<Rightarrow> image_mime option" where
  "get_mime j = (case get_str j ''mime'' of Some s \<Rightarrow> imageMimeOf s | None \<Rightarrow> None)"

definition schema_error :: js_error where
  "schema_error = Error ''invalid message schema''"

definition parseReplyTo :: "json option \<Rightarrow> reply_ref option" where
  "parseReplyTo raw =
     (case raw of
        None \<Rightarrow> None
      | Some r \<Rightarrow>
          (case (get_text r ''id'', get_str r ''preview'') of
             (Some i, Some p) \<Rightarrow> Some \<lparr>rr_id = i, rr_preview = p\<rparr>
           | _ \<Rightarrow> None))"

definition get_reply :: "json \<Rightarrow> reply_ref option" where
  "get_reply j = parseReplyTo (member j (js ''replyTo''))"

fun isPositiveDim :: "jsnum \<Rightarrow> bool" where
  "isPositiveDim (NumI n) = (0 < n \<and> n \<le> 100000)"
| "isPositiveDim _ = False"

definition get_dim :: "json \<Rightarrow> string \<Rightarrow> jsnum option" where
  "get_dim j k = (case get_num j k of Some n \<Rightarrow> if isPositiveDim n then Some n else None | None \<Rightarrow> None)"

definition kind_of :: "json \<Rightarrow> transfer_kind option" where
  "kind_of j =
     (case get_str j ''kind'' of
        None \<Rightarrow> None
      | Some s \<Rightarrow> if s = js ''image'' then Some KindImage else if s = js ''file'' then Some KindFile else None)"

definition is_digest_text :: "jstr \<Rightarrow> bool" where
  "is_digest_text s \<longleftrightarrow> length s = 43 \<and> list_all url_safe s"

definition mime_ok :: "transfer_kind \<Rightarrow> jstr \<Rightarrow> bool" where
  "mime_ok k m = (case k of KindImage \<Rightarrow> isImageMime m | KindFile \<Rightarrow> isValidMime m)"

text \<open>
  A value that is not an object has none of the members, so it fails at the kind as \<open>undefined\<close> and
  \<open>null\<close> do.
\<close>

definition parseTransferHeader :: "(jstr \<Rightarrow> jstr) \<Rightarrow> json option \<Rightarrow> transfer_header result" where
  "parseTransferHeader nfc raw =
     (let h = (case raw of None \<Rightarrow> JNull | Some h \<Rightarrow> h)
      in case (kind_of h, get_num h ''ts'') of
           (Some kind, Some ts) \<Rightarrow>
             if \<not> is_finite ts then Inl (Error ''invalid transfer header'')
             else (case get_int h ''size'' of
                     None \<Rightarrow> Inl (Error ''invalid transfer size'')
                   | Some sz \<Rightarrow>
                       if sz < 0 \<or> int MAX_TRANSFER_BYTES < sz then Inl (Error ''invalid transfer size'')
                       else (case get_str h ''sha256'' of
                               None \<Rightarrow> Inl (Error ''invalid transfer header'')
                             | Some sha \<Rightarrow>
                                 if \<not> is_digest_text sha then Inl (Error ''invalid transfer header'')
                                 else (case get_str h ''mime'' of
                                         None \<Rightarrow> Inl (Error ''invalid transfer mime'')
                                       | Some mime \<Rightarrow>
                                           if \<not> mime_ok kind mime then Inl (Error ''invalid transfer mime'')
                                           else Inr \<lparr>th_kind = kind, th_ts = ts, th_mime = mime, th_size = nat sz,
                                                     th_sha256 = sha,
                                                     th_name = (if kind = KindFile
                                                                then Some (sanitizeFileName nfc (get_str h ''name''))
                                                                else None),
                                                     th_w = get_dim h ''w'', th_h = get_dim h ''h'',
                                                     th_replyTo = get_reply h\<rparr>)))
         | _ \<Rightarrow> Inl (Error ''invalid transfer header''))"

definition chunk_index :: "json \<Rightarrow> nat result" where
  "chunk_index j =
     (case j of
        JNum (NumI n) \<Rightarrow> if 0 \<le> n \<and> n < int MAX_TRANSFER_CHUNKS then Inr (nat n) else Inl schema_error
      | _ \<Rightarrow> Inl schema_error)"

fun chunk_indices :: "json list \<Rightarrow> nat list result" where
  "chunk_indices [] = Inr []"
| "chunk_indices (x # xs) =
     bind_result (chunk_index x) (\<lambda>n. bind_result (chunk_indices xs) (\<lambda>ns. Inr (n # ns)))"

definition parseChunkIndices :: "json option \<Rightarrow> nat list result" where
  "parseChunkIndices raw =
     (case raw of
        Some (JArr xs) \<Rightarrow> if MAX_TRANSFER_CHUNKS < length xs then Inl schema_error else chunk_indices xs
      | _ \<Rightarrow> Inl schema_error)"

text \<open>The metadata of a binary frame: its id and its place among its companions.\<close>

definition decodeTransferChunk :: "(jstr \<Rightarrow> jstr) \<Rightarrow> json \<Rightarrow> bytes \<Rightarrow> plain_message result" where
  "decodeTransferChunk nfc meta payload =
     (case (get_text meta ''id'', get_int meta ''index'', get_int meta ''total'') of
        (Some i, Some k, Some n) \<Rightarrow>
          if \<not> is_v1 meta \<or> \<not> is_type meta ''xfer_chunk'' \<or> 64 < length i \<or> k < 0 \<or> n \<le> k
          then Inl schema_error
          else bind_result (parseTransferHeader nfc (member meta (js ''header'')))
            (\<lambda>h. if n \<noteq> int (transferChunkCount (th_size h)) then Inl (Error ''invalid transfer chunk count'')
                 else if length payload \<noteq> transferChunkLength (th_size h) (nat k)
                 then Inl (Error ''invalid transfer chunk length'')
                 else Inr (TransferChunk \<lparr>tc_id = i, tc_index = nat k, tc_total = nat n, tc_header = h,
                                          tc_data = payload\<rparr>))
      | _ \<Rightarrow> Inl schema_error)"

definition decodeHistoryChunk :: "json \<Rightarrow> bytes \<Rightarrow> plain_message result" where
  "decodeHistoryChunk meta payload =
     (case (get_text meta ''id'', get_int meta ''index'', get_int meta ''total'') of
        (Some i, Some k, Some n) \<Rightarrow>
          if \<not> is_v1 meta \<or> \<not> is_type meta ''history_chunk'' \<or> k < 0 \<or> n < 1 \<or> n \<le> k then Inl schema_error
          else if HISTORY_CHUNK_PAYLOAD_BYTES < length payload then Inl (Error ''history chunk too large'')
          else (let c = \<lparr>hc_id = i, hc_index = nat k, hc_total = nat n, hc_data = payload,
                         hc_compressedLength = None\<rparr>
                in if k \<noteq> 0 then Inr (HistoryChunk c)
                   else (case get_int meta ''compressedLength'' of
                           None \<Rightarrow> Inl schema_error
                         | Some len \<Rightarrow> if len < 0 then Inl schema_error
                             else Inr (HistoryChunk (c\<lparr>hc_compressedLength := Some (nat len)\<rparr>))))
      | _ \<Rightarrow> Inl schema_error)"

definition decodeImageChunk :: "json \<Rightarrow> bytes \<Rightarrow> plain_message result" where
  "decodeImageChunk meta payload =
     (case (get_text meta ''id'', get_int meta ''index'', get_int meta ''total'') of
        (Some i, Some k, Some n) \<Rightarrow>
          if \<not> is_v1 meta \<or> \<not> is_type meta ''image_chunk'' \<or> k < 0 \<or> n < 1 \<or> int MAX_TRANSFER_CHUNKS < n \<or> n \<le> k
          then Inl schema_error
          else if IMAGE_CHUNK_PAYLOAD_BYTES < length payload then Inl (Error ''image chunk too large'')
          else (let c = \<lparr>ic_id = i, ic_index = nat k, ic_total = nat n, ic_data = payload, ic_ts = None,
                         ic_mime = None, ic_byteLength = None, ic_w = None, ic_h = None, ic_replyTo = None\<rparr>
                in if k \<noteq> 0 then Inr (ImageChunk c)
                   else (case (get_num meta ''ts'', get_mime meta, get_int meta ''byteLength'') of
                           (Some ts, Some mime, Some len) \<Rightarrow>
                             if len < 0 \<or> int MAX_IMAGE_BYTES < len then Inl schema_error
                             else Inr (ImageChunk (c\<lparr>ic_ts := Some ts, ic_mime := Some mime,
                                         ic_byteLength := Some (nat len), ic_w := get_num meta ''w'',
                                         ic_h := get_num meta ''h'', ic_replyTo := get_reply meta\<rparr>))
                         | _ \<Rightarrow> Inl schema_error))
      | _ \<Rightarrow> Inl schema_error)"

definition decodeImage :: "json \<Rightarrow> bytes \<Rightarrow> plain_message result" where
  "decodeImage meta payload =
     (case (get_num meta ''ts'', get_mime meta) of
        (Some ts, Some mime) \<Rightarrow>
          if \<not> is_v1 meta \<or> \<not> is_type meta ''image'' then Inl schema_error
          else if MAX_IMAGE_BYTES < length payload then Inl (Error ''image too large'')
          else Inr (Content (get_text meta ''id'')
                 (Image \<lparr>im_ts = ts, im_mime = mime, im_data = payload, im_w = get_num meta ''w'',
                         im_h = get_num meta ''h'', im_replyTo = get_reply meta\<rparr>))
      | _ \<Rightarrow> Inl schema_error)"

definition decodeEnvelope :: "(jstr \<Rightarrow> jstr) \<Rightarrow> bytes \<Rightarrow> plain_message result" where
  "decodeEnvelope nfc pt =
     (if length pt < 3 then Inl (Error ''invalid image envelope'')
      else (let metaLen = unat (pt ! 1) * 256 + unat (pt ! 2)
            in if length pt < 3 + metaLen then Inl (Error ''invalid image envelope'')
               else (case json_of_bytes (take metaLen (drop 3 pt)) of
                       None \<Rightarrow> Inl (Error ''invalid image meta'')
                     | Some meta \<Rightarrow>
                         (let payload = drop (3 + metaLen) pt
                          in if meta = JNull then Inl TypeError
                             else if pt ! 0 = TRANSFER_CHUNK_MARK then decodeTransferChunk nfc meta payload
                             else if pt ! 0 = HISTORY_CHUNK_MARK then decodeHistoryChunk meta payload
                             else if pt ! 0 = IMAGE_CHUNK_MARK then decodeImageChunk meta payload
                             else decodeImage meta payload))))"

definition decodeTransferControl :: "json \<Rightarrow> jsnum \<Rightarrow> plain_message result" where
  "decodeTransferControl p ts =
     (case get_text p ''id'' of
        None \<Rightarrow> Inl schema_error
      | Some i \<Rightarrow>
          if 64 < length i then Inl schema_error
          else if is_type p ''xfer_query'' then Inr (TransferQuery ts i)
          else if is_type p ''xfer_cancel''
            then Inr (TransferCancel ts i (map_option (take 64) (get_str p ''reason'')))
          else bind_result (parseChunkIndices (member p (js ''have'')))
            (\<lambda>have. Inr (TransferAck \<lparr>ta_ts = ts, ta_id = i, ta_have = have,
                          ta_resend = get_true p ''resend'', ta_done = get_true p ''done''\<rparr>)))"

definition ids_of :: "json option \<Rightarrow> jstr list option" where
  "ids_of raw =
     (case raw of
        Some (JArr xs) \<Rightarrow>
          (let ids = List.map_filter (\<lambda>x. case x of JStr s \<Rightarrow> if s = [] then None else Some s | _ \<Rightarrow> None) xs
           in if length ids \<noteq> length xs then None else Some ids)
      | _ \<Rightarrow> None)"

text \<open>A message that is only a timestamp and an id, and what may come with them.\<close>

definition with_text_id :: "json \<Rightarrow> (jstr \<Rightarrow> plain_message result) \<Rightarrow> plain_message result" where
  "with_text_id p f = (case get_text p ''id'' of None \<Rightarrow> Inl schema_error | Some i \<Rightarrow> f i)"

definition decodeJson :: "json \<Rightarrow> plain_message result" where
  "decodeJson p =
     (case get_num p ''ts'' of
        None \<Rightarrow> Inl schema_error
      | Some ts \<Rightarrow>
          if \<not> is_v1 p then Inl schema_error
          else if is_type p ''xfer_ack'' \<or> is_type p ''xfer_query'' \<or> is_type p ''xfer_cancel''
            then decodeTransferControl p ts
          else if is_type p ''history_digest'' then
            (case (get_num p ''count'', get_text p ''idHash'') of
               (Some n, Some h) \<Rightarrow> Inr (HistoryDigest ts n h (get_text p ''deviceFp''))
             | _ \<Rightarrow> Inl schema_error)
          else if is_type p ''resync_request''
            then with_text_id p (\<lambda>i. Inr (ResyncRequest ts i (get_text p ''deviceFp'')))
          else if is_type p ''wipe_history'' then with_text_id p (\<lambda>i. Inr (WipeHistory ts i))
          else if is_type p ''resync_reject''
            then with_text_id p (\<lambda>i. Inr (ResyncReject ts i (get_str p ''reason'')))
          else if is_type p ''resync_accept'' \<or> is_type p ''resync_ids'' then
            with_text_id p (\<lambda>i.
              case ids_of (member p (js ''ids'')) of
                None \<Rightarrow> Inl schema_error
              | Some ids \<Rightarrow>
                  Inr (if is_type p ''resync_accept'' then ResyncAccept ts i ids else ResyncIds ts i ids))
          else if is_type p ''delete'' then with_text_id p (\<lambda>i. Inr (Delete ts i))
          else if \<not> is_type p ''text'' then Inl schema_error
          else (case get_str p ''body'' of
                  None \<Rightarrow> Inl schema_error
                | Some body \<Rightarrow>
                    Inr (Content (get_text p ''id'')
                      (Text \<lparr>tx_ts = ts, tx_body = body, tx_replyTo = get_reply p\<rparr>))))"

definition decodePlaintext :: "(jstr \<Rightarrow> jstr) \<Rightarrow> bytes \<Rightarrow> plain_message result" where
  "decodePlaintext nfc pt =
     (if pt = [] then Inl schema_error
      else if hd pt \<in> {IMAGE_PLAIN_MARK, IMAGE_CHUNK_MARK, HISTORY_CHUNK_MARK, TRANSFER_CHUNK_MARK}
        then decodeEnvelope nfc pt
      else (case json_of_bytes pt of
              None \<Rightarrow> Inl SyntaxError
            | Some p \<Rightarrow> if p = JNull then Inl TypeError else decodeJson p))"


section \<open>What was written is read back\<close>

text \<open>Reading a member of an object under construction, one written entry at a time.\<close>

lemma member_step:
  "member (JObj []) k = None"
  "member (JObj (str l s # ms)) k = (if k = js l then Some (JStr s) else member (JObj ms) k)"
  "member (JObj (num l n # ms)) k = (if k = js l then Some (JNum n) else member (JObj ms) k)"
  "member (JObj (count l c # ms)) k = (if k = js l then Some (JNum (NumI (int c))) else member (JObj ms) k)"
  "member (JObj (v1 # ms)) k = (if k = js ''v'' then Some (JNum (NumI 1)) else member (JObj ms) k)"
  "member (JObj (ids_json ids # ms)) k = (if k = js ''ids'' then Some (JArr (map JStr ids)) else member (JObj ms) k)"
  "member (JObj ((js l, v) # ms)) k = (if k = js l then Some v else member (JObj ms) k)"
  "member (JObj (opt (num l) x @ ms)) k =
     (if k = js l \<and> x \<noteq> None then map_option JNum x else member (JObj ms) k)"
  "member (JObj (opt (str l) y @ ms)) k =
     (if k = js l \<and> y \<noteq> None then map_option JStr y else member (JObj ms) k)"
  "member (JObj (opt_str l y)) k = (if k = js l \<and> y \<noteq> Some [] then map_option JStr y else None)"
  "member (JObj (opt reply_json r)) k = (if k = js ''replyTo'' then map_option (\<lambda>r. snd (reply_json r)) r else None)"
  by (auto simp: str_def num_def count_def v1_def ids_json_def opt_def opt_str_def reply_json_def
      split: option.splits)

declare member.simps(1) [simp del]

lemma get_step:
  "get_str j k = (case member j (js k) of Some (JStr s) \<Rightarrow> Some s | _ \<Rightarrow> None)"
  "get_num j k = (case member j (js k) of Some (JNum n) \<Rightarrow> Some n | _ \<Rightarrow> None)"
  "get_int j k = (case member j (js k) of Some (JNum (NumI i)) \<Rightarrow> Some i | _ \<Rightarrow> None)"
  by (simp_all add: get_str_def get_num_def get_int_def)

lemma fst_opt:
  "fst ` set (opt (num l) x) = (if x = None then {} else {js l})"
  "fst ` set (opt (str l) y) = (if y = None then {} else {js l})"
  "fst ` set (opt_str l y) = (if y = None \<or> y = Some [] then {} else {js l})"
  "fst ` set (opt reply_json r) = (if r = None then {} else {js ''replyTo''})"
  by (cases x; simp add: opt_def num_def) (cases y; simp add: opt_def opt_str_def str_def;
      cases r; simp add: opt_def reply_json_def)+

lemma distinct_opt [simp]:
  "distinct (map fst (opt f x))" "distinct (map fst (opt_str l y))"
  by (auto simp: opt_def opt_str_def split: option.splits)

definition good_opt :: "jsnum option \<Rightarrow> bool" where
  "good_opt x \<longleftrightarrow> (case x of None \<Rightarrow> True | Some n \<Rightarrow> good_num n)"

lemma mem_opt:
  "(k, v) \<in> set (opt (num l) x) \<longleftrightarrow> k = js l \<and> (\<exists>n. x = Some n \<and> v = JNum n)"
  "(k, v) \<in> set (opt (str l) y) \<longleftrightarrow> k = js l \<and> (\<exists>s. y = Some s \<and> v = JStr s)"
  "(k, v) \<in> set (opt_str l y) \<longleftrightarrow> k = js l \<and> (\<exists>s. y = Some s \<and> s \<noteq> [] \<and> v = JStr s)"
  "(k, v) \<in> set (opt reply_json r) \<longleftrightarrow> (\<exists>q. r = Some q \<and> (k, v) = reply_json q)"
  by (auto simp: opt_def opt_str_def num_def str_def split: option.splits if_splits)

lemma huge_big: "int n < 2 ^ 64 \<Longrightarrow> int n < huge"
proof -
  have "(2 :: int) ^ 64 < huge" by (simp add: huge_def)
  then show "int n < 2 ^ 64 \<Longrightarrow> int n < huge" by simp
qed


lemmas wire_reads = get_step get_text_def get_true_def is_v1_def is_type_def get_mime_def get_reply_def
  parseReplyTo_def with_text_id_def member_step

lemmas wire_writes = str_def num_def count_def v1_def reply_json_def

lemma one_huge [simp]: "1 < huge"
  using huge_big [of 1] by simp

lemma good_nat: "int n < 2 ^ 64 \<Longrightarrow> good_num (NumI (int n))"
  by (simp add: huge_big)

lemma json_of_json_bytes: "good_json j \<Longrightarrow> json_of_bytes (json_bytes j) = Some j"
  by (rule json_roundtrip)

lemma decode_json_frame:
  assumes "good_json (JObj ms)"
  shows "decodePlaintext nfc (json_bytes (JObj ms)) = decodeJson (JObj ms)"
proof -
  obtain bs where "json_bytes (JObj ms) = 0x7B # bs" using json_obj_first by blast
  with json_roundtrip [OF assms] show ?thesis by (simp add: decodePlaintext_def mark_defs)
qed

lemma decode_envelope:
  assumes "good_json (JObj ms)" "encodeBinaryEnvelope mark (JObj ms) payload = Inr bs"
    and "mark \<in> {IMAGE_PLAIN_MARK, IMAGE_CHUNK_MARK, HISTORY_CHUNK_MARK, TRANSFER_CHUNK_MARK}"
  shows "decodePlaintext nfc bs =
    (if mark = TRANSFER_CHUNK_MARK then decodeTransferChunk nfc (JObj ms) payload
     else if mark = HISTORY_CHUNK_MARK then decodeHistoryChunk (JObj ms) payload
     else if mark = IMAGE_CHUNK_MARK then decodeImageChunk (JObj ms) payload
     else decodeImage (JObj ms) payload)"
proof -
  let ?meta = "json_bytes (JObj ms)"
  have len: "length ?meta \<le> 0xffff" and
    bs: "bs = mark # of_nat (length ?meta div 256) # of_nat (length ?meta) # ?meta @ payload"
    using assms(2) by (auto simp: encodeBinaryEnvelope_def Let_def split: if_splits)
  have "unat (of_nat (length ?meta div 256) :: byte) = length ?meta div 256"
    "unat (of_nat (length ?meta) :: byte) = length ?meta mod 256"
    using len by (simp_all add: unat_of_nat)
  then have parts: "unat (bs ! 1) * 256 + unat (bs ! 2) = length ?meta" "length bs = 3 + length ?meta + length payload"
    "bs ! 0 = mark" "hd bs = mark" "bs \<noteq> []" "take (length ?meta) (drop 3 bs) = ?meta"
    "drop (3 + length ?meta) bs = payload"
    by (simp_all add: bs numeral_3_eq_3)
  have "decodePlaintext nfc bs = decodeEnvelope nfc bs"
    using assms(3) parts by (simp add: decodePlaintext_def)
  also have "\<dots> = (if mark = TRANSFER_CHUNK_MARK then decodeTransferChunk nfc (JObj ms) payload
     else if mark = HISTORY_CHUNK_MARK then decodeHistoryChunk (JObj ms) payload
     else if mark = IMAGE_CHUNK_MARK then decodeImageChunk (JObj ms) payload
     else decodeImage (JObj ms) payload)"
    unfolding decodeEnvelope_def Let_def parts(1) parts(3) parts(6) parts(7) json_roundtrip [OF assms(1)]
    by (simp add: parts(2))
  finally show ?thesis .
qed


text \<open>Which messages a client sends: what the constructors of the application put into them.\<close>

definition good_reply :: "reply_ref option \<Rightarrow> bool" where
  "good_reply r \<longleftrightarrow> (case r of None \<Rightarrow> True | Some r \<Rightarrow> rr_id r \<noteq> [])"

definition good_dim :: "jsnum option \<Rightarrow> bool" where
  "good_dim d \<longleftrightarrow> (case d of None \<Rightarrow> True | Some n \<Rightarrow> isPositiveDim n)"

definition good_id :: "jstr \<Rightarrow> bool" where
  "good_id i \<longleftrightarrow> i \<noteq> [] \<and> length i \<le> 64"

definition header_ok :: "(jstr \<Rightarrow> jstr) \<Rightarrow> transfer_header \<Rightarrow> bool" where
  "header_ok nfc h \<longleftrightarrow>
     good_num (th_ts h) \<and> th_size h \<le> MAX_TRANSFER_BYTES \<and> is_digest_text (th_sha256 h) \<and>
     mime_ok (th_kind h) (th_mime h) \<and> good_dim (th_w h) \<and> good_dim (th_h h) \<and> good_reply (th_replyTo h) \<and>
     (case th_kind h of KindImage \<Rightarrow> th_name h = None
      | KindFile \<Rightarrow> \<exists>n. th_name h = Some n \<and> sanitizeFileName nfc (Some n) = n)"

definition image_chunk_ok :: "image_chunk \<Rightarrow> bool" where
  "image_chunk_ok c \<longleftrightarrow>
     ic_id c \<noteq> [] \<and> ic_index c < ic_total c \<and> ic_total c \<le> MAX_TRANSFER_CHUNKS \<and>
     length (ic_data c) \<le> IMAGE_CHUNK_PAYLOAD_BYTES \<and>
     (if ic_index c = 0
      then (case ic_ts c of None \<Rightarrow> False | Some ts \<Rightarrow> good_num ts) \<and> ic_mime c \<noteq> None \<and>
           (case ic_byteLength c of None \<Rightarrow> False | Some n \<Rightarrow> n \<le> MAX_IMAGE_BYTES) \<and>
           good_opt (ic_w c) \<and> good_opt (ic_h c) \<and> good_reply (ic_replyTo c)
      else ic_ts c = None \<and> ic_mime c = None \<and> ic_byteLength c = None \<and> ic_w c = None \<and> ic_h c = None \<and>
           ic_replyTo c = None)"

definition history_chunk_ok :: "history_chunk \<Rightarrow> bool" where
  "history_chunk_ok c \<longleftrightarrow>
     hc_id c \<noteq> [] \<and> hc_index c < hc_total c \<and> int (hc_total c) < 2 ^ 64 \<and>
     length (hc_data c) \<le> HISTORY_CHUNK_PAYLOAD_BYTES \<and>
     (if hc_index c = 0 then (case hc_compressedLength c of None \<Rightarrow> False | Some n \<Rightarrow> int n < 2 ^ 64)
      else hc_compressedLength c = None)"

fun wire_ok :: "(jstr \<Rightarrow> jstr) \<Rightarrow> plain_message \<Rightarrow> bool" where
  "wire_ok nfc (Content i (Text t)) = (good_num (tx_ts t) \<and> i \<noteq> None \<and> good_reply (tx_replyTo t))"
| "wire_ok nfc (Content i (Image im)) =
     (good_num (im_ts im) \<and> i \<noteq> None \<and> good_opt (im_w im) \<and> good_opt (im_h im) \<and> good_reply (im_replyTo im) \<and>
      length (im_data im) \<le> MAX_IMAGE_BYTES)"
| "wire_ok nfc (Content i (File f)) = True"
| "wire_ok nfc (Delete ts i) = good_num ts"
| "wire_ok nfc (ImageChunk c) = image_chunk_ok c"
| "wire_ok nfc (HistoryDigest ts n h fp) = (good_num ts \<and> good_num n \<and> h \<noteq> [] \<and> fp \<noteq> Some [])"
| "wire_ok nfc (ResyncRequest ts i fp) = (good_num ts \<and> fp \<noteq> Some [])"
| "wire_ok nfc (ResyncAccept ts i ids) = (good_num ts \<and> [] \<notin> set ids)"
| "wire_ok nfc (ResyncReject ts i reason) = (good_num ts \<and> reason \<noteq> Some [])"
| "wire_ok nfc (ResyncIds ts i ids) = (good_num ts \<and> [] \<notin> set ids)"
| "wire_ok nfc (WipeHistory ts i) = good_num ts"
| "wire_ok nfc (HistoryChunk c) = history_chunk_ok c"
| "wire_ok nfc (TransferChunk c) = (good_id (tc_id c) \<and> header_ok nfc (tc_header c) \<and> chunk_valid c)"
| "wire_ok nfc (TransferAck a) =
     (good_num (ta_ts a) \<and> good_id (ta_id a) \<and> length (ta_have a) \<le> MAX_TRANSFER_CHUNKS \<and>
      (\<forall>k \<in> set (ta_have a). k < MAX_TRANSFER_CHUNKS))"
| "wire_ok nfc (TransferQuery ts i) = (good_num ts \<and> good_id i)"
| "wire_ok nfc (TransferCancel ts i reason) =
     (good_num ts \<and> good_id i \<and> (case reason of None \<Rightarrow> True | Some r \<Rightarrow> r \<noteq> [] \<and> length r \<le> 64))"

lemma read_reply [simp]:
  "good_reply r \<Longrightarrow> parseReplyTo (map_option (\<lambda>r. snd (reply_json r)) r) = r"
  by (cases r) (simp_all add: wire_reads wire_writes good_reply_def)

lemmas wire_good = wire_writes plain_json_def text_json_def image_meta_def ack_json_def ids_json_def json_frame_def
  with_id_def good_nat mem_opt fst_opt good_opt_def

lemmas wire_forms = plain_json_def text_json_def image_meta_def ack_json_def

lemma read_reply_text:
  "good_reply r \<Longrightarrow> member j (js ''replyTo'') = map_option (\<lambda>r. snd (reply_json r)) r \<Longrightarrow> get_reply j = r"
  by (simp add: get_reply_def)

lemma wire_text:
  assumes "wire_ok nfc (Content (Some i) (Text t))" "encodePlaintext (Content (Some i) (Text t)) = Inr bs"
  shows "decodePlaintext nfc bs = Inr (Content (Some i) (Text t))"
proof -
  have good: "good_json (JObj (text_json t i))" and i: "i \<noteq> []" and bs: "bs = json_bytes (JObj (text_json t i))"
    using assms by (auto simp: wire_good opt_def split: if_splits option.splits)
  have "get_reply (JObj (text_json t i)) = tx_replyTo t"
    using assms(1) by (intro read_reply_text) (simp_all add: text_json_def member_step)
  then show ?thesis
    unfolding bs decode_json_frame [OF good] using i
    by (simp add: decodeJson_def text_json_def get_step get_text_def is_v1_def is_type_def member_step)
qed


lemmas wire_get = get_step get_text_def is_v1_def is_type_def get_true_def with_text_id_def member_step

lemma member_plain:
  "member (JObj (plain_json kind ts i @ ms)) k =
     (if k = js ''v'' then Some (JNum (NumI 1)) else if k = js ''ts'' then Some (JNum ts)
      else if k = js ''type'' then Some (JStr (js kind)) else if k = js ''id'' then Some (JStr i)
      else member (JObj ms) k)"
  by (simp add: plain_json_def member_step)

lemmas member_plain_alone = member_plain [where ms = "[]", simplified]

text \<open>The messages that are a timestamp, an id and at most one optional string.\<close>

lemma wire_plain:
  assumes "good_num ts" "l \<notin> {''v'', ''ts'', ''type'', ''id''}"
  shows "decodePlaintext nfc (json_bytes (JObj (plain_json kind ts i @ opt_str l y))) =
         decodeJson (JObj (plain_json kind ts i @ opt_str l y))"
  using assms by (intro decode_json_frame) (auto simp: wire_good opt_str_def split: option.split)

lemma wire_plain_alone:
  "good_num ts \<Longrightarrow> decodePlaintext nfc (json_bytes (JObj (plain_json kind ts i))) = decodeJson (JObj (plain_json kind ts i))"
  using wire_plain [of ts "''none''" nfc kind i None] by (simp add: opt_str_def)

lemma wire_transfer_control:
  "wire_ok nfc (TransferQuery ts i) \<Longrightarrow> encodePlaintext (TransferQuery ts i) = Inr bs \<Longrightarrow>
   decodePlaintext nfc bs = Inr (TransferQuery ts i)"
  "wire_ok nfc (TransferCancel ts i y) \<Longrightarrow> encodePlaintext (TransferCancel ts i y) = Inr bs \<Longrightarrow>
   decodePlaintext nfc bs = Inr (TransferCancel ts i y)"
  by (auto simp: json_frame_def good_id_def wire_plain wire_plain_alone decodeJson_def member_plain member_plain_alone wire_get
      decodeTransferControl_def split: option.splits)

lemma wire_plain_messages:
  "wire_ok nfc (ResyncRequest ts i y) \<Longrightarrow> encodePlaintext (ResyncRequest ts i y) = Inr bs \<Longrightarrow>
   decodePlaintext nfc bs = Inr (ResyncRequest ts i y)"
  "wire_ok nfc (ResyncReject ts i y) \<Longrightarrow> encodePlaintext (ResyncReject ts i y) = Inr bs \<Longrightarrow>
   decodePlaintext nfc bs = Inr (ResyncReject ts i y)"
  "wire_ok nfc (WipeHistory ts i) \<Longrightarrow> encodePlaintext (WipeHistory ts i) = Inr bs \<Longrightarrow>
   decodePlaintext nfc bs = Inr (WipeHistory ts i)"
  "wire_ok nfc (Delete ts i) \<Longrightarrow> encodePlaintext (Delete ts i) = Inr bs \<Longrightarrow>
   decodePlaintext nfc bs = Inr (Delete ts i)"
  by (auto simp: json_frame_def with_id_def wire_plain wire_plain_alone decodeJson_def member_plain member_plain_alone wire_get
      split: if_splits option.splits)

lemma ids_of_ids: "[] \<notin> set ids \<Longrightarrow> ids_of (Some (JArr (map JStr ids))) = Some ids"
proof -
  have "List.map_filter (\<lambda>x. case x of JStr s \<Rightarrow> if s = [] then None else Some s | _ \<Rightarrow> None) (map JStr ids) = ids"
    if "[] \<notin> set ids" using that by (induction ids) (auto simp: List.map_filter_simps)
  then show "[] \<notin> set ids \<Longrightarrow> ids_of (Some (JArr (map JStr ids))) = Some ids"
    by (simp add: ids_of_def Let_def)
qed

lemma wire_ids:
  assumes "good_num ts" "i \<noteq> []" "[] \<notin> set ids" "kind \<in> {''resync_accept'', ''resync_ids''}"
  shows "decodePlaintext nfc (json_bytes (JObj (plain_json kind ts i @ [ids_json ids]))) =
     Inr (if kind = ''resync_accept'' then ResyncAccept ts i ids else ResyncIds ts i ids)"
proof -
  have good: "good_json (JObj (plain_json kind ts i @ [ids_json ids]))"
    using assms by (auto simp: wire_good)
  show ?thesis
    unfolding decode_json_frame [OF good] using assms
    by (auto simp: decodeJson_def member_plain member_plain_alone wire_get ids_of_ids)
qed

lemma wire_digest:
  assumes "wire_ok nfc (HistoryDigest ts n h fp)" "encodePlaintext (HistoryDigest ts n h fp) = Inr bs"
  shows "decodePlaintext nfc bs = Inr (HistoryDigest ts n h fp)"
proof -
  let ?ms = "[v1, num ''ts'' ts, str ''type'' (js ''history_digest''), num ''count'' n, str ''idHash'' h]
             @ opt_str ''deviceFp'' fp"
  have good: "good_json (JObj ?ms)" and bs: "bs = json_bytes (JObj ?ms)"
    using assms by (auto simp: wire_good)
  show ?thesis
    unfolding bs decode_json_frame [OF good] using assms(1)
    by (auto simp: decodeJson_def wire_get split: option.split)
qed

lemma chunk_indices_read:
  "\<forall>k \<in> set ks. k < MAX_TRANSFER_CHUNKS \<Longrightarrow> chunk_indices (map (\<lambda>k. JNum (NumI (int k))) ks) = Inr ks"
  by (induction ks) (simp_all add: chunk_index_def)

lemma MAX_TRANSFER_CHUNKS_val: "MAX_TRANSFER_CHUNKS = 40"
  by (simp add: MAX_TRANSFER_CHUNKS_def limit_defs)

lemma wire_ack:
  assumes "wire_ok nfc (TransferAck a)" "encodePlaintext (TransferAck a) = Inr bs"
  shows "decodePlaintext nfc bs = Inr (TransferAck a)"
proof -
  have "good_num (NumI (int k))" if "k \<in> set (ta_have a)" for k
    using that assms(1) by (intro good_nat) (auto simp: MAX_TRANSFER_CHUNKS_val)
  moreover have "good_num (NumI 1)" by simp
  ultimately have good: "good_json (JObj (ack_json a))" and bs: "bs = json_bytes (JObj (ack_json a))"
    using assms by (auto simp: wire_good simp del: good_num.simps(1))
  show ?thesis
    unfolding bs decode_json_frame [OF good] using assms(1)
    by (auto simp: decodeJson_def ack_json_def wire_get good_id_def decodeTransferControl_def parseChunkIndices_def
        chunk_indices_read)
qed


lemma wire_image:
  assumes "wire_ok nfc (Content (Some i) (Image im))" "encodePlaintext (Content (Some i) (Image im)) = Inr bs"
  shows "decodePlaintext nfc bs = Inr (Content (Some i) (Image im))"
proof -
  have i: "i \<noteq> []" and enc: "encodeBinaryEnvelope IMAGE_PLAIN_MARK (image_meta im i) (im_data im) = Inr bs"
    using assms(2) by (auto simp: with_id_def split: if_splits)
  have good: "good_json (image_meta im i)"
    using assms(1) by (auto simp: wire_good)
  have reply: "get_reply (image_meta im i) = im_replyTo im"
    using assms(1) by (intro read_reply_text) (simp_all add: image_meta_def member_step)
  have "decodePlaintext nfc bs = decodeImage (image_meta im i) (im_data im)"
    using decode_envelope [of _ IMAGE_PLAIN_MARK "im_data im" bs nfc] good enc
    by (simp add: image_meta_def mark_defs)
  also have "\<dots> = Inr (Content (Some i) (Image im))"
    using i assms(1) reply by (simp add: decodeImage_def image_meta_def get_mime_def wire_get split: option.split)
  finally show ?thesis .
qed

lemma member_chunk:
  "member (JObj (chunk_json kind i k n @ ms)) l =
     (if l = js ''v'' then Some (JNum (NumI 1)) else if l = js ''type'' then Some (JStr (js kind))
      else if l = js ''id'' then Some (JStr i) else if l = js ''index'' then Some (JNum (NumI (int k)))
      else if l = js ''total'' then Some (JNum (NumI (int n))) else member (JObj ms) l)"
  by (simp add: chunk_json_def member_step)

lemmas member_chunk_alone = member_chunk [where ms = "[]", simplified]

lemma chunk_frame:
  assumes "mark \<in> {IMAGE_CHUNK_MARK, HISTORY_CHUNK_MARK}" "int k < 2 ^ 64" "int n < 2 ^ 64"
    and "encodeBinaryEnvelope mark (JObj (chunk_json kind i k n @ ms)) payload = Inr bs"
    and "good_json (JObj ms)" "set (map fst ms) \<inter> {js ''v'', js ''type'', js ''id'', js ''index'', js ''total''} = {}"
  shows "decodePlaintext nfc bs =
    (if mark = HISTORY_CHUNK_MARK then decodeHistoryChunk (JObj (chunk_json kind i k n @ ms)) payload
     else decodeImageChunk (JObj (chunk_json kind i k n @ ms)) payload)"
proof -
  have "0 < huge" using one_huge by linarith
  then have "good_json (JObj (chunk_json kind i k n @ ms))"
    using assms(5,6) huge_big [OF assms(2)] huge_big [OF assms(3)]
    by (auto simp: chunk_json_def wire_writes)
  with assms(1,4) show ?thesis
    by (subst decode_envelope [where mark = mark and payload = payload]) (auto simp: mark_defs)
qed

lemma wire_history_chunk:
  assumes "wire_ok nfc (HistoryChunk c)" "encodePlaintext (HistoryChunk c) = Inr bs"
  shows "decodePlaintext nfc bs = Inr (HistoryChunk c)"
proof -
  have ok: "history_chunk_ok c" using assms(1) by simp
  then have small: "int (hc_index c) < 2 ^ 64" "int (hc_total c) < 2 ^ 64" and i: "hc_id c \<noteq> []"
    and payload: "length (hc_data c) \<le> HISTORY_CHUNK_PAYLOAD_BYTES" "hc_index c < hc_total c"
    by (auto simp: history_chunk_ok_def)
  let ?base = "chunk_json ''history_chunk'' (hc_id c) (hc_index c) (hc_total c)"
  have frame: "decodePlaintext nfc bs = decodeHistoryChunk (JObj (?base @ ms)) (hc_data c)"
    if "history_chunk_meta c = Inr (JObj (?base @ ms))" "good_json (JObj ms)" "map fst ms = [] \<or> map fst ms = [js ''compressedLength'']"
    for ms
    using chunk_frame [of HISTORY_CHUNK_MARK, OF _ small, of "''history_chunk''" "hc_id c" ms "hc_data c" bs nfc]
      assms(2) that by (auto simp: with_id_def split: if_splits)
  show ?thesis
  proof (cases "hc_index c = 0")
    case True
    then obtain n where n: "hc_compressedLength c = Some n" "int n < 2 ^ 64"
      using ok by (auto simp: history_chunk_ok_def split: option.splits)
    have "decodePlaintext nfc bs = decodeHistoryChunk (JObj (?base @ [count ''compressedLength'' n])) (hc_data c)"
      using True n huge_big [OF n(2)] by (intro frame) (simp_all add: history_chunk_meta_def count_def)
    then show ?thesis
      using True n i payload by (simp add: decodeHistoryChunk_def wire_get member_chunk member_chunk_alone)
  next
    case False
    then have n: "hc_compressedLength c = None" using ok by (simp add: history_chunk_ok_def)
    have "decodePlaintext nfc bs = decodeHistoryChunk (JObj (?base @ [])) (hc_data c)"
      using False by (intro frame) (simp_all add: history_chunk_meta_def)
    then show ?thesis
      using False n i payload by (simp add: decodeHistoryChunk_def wire_get member_chunk member_chunk_alone)
  qed
qed


lemma wire_image_chunk:
  assumes "wire_ok nfc (ImageChunk c)" "encodePlaintext (ImageChunk c) = Inr bs"
  shows "decodePlaintext nfc bs = Inr (ImageChunk c)"
proof -
  have ok: "image_chunk_ok c" using assms(1) by simp
  then have small: "int (ic_index c) < 2 ^ 64" "int (ic_total c) < 2 ^ 64" and i: "ic_id c \<noteq> []"
    and payload: "length (ic_data c) \<le> IMAGE_CHUNK_PAYLOAD_BYTES" "ic_index c < ic_total c"
    "ic_total c \<le> MAX_TRANSFER_CHUNKS"
    by (auto simp: image_chunk_ok_def MAX_TRANSFER_CHUNKS_val)
  let ?base = "chunk_json ''image_chunk'' (ic_id c) (ic_index c) (ic_total c)"
  have frame: "decodePlaintext nfc bs = decodeImageChunk (JObj (?base @ ms)) (ic_data c)"
    if "image_chunk_meta c = Inr (JObj (?base @ ms))" "good_json (JObj ms)"
      "set (map fst ms) \<inter> {js ''v'', js ''type'', js ''id'', js ''index'', js ''total''} = {}"
    for ms
    using chunk_frame [of IMAGE_CHUNK_MARK, OF _ small, of "''image_chunk''" "ic_id c" ms "ic_data c" bs nfc]
      assms(2) that by (auto simp: with_id_def mark_defs split: if_splits)
  show ?thesis
  proof (cases "ic_index c = 0")
    case True
    then obtain ts mime n where n: "ic_ts c = Some ts" "good_num ts" "ic_mime c = Some mime"
      "ic_byteLength c = Some n" "n \<le> MAX_IMAGE_BYTES" and wh: "good_opt (ic_w c)" "good_opt (ic_h c)"
      and reply: "good_reply (ic_replyTo c)"
      using ok by (auto simp: image_chunk_ok_def split: option.splits)
    let ?ms = "[num ''ts'' ts, str ''mime'' (mime_string mime), count ''byteLength'' n]
      @ opt (num ''w'') (ic_w c) @ opt (num ''h'') (ic_h c) @ opt reply_json (ic_replyTo c)"
    have "int n < 2 ^ 64" using n(5) by (simp add: limit_defs)
    then have "good_json (JObj ?ms)"
      using n wh by (auto simp: wire_writes mem_opt fst_opt good_opt_def huge_big)
    then have "decodePlaintext nfc bs = decodeImageChunk (JObj (?base @ ?ms)) (ic_data c)"
      using True n by (intro frame) (auto simp: image_chunk_meta_def wire_writes fst_opt)
    moreover have "get_reply (JObj (?base @ ?ms)) = ic_replyTo c"
      using reply by (intro read_reply_text) (simp_all add: member_chunk member_step)
    ultimately show ?thesis
      using True n i payload
      by (simp add: decodeImageChunk_def get_mime_def wire_get member_chunk)
         (simp add: wire_get member_chunk split: option.split)
  next
    case False
    then have "decodePlaintext nfc bs = decodeImageChunk (JObj (?base @ [])) (ic_data c)"
      by (intro frame) (simp_all add: image_chunk_meta_def)
    then show ?thesis
      using False ok i payload by (simp add: decodeImageChunk_def image_chunk_ok_def wire_get member_chunk_alone)
  qed
qed


lemma good_dim_opt: "good_dim d \<Longrightarrow> good_opt d"
proof -
  have "good_num n" if "isPositiveDim n" for n
  proof (cases n)
    case (NumI i)
    then have "i = int (nat i)" "int (nat i) < 2 ^ 64" using that by auto
    then have "good_num (NumI (int (nat i)))" by (intro good_nat)
    with NumI \<open>i = int (nat i)\<close> show ?thesis by metis
  qed (use that in auto)
  then show "good_dim d \<Longrightarrow> good_opt d" by (auto simp: good_dim_def good_opt_def split: option.splits)
qed

lemma get_dim_read:
  "good_dim d \<Longrightarrow> member j (js k) = map_option JNum d \<Longrightarrow> get_dim j k = d"
  by (auto simp: get_dim_def get_num_def good_dim_def split: option.splits)

lemma good_header:
  assumes "header_ok nfc h"
  shows "good_json (header_json h)"
proof -
  have "int (th_size h) < huge" using assms by (intro huge_big) (simp add: header_ok_def limit_defs)
  moreover have "good_opt (th_w h)" "good_opt (th_h h)"
    using assms by (auto simp: header_ok_def intro: good_dim_opt)
  ultimately show ?thesis
    using assms by (auto simp: header_ok_def header_json_def wire_writes mem_opt fst_opt good_opt_def)
qed

lemma header_read:
  assumes "header_ok nfc h"
  shows "parseTransferHeader nfc (Some (header_json h)) = Inr h"
proof -
  let ?j = "header_json h"
  have "get_dim ?j ''w'' = th_w h" "get_dim ?j ''h'' = th_h h"
    using assms by (intro get_dim_read; auto simp: header_ok_def header_json_def member_step)+
  moreover have "get_reply ?j = th_replyTo h"
    using assms by (intro read_reply_text) (simp_all add: header_ok_def header_json_def member_step)
  moreover have "kind_of ?j = Some (th_kind h)"
    by (cases "th_kind h") (simp_all add: kind_of_def header_json_def kind_text_def wire_get)
  moreover have "get_num ?j ''ts'' = Some (th_ts h)" "get_int ?j ''size'' = Some (int (th_size h))"
    "get_str ?j ''sha256'' = Some (th_sha256 h)" "get_str ?j ''mime'' = Some (th_mime h)"
    "get_str ?j ''name'' = th_name h"
    by (auto simp: header_json_def wire_get split: option.split)
  moreover have "is_finite (th_ts h)" using assms by (cases "th_ts h") (auto simp: header_ok_def)
  ultimately show ?thesis
    using assms by (cases "th_kind h") (auto simp: parseTransferHeader_def header_ok_def)
qed

lemma wire_transfer_chunk:
  assumes "wire_ok nfc (TransferChunk c)" "encodePlaintext (TransferChunk c) = Inr bs"
  shows "decodePlaintext nfc bs = Inr (TransferChunk c)"
proof -
  have i: "good_id (tc_id c)" and h: "header_ok nfc (tc_header c)" and valid: "chunk_valid c"
    using assms(1) by simp_all
  have "tc_index c < tc_total c" "tc_total c \<le> MAX_TRANSFER_CHUNKS"
    using valid transferChunkCount_le_max by (auto simp: chunk_valid_def)
  then have "int (tc_index c) < huge" "int (tc_total c) < huge"
    by (intro huge_big; simp add: MAX_TRANSFER_CHUNKS_val)+
  then have good: "good_json (transfer_chunk_meta c)"
    using good_header [OF h] by (auto simp: transfer_chunk_meta_def wire_writes)
  have "decodePlaintext nfc bs = decodeTransferChunk nfc (transfer_chunk_meta c) (tc_data c)"
    using decode_envelope [of _ TRANSFER_CHUNK_MARK "tc_data c" bs nfc] good assms(2)
    by (simp add: transfer_chunk_meta_def mark_defs)
  also have "\<dots> = Inr (TransferChunk c)"
    using i header_read [OF h] valid
    by (simp add: decodeTransferChunk_def transfer_chunk_meta_def good_id_def chunk_valid_def wire_get)
  finally show ?thesis .
qed


section \<open>A small transfer on the wire\<close>

lemmas wire_eval = js_def unit_of_def quote_def escape_unit_def decimal.simps with_sign_def
    utf8_encode_def encode_point_def is_high_def is_low_def json_bytes_def wire_writes

definition toy_wire_chunk :: transfer_chunk where
  "toy_wire_chunk =
     \<lparr>tc_id = js ''t1'', tc_index = 0, tc_total = 1,
      tc_header = \<lparr>th_kind = KindFile, th_ts = NumI 5, th_mime = js ''text/plain'', th_size = 2,
        th_sha256 = js ''47DEQpj8HBSa-_TImW-5JCeuQeRkm5NMpJWZG3hSuFU'', th_name = Some (js ''a.txt''), th_w = None, th_h = None,
        th_replyTo = None\<rparr>,
      tc_data = [7, 8]\<rparr>"

lemma toy_wire_chunk_ok: "wire_ok (\<lambda>s. s) (TransferChunk toy_wire_chunk)"
proof -
  have "isValidMime (js ''text/plain'')"
    by (simp add: isValidMime_def js_def unit_of_def mime_first_def mime_rest_def is_lower_def is_upper_def is_digit_def
       MAX_MIME_LENGTH_def)
  moreover have "sanitizeFileName (\<lambda>s. s) (Some (js ''a.txt'')) = js ''a.txt''"
    by (simp add: sanitizeFileName_def js_def unit_of_def is_separator_def is_hidden_def is_reserved_def is_space_def trim_def
       MAX_FILE_NAME_LENGTH_def base_name_def)
  moreover have "is_digest_text (js ''47DEQpj8HBSa-_TImW-5JCeuQeRkm5NMpJWZG3hSuFU'')"
    by (simp add: is_digest_text_def js_def unit_of_def url_safe_def is_digit_def)
  moreover have "(5 :: int) < huge" using huge_big [of 5] by simp
  ultimately show ?thesis
  by (simp add: toy_wire_chunk_def good_id_def header_ok_def
     good_dim_def good_reply_def chunk_valid_def limit_defs transferChunkCount_def transferChunkLength_def unit_of_def 
     mime_ok_def del: good_num.simps(1)) simp
qed

lemma toy_wire_encodes: "\<exists>bs. encodePlaintext (TransferChunk toy_wire_chunk) = Inr bs"
proof -
  have "length (json_bytes (transfer_chunk_meta toy_wire_chunk)) \<le> 0xffff"
  by (simp add: toy_wire_chunk_def wire_eval transfer_chunk_meta_def header_json_def kind_text_def opt_def)
  then show ?thesis by (simp add: encodeBinaryEnvelope_def Let_def)
qed

lemma decode_encoded:
  assumes "wire_ok nfc m" "encodePlaintext m = Inr bs"
  shows "decodePlaintext nfc bs = Inr m"
proof (cases m)
  case (Content i c)
  then show ?thesis
    using assms wire_text [of nfc] wire_image [of nfc] by (cases i; cases c) auto
next
  case (ResyncAccept ts i ids)
  then show ?thesis
    using assms wire_ids [of ts i ids "''resync_accept''" nfc] by (auto simp: json_frame_def with_id_def split: if_splits)
next
  case (ResyncIds ts i ids)
  then show ?thesis
    using assms wire_ids [of ts i ids "''resync_ids''" nfc] by (auto simp: json_frame_def with_id_def split: if_splits)
qed (use assms in \<open>simp_all only: wire_transfer_control wire_plain_messages wire_digest wire_ack wire_history_chunk
    wire_image_chunk wire_transfer_chunk\<close>)



section \<open>What a receiver accepts\<close>

text \<open>
  The guarantees the rest of the client relies on for a message that came from the network, whatever
  bytes the partner (or the relay, with the key) has sent.
\<close>

fun accepted :: "plain_message \<Rightarrow> bool" where
  "accepted (Content i c) =
     (i \<noteq> Some [] \<and> (case c of Text t \<Rightarrow> good_reply (tx_replyTo t)
      | Image im \<Rightarrow> length (im_data im) \<le> MAX_IMAGE_BYTES \<and> good_reply (im_replyTo im)
      | File f \<Rightarrow> False))"
| "accepted (Delete ts i) = (i \<noteq> [])"
| "accepted (ImageChunk c) =
     (ic_id c \<noteq> [] \<and> ic_index c < ic_total c \<and> ic_total c \<le> MAX_TRANSFER_CHUNKS \<and>
      length (ic_data c) \<le> IMAGE_CHUNK_PAYLOAD_BYTES \<and>
      (ic_index c = 0 \<longrightarrow> ic_ts c \<noteq> None \<and> ic_mime c \<noteq> None \<and>
         (\<exists>n. ic_byteLength c = Some n \<and> n \<le> MAX_IMAGE_BYTES)))"
| "accepted (HistoryDigest ts n h fp) = (h \<noteq> [] \<and> fp \<noteq> Some [])"
| "accepted (ResyncRequest ts i fp) = (i \<noteq> [] \<and> fp \<noteq> Some [])"
| "accepted (ResyncAccept ts i ids) = (i \<noteq> [] \<and> [] \<notin> set ids)"
| "accepted (ResyncReject ts i reason) = (i \<noteq> [])"
| "accepted (ResyncIds ts i ids) = (i \<noteq> [] \<and> [] \<notin> set ids)"
| "accepted (WipeHistory ts i) = (i \<noteq> [])"
| "accepted (HistoryChunk c) =
     (hc_id c \<noteq> [] \<and> hc_index c < hc_total c \<and> length (hc_data c) \<le> HISTORY_CHUNK_PAYLOAD_BYTES \<and>
      (hc_index c = 0 \<longleftrightarrow> hc_compressedLength c \<noteq> None))"
| "accepted (TransferChunk c) =
     (good_id (tc_id c) \<and> chunk_valid c \<and> is_finite (th_ts (tc_header c)) \<and>
      is_digest_text (th_sha256 (tc_header c)) \<and> mime_ok (th_kind (tc_header c)) (th_mime (tc_header c)) \<and>
      good_dim (th_w (tc_header c)) \<and> good_dim (th_h (tc_header c)) \<and> good_reply (th_replyTo (tc_header c)) \<and>
      (th_kind (tc_header c) = KindFile \<longleftrightarrow> th_name (tc_header c) \<noteq> None) \<and>
      (\<forall>n. th_name (tc_header c) = Some n \<longrightarrow>
         n \<noteq> [] \<and> length n \<le> MAX_FILE_NAME_LENGTH \<and> list_all safe_unit n))"
| "accepted (TransferAck a) =
     (good_id (ta_id a) \<and> length (ta_have a) \<le> MAX_TRANSFER_CHUNKS \<and>
      (\<forall>k \<in> set (ta_have a). k < MAX_TRANSFER_CHUNKS))"
| "accepted (TransferQuery ts i) = good_id i"
| "accepted (TransferCancel ts i reason) = (good_id i \<and> (\<forall>r. reason = Some r \<longrightarrow> length r \<le> 64))"

lemma get_text_Some: "get_text j k = Some s \<Longrightarrow> s \<noteq> []"
  by (auto simp: get_text_def split: option.splits if_splits)

lemma get_text_not_empty [simp]: "get_text j k \<noteq> Some []"
  using get_text_Some by blast

lemma good_get_reply [simp]: "good_reply (get_reply j)"
  by (auto simp: get_reply_def parseReplyTo_def good_reply_def split: option.splits dest: get_text_Some)

lemma good_get_dim [simp]: "good_dim (get_dim j k)"
  by (auto simp: get_dim_def good_dim_def split: option.splits)

lemma header_accepted:
  assumes "parseTransferHeader nfc raw = Inr h" "nfc_keeps_separators_out nfc"
  shows "is_finite (th_ts h) \<and> th_size h \<le> MAX_TRANSFER_BYTES \<and> is_digest_text (th_sha256 h) \<and>
    mime_ok (th_kind h) (th_mime h) \<and> good_dim (th_w h) \<and> good_dim (th_h h) \<and> good_reply (th_replyTo h) \<and>
    (th_kind h = KindFile \<longleftrightarrow> th_name h \<noteq> None) \<and>
    (\<forall>n. th_name h = Some n \<longrightarrow> n \<noteq> [] \<and> length n \<le> MAX_FILE_NAME_LENGTH \<and> list_all safe_unit n)"
  using assms
  by (auto simp: parseTransferHeader_def Let_def sanitizeFileName_nonempty sanitizeFileName_length list_all_iff
      sanitizeFileName_units split: option.splits if_splits)

lemma chunk_indices_bounds:
  "chunk_indices xs = Inr ns \<Longrightarrow> length ns = length xs \<and> (\<forall>k \<in> set ns. k < MAX_TRANSFER_CHUNKS)"
  by (induction xs arbitrary: ns)
    (auto simp: bind_result_Inr chunk_index_def split: json.splits jsnum.splits if_splits)

lemma parseChunkIndices_bounds:
  "parseChunkIndices raw = Inr ns \<Longrightarrow>
   length ns \<le> MAX_TRANSFER_CHUNKS \<and> (\<forall>k \<in> set ns. k < MAX_TRANSFER_CHUNKS)"
  by (auto simp: parseChunkIndices_def split: option.splits json.splits if_splits dest!: chunk_indices_bounds)

lemma ids_of_not_empty: "ids_of raw = Some ids \<Longrightarrow> [] \<notin> set ids"
proof -
  have "[] \<notin> set (List.map_filter (\<lambda>x. case x of JStr s \<Rightarrow> if s = [] then None else Some s | _ \<Rightarrow> None) xs)" for xs
    by (induction xs) (auto simp: List.map_filter_simps split: option.split json.split)
  then show "ids_of raw = Some ids \<Longrightarrow> [] \<notin> set ids"
    by (auto simp: ids_of_def Let_def split: option.splits json.splits if_splits)
qed

lemma accepted_transfer_chunk:
  "decodeTransferChunk nfc meta payload = Inr m \<Longrightarrow> nfc_keeps_separators_out nfc \<Longrightarrow> accepted m"
  using header_accepted [of nfc "member meta (js ''header'')"]
  by (auto simp: decodeTransferChunk_def bind_result_Inr good_id_def chunk_valid_def dest: get_text_Some
      split: option.splits if_splits)

lemma accepted_chunks:
  "decodeHistoryChunk meta payload = Inr m \<Longrightarrow> accepted m"
  "decodeImageChunk meta payload = Inr m \<Longrightarrow> accepted m"
  by (auto simp: decodeHistoryChunk_def decodeImageChunk_def Let_def dest: get_text_Some split: option.splits if_splits)

lemma accepted_image: "decodeImage meta payload = Inr m \<Longrightarrow> accepted m"
  by (auto simp: decodeImage_def split: option.splits if_splits)

lemma accepted_control: "decodeTransferControl p ts = Inr m \<Longrightarrow> accepted m"
  by (auto simp: decodeTransferControl_def bind_result_Inr good_id_def dest: get_text_Some parseChunkIndices_bounds [THEN conjunct1]
        parseChunkIndices_bounds [THEN conjunct2, rule_format]
      split: option.splits if_splits)

lemma accepted_json: "decodeJson p = Inr m \<Longrightarrow> accepted m"
  by (auto simp: decodeJson_def with_text_id_def dest: get_text_Some ids_of_not_empty accepted_control
      split: option.splits if_splits)

lemma decoded_accepted:
  "nfc_keeps_separators_out nfc \<Longrightarrow> decodePlaintext nfc bs = Inr m \<Longrightarrow> accepted m"
  by (auto simp: decodePlaintext_def decodeEnvelope_def Let_def
      dest: accepted_transfer_chunk accepted_chunks accepted_image accepted_json
      split: option.splits if_splits)

text \<open>C25
  Nothing malformed gets past the decoder. Whatever bytes arrive, a message that is decoded meets the
  bounds the client relies on: a transfer chunk carries the announced number and size of pieces, a valid
  index, at most 10 MiB, a digest of the right shape and a safe file name; an acknowledgement names at
  most as many chunks as there can be; image and history chunks are bounded and ids are not empty. In
  particular a decoded chunk is always one the transfer engine may be given.
\<close>

theorem decoded_is_accepted:
  assumes "nfc_keeps_separators_out nfc" "decodePlaintext nfc bs = Inr m"
  shows "accepted m \<and> (\<forall>c v b e. m = TransferChunk c \<longrightarrow> event_enabled (v, EvChunk b c) e)"
  using decoded_accepted [OF assms] by auto

theorem decoded_is_accepted_witness:
  "\<exists>bs. decodePlaintext (\<lambda>s. s) bs = Inr (TransferChunk toy_wire_chunk) \<and> accepted (TransferChunk toy_wire_chunk)"
proof -
  obtain bs where "decodePlaintext (\<lambda>s. s) bs = Inr (TransferChunk toy_wire_chunk)"
    using toy_wire_encodes wire_transfer_chunk [OF toy_wire_chunk_ok] by blast
  moreover have "nfc_keeps_separators_out (\<lambda>s. s)" by (simp add: nfc_keeps_separators_out_def)
  ultimately show ?thesis using decoded_is_accepted by blast
qed

end
