(* ===== verification/Chunking.thy ===== *)
theory Chunking
  imports Wire "HOL-Library.Multiset"
begin

text \<open>
  Splitting a blob into wire chunks and assembling received chunks: \<open>splitHistoryChunks\<close>,
  \<open>assembleHistoryChunks\<close>, \<open>splitImageChunks\<close> and \<open>assembleImageChunks\<close> of
  \<open>web/src/lib/crypto/session.ts\<close>. The two pairs run the same two loops, over chunks of two types; the
  loops are modelled once, over what they read of a chunk, and the contract they share is the locale
  \<open>chunk_format\<close>, interpreted on both chunk types.
\<close>

section \<open>The loop that assembles\<close>

text \<open>
  \<open>collect\<close> is the loop that fills \<open>byIndex\<close>; \<open>place\<close> the loop that copies the payloads in the order of
  their indices into a buffer of the announced length. The buffer is zero-filled and \<open>place\<close> writes it
  from the start, so what was written so far is the list of placed bytes.
\<close>

fun collect :: "('c \<Rightarrow> jstr) \<Rightarrow> ('c \<Rightarrow> nat) \<Rightarrow> ('c \<Rightarrow> nat) \<Rightarrow> jstr \<Rightarrow> nat \<Rightarrow> 'c list \<Rightarrow> (nat \<times> 'c) list \<Rightarrow>
    (nat \<times> 'c) list result" where
  "collect cid cix ctot i n [] byIndex = Inr byIndex"
| "collect cid cix ctot i n (c # cs) byIndex =
     (if cid c \<noteq> i \<or> ctot c \<noteq> n then Inl (Error ''chunk mismatch'')
      else if map_of byIndex (cix c) \<noteq> None then Inl (Error ''duplicate chunk'')
      else collect cid cix ctot i n cs (AList.update (cix c) c byIndex))"

fun place :: "('c \<Rightarrow> bytes) \<Rightarrow> nat \<Rightarrow> (nat \<times> 'c) list \<Rightarrow> nat list \<Rightarrow> bytes \<Rightarrow> bytes result" where
  "place cdata len byIndex [] acc =
     (if length acc \<noteq> len then Inl (Error ''assembled size mismatch'') else Inr acc)"
| "place cdata len byIndex (k # ks) acc =
     (case map_of byIndex k of
        None \<Rightarrow> Inl (Error ''missing chunk'')
      | Some c \<Rightarrow>
          if len < length acc + length (cdata c) then Inl (Error ''chunk overflow'')
          else place cdata len byIndex ks (acc @ cdata c))"

definition assemble_body :: "('c \<Rightarrow> jstr) \<Rightarrow> ('c \<Rightarrow> nat) \<Rightarrow> ('c \<Rightarrow> nat) \<Rightarrow> ('c \<Rightarrow> bytes) \<Rightarrow> 'c \<Rightarrow> nat \<Rightarrow> 'c list \<Rightarrow>
    bytes result" where
  "assemble_body cid cix ctot cdata head len chunks =
     (if length chunks \<noteq> ctot head then Inl (Error ''incomplete chunks'')
      else bind_result (collect cid cix ctot (cid head) (ctot head) chunks [])
             (\<lambda>byIndex. place cdata len byIndex [0..<ctot head] []))"

section \<open>History chunks\<close>

definition chunk_total :: "nat \<Rightarrow> nat \<Rightarrow> nat" where
  "chunk_total chunkSize len = max 1 ((len + chunkSize - 1) div chunkSize)"

definition history_piece :: "jstr \<Rightarrow> bytes \<Rightarrow> nat \<Rightarrow> nat \<Rightarrow> history_chunk" where
  "history_piece requestId compressed chunkSize index =
     \<lparr>hc_id = requestId, hc_index = index, hc_total = chunk_total chunkSize (length compressed),
      hc_data = take (min (index * chunkSize + chunkSize) (length compressed) - index * chunkSize)
                  (drop (index * chunkSize) compressed),
      hc_compressedLength = (if index = 0 then Some (length compressed) else None)\<rparr>"

definition splitHistoryChunks :: "jstr \<Rightarrow> bytes \<Rightarrow> nat \<Rightarrow> history_chunk list result" where
  "splitHistoryChunks requestId compressed chunkSize =
     (if chunkSize < 1 then Inl (Error ''invalid chunk size'')
      else Inr (map (history_piece requestId compressed chunkSize)
                 [0..<chunk_total chunkSize (length compressed)]))"

definition assembleHistoryChunks :: "history_chunk list \<Rightarrow> bytes result" where
  "assembleHistoryChunks chunks =
     (if chunks = [] then Inl (Error ''no chunks'')
      else (case List.find (\<lambda>c. hc_index c = 0) chunks of
              None \<Rightarrow> Inl (Error ''missing history chunk header'')
            | Some h \<Rightarrow>
                (case hc_compressedLength h of
                   None \<Rightarrow> Inl (Error ''missing history chunk header'')
                 | Some len \<Rightarrow> assemble_body hc_id hc_index hc_total hc_data h len chunks)))"

section \<open>Image chunks\<close>

definition image_piece :: "jstr \<Rightarrow> image_content \<Rightarrow> nat \<Rightarrow> nat \<Rightarrow> image_chunk" where
  "image_piece i im chunkSize index =
     \<lparr>ic_id = i, ic_index = index, ic_total = chunk_total chunkSize (length (im_data im)),
      ic_data = take (min (index * chunkSize + chunkSize) (length (im_data im)) - index * chunkSize)
                  (drop (index * chunkSize) (im_data im)),
      ic_ts = (if index = 0 then Some (im_ts im) else None),
      ic_mime = (if index = 0 then Some (im_mime im) else None),
      ic_byteLength = (if index = 0 then Some (length (im_data im)) else None),
      ic_w = (if index = 0 then im_w im else None), ic_h = (if index = 0 then im_h im else None),
      ic_replyTo = (if index = 0 then im_replyTo im else None)\<rparr>"

definition splitImageChunks :: "jstr \<Rightarrow> image_content \<Rightarrow> nat \<Rightarrow> image_chunk list result" where
  "splitImageChunks i im chunkSize =
     (if chunkSize < 1 then Inl (Error ''invalid chunk size'')
      else if MAX_IMAGE_BYTES < length (im_data im) then Inl (Error ''image too large'')
      else Inr (map (image_piece i im chunkSize) [0..<chunk_total chunkSize (length (im_data im))]))"

definition assembleImageChunks :: "image_chunk list \<Rightarrow> (jstr \<times> image_content) result" where
  "assembleImageChunks chunks =
     (if chunks = [] then Inl (Error ''no chunks'')
      else (case List.find (\<lambda>c. ic_index c = 0) chunks of
              None \<Rightarrow> Inl (Error ''missing image chunk header'')
            | Some h \<Rightarrow>
                (case (ic_ts h, ic_mime h, ic_byteLength h) of
                   (Some ts, Some mime, Some len) \<Rightarrow>
                     bind_result (assemble_body ic_id ic_index ic_total ic_data h len chunks)
                       (\<lambda>out. Inr (ic_id h, \<lparr>im_ts = ts, im_mime = mime, im_data = out, im_w = ic_w h,
                                             im_h = ic_h h, im_replyTo = ic_replyTo h\<rparr>))
                 | _ \<Rightarrow> Inl (Error ''missing image chunk header''))))"

section \<open>What the two formats share\<close>

lemma chunk_total_pieces: "chunk_total cs n = piece_count cs n"
  by (simp add: chunk_total_def piece_count_def)

lemma piece_slice: "take (min (k * cs + cs) (length xs) - k * cs) (drop (k * cs) xs) = slice_at cs xs k"
proof (cases "k * cs + cs \<le> length xs")
  case False
  then show ?thesis by (simp add: slice_at_def)
qed (simp add: slice_at_def)

text \<open>
  The contract: a chunk type with an id, an index, a total and a payload, and pieces cut from a blob
  that carry them.
\<close>

locale chunk_format =
  fixes cid :: "'c \<Rightarrow> jstr" and cix ctot :: "'c \<Rightarrow> nat" and cdata :: "'c \<Rightarrow> bytes"
    and cut :: "'m \<Rightarrow> nat \<Rightarrow> nat \<Rightarrow> 'c" and name :: "'m \<Rightarrow> jstr" and blob :: "'m \<Rightarrow> bytes"
  assumes cut_id: "cid (cut m cs k) = name m"
    and cut_index: "cix (cut m cs k) = k"
    and cut_total: "ctot (cut m cs k) = piece_count cs (length (blob m))"
    and cut_data: "cdata (cut m cs k) = slice_at cs (blob m) k"
begin

lemmas cut = cut_id cut_index cut_total cut_data

definition pieces :: "'m \<Rightarrow> nat \<Rightarrow> 'c list" where
  "pieces m cs = map (cut m cs) [0..<piece_count cs (length (blob m))]"

lemma collect_ok:
  assumes "\<forall>c \<in> set chunks. cid c = i \<and> ctot c = n" "distinct (map cix chunks)"
    and "set (map cix chunks) \<inter> fst ` set acc = {}"
  shows "collect cid cix ctot i n chunks acc = Inr (acc @ map (\<lambda>c. (cix c, c)) chunks)"
  using assms
proof (induction chunks arbitrary: acc)
  case Nil
  then show ?case by simp
next
  case (Cons c cs)
  then have fresh: "cix c \<notin> fst ` set acc" by auto
  then have "map_of acc (cix c) = None" by (simp add: map_of_eq_None_iff)
  with Cons fresh show ?case by (auto simp: update_absent)
qed

lemma collect_Inr:
  "collect cid cix ctot i n chunks acc = Inr r \<Longrightarrow>
     (\<forall>c \<in> set chunks. cid c = i \<and> ctot c = n) \<and> distinct (map cix chunks) \<and>
     set (map cix chunks) \<inter> fst ` set acc = {} \<and> r = acc @ map (\<lambda>c. (cix c, c)) chunks"
proof (induction chunks arbitrary: acc)
  case Nil
  then show ?case by simp
next
  case (Cons c cs)
  from Cons.prems have c: "cid c = i" "ctot c = n" "map_of acc (cix c) = None"
    and rest: "collect cid cix ctot i n cs (AList.update (cix c) c acc) = Inr r"
    by (simp_all split: if_splits)
  from c(3) have fresh: "cix c \<notin> fst ` set acc" by (simp add: map_of_eq_None_iff)
  have all: "(\<forall>d \<in> set cs. cid d = i \<and> ctot d = n) \<and> distinct (map cix cs) \<and>
    set (map cix cs) \<inter> fst ` set (acc @ [(cix c, c)]) = {} \<and>
    r = (acc @ [(cix c, c)]) @ map (\<lambda>c. (cix c, c)) cs"
    using rest by (intro Cons.IH) (simp add: update_absent [OF fresh])
  note ok = all [THEN conjunct1] and dist = all [THEN conjunct2, THEN conjunct1]
    and disj = all [THEN conjunct2, THEN conjunct2, THEN conjunct1]
    and r = all [THEN conjunct2, THEN conjunct2, THEN conjunct2]
  from disj have keys: "cix c \<notin> set (map cix cs)" "set (map cix cs) \<inter> fst ` set acc = {}"
    by auto
  have "\<forall>d \<in> set (c # cs). cid d = i \<and> ctot d = n" using ok c(1,2) by simp
  moreover have "distinct (map cix (c # cs))" using dist keys(1) by simp
  moreover have "set (map cix (c # cs)) \<inter> fst ` set acc = {}" using keys(2) fresh by simp
  moreover have "r = acc @ map (\<lambda>c. (cix c, c)) (c # cs)" using r by simp
  ultimately show ?case by blast
qed

lemma place_ok:
  assumes "\<forall>k \<in> set ks. \<exists>c. map_of bi k = Some c \<and> cdata c = f k"
    and "length acc + length (concat (map f ks)) = len"
  shows "place cdata len bi ks acc = Inr (acc @ concat (map f ks))"
  using assms by (induction ks arbitrary: acc) auto

lemma place_Inr:
  "place cdata len bi ks acc = Inr r \<Longrightarrow>
     length r = len \<and> (\<forall>k \<in> set ks. map_of bi k \<noteq> None) \<and>
     r = acc @ concat (map (\<lambda>k. cdata (the (map_of bi k))) ks)"
proof (induction ks arbitrary: acc)
  case Nil
  then show ?case by (auto split: if_splits)
next
  case (Cons k ks)
  then obtain c where c: "map_of bi k = Some c" "place cdata len bi ks (acc @ cdata c) = Inr r"
    by (auto split: if_splits option.splits)
  from Cons.IH [OF c(2)] c(1) show ?case by auto
qed

lemma map_of_pieces:
  assumes "perm = map (cut m cs) ks" "distinct ks" "k \<in> set ks"
  shows "map_of (map (\<lambda>c. (cix c, c)) perm) k = Some (cut m cs k)"
proof -
  have "map (\<lambda>c. (cix c, c)) perm = map (\<lambda>k. (k, cut m cs k)) ks" using assms(1) by (simp add: cut)
  then show ?thesis using assms(3) by (simp only: map_of_map_restrict [unfolded comp_def]) simp
qed

text \<open>However the pieces are ordered, they are put back together.\<close>

lemma assemble_any_order:
  assumes "0 < cs" "mset perm = mset (pieces m cs)"
  shows "assemble_body cid cix ctot cdata (cut m cs 0) (length (blob m)) perm = Inr (blob m)"
proof -
  let ?n = "piece_count cs (length (blob m))" and ?ks = "map cix perm"
  have members: "set perm = cut m cs ` {0..<?n}"
    using assms(2) by (metis pieces_def set_mset_mset set_map set_upt)
  then have "map (cut m cs \<circ> cix) perm = perm"
    by (intro map_idI) (auto simp: cut)
  then have perm: "perm = map (cut m cs) ?ks" by simp
  have "image_mset cix (mset perm) = mset (map cix (pieces m cs))" by (simp add: assms(2))
  also have "map cix (pieces m cs) = [0..<?n]" by (simp add: pieces_def cut comp_def)
  finally have "mset ?ks = mset [0..<?n]" by simp
  then have ks: "distinct ?ks" "set ?ks = {0..<?n}" "length perm = ?n"
    using mset_eq_imp_distinct_iff [of ?ks "[0..<?n]"] mset_eq_setD [of ?ks "[0..<?n]"] mset_eq_length [of ?ks "[0..<?n]"]
    by simp_all
  have "collect cid cix ctot (cid (cut m cs 0)) (ctot (cut m cs 0)) perm [] = Inr (map (\<lambda>c. (cix c, c)) perm)"
    using collect_ok [of perm "cid (cut m cs 0)" "ctot (cut m cs 0)" "[]"] members ks(1) by (auto simp: cut)
  moreover have "place cdata (length (blob m)) (map (\<lambda>c. (cix c, c)) perm) [0..<?n] [] = Inr ([] @ concat (map (slice_at cs (blob m)) [0..<?n]))"
    using assms(1) map_of_pieces [OF perm ks(1)] ks(2)
    by (intro place_ok) (auto simp: concat_slices cut)
  ultimately show ?thesis
    using ks(3) assms(1) by (simp add: assemble_body_def cut concat_slices)
qed

text \<open>What is assembled has the announced length and is the payloads in the order of their indices.\<close>

lemma assemble_sound:
  assumes "assemble_body cid cix ctot cdata h len chunks = Inr out"
  shows "length out = len \<and> length chunks = ctot h \<and> (\<forall>c \<in> set chunks. cid c = cid h \<and> ctot c = ctot h) \<and>
    distinct (map cix chunks) \<and> set (map cix chunks) = {0..<ctot h} \<and>
    out = concat (map (\<lambda>k. cdata (the (map_of (map (\<lambda>c. (cix c, c)) chunks) k))) [0..<ctot h])"
proof -
  obtain bi where n: "length chunks = ctot h" and c: "collect cid cix ctot (cid h) (ctot h) chunks [] = Inr bi"
    and p: "place cdata len bi [0..<ctot h] [] = Inr out"
    using assms by (auto simp: assemble_body_def bind_result_Inr split: if_splits)
  have ok: "\<forall>c \<in> set chunks. cid c = cid h \<and> ctot c = ctot h" "distinct (map cix chunks)"
    "bi = map (\<lambda>c. (cix c, c)) chunks" using collect_Inr [OF c] by simp_all
  have out: "length out = len" "\<forall>k \<in> {0..<ctot h}. map_of bi k \<noteq> None"
    "out = concat (map (\<lambda>k. cdata (the (map_of bi k))) [0..<ctot h])" using place_Inr [OF p] by auto
  have "{0..<ctot h} \<subseteq> set (map cix chunks)"
    using out(2) ok(3) by (force simp: map_of_eq_None_iff image_iff)
  moreover have "card (set (map cix chunks)) = card {0..<ctot h}" using distinct_card [OF ok(2)] n by simp
  ultimately have "set (map cix chunks) = {0..<ctot h}" by (metis List.finite_set card_subset_eq)
  then show ?thesis using n ok(1,2) out(1) out(3) by (simp only: ok(3))
qed

lemma assemble_sorted:
  assumes "assemble_body cid cix ctot cdata h len chunks = Inr out"
  shows "length out = len" "\<forall>c \<in> set chunks. cid c = cid h \<and> ctot c = ctot h" "distinct (map cix chunks)"
    "set (map cix chunks) = {0..<ctot h}" "out = concat (map cdata (sort_key cix chunks))"
proof -
  note sound = assemble_sound [OF assms]
  then show "length out = len" "\<forall>c \<in> set chunks. cid c = cid h \<and> ctot c = ctot h" by auto
  from sound show dist: "distinct (map cix chunks)" and keys: "set (map cix chunks) = {0..<ctot h}" by auto
  let ?g = "\<lambda>k. the (map_of (map (\<lambda>c. (cix c, c)) chunks) k)"
  have get: "?g (cix c) = c" if "c \<in> set chunks" for c
  proof -
    have "map_of (map (\<lambda>c. (cix c, c)) chunks) (cix c) = Some c"
      using that dist by (intro map_of_is_SomeI) (auto simp: comp_def)
    then show ?thesis by simp
  qed
  have "cix (?g k) = k" if k: "k \<in> {0..<ctot h}" for k
  proof -
    from k obtain c where "c \<in> set chunks" "cix c = k" using keys by (metis image_iff set_map)
    then show ?thesis using get by metis
  qed
  then have "map cix (map ?g [0..<ctot h]) = [0..<ctot h]" unfolding map_map by (intro map_idI) simp
  moreover have "mset chunks = mset (map ?g [0..<ctot h])"
  proof -
    have "mset (map cix chunks) = mset [0..<ctot h]"
      using dist keys set_eq_iff_mset_eq_distinct [of "map cix chunks" "[0..<ctot h]"] by simp
    then have "image_mset ?g (mset (map cix chunks)) = image_mset ?g (mset [0..<ctot h])" by simp
    moreover have "map ?g (map cix chunks) = chunks" using get by (simp add: map_idI)
    ultimately show ?thesis by (metis mset_map)
  qed
  moreover have "inj_on cix (set chunks)" using dist by (simp add: distinct_map)
  ultimately have "sort_key cix chunks = map ?g [0..<ctot h]"
    by (intro sort_key_inj_key_eq) simp_all
  with sound show "out = concat (map cdata (sort_key cix chunks))" by (simp add: comp_def)
qed

end


interpretation history: chunk_format hc_id hc_index hc_total hc_data
  "\<lambda>(i, blob) cs k. history_piece i blob cs k" fst snd
  by unfold_locales (auto simp: history_piece_def chunk_total_pieces piece_slice)

interpretation image: chunk_format ic_id ic_index ic_total ic_data
  "\<lambda>(i, im) cs k. image_piece i im cs k" fst "\<lambda>(i, im). im_data im"
  by unfold_locales (auto simp: image_piece_def chunk_total_pieces piece_slice)

lemma find_unique:
  assumes "c \<in> set cs" "P c" "\<And>d. d \<in> set cs \<Longrightarrow> P d \<Longrightarrow> d = c"
  shows "List.find P cs = Some c"
proof (cases "List.find P cs")
  case None
  then show ?thesis using assms(1,2) by (auto simp: find_None_iff)
next
  case (Some d)
  then have "d \<in> set cs" "P d" by (auto simp: find_Some_iff)
  then show ?thesis using Some assms(3) by simp
qed

lemma find_SomeD: "List.find P cs = Some c \<Longrightarrow> c \<in> set cs \<and> P c"
  by (auto simp: find_Some_iff)

lemma split_total: "0 < cs \<Longrightarrow> 0 < chunk_total cs n"
  by (simp add: chunk_total_pieces)

text \<open>What the two splitters make of a blob, and what the two assemblers make of the pieces in any order.\<close>

lemma history_pieces_assemble:
  assumes "0 < cs" "mset perm = mset (map (history_piece i blob cs) [0..<chunk_total cs (length blob)])"
  shows "assembleHistoryChunks perm = Inr blob"
proof -
  have members: "set perm = history_piece i blob cs ` {0..<chunk_total cs (length blob)}"
    using mset_eq_setD [OF assms(2)] by simp
  then have "List.find (\<lambda>c. hc_index c = 0) perm = Some (history_piece i blob cs 0)"
    using split_total [OF assms(1), of "length blob"] by (intro find_unique) (auto simp: history_piece_def)
  moreover have "perm \<noteq> []" using members split_total [OF assms(1), of "length blob"] by auto
  moreover have "assemble_body hc_id hc_index hc_total hc_data (history_piece i blob cs 0) (length blob) perm = Inr blob"
    using history.assemble_any_order [OF assms(1), of perm "(i, blob)"] assms(2)
    by (simp add: history.pieces_def chunk_total_pieces)
  moreover have "hc_compressedLength (history_piece i blob cs 0) = Some (length blob)"
    by (simp add: history_piece_def)
  ultimately show ?thesis by (simp add: assembleHistoryChunks_def)
qed

lemma image_pieces_assemble:
  assumes "0 < cs" "mset perm = mset (map (image_piece i im cs) [0..<chunk_total cs (length (im_data im))])"
  shows "assembleImageChunks perm = Inr (i, im)"
proof -
  have members: "set perm = image_piece i im cs ` {0..<chunk_total cs (length (im_data im))}"
    using mset_eq_setD [OF assms(2)] by simp
  then have "List.find (\<lambda>c. ic_index c = 0) perm = Some (image_piece i im cs 0)"
    using split_total [OF assms(1), of "length (im_data im)"] by (intro find_unique) (auto simp: image_piece_def)
  moreover have "perm \<noteq> []" using members split_total [OF assms(1), of "length (im_data im)"] by auto
  moreover have "assemble_body ic_id ic_index ic_total ic_data (image_piece i im cs 0) (length (im_data im)) perm
      = Inr (im_data im)"
    using image.assemble_any_order [OF assms(1), of perm "(i, im)"] assms(2)
    by (simp add: image.pieces_def chunk_total_pieces)
  moreover have "ic_id (image_piece i im cs 0) = i" "ic_ts (image_piece i im cs 0) = Some (im_ts im)"
    "ic_mime (image_piece i im cs 0) = Some (im_mime im)" "ic_w (image_piece i im cs 0) = im_w im"
    "ic_h (image_piece i im cs 0) = im_h im" "ic_replyTo (image_piece i im cs 0) = im_replyTo im"
    "ic_byteLength (image_piece i im cs 0) = Some (length (im_data im))"
    by (simp_all add: image_piece_def)
  ultimately show ?thesis by (simp add: assembleImageChunks_def)
qed

text \<open>C26
  History and image chunks. Splitting succeeds on every blob, gives at least one chunk and never a
  payload above the chunk size; and assembling the chunks, in whatever order they arrived, gives back
  exactly the blob (for an image: the whole message with its metadata).
\<close>

theorem chunks_reassemble:
  assumes "0 < cs"
  shows "(\<exists>chunks. splitHistoryChunks i blob cs = Inr chunks \<and> chunks \<noteq> [] \<and>
            (\<forall>c \<in> set chunks. length (hc_data c) \<le> cs) \<and>
            (\<forall>perm. mset perm = mset chunks \<longrightarrow> assembleHistoryChunks perm = Inr blob)) \<and>
         (length (im_data im) \<le> MAX_IMAGE_BYTES \<longrightarrow>
          (\<exists>chunks. splitImageChunks i im cs = Inr chunks \<and> chunks \<noteq> [] \<and>
            (\<forall>c \<in> set chunks. length (ic_data c) \<le> cs) \<and>
            (\<forall>perm. mset perm = mset chunks \<longrightarrow> assembleImageChunks perm = Inr (i, im))))"
proof (intro conjI impI)
  let ?h = "map (history_piece i blob cs) [0..<chunk_total cs (length blob)]"
  have "length (hc_data (history_piece i blob cs k)) \<le> cs" for k
    by (simp add: history_piece_def piece_slice length_slice_at)
  then show "\<exists>chunks. splitHistoryChunks i blob cs = Inr chunks \<and> chunks \<noteq> [] \<and>
            (\<forall>c \<in> set chunks. length (hc_data c) \<le> cs) \<and>
            (\<forall>perm. mset perm = mset chunks \<longrightarrow> assembleHistoryChunks perm = Inr blob)"
    using assms split_total [OF assms, of "length blob"] history_pieces_assemble [OF assms]
    by (intro exI [of _ ?h]) (simp add: splitHistoryChunks_def)
next
  assume small: "length (im_data im) \<le> MAX_IMAGE_BYTES"
  let ?h = "map (image_piece i im cs) [0..<chunk_total cs (length (im_data im))]"
  have "length (ic_data (image_piece i im cs k)) \<le> cs" for k
    by (simp add: image_piece_def piece_slice length_slice_at)
  then show "\<exists>chunks. splitImageChunks i im cs = Inr chunks \<and> chunks \<noteq> [] \<and>
            (\<forall>c \<in> set chunks. length (ic_data c) \<le> cs) \<and>
            (\<forall>perm. mset perm = mset chunks \<longrightarrow> assembleImageChunks perm = Inr (i, im))"
    using assms small split_total [OF assms, of "length (im_data im)"] image_pieces_assemble [OF assms]
    by (intro exI [of _ ?h]) (simp add: splitImageChunks_def)
qed

theorem chunks_reassemble_witness:
  "\<exists>chunks. splitHistoryChunks (js ''r'') [1, 2, 3] 2 = Inr chunks \<and> assembleHistoryChunks (rev chunks) = Inr [1, 2, 3]"
  using chunks_reassemble [of 2 "js ''r''" "[1, 2, 3]"] by (metis mset_rev zero_less_numeral)

lemma assembleHistoryChunks_Inr:
  assumes "assembleHistoryChunks chunks = Inr out"
  obtains h len where "h \<in> set chunks" "hc_index h = 0" "hc_compressedLength h = Some len"
    "assemble_body hc_id hc_index hc_total hc_data h len chunks = Inr out"
  using assms by (auto simp: assembleHistoryChunks_def dest!: find_SomeD split: if_splits option.splits)

lemma assembleImageChunks_Inr:
  assumes "assembleImageChunks chunks = Inr (i, im)"
  obtains h where "h \<in> set chunks" "ic_index h = 0" "ic_byteLength h \<noteq> None" "i = ic_id h"
    "ic_ts h = Some (im_ts im)" "ic_mime h = Some (im_mime im)"
    "assemble_body ic_id ic_index ic_total ic_data h (the (ic_byteLength h)) chunks = Inr (im_data im)"
  using assms
  by (auto simp: assembleImageChunks_def bind_result_Inr dest!: find_SomeD split: if_splits option.splits)

text \<open>
  Nothing incomplete is assembled. When chunks are accepted, they all carry one id and one total, each
  index from zero up to the total occurs exactly once, the result has exactly the announced length, and
  it is the payloads in the order of their indices. A missing, repeated, foreign or oversized chunk is an
  error.
\<close>

theorem only_complete_sets_assemble:
  "(assembleHistoryChunks chunks = Inr out \<longrightarrow>
      (\<exists>h \<in> set chunks. hc_index h = 0 \<and> hc_compressedLength h = Some (length out) \<and>
         (\<forall>c \<in> set chunks. hc_id c = hc_id h \<and> hc_total c = hc_total h) \<and>
         distinct (map hc_index chunks) \<and> set (map hc_index chunks) = {0..<hc_total h} \<and>
         out = concat (map hc_data (sort_key hc_index chunks)))) \<and>
   (assembleImageChunks ichunks = Inr (i, im) \<longrightarrow>
      (\<exists>h \<in> set ichunks. ic_index h = 0 \<and> ic_byteLength h = Some (length (im_data im)) \<and> i = ic_id h \<and>
         (\<forall>c \<in> set ichunks. ic_id c = ic_id h \<and> ic_total c = ic_total h) \<and>
         distinct (map ic_index ichunks) \<and> set (map ic_index ichunks) = {0..<ic_total h} \<and>
         im_data im = concat (map ic_data (sort_key ic_index ichunks))))"
proof (intro conjI impI)
  assume "assembleHistoryChunks chunks = Inr out"
  then obtain h len where h: "h \<in> set chunks" "hc_index h = 0" "hc_compressedLength h = Some len"
    and body: "assemble_body hc_id hc_index hc_total hc_data h len chunks = Inr out"
    by (rule assembleHistoryChunks_Inr)
  note b = history.assemble_sorted [OF body]
  show "\<exists>h \<in> set chunks. hc_index h = 0 \<and> hc_compressedLength h = Some (length out) \<and>
         (\<forall>c \<in> set chunks. hc_id c = hc_id h \<and> hc_total c = hc_total h) \<and>
         distinct (map hc_index chunks) \<and> set (map hc_index chunks) = {0..<hc_total h} \<and>
         out = concat (map hc_data (sort_key hc_index chunks))" unfolding b(1) using h b(2-) by blast
next
  assume "assembleImageChunks ichunks = Inr (i, im)"
  then obtain h where h: "h \<in> set ichunks" "ic_index h = 0" "ic_byteLength h \<noteq> None" "i = ic_id h"
    and body: "assemble_body ic_id ic_index ic_total ic_data h (the (ic_byteLength h)) ichunks = Inr (im_data im)"
    by (rule assembleImageChunks_Inr)
  note b = image.assemble_sorted [OF body]
  have len: "ic_byteLength h = Some (length (im_data im))" using h(3) b(1) by auto
  show "\<exists>h \<in> set ichunks. ic_index h = 0 \<and> ic_byteLength h = Some (length (im_data im)) \<and> i = ic_id h \<and>
         (\<forall>c \<in> set ichunks. ic_id c = ic_id h \<and> ic_total c = ic_total h) \<and>
         distinct (map ic_index ichunks) \<and> set (map ic_index ichunks) = {0..<ic_total h} \<and>
         im_data im = concat (map ic_data (sort_key ic_index ichunks))" using h len b(2-) by blast
qed

theorem only_complete_sets_assemble_witness:
  "\<exists>h \<in> set (map (history_piece (js ''r'') [1, 2, 3] 2) [1, 0]).
     hc_index h = 0 \<and> hc_compressedLength h = Some 3 \<and>
     [1, 2, 3] = concat (map hc_data (sort_key hc_index (map (history_piece (js ''r'') [1, 2, 3] 2) [1, 0])))"
proof -
  have "assembleHistoryChunks (map (history_piece (js ''r'') [1, 2, 3] 2) [1, 0]) = Inr [1, 2, 3]"
    by (simp add: assembleHistoryChunks_def history_piece_def assemble_body_def chunk_total_def upt_rec)
  note this = only_complete_sets_assemble [THEN conjunct1, THEN mp, OF this]
  moreover have "length [1, 2, 3 :: byte] = 3" by simp
  ultimately show ?thesis by metis
qed

end
