(* ===== verification/Envelope.thy ===== *)
theory Envelope
  imports Chunking
begin

text \<open>
  \<open>encryptMessage\<close> and \<open>decryptMessage\<close> of \<open>web/src/lib/crypto/session.ts\<close>: a version byte, a 12-byte
  nonce and the AES-GCM ciphertext of the wire format. Also the two random identifiers of that file. The
  cipher is Web Crypto's: \<open>seal\<close> and \<open>unseal\<close> are parameters, of which only the documented behaviour of
  AES-GCM with a 128-bit tag is used.
\<close>

text \<open>The arguments of the cipher: key, nonce, text.\<close>

definition aead :: "('k \<Rightarrow> bytes \<Rightarrow> bytes \<Rightarrow> bytes) \<Rightarrow> ('k \<Rightarrow> bytes \<Rightarrow> bytes \<Rightarrow> bytes option) \<Rightarrow> bool" where
  "aead seal unseal \<longleftrightarrow>
     (\<forall>k iv pt ct. unseal k iv ct = Some pt \<longleftrightarrow> ct = seal k iv pt) \<and>
     (\<forall>k iv pt. length (seal k iv pt) = length pt + 16)"

text \<open>\<open>iv\<close> is the outcome of \<open>crypto.getRandomValues(new Uint8Array(12))\<close>.\<close>

definition encryptMessage ::
  "('k \<Rightarrow> bytes \<Rightarrow> bytes \<Rightarrow> bytes) \<Rightarrow> 'k \<Rightarrow> bytes \<Rightarrow> plain_message \<Rightarrow> bytes result" where
  "encryptMessage seal key iv msg =
     bind_result (encodePlaintext msg)
       (\<lambda>plaintext.
          let out = 1 # iv @ seal key iv plaintext
          in if MAX_CIPHERTEXT_BYTES < length out then Inl (Error ''message too large for relay'')
             else Inr out)"

definition decryptMessage ::
  "(jstr \<Rightarrow> jstr) \<Rightarrow> ('k \<Rightarrow> bytes \<Rightarrow> bytes \<Rightarrow> bytes option) \<Rightarrow> 'k \<Rightarrow> bytes \<Rightarrow> plain_message result" where
  "decryptMessage nfc unseal key buf =
     (if length buf < 14 \<or> buf ! 0 \<noteq> 1 then Inl (Error ''unsupported ciphertext'')
      else (case unseal key (take 12 (drop 1 buf)) (drop 13 buf) of
              None \<Rightarrow> Inl OperationError
            | Some pt \<Rightarrow> decodePlaintext nfc pt))"

text \<open>\<open>rand\<close> is the outcome of \<open>crypto.getRandomValues\<close>.\<close>

definition bucket_alphabet :: jstr where
  "bucket_alphabet = js ''abcdefghijklmnopqrstuvwxyz0123456789''"

definition randomBucketId :: "bytes \<Rightarrow> jstr" where
  "randomBucketId rand = map (\<lambda>b. bucket_alphabet ! (unat b mod length bucket_alphabet)) rand"

definition randomToken :: "bytes \<Rightarrow> jstr" where
  "randomToken rand = bytesToBase64Url rand"

definition sha256Base64Url :: "(bytes \<Rightarrow> bytes) \<Rightarrow> bytes \<Rightarrow> jstr" where
  "sha256Base64Url digest bs = bytesToBase64Url (digest bs)"

definition keyToFragment :: "bytes \<Rightarrow> jstr" where
  "keyToFragment raw = bytesToBase64Url raw"

section \<open>The envelope\<close>

lemma aead_unseal [simp]: "aead seal unseal \<Longrightarrow> unseal k iv (seal k iv pt) = Some pt"
  by (simp add: aead_def)

lemma aead_length [simp]: "aead seal unseal \<Longrightarrow> length (seal k iv pt) = length pt + 16"
  by (simp add: aead_def)

lemma encryptMessage_Inr:
  "encryptMessage seal key iv msg = Inr buf \<longleftrightarrow>
     (\<exists>pt. encodePlaintext msg = Inr pt \<and> buf = 1 # iv @ seal key iv pt \<and> length buf \<le> MAX_CIPHERTEXT_BYTES)"
  by (cases "encodePlaintext msg") (auto simp: encryptMessage_def Let_def)

lemma envelope_parts:
  assumes "length iv = 12"
  shows "take 12 (drop 1 (1 # iv @ ct)) = iv" "drop 13 (1 # iv @ ct) = ct"
  using assms by (simp_all add: drop_Cons')

lemma decrypt_sealed:
  assumes "aead seal unseal" "length iv = 12"
  shows "decryptMessage nfc unseal key (1 # iv @ seal key iv pt) = decodePlaintext nfc pt"
  using assms envelope_parts [OF assms(2), of "seal key iv pt"]
  by (simp add: decryptMessage_def del: drop_Suc_Cons)

lemma decryptMessage_Inr:
  assumes "aead seal unseal" "decryptMessage nfc unseal key buf = Inr m"
  shows "\<exists>iv pt. length iv = 12 \<and> buf = 1 # iv @ seal key iv pt \<and> decodePlaintext nfc pt = Inr m"
proof -
  let ?iv = "take 12 (drop 1 buf)"
  obtain pt where len: "14 \<le> length buf" and v: "buf ! 0 = 1" and u: "unseal key ?iv (drop 13 buf) = Some pt"
    and d: "decodePlaintext nfc pt = Inr m"
    using assms(2) by (auto simp: decryptMessage_def split: if_splits option.splits)
  obtain b bs where buf: "buf = b # bs" using len by (cases buf) auto
  have "drop 13 buf = drop 12 bs" by (simp add: buf drop_Cons')
  moreover have "drop 13 buf = seal key ?iv pt" using u assms(1) by (simp add: aead_def)
  ultimately have "bs = ?iv @ seal key ?iv pt" using append_take_drop_id [of 12 bs] by (simp add: buf)
  then have "buf = 1 # ?iv @ seal key ?iv pt" using v by (simp add: buf)
  moreover have "length ?iv = 12" using len by (simp add: buf)
  ultimately show ?thesis using d by blast
qed

text \<open>C28
  End to end. A message a client can send, encrypted under the room key, is decrypted under the same key to
  exactly that message; conversely, whatever is decrypted was sealed under that key from a well-formed
  plaintext and meets the bounds of the decoder, so bytes the relay makes up or alters are never a message.
\<close>

theorem encrypted_roundtrip:
  assumes "aead seal unseal" "nfc_keeps_separators_out nfc"
  shows "(wire_ok nfc m \<and> length iv = 12 \<and> encryptMessage seal key iv m = Inr buf \<longrightarrow>
            decryptMessage nfc unseal key buf = Inr m \<and> length buf \<le> MAX_CIPHERTEXT_BYTES) \<and>
         (decryptMessage nfc unseal key buf = Inr m \<longrightarrow>
            accepted m \<and> (\<exists>iv pt. length iv = 12 \<and> buf = 1 # iv @ seal key iv pt \<and> decodePlaintext nfc pt = Inr m))"
proof (intro conjI [of "_ \<longrightarrow> _"] impI)
  assume "wire_ok nfc m \<and> length iv = 12 \<and> encryptMessage seal key iv m = Inr buf"
  then obtain pt where "encodePlaintext m = Inr pt" "buf = 1 # iv @ seal key iv pt" "length buf \<le> MAX_CIPHERTEXT_BYTES"
    "decodePlaintext nfc pt = Inr m" "length iv = 12"
    by (auto simp: encryptMessage_Inr decode_encoded)
  then show "decryptMessage nfc unseal key buf = Inr m \<and> length buf \<le> MAX_CIPHERTEXT_BYTES"
    using decrypt_sealed [OF assms(1), of iv nfc key pt] by simp
next
  assume "decryptMessage nfc unseal key buf = Inr m"
  then show "accepted m \<and> (\<exists>iv pt. length iv = 12 \<and> buf = 1 # iv @ seal key iv pt \<and> decodePlaintext nfc pt = Inr m)"
    using decryptMessage_Inr [OF assms(1)] decoded_accepted [OF assms(2)] by blast
qed

text \<open>A cipher for the witnesses: the text with a tag that repeats its nonce.\<close>

definition toy_seal :: "unit \<Rightarrow> bytes \<Rightarrow> bytes \<Rightarrow> bytes" where
  "toy_seal k iv pt = replicate 16 7 @ pt"

definition toy_unseal :: "unit \<Rightarrow> bytes \<Rightarrow> bytes \<Rightarrow> bytes option" where
  "toy_unseal k iv ct = (if length ct < 16 \<or> take 16 ct \<noteq> replicate 16 7 then None else Some (drop 16 ct))"

lemma toy_aead: "aead toy_seal toy_unseal"
proof -
  have "toy_unseal k iv ct = Some pt \<longleftrightarrow> ct = toy_seal k iv pt" for k iv ct pt
    by (auto simp: toy_unseal_def toy_seal_def) (metis append_take_drop_id)
  then show ?thesis by (simp add: aead_def toy_seal_def)
qed

lemma toy_nfc: "nfc_keeps_separators_out (\<lambda>s. s)"
  by (simp add: nfc_keeps_separators_out_def)

theorem encrypted_roundtrip_witness:
  "\<exists>buf. encryptMessage toy_seal () (replicate 12 9) (Delete (NumI 5) (js ''a'')) = Inr buf \<and>
         decryptMessage (\<lambda>s. s) toy_unseal () buf = Inr (Delete (NumI 5) (js ''a''))"
proof -
  let ?m = "Delete (NumI 5) (js ''a'')"
  have "length (json_bytes (JObj (plain_json ''delete'' (NumI 5) (js ''a'')))) < 1000"
    by (simp add: plain_json_def wire_eval)
  then obtain buf where buf: "encryptMessage toy_seal () (replicate 12 9) ?m = Inr buf"
    by (auto simp: encryptMessage_def with_id_def json_frame_def toy_seal_def MAX_CIPHERTEXT_BYTES_def)
  moreover have "wire_ok (\<lambda>s. s) ?m" using huge_big [of 5] by simp
  ultimately show ?thesis
    using encrypted_roundtrip [OF toy_aead toy_nfc, of ?m "replicate 12 9" "()" buf] by auto
qed

section \<open>Sizes\<close>

text \<open>A chunk: the frames a large image, a file or a history is cut into.\<close>

fun is_chunk :: "plain_message \<Rightarrow> bool" where
  "is_chunk (TransferChunk c) = (length (tc_data c) \<le> TRANSFER_CHUNK_BYTES)"
| "is_chunk (ImageChunk c) = (length (ic_data c) \<le> IMAGE_CHUNK_PAYLOAD_BYTES)"
| "is_chunk (HistoryChunk c) = (length (hc_data c) \<le> HISTORY_CHUNK_PAYLOAD_BYTES)"
| "is_chunk _ = False"

lemma envelope_length:
  "encodeBinaryEnvelope mark meta payload = Inr pt \<Longrightarrow>
   length payload < length pt \<and> length pt \<le> 3 + 0xffff + length payload"
  by (auto simp: encodeBinaryEnvelope_def Let_def split: if_splits)

lemma chunk_plaintext_length:
  assumes "is_chunk m" "encodePlaintext m = Inr pt"
  shows "length pt \<le> 3 + 0xffff + 262144"
  using assms
  by (cases m) (auto simp: limit_defs with_id_def bind_result_Inr split: if_splits dest!: envelope_length)

text \<open>C29
  Chunks always fit. Once a chunk of a transfer, an image or a history has been encoded, encryption never
  fails with \<open>message too large for relay\<close>; an unsplit image whose bytes alone exceed the ceiling always
  does, as does every message that would not fit, and nothing larger than the ceiling is ever produced.
\<close>

theorem frames_fit_the_relay:
  assumes "aead seal unseal" "length iv = 12"
  shows "(is_chunk m \<and> encodePlaintext m = Inr pt \<longrightarrow>
            (\<exists>buf. encryptMessage seal key iv m = Inr buf \<and> length buf < 400000)) \<and>
         (m = Content (Some i) (Image im) \<and> i \<noteq> [] \<and> MAX_CIPHERTEXT_BYTES \<le> length (im_data im) \<longrightarrow>
            (\<exists>e. encryptMessage seal key iv m = Inl (Error e))) \<and>
         (encryptMessage seal key iv m = Inr buf \<longrightarrow> length buf \<le> MAX_CIPHERTEXT_BYTES \<and> 29 \<le> length buf)"
proof (intro conjI [of "_ \<longrightarrow> _"] impI)
  assume "is_chunk m \<and> encodePlaintext m = Inr pt"
  moreover then have "length pt \<le> 3 + 0xffff + 262144" using chunk_plaintext_length by blast
  ultimately show "\<exists>buf. encryptMessage seal key iv m = Inr buf \<and> length buf < 400000"
    using assms by (auto simp: encryptMessage_def MAX_CIPHERTEXT_BYTES_def Let_def)
next
  assume m: "m = Content (Some i) (Image im) \<and> i \<noteq> [] \<and> MAX_CIPHERTEXT_BYTES \<le> length (im_data im)"
  then have enc: "encodePlaintext m = encodeBinaryEnvelope IMAGE_PLAIN_MARK (image_meta im i) (im_data im)"
    by (simp add: with_id_def)
  show "\<exists>e. encryptMessage seal key iv m = Inl (Error e)"
  proof (cases "encodePlaintext m")
    case (Inl e)
    then show ?thesis using enc by (auto simp: encryptMessage_def encodeBinaryEnvelope_def Let_def split: if_splits)
  next
    case (Inr pt)
    then have "length (im_data im) < length pt" using enc envelope_length by metis
    then show ?thesis using Inr assms m by (simp add: encryptMessage_def Let_def)
  qed
next
  assume "encryptMessage seal key iv m = Inr buf"
  then show "length buf \<le> MAX_CIPHERTEXT_BYTES \<and> 29 \<le> length buf"
    using assms by (auto simp: encryptMessage_Inr)
qed

theorem frames_fit_the_relay_witness:
  "\<exists>buf. encryptMessage toy_seal () (replicate 12 9) (TransferChunk toy_wire_chunk) = Inr buf \<and> length buf < 400000"
proof -
  obtain pt where "encodePlaintext (TransferChunk toy_wire_chunk) = Inr pt" using toy_wire_encodes by blast
  moreover have "is_chunk (TransferChunk toy_wire_chunk)" by (simp add: toy_wire_chunk_def limit_defs)
  moreover have "length (replicate 12 (9 :: byte)) = 12" by simp
  ultimately show ?thesis using frames_fit_the_relay [OF toy_aead] by blast
qed

end
