(* ===== verification/Backup.thy ===== *)
theory Backup
  imports Envelope
begin

text \<open>
  \<open>web/src/lib/crypto/backup.ts\<close>: the stored message as JSON (\<open>toWire\<close>, \<open>fromWire\<close>), the payload of an
  export, the derivation of its key, and the three ways to export and import a history. HKDF, PBKDF2 and
  AES-GCM are parameters; a \<open>CryptoKey\<close> is its 32 raw bytes.
\<close>

section \<open>Messages as JSON\<close>

fun side_text :: "side \<Rightarrow> jstr" where
  "side_text Self = js ''self''"
| "side_text Peer = js ''peer''"

definition wire_from :: "stored_message \<Rightarrow> jstr \<times> json" where
  "wire_from m = str ''from'' (side_text (sm_from m))"

fun toWire_content :: "stored_message \<Rightarrow> content \<Rightarrow> json" where
  "toWire_content m (File f) =
     JObj ([v1, num ''ts'' (fl_ts f), str ''type'' (js ''file''), str ''name'' (fl_name f),
            str ''mime'' (fl_mime f), str ''dataB64'' (bytesToBase64 (fl_data f)), str ''id'' (sm_id m), wire_from m]
           @ opt reply_json (fl_replyTo f))"
| "toWire_content m (Image im) =
     JObj ([v1, num ''ts'' (im_ts im), str ''type'' (js ''image''), str ''mime'' (mime_string (im_mime im)),
            str ''dataB64'' (bytesToBase64 (im_data im)), str ''id'' (sm_id m), wire_from m]
           @ opt (num ''w'') (im_w im) @ opt (num ''h'') (im_h im) @ opt reply_json (im_replyTo im))"
| "toWire_content m (Text t) =
     JObj ([v1, num ''ts'' (tx_ts t), str ''type'' (js ''text''), str ''body'' (tx_body t), str ''id'' (sm_id m),
            wire_from m]
           @ opt reply_json (tx_replyTo t))"

definition toWire :: "stored_message \<Rightarrow> json" where
  "toWire m = toWire_content m (sm_content m)"

definition get_side :: "json \<Rightarrow> side option" where
  "get_side j =
     (case get_str j ''from'' of
        None \<Rightarrow> None
      | Some s \<Rightarrow> if s = js ''self'' then Some Self else if s = js ''peer'' then Some Peer else None)"

definition fromWire_image :: "json \<Rightarrow> content option result" where
  "fromWire_image j =
     (case (get_num j ''ts'', get_mime j, get_text j ''dataB64'') of
        (Some ts, Some mime, Some b64) \<Rightarrow>
          bind_result (base64ToBytes b64)
            (\<lambda>bs. Inr (if MAX_TRANSFER_BYTES < length bs then None
                       else Some (Image \<lparr>im_ts = ts, im_mime = mime, im_data = bs, im_w = get_num j ''w'',
                                         im_h = get_num j ''h'', im_replyTo = get_reply j\<rparr>)))
      | _ \<Rightarrow> Inr None)"

definition fromWire_file :: "(jstr \<Rightarrow> jstr) \<Rightarrow> json \<Rightarrow> content option result" where
  "fromWire_file nfc j =
     (case (get_num j ''ts'', get_str j ''mime'') of
        (Some ts, Some mime) \<Rightarrow>
          if \<not> isValidMime mime then Inr None
          else bind_result (case get_text j ''dataB64'' of None \<Rightarrow> Inr [] | Some b64 \<Rightarrow> base64ToBytes b64)
            (\<lambda>bs. Inr (if MAX_TRANSFER_BYTES < length bs then None
                       else Some (File \<lparr>fl_ts = ts, fl_name = sanitizeFileName nfc (get_str j ''name''),
                                        fl_mime = mime, fl_data = bs, fl_replyTo = get_reply j\<rparr>)))
      | _ \<Rightarrow> Inr None)"

definition fromWire_text :: "json \<Rightarrow> content option" where
  "fromWire_text j =
     (case (get_str j ''body'', get_num j ''ts'') of
        (Some body, Some ts) \<Rightarrow> Some (Text \<lparr>tx_ts = ts, tx_body = body, tx_replyTo = get_reply j\<rparr>)
      | _ \<Rightarrow> None)"

definition fromWire :: "(jstr \<Rightarrow> jstr) \<Rightarrow> json \<Rightarrow> stored_message option result" where
  "fromWire nfc j =
     (case (get_str j ''id'', get_side j) of
        (Some i, Some side) \<Rightarrow>
          bind_result (if is_type j ''image'' then fromWire_image j
                       else if is_type j ''file'' then fromWire_file nfc j
                       else if is_type j ''text'' then Inr (fromWire_text j)
                       else Inr None)
            (\<lambda>c. Inr (map_option (\<lambda>c. \<lparr>sm_id = i, sm_from = side, sm_content = c\<rparr>) c))
      | _ \<Rightarrow> Inr None)"

text \<open>What the client stores: the messages of its own constructors and of the decoder.\<close>

definition storable :: "(jstr \<Rightarrow> jstr) \<Rightarrow> stored_message \<Rightarrow> bool" where
  "storable nfc m \<longleftrightarrow>
     (case sm_content m of
        Text t \<Rightarrow> good_num (tx_ts t) \<and> good_reply (tx_replyTo t)
      | Image im \<Rightarrow> good_num (im_ts im) \<and> good_opt (im_w im) \<and> good_opt (im_h im) \<and> good_reply (im_replyTo im) \<and>
          im_data im \<noteq> [] \<and> length (im_data im) \<le> MAX_TRANSFER_BYTES
      | File f \<Rightarrow> good_num (fl_ts f) \<and> good_reply (fl_replyTo f) \<and> isValidMime (fl_mime f) \<and>
          sanitizeFileName nfc (Some (fl_name f)) = fl_name f \<and> length (fl_data f) \<le> MAX_TRANSFER_BYTES)"

section \<open>Payloads\<close>

definition messages_json :: "stored_message list \<Rightarrow> json" where
  "messages_json ms = JObj [(js ''messages'', JArr (map toWire ms))]"

definition serializeMessages :: "stored_message list \<Rightarrow> jstr" where
  "serializeMessages ms = stringify (messages_json ms)"

fun fromWire_all :: "(jstr \<Rightarrow> jstr) \<Rightarrow> json list \<Rightarrow> stored_message list result" where
  "fromWire_all nfc [] = Inr []"
| "fromWire_all nfc (x # xs) =
     bind_result (fromWire nfc x)
       (\<lambda>m. bind_result (fromWire_all nfc xs)
         (\<lambda>ms. Inr (case m of None \<Rightarrow> ms | Some m \<Rightarrow> m # ms)))"

definition messages_of :: "(jstr \<Rightarrow> jstr) \<Rightarrow> string \<Rightarrow> bytes \<Rightarrow> stored_message list result" where
  "messages_of nfc err pt =
     (case json_of_bytes pt of
        None \<Rightarrow> Inl SyntaxError
      | Some p \<Rightarrow>
          if p = JNull then Inl TypeError
          else (case member p (js ''messages'') of
                  Some (JArr xs) \<Rightarrow> fromWire_all nfc xs
                | _ \<Rightarrow> Inl (Error err)))"

definition parseMessagesPayload :: "(jstr \<Rightarrow> jstr) \<Rightarrow> bytes \<Rightarrow> stored_message list result" where
  "parseMessagesPayload nfc pt = messages_of nfc ''bad payload'' pt"

section \<open>Keys\<close>

unbundle bit_operations_syntax

text \<open>The platform's key derivation: HKDF of the session key, PBKDF2 of a passphrase and a salt.\<close>

record kdf =
  kdf_hkdf :: "bytes \<Rightarrow> bytes"
  kdf_pbkdf2 :: "bytes \<Rightarrow> bytes \<Rightarrow> bytes"

text \<open>A passphrase that is empty counts as absent. \<open>rand\<close> is the fresh random salt.\<close>

definition truthy :: "jstr option \<Rightarrow> jstr option" where
  "truthy s = (if s = Some [] then None else s)"

definition deriveBackupKey ::
  "kdf \<Rightarrow> bytes \<Rightarrow> bytes \<Rightarrow> jstr option \<Rightarrow> bytes option \<Rightarrow> bytes \<times> bytes option" where
  "deriveBackupKey kd rand sessionKey passphrase passSalt =
     (let ikmBits = kdf_hkdf kd sessionKey
      in case truthy passphrase of
           Some p \<Rightarrow>
             (let salt = (case passSalt of Some s \<Rightarrow> s | None \<Rightarrow> rand);
                  passBits = kdf_pbkdf2 kd (utf8_encode p) salt;
                  mixed = map2 (XOR) (take 32 ikmBits) (take 32 passBits)
              in (mixed, Some salt))
         | None \<Rightarrow> (ikmBits, None))"

section \<open>Export files\<close>

record export_file =
  ef_version :: jsnum
  ef_bucket_id :: jstr
  ef_exported_at :: jstr
  ef_nonce :: jstr
  ef_ciphertext :: jstr
  ef_pass_salt :: "jstr option"

type_synonym sealer = "bytes \<Rightarrow> bytes \<Rightarrow> bytes \<Rightarrow> bytes"
type_synonym unsealer = "bytes \<Rightarrow> bytes \<Rightarrow> bytes \<Rightarrow> bytes option"

definition exportHistory ::
  "sealer \<Rightarrow> kdf \<Rightarrow> bytes \<Rightarrow> bytes \<Rightarrow> jstr \<Rightarrow> jstr \<Rightarrow> bytes \<Rightarrow> stored_message list \<Rightarrow> jstr option \<Rightarrow> export_file" where
  "exportHistory seal kd rand nonce now bucketId sessionKey messages passphrase =
     (let (key, passSalt) = deriveBackupKey kd rand sessionKey passphrase None;
          ct = seal key nonce (utf8_encode (serializeMessages messages))
      in \<lparr>ef_version = NumI 1, ef_bucket_id = bucketId, ef_exported_at = now,
          ef_nonce = bytesToBase64Url nonce, ef_ciphertext = bytesToBase64Url ct,
          ef_pass_salt = map_option bytesToBase64Url passSalt\<rparr>)"

definition exportHistoryWithPassphraseOnly ::
  "sealer \<Rightarrow> kdf \<Rightarrow> bytes \<Rightarrow> bytes \<Rightarrow> jstr \<Rightarrow> jstr \<Rightarrow> stored_message list \<Rightarrow> jstr \<Rightarrow> export_file" where
  "exportHistoryWithPassphraseOnly seal kd rand nonce now bucketId messages passphrase =
     (let key = kdf_pbkdf2 kd (utf8_encode passphrase) rand;
          ct = seal key nonce (utf8_encode (serializeMessages messages))
      in \<lparr>ef_version = NumI 1, ef_bucket_id = bucketId, ef_exported_at = now,
          ef_nonce = bytesToBase64Url nonce, ef_ciphertext = bytesToBase64Url ct,
          ef_pass_salt = Some (bytesToBase64Url rand)\<rparr>)"

text \<open>The key an import uses; \<open>pass_salt\<close> is read only where the source reads it.\<close>

definition import_key :: "kdf \<Rightarrow> export_file \<Rightarrow> bytes option \<Rightarrow> jstr option \<Rightarrow> bytes result" where
  "import_key kd f sessionKey passphrase =
     (case sessionKey of
        Some k \<Rightarrow>
          bind_result (case truthy (ef_pass_salt f) of
                         None \<Rightarrow> Inr None
                       | Some s \<Rightarrow> bind_result (base64UrlToBytes s) (\<lambda>bs. Inr (Some bs)))
            (\<lambda>salt. Inr (fst (deriveBackupKey kd [] k passphrase salt)))
      | None \<Rightarrow>
          (case (truthy (ef_pass_salt f), truthy passphrase) of
             (Some s, Some p) \<Rightarrow>
               bind_result (base64UrlToBytes s) (\<lambda>salt. Inr (kdf_pbkdf2 kd (utf8_encode p) salt))
           | _ \<Rightarrow> Inl (Error ''passphrase export required for keyless import'')))"

definition importHistory ::
  "(jstr \<Rightarrow> jstr) \<Rightarrow> unsealer \<Rightarrow> kdf \<Rightarrow> export_file \<Rightarrow> bytes option \<Rightarrow> jstr option \<Rightarrow>
   (jstr \<times> stored_message list) result" where
  "importHistory nfc unseal kd f sessionKey passphrase =
     (if \<not> num_eq (ef_version f) (NumI 1) then Inl (Error ''unsupported export version'')
      else if sessionKey = None \<and> truthy passphrase = None then Inl (Error ''need session key or passphrase'')
      else bind_result (import_key kd f sessionKey passphrase)
        (\<lambda>key. bind_result (base64UrlToBytes (ef_nonce f))
          (\<lambda>nonce. bind_result (base64UrlToBytes (ef_ciphertext f))
            (\<lambda>ct. (case unseal key nonce ct of
                     None \<Rightarrow> Inl (Error ''decrypt failed - wrong key or passphrase'')
                   | Some pt \<Rightarrow>
                       (case parseMessagesPayload nfc pt of
                          Inl e \<Rightarrow> Inl (Error ''decrypt failed - wrong key or passphrase'')
                        | Inr ms \<Rightarrow> Inr (ef_bucket_id f, ms)))))))"

section \<open>Round trips\<close>

lemma get_side_read: "get_str j ''from'' = Some (side_text s) \<Longrightarrow> get_side j = Some s"
  by (cases s) (simp_all add: get_side_def)

lemma bytesToBase64_empty [simp]: "bytesToBase64 bs = [] \<longleftrightarrow> bs = []"
proof
  assume "bytesToBase64 bs = []"
  then have "bytesToBase64 bs = bytesToBase64 []" by (simp add: bytesToBase64_def btoa_def pad_of_def)
  then show "bs = []" by (metis base64.enc_inj)
qed (simp add: bytesToBase64_def btoa_def pad_of_def)

lemma base64_back [simp]: "base64ToBytes (bytesToBase64 bs) = Inr bs"
  by (rule base64_roundtrip)

lemma toWire_good: "storable nfc m \<Longrightarrow> good_json (toWire m)"
  by (cases "sm_content m")
    (auto simp: toWire_def storable_def wire_from_def wire_writes mem_opt fst_opt good_opt_def)

lemma wire_from_str: "wire_from m = str ''from'' (side_text (sm_from m))"
  by (simp add: wire_from_def)

lemmas wire_members = toWire_def wire_from_str wire_get

lemma fromWire_toWire:
  assumes "storable nfc m"
  shows "fromWire nfc (toWire m) = Inr (Some m)"
proof -
  have side: "get_side (toWire m) = Some (sm_from m)"
    by (rule get_side_read) (cases "sm_content m"; simp add: wire_members)
  have i: "get_str (toWire m) ''id'' = Some (sm_id m)"
    by (cases "sm_content m") (simp_all add: wire_members)
  show ?thesis
  proof (cases "sm_content m")
    case (Text t)
    then have "get_reply (toWire m) = tx_replyTo t"
      using assms by (intro read_reply_text) (simp_all add: storable_def wire_members)
    then have "fromWire_text (toWire m) = Some (Text t)"
      using Text by (simp add: fromWire_text_def) (simp add: wire_members)
    moreover have "\<not> is_type (toWire m) ''image''" "\<not> is_type (toWire m) ''file''" "is_type (toWire m) ''text''"
      using Text by (simp_all add: wire_members)
    ultimately show ?thesis using side i Text by (simp add: fromWire_def)
  next
    case (Image im)
    then have "get_reply (toWire m) = im_replyTo im"
      using assms by (intro read_reply_text) (simp_all add: storable_def wire_members)
    moreover have "get_num (toWire m) ''ts'' = Some (im_ts im)" "get_mime (toWire m) = Some (im_mime im)"
      "get_num (toWire m) ''w'' = im_w im" "get_num (toWire m) ''h'' = im_h im"
      "get_text (toWire m) ''dataB64'' = Some (bytesToBase64 (im_data im))"
      using Image assms by (simp_all add: wire_members get_mime_def storable_def split: option.split)
    ultimately have "fromWire_image (toWire m) = Inr (Some (Image im))"
      using Image assms by (simp add: fromWire_image_def storable_def)
    moreover have "is_type (toWire m) ''image''" using Image by (simp add: wire_members)
    ultimately show ?thesis using side i Image by (simp add: fromWire_def)
  next
    case (File f)
    then have "get_reply (toWire m) = fl_replyTo f"
      using assms by (intro read_reply_text) (simp_all add: storable_def wire_members)
    moreover have "get_num (toWire m) ''ts'' = Some (fl_ts f)" "get_str (toWire m) ''mime'' = Some (fl_mime f)"
      "get_str (toWire m) ''name'' = Some (fl_name f)"
      "get_text (toWire m) ''dataB64'' = (if fl_data f = [] then None else Some (bytesToBase64 (fl_data f)))"
      using File by (simp_all add: wire_members)
    ultimately have "fromWire_file nfc (toWire m) = Inr (Some (File f))"
      using File assms by (simp add: fromWire_file_def storable_def)
    moreover have "is_type (toWire m) ''file''" "\<not> is_type (toWire m) ''image''" using File by (simp_all add: wire_members)
    ultimately show ?thesis using side i File by (simp add: fromWire_def)
  qed
qed

lemma fromWire_all_toWire:
  "list_all (storable nfc) ms \<Longrightarrow> fromWire_all nfc (map toWire ms) = Inr ms"
  by (induction ms) (simp_all add: fromWire_toWire)

lemma messages_roundtrip:
  assumes "list_all (storable nfc) ms"
  shows "messages_of nfc err (utf8_encode (serializeMessages ms)) = Inr ms"
proof -
  have "good_json (messages_json ms)"
    using assms by (auto simp: messages_json_def list_all_iff intro: toWire_good)
  then have "json_of_bytes (utf8_encode (serializeMessages ms)) = Some (messages_json ms)"
    using json_roundtrip by (simp add: serializeMessages_def json_bytes_def)
  then show ?thesis
    using fromWire_all_toWire [OF assms] by (simp add: messages_of_def messages_json_def member_step)
qed


lemma base64url_back [simp]: "base64UrlToBytes (bytesToBase64Url bs) = Inr bs"
  by (rule base64url_roundtrip)

lemma bytesToBase64Url_empty [simp]: "bytesToBase64Url bs = [] \<longleftrightarrow> bs = []"
proof
  assume "bytesToBase64Url bs = []"
  then have "bytesToBase64Url bs = bytesToBase64Url []" by (simp add: base64url_units)
  then show "bs = []" by (metis base64url.enc_inj)
qed (simp add: base64url_units)

text \<open>The salt of an export is never empty.\<close>

lemma import_same_key:
  assumes "length rand = 16"
  shows "import_key kd (exportHistory seal kd rand nonce now b k ms p) (Some k) p =
           Inr (fst (deriveBackupKey kd rand k p None))"
    and "truthy p \<noteq> None \<Longrightarrow> import_key kd (exportHistoryWithPassphraseOnly seal kd rand nonce now b ms (the p)) None p =
           Inr (kdf_pbkdf2 kd (utf8_encode (the p)) rand)"
proof -
  have "rand \<noteq> []" using assms by auto
  then show "import_key kd (exportHistory seal kd rand nonce now b k ms p) (Some k) p =
           Inr (fst (deriveBackupKey kd rand k p None))"
    by (cases p) (auto simp: import_key_def exportHistory_def deriveBackupKey_def truthy_def Let_def)
  show "import_key kd (exportHistoryWithPassphraseOnly seal kd rand nonce now b ms (the p)) None p =
           Inr (kdf_pbkdf2 kd (utf8_encode (the p)) rand)" if "truthy p \<noteq> None"
    using that \<open>rand \<noteq> []\<close> by (cases p) (auto simp: import_key_def exportHistoryWithPassphraseOnly_def truthy_def)
qed

lemma import_payload:
  assumes "aead seal unseal" "list_all (storable nfc) ms" "import_key kd f sk p = Inr key"
    and "ef_version f = NumI 1" "sk \<noteq> None \<or> truthy p \<noteq> None" "ef_nonce f = bytesToBase64Url nonce"
    and "ef_ciphertext f = bytesToBase64Url (seal key nonce (utf8_encode (serializeMessages ms)))"
  shows "importHistory nfc unseal kd f sk p = Inr (ef_bucket_id f, ms)"
proof -
  have "unseal key nonce (seal key nonce (utf8_encode (serializeMessages ms))) = Some (utf8_encode (serializeMessages ms))"
    using assms(1) by simp
  then show ?thesis
    using assms(3-7) messages_roundtrip [OF assms(2)]
    by (auto simp: importHistory_def parseMessagesPayload_def num_eq_def)
qed

text \<open>C30
  Backups restore. Whatever is exported, with the session key alone, with the session key and a
  passphrase, or with a passphrase alone, is imported with the same secrets to exactly the same messages
  and the same room; and without a key or passphrase nothing is imported.
\<close>

theorem backup_roundtrip:
  assumes "aead seal unseal" "length rand = 16" "list_all (storable nfc) ms"
  shows "importHistory nfc unseal kd (exportHistory seal kd rand nonce now b k ms p) (Some k) p = Inr (b, ms) \<and>
    (pp \<noteq> [] \<longrightarrow>
       importHistory nfc unseal kd (exportHistoryWithPassphraseOnly seal kd rand nonce now b ms pp) None (Some pp)
         = Inr (b, ms)) \<and>
    (\<exists>e. importHistory nfc unseal kd f None (Some []) = Inl e) \<and> (\<exists>e. importHistory nfc unseal kd f None None = Inl e)"
proof (intro conjI impI)
  show "importHistory nfc unseal kd (exportHistory seal kd rand nonce now b k ms p) (Some k) p = Inr (b, ms)"
    using import_payload [OF assms(1,3) import_same_key(1) [OF assms(2)]]
    by (auto simp: exportHistory_def Let_def split: prod.splits)
  show "importHistory nfc unseal kd (exportHistoryWithPassphraseOnly seal kd rand nonce now b ms pp) None (Some pp) = Inr (b, ms)"
    if "pp \<noteq> []"
    using that import_payload [OF assms(1,3) import_same_key(2) [OF assms(2), of "Some pp"]]
    by (auto simp: exportHistoryWithPassphraseOnly_def truthy_def)
qed (auto simp: importHistory_def truthy_def)

definition toy_kdf :: kdf where
  "toy_kdf = \<lparr>kdf_hkdf = (\<lambda>k. k), kdf_pbkdf2 = (\<lambda>p s. p @ s)\<rparr>"

definition toy_sealer :: sealer where "toy_sealer k iv pt = toy_seal () iv pt"
definition toy_unsealer :: unsealer where "toy_unsealer k iv ct = toy_unseal () iv ct"

lemma toy_sealer_aead: "aead toy_sealer toy_unsealer"
  using toy_aead by (simp add: aead_def toy_sealer_def toy_unsealer_def)

definition toy_stored :: stored_message where
  "toy_stored = \<lparr>sm_id = js ''m1'', sm_from = Self,
     sm_content = Text \<lparr>tx_ts = NumI 5, tx_body = js ''hi'', tx_replyTo = None\<rparr>\<rparr>"

lemma toy_storable: "storable nfc toy_stored"
  using huge_big [of 5] by (simp add: storable_def toy_stored_def good_reply_def)

theorem backup_roundtrip_witness:
  "importHistory (\<lambda>s. s) toy_unsealer toy_kdf
     (exportHistory toy_sealer toy_kdf (replicate 16 1) (replicate 12 2) (js ''now'') (js ''room'') [3, 4] [toy_stored] None)
     (Some [3, 4]) None = Inr (js ''room'', [toy_stored])"
  using backup_roundtrip [OF toy_sealer_aead, of "replicate 16 1" "\<lambda>s. s" "[toy_stored]"] toy_storable by simp

end
