(* ===== verification/Store.thy ===== *)
theory Store
  imports Backup "HOL-Library.List_Lexorder"
begin

text \<open>
  \<open>web/src/lib/storage/history.ts\<close>: the IndexedDB stores \<open>messages\<close>, \<open>rooms\<close> and \<open>meta\<close>, each a map from
  its key path. A transaction is atomic, so each function is one step on the database. A storage error
  (\<open>onerror\<close>) is not modelled.
\<close>

section \<open>State\<close>

record room_record =
  rec_bucketId :: jstr
  rec_nickname :: jstr
  rec_roomHash :: jstr
  rec_relayUrl :: jstr
  rec_createdAt :: int
  rec_lastActiveAt :: int
  rec_lastPreview :: "jstr option"
  rec_unread :: bool
  rec_credentialsEnc :: "(jstr \<times> jstr) option"
  rec_legacy :: "bool option"
  rec_isCreator :: "bool option"
  rec_seatReleased :: bool
  rec_lastPeerDeviceFp :: "jstr option"

text \<open>A row of the message store: its key, its bucket and the message.\<close>

record db =
  db_messages :: "(jstr, jstr \<times> stored_message) jsmap"
  db_rooms :: "(jstr, room_record) jsmap"
  db_meta :: "(jstr, jstr) jsmap"

definition empty_db :: db where
  "empty_db = \<lparr>db_messages = [], db_rooms = [], db_meta = []\<rparr>"

definition colon :: "16 word" where "colon = unit_of (CHR '':'')"

definition pk :: "jstr \<Rightarrow> jstr \<Rightarrow> jstr" where
  "pk bucketId i = bucketId @ colon # i"

section \<open>Messages\<close>

text \<open>What a reader makes of a row: names and types are checked again, a reply without an id is dropped.\<close>

definition normal_reply :: "reply_ref option \<Rightarrow> reply_ref option" where
  "normal_reply r = (case r of None \<Rightarrow> None | Some r \<Rightarrow> if rr_id r = [] then None else Some r)"

definition normalizeStored :: "(jstr \<Rightarrow> jstr) \<Rightarrow> stored_message \<Rightarrow> stored_message" where
  "normalizeStored nfc row =
     row\<lparr>sm_content := (case sm_content row of
        File f \<Rightarrow> File (f\<lparr>fl_name := sanitizeFileName nfc (Some (fl_name f)),
                         fl_mime := if isValidMime (fl_mime f) then fl_mime f else js ''application/octet-stream'',
                         fl_replyTo := normal_reply (fl_replyTo f)\<rparr>)
      | Image im \<Rightarrow> Image (im\<lparr>im_replyTo := normal_reply (im_replyTo im)\<rparr>)
      | Text t \<Rightarrow> Text (t\<lparr>tx_replyTo := normal_reply (tx_replyTo t)\<rparr>))\<rparr>"

definition in_bucket :: "jstr \<Rightarrow> jstr \<times> jstr \<times> stored_message \<Rightarrow> bool" where
  "in_bucket b row \<longleftrightarrow> fst (snd row) = b"

text \<open>
  Rows of one bucket have different ids, because the key is made of both, so the tie-breaker on the
  timestamp of the comparison function never applies.
\<close>

definition listMessages :: "(jstr \<Rightarrow> jstr) \<Rightarrow> jstr \<Rightarrow> db \<Rightarrow> stored_message list" where
  "listMessages nfc b d =
     sort_key sm_id (map (\<lambda>row. normalizeStored nfc (snd (snd row))) (filter (in_bucket b) (db_messages d)))"

definition addMessage :: "jstr \<Rightarrow> stored_message \<Rightarrow> db \<Rightarrow> db" where
  "addMessage b m d = d\<lparr>db_messages := AList.update (pk b (sm_id m)) (b, m) (db_messages d)\<rparr>"

fun merge_loop :: "jstr \<Rightarrow> jstr list \<Rightarrow> stored_message list \<Rightarrow> db \<Rightarrow> db" where
  "merge_loop b seen [] d = d"
| "merge_loop b seen (m # ms) d =
     (if sm_id m \<in> set seen then merge_loop b seen ms d
      else merge_loop b (set_add (sm_id m) seen) ms (addMessage b m d))"

definition mergeMessages :: "(jstr \<Rightarrow> jstr) \<Rightarrow> jstr \<Rightarrow> stored_message list \<Rightarrow> db \<Rightarrow> db" where
  "mergeMessages nfc b msgs d = merge_loop b (map sm_id (listMessages nfc b d)) msgs d"

definition deleteMessage :: "jstr \<Rightarrow> jstr \<Rightarrow> db \<Rightarrow> db" where
  "deleteMessage b i d = d\<lparr>db_messages := AList.delete (pk b i) (db_messages d)\<rparr>"

definition deleteMessagesForBucket :: "(jstr \<Rightarrow> jstr) \<Rightarrow> jstr \<Rightarrow> db \<Rightarrow> db" where
  "deleteMessagesForBucket nfc b d =
     fold (\<lambda>m d. deleteMessage b (sm_id m) d) (listMessages nfc b d) d"

section \<open>Rooms\<close>

definition upsertRoom :: "room_record \<Rightarrow> db \<Rightarrow> db" where
  "upsertRoom r d = d\<lparr>db_rooms := AList.update (rec_bucketId r) r (db_rooms d)\<rparr>"

definition getRoom :: "jstr \<Rightarrow> db \<Rightarrow> room_record option" where
  "getRoom b d = map_of (db_rooms d) b"

text \<open>Most recent first; the sort is stable, and the store lists its records by key.\<close>

definition listRooms :: "db \<Rightarrow> room_record list" where
  "listRooms d = sort_key (\<lambda>r. - rec_lastActiveAt r) (map snd (sort_key fst (db_rooms d)))"

definition with_room :: "jstr \<Rightarrow> (room_record \<Rightarrow> room_record) \<Rightarrow> db \<Rightarrow> db" where
  "with_room b f d = (case getRoom b d of None \<Rightarrow> d | Some r \<Rightarrow> upsertRoom (f r) d)"

definition defaultNickname :: "jstr \<Rightarrow> jstr" where
  "defaultNickname b = js ''Secure line '' @ 0xB7 # 0x20 # take 4 b"

definition setNickname :: "jstr \<Rightarrow> jstr \<Rightarrow> db \<Rightarrow> db" where
  "setNickname b n = with_room b (\<lambda>r. r\<lparr>rec_nickname := if trim n = [] then defaultNickname b else trim n\<rparr>)"

definition markUnread :: "jstr \<Rightarrow> bool \<Rightarrow> db \<Rightarrow> db" where
  "markUnread b u = with_room b (\<lambda>r. r\<lparr>rec_unread := u\<rparr>)"

definition markRead :: "jstr \<Rightarrow> db \<Rightarrow> db" where
  "markRead b d =
     (case getRoom b d of
        None \<Rightarrow> d
      | Some r \<Rightarrow> if \<not> rec_unread r then d else upsertRoom (r\<lparr>rec_unread := False\<rparr>) d)"

definition touchRoom :: "int \<Rightarrow> jstr \<Rightarrow> jstr option \<Rightarrow> db \<Rightarrow> db" where
  "touchRoom now b preview =
     with_room b (\<lambda>r. r\<lparr>rec_lastActiveAt := now,
                        rec_lastPreview := (case preview of None \<Rightarrow> rec_lastPreview r
                                            | Some p \<Rightarrow> Some (take 120 p))\<rparr>)"

definition removeRoom :: "jstr \<Rightarrow> db \<Rightarrow> db" where
  "removeRoom b d = d\<lparr>db_rooms := AList.delete b (db_rooms d)\<rparr>"

definition setSeatReleased :: "jstr \<Rightarrow> bool \<Rightarrow> db \<Rightarrow> db" where
  "setSeatReleased b released = with_room b (\<lambda>r. r\<lparr>rec_seatReleased := released\<rparr>)"

definition setLastPeerDeviceFp :: "jstr \<Rightarrow> jstr option \<Rightarrow> db \<Rightarrow> db" where
  "setLastPeerDeviceFp b fp = with_room b (\<lambda>r. r\<lparr>rec_lastPeerDeviceFp := truthy fp\<rparr>)"

definition partnerLabel :: "room_record option \<Rightarrow> jstr" where
  "partnerLabel r =
     (case r of
        None \<Rightarrow> js ''Partner''
      | Some r \<Rightarrow> if trim (rec_nickname r) = [] then js ''Partner'' else trim (rec_nickname r))"

section \<open>Meta entries\<close>

definition getMetaEntry :: "jstr \<Rightarrow> db \<Rightarrow> jstr option" where
  "getMetaEntry k d = map_of (db_meta d) k"

definition setMetaEntry :: "jstr \<Rightarrow> jstr \<Rightarrow> db \<Rightarrow> db" where
  "setMetaEntry k v d = d\<lparr>db_meta := AList.update k v (db_meta d)\<rparr>"

definition pending_key :: "jstr \<Rightarrow> jstr" where
  "pending_key b = js ''pendingOut:'' @ b"

definition getPendingOutgoing :: "jstr \<Rightarrow> db \<Rightarrow> jstr list" where
  "getPendingOutgoing b d =
     (case getMetaEntry (pending_key b) d of
        None \<Rightarrow> []
      | Some v \<Rightarrow>
          (case parse v of
             Some (JArr xs) \<Rightarrow> List.map_filter (\<lambda>x. case x of JStr s \<Rightarrow> Some s | _ \<Rightarrow> None) xs
           | _ \<Rightarrow> []))"

definition setPendingOutgoing :: "jstr \<Rightarrow> jstr list \<Rightarrow> db \<Rightarrow> db" where
  "setPendingOutgoing b ids = setMetaEntry (pending_key b) (stringify (JArr (map JStr ids)))"

definition getSoundEnabled :: "db \<Rightarrow> bool" where
  "getSoundEnabled d = (getMetaEntry (js ''soundEnabled'') d \<noteq> Some (js ''0''))"

definition setSoundEnabled :: "bool \<Rightarrow> db \<Rightarrow> db" where
  "setSoundEnabled e = setMetaEntry (js ''soundEnabled'') (if e then js ''1'' else js ''0'')"

definition hasSeenIntro :: "db \<Rightarrow> bool" where
  "hasSeenIntro d = (getMetaEntry (js ''introSeen'') d = Some (js ''1''))"

definition markIntroSeen :: "db \<Rightarrow> db" where
  "markIntroSeen = setMetaEntry (js ''introSeen'') (js ''1'')"

section \<open>The message store as a map\<close>

text \<open>The abstract content of a bucket: a message per id.\<close>

definition bucket_of :: "db \<Rightarrow> jstr \<Rightarrow> jstr \<Rightarrow> stored_message option" where
  "bucket_of d b i = map_option snd (map_of (db_messages d) (pk b i))"

definition db_ok :: "db \<Rightarrow> bool" where
  "db_ok d \<longleftrightarrow>
     distinct (map fst (db_messages d)) \<and>
     (\<forall>(k, b, m) \<in> set (db_messages d). k = pk b (sm_id m) \<and> colon \<notin> set b)"

lemma pk_inj: "colon \<notin> set b \<Longrightarrow> colon \<notin> set b' \<Longrightarrow> pk b i = pk b' i' \<longleftrightarrow> b = b' \<and> i = i'"
proof
  assume c: "colon \<notin> set b" "colon \<notin> set b'" and eq: "pk b i = pk b' i'"
  have "takeWhile (\<lambda>u. u \<noteq> colon) (pk x y) = x" if "colon \<notin> set x" for x y
    using that unfolding pk_def by (induction x) auto
  then have "b = b'" using c eq by metis
  with eq show "b = b' \<and> i = i'" by (simp add: pk_def)
qed simp

lemma pk_inj_same [simp]: "pk b i = pk b i' \<longleftrightarrow> i = i'"
  by (simp add: pk_def)

lemma empty_db_ok: "db_ok empty_db"
  by (simp add: db_ok_def empty_db_def)

lemma addMessage_ok: "db_ok d \<Longrightarrow> colon \<notin> set b \<Longrightarrow> db_ok (addMessage b m d)"
  by (auto simp: db_ok_def addMessage_def distinct_update set_update)

lemma deleteMessage_ok: "db_ok d \<Longrightarrow> db_ok (deleteMessage b i d)"
  by (auto simp: db_ok_def deleteMessage_def distinct_delete set_delete)

definition bucket_put :: "jstr \<Rightarrow> stored_message \<Rightarrow> (jstr \<Rightarrow> jstr \<Rightarrow> stored_message option) \<Rightarrow>
    jstr \<Rightarrow> jstr \<Rightarrow> stored_message option" where
  "bucket_put b m s = s(b := (s b)(sm_id m \<mapsto> m))"

lemma bucket_addMessage:
  "db_ok d \<Longrightarrow> colon \<notin> set b \<Longrightarrow> colon \<notin> set b' \<Longrightarrow>
   bucket_of (addMessage b m d) b' i = (if b' = b \<and> i = sm_id m then Some m else bucket_of d b' i)"
  by (auto simp: bucket_of_def addMessage_def update_conv' pk_inj)

lemma bucket_deleteMessage:
  "db_ok d \<Longrightarrow> colon \<notin> set b \<Longrightarrow> colon \<notin> set b' \<Longrightarrow>
   bucket_of (deleteMessage b j d) b' i = (if b' = b \<and> i = j then None else bucket_of d b' i)"
  by (auto simp: bucket_of_def deleteMessage_def delete_conv' pk_inj db_ok_def)

lemma bucket_member:
  assumes "db_ok d" "colon \<notin> set b"
  shows "bucket_of d b i = Some m \<longleftrightarrow> (pk b i, b, m) \<in> set (db_messages d) \<and> sm_id m = i"
proof -
  have "map_of (db_messages d) (pk b i) = Some (b', m) \<longleftrightarrow> (pk b i, b', m) \<in> set (db_messages d)" for b'
    using assms by (simp add: db_ok_def)
  then show ?thesis
    using assms by (force simp: bucket_of_def db_ok_def pk_inj)
qed

lemma normalize_id [simp]: "sm_id (normalizeStored nfc m) = sm_id m"
  by (simp add: normalizeStored_def)

lemma set_listMessages:
  assumes "db_ok d" "colon \<notin> set b"
  shows "set (listMessages nfc b d) = normalizeStored nfc ` {m. \<exists>i. bucket_of d b i = Some m}"
proof -
  have "{m. \<exists>i. bucket_of d b i = Some m} = (\<lambda>row. snd (snd row)) ` {row \<in> set (db_messages d). fst (snd row) = b}"
  proof (intro set_eqI iffI)
    fix m assume "m \<in> {m. \<exists>i. bucket_of d b i = Some m}"
    then show "m \<in> (\<lambda>row. snd (snd row)) ` {row \<in> set (db_messages d). fst (snd row) = b}"
      using assms by (force simp: bucket_member)
  next
    fix m assume "m \<in> (\<lambda>row. snd (snd row)) ` {row \<in> set (db_messages d). fst (snd row) = b}"
    then obtain k where "(k, b, m) \<in> set (db_messages d)" by auto
    moreover then have "k = pk b (sm_id m)" using assms by (auto simp: db_ok_def)
    ultimately have "bucket_of d b (sm_id m) = Some m" using assms by (simp add: bucket_member)
    then show "m \<in> {m. \<exists>i. bucket_of d b i = Some m}" by blast
  qed
  then show ?thesis by (simp add: listMessages_def in_bucket_def image_image)
qed

lemma bucket_id: "db_ok d \<Longrightarrow> colon \<notin> set b \<Longrightarrow> bucket_of d b i = Some m \<Longrightarrow> sm_id m = i"
  by (simp add: bucket_member)

lemma ids_listMessages:
  assumes "db_ok d" "colon \<notin> set b"
  shows "set (map sm_id (listMessages nfc b d)) = {i. bucket_of d b i \<noteq> None}"
proof -
  have "sm_id ` {m. \<exists>i. bucket_of d b i = Some m} = {i. bucket_of d b i \<noteq> None}"
    using bucket_id [OF assms] by (auto simp: image_iff)
  then show ?thesis by (simp add: set_listMessages [OF assms] image_image)
qed

lemma distinct_listMessages:
  assumes "db_ok d"
  shows "distinct (map sm_id (listMessages nfc b d))"
proof -
  let ?rows = "filter (in_bucket b) (db_messages d)"
  have "distinct (map fst ?rows)" using assms by (simp add: db_ok_def distinct_map_filter)
  moreover have "map fst ?rows = map (pk b) (map (\<lambda>row. sm_id (snd (snd row))) ?rows)"
    using assms by (auto simp: db_ok_def in_bucket_def)
  ultimately have "distinct (map (\<lambda>row. sm_id (snd (snd row))) ?rows)"
    by (metis distinct_map)
  then have "distinct (map sm_id (map (\<lambda>row. normalizeStored nfc (snd (snd row))) ?rows))"
    by (simp add: comp_def)
  moreover have "mset (map sm_id (sort_key sm_id xs)) = mset (map sm_id xs)" for xs :: "stored_message list"
    by simp
  ultimately show ?thesis
    unfolding listMessages_def using mset_eq_imp_distinct_iff by blast
qed

lemma sorted_listMessages: "sorted (map sm_id (listMessages nfc b d))"
  by (simp add: listMessages_def)

section \<open>Merging\<close>

text \<open>
  What a store of messages promises the code that merges into it, and the reference meaning of a merge:
  each message in turn is added unless its id is there already.
\<close>

locale message_store =
  fixes lookup :: "'s \<Rightarrow> jstr \<Rightarrow> stored_message option"
    and add :: "stored_message \<Rightarrow> 's \<Rightarrow> 's"
    and wf :: "'s \<Rightarrow> bool"
  assumes add_wf: "wf s \<Longrightarrow> wf (add m s)"
    and lookup_add: "wf s \<Longrightarrow> lookup (add m s) i = (if i = sm_id m then Some m else lookup s i)"
begin

fun merge :: "stored_message list \<Rightarrow> 's \<Rightarrow> 's" where
  "merge [] s = s"
| "merge (m # ms) s = merge ms (if lookup s (sm_id m) = None then add m s else s)"

lemma merge_wf: "wf s \<Longrightarrow> wf (merge ms s)"
  by (induction ms arbitrary: s) (auto simp: add_wf)

lemma lookup_merge:
  "wf s \<Longrightarrow> lookup (merge ms s) i =
     (case lookup s i of Some m \<Rightarrow> Some m | None \<Rightarrow> List.find (\<lambda>m. sm_id m = i) ms)"
  by (induction ms arbitrary: s) (auto simp: add_wf lookup_add split: option.splits)

lemma merge_keeps: "wf s \<Longrightarrow> lookup s i = Some m \<Longrightarrow> lookup (merge ms s) i = Some m"
  by (simp add: lookup_merge)

lemma merge_idem: "wf s \<Longrightarrow> lookup (merge ms (merge ms s)) i = lookup (merge ms s) i"
  by (simp add: lookup_merge merge_wf split: option.split)

end

text \<open>One bucket of the database, whose id has no colon, is such a store.\<close>

definition bucket_ok :: "jstr \<Rightarrow> db \<Rightarrow> bool" where
  "bucket_ok b d \<longleftrightarrow> db_ok d \<and> colon \<notin> set b"

interpretation bucket: message_store "\<lambda>d. bucket_of d b" "addMessage b" "bucket_ok b"
  by unfold_locales (auto simp: bucket_ok_def addMessage_ok bucket_addMessage)

lemma merge_loop_is_merge:
  "bucket_ok b d \<Longrightarrow> set seen = {i. bucket_of d b i \<noteq> None} \<Longrightarrow> merge_loop b seen ms d = bucket.merge b ms d"
proof (induction ms arbitrary: seen d)
  case Nil
  then show ?case by simp
next
  case (Cons m ms)
  show ?case
  proof (cases "bucket_of d b (sm_id m) = None")
    case True
    have "set (set_add (sm_id m) seen) = {i. bucket_of (addMessage b m d) b i \<noteq> None}"
      using Cons.prems by (auto simp: bucket.lookup_add)
    then show ?thesis using Cons True by (simp add: bucket.add_wf)
  next
    case False
    then show ?thesis using Cons by auto
  qed
qed

lemma mergeMessages_is_merge: "bucket_ok b d \<Longrightarrow> mergeMessages nfc b ms d = bucket.merge b ms d"
  unfolding mergeMessages_def
  by (rule merge_loop_is_merge) (simp_all add: ids_listMessages bucket_ok_def del: set_map)

lemma merge_other_bucket:
  "bucket_ok b d \<Longrightarrow> colon \<notin> set b' \<Longrightarrow> b' \<noteq> b \<Longrightarrow> bucket_of (bucket.merge b ms d) b' i = bucket_of d b' i"
proof (induction ms arbitrary: d)
  case Nil
  then show ?case by simp
next
  case (Cons m ms)
  then show ?case using bucket.add_wf by (simp add: bucket_addMessage bucket_ok_def)
qed

lemma delete_many:
  "bucket_ok b d \<Longrightarrow> colon \<notin> set b' \<Longrightarrow>
   db_ok (fold (\<lambda>m d. deleteMessage b (sm_id m) d) ms d) \<and>
   bucket_of (fold (\<lambda>m d. deleteMessage b (sm_id m) d) ms d) b' i =
     (if b' = b \<and> i \<in> set (map sm_id ms) then None else bucket_of d b' i)"
  by (induction ms arbitrary: d) (auto simp: bucket_ok_def deleteMessage_ok bucket_deleteMessage)

lemma bucket_deleteMessagesForBucket:
  assumes "bucket_ok b d" "colon \<notin> set b'"
  shows "bucket_of (deleteMessagesForBucket nfc b d) b' i = (if b' = b then None else bucket_of d b' i)"
proof -
  have "i \<in> set (map sm_id (listMessages nfc b d)) \<longleftrightarrow> bucket_of d b i \<noteq> None"
    using assms ids_listMessages [of d b nfc] by (simp add: bucket_ok_def del: set_map)
  with delete_many [OF assms, of "listMessages nfc b d" i] show ?thesis
    unfolding deleteMessagesForBucket_def by metis
qed

lemma deleteMessagesForBucket_ok: "bucket_ok b d \<Longrightarrow> db_ok (deleteMessagesForBucket nfc b d)"
  unfolding deleteMessagesForBucket_def bucket_ok_def [symmetric]
  using delete_many [of b d b "listMessages nfc b d"] by (simp add: bucket_ok_def)

end
