(* ===== verification/HistorySync.thy ===== *)
theory HistorySync
  imports Store
begin

text \<open>
  \<open>web/src/lib/crypto/history-sync.ts\<close>: the digest two clients compare, the differential payload, and what
  the receiver makes of it. SHA-256 and gzip are parameters. The comparison function
  \<open>compareMessages\<close> is used only by its test and has no model.
\<close>

section \<open>Digest and difference\<close>

definition sortMessageIds :: "jstr list \<Rightarrow> jstr list" where
  "sortMessageIds ids = sort ids"

fun join_lines :: "jstr list \<Rightarrow> jstr" where
  "join_lines [] = []"
| "join_lines [s] = s"
| "join_lines (s # ss) = s @ 0x0A # join_lines ss"

definition computeIdHash :: "(bytes \<Rightarrow> bytes) \<Rightarrow> jstr list \<Rightarrow> jstr" where
  "computeIdHash sha ids = bytesToBase64Url (sha (utf8_encode (join_lines (sortMessageIds ids))))"

definition deviceFingerprint :: "(bytes \<Rightarrow> bytes) \<Rightarrow> jstr \<Rightarrow> jstr" where
  "deviceFingerprint sha sessionId = bytesToBase64Url (sha (utf8_encode (js ''byteln-device|'' @ sessionId)))"

definition idsOnlyInA :: "jstr list \<Rightarrow> jstr list \<Rightarrow> jstr list" where
  "idsOnlyInA a b = filter (\<lambda>i. i \<notin> set b) a"

fun flip_side :: "side \<Rightarrow> side" where
  "flip_side Self = Peer"
| "flip_side Peer = Self"

definition flipFrom :: "stored_message \<Rightarrow> stored_message" where
  "flipFrom m = m\<lparr>sm_from := flip_side (sm_from m)\<rparr>"

definition filterMessagesByIds :: "stored_message list \<Rightarrow> jstr list \<Rightarrow> stored_message list" where
  "filterMessagesByIds messages ids = filter (\<lambda>m. sm_id m \<in> set ids) messages"

section \<open>Payload\<close>

definition packMessagesForSync :: "(bytes \<Rightarrow> bytes) \<Rightarrow> stored_message list \<Rightarrow> bytes" where
  "packMessagesForSync gzip messages = gzip (utf8_encode (stringify (messages_json messages)))"

text \<open>A stream that is not valid gzip fails with a \<open>TypeError\<close>.\<close>

definition unpackMessagesFromSync ::
  "(jstr \<Rightarrow> jstr) \<Rightarrow> (bytes \<Rightarrow> bytes option) \<Rightarrow> bytes \<Rightarrow> stored_message list result" where
  "unpackMessagesFromSync nfc gunzip compressed =
     (case gunzip compressed of
        None \<Rightarrow> Inl TypeError
      | Some pt \<Rightarrow>
          bind_result (messages_of nfc ''bad sync payload'' pt) (\<lambda>ms. Inr (map flipFrom ms)))"

lemma flip_flip [simp]: "flip_side (flip_side s) = s"
  by (cases s) simp_all

lemma flipFrom_fields [simp]:
  "sm_id (flipFrom m) = sm_id m" "sm_content (flipFrom m) = sm_content m" "flipFrom (flipFrom m) = m"
  by (simp_all add: flipFrom_def)

lemma unpack_pack:
  assumes "\<forall>bs. gunzip (gzip bs) = Some bs" "list_all (storable nfc) ms"
  shows "unpackMessagesFromSync nfc gunzip (packMessagesForSync gzip ms) = Inr (map flipFrom ms)"
  using messages_roundtrip [OF assms(2)] assms(1)
  by (simp add: unpackMessagesFromSync_def packMessagesForSync_def serializeMessages_def)

lemma computeIdHash_set:
  "distinct xs \<Longrightarrow> distinct ys \<Longrightarrow> set xs = set ys \<Longrightarrow> computeIdHash sha xs = computeIdHash sha ys"
  by (metis computeIdHash_def sortMessageIds_def sorted_list_of_set_sort_remdups distinct_remdups_id)

section \<open>What a payload can do\<close>

text \<open>The bounds on a message that came in a payload, whoever made it.\<close>

definition stored_safe :: "stored_message \<Rightarrow> bool" where
  "stored_safe m \<longleftrightarrow>
     (case sm_content m of
        Text t \<Rightarrow> good_reply (tx_replyTo t)
      | Image im \<Rightarrow> length (im_data im) \<le> MAX_TRANSFER_BYTES \<and> good_reply (im_replyTo im)
      | File f \<Rightarrow> length (fl_data f) \<le> MAX_TRANSFER_BYTES \<and> isValidMime (fl_mime f) \<and> good_reply (fl_replyTo f) \<and>
          fl_name f \<noteq> [] \<and> length (fl_name f) \<le> MAX_FILE_NAME_LENGTH \<and> list_all safe_unit (fl_name f))"

lemma fromWire_safe:
  assumes "nfc_keeps_separators_out nfc" "fromWire nfc j = Inr (Some m)"
  shows "stored_safe m"
proof -
  have "fromWire_image j = Inr (Some c) \<Longrightarrow> \<exists>im. c = Image im \<and> length (im_data im) \<le> MAX_TRANSFER_BYTES \<and> good_reply (im_replyTo im)" for c
    by (auto simp: fromWire_image_def bind_result_Inr split: option.splits if_splits)
  moreover have "fromWire_file nfc j = Inr (Some c) \<Longrightarrow>
      \<exists>f. c = File f \<and> length (fl_data f) \<le> MAX_TRANSFER_BYTES \<and> isValidMime (fl_mime f) \<and> good_reply (fl_replyTo f) \<and>
        (\<exists>n. fl_name f = sanitizeFileName nfc n)" for c
    by (auto simp: fromWire_file_def bind_result_Inr split: option.splits if_splits)
  moreover have "fromWire_text j = Some c \<Longrightarrow> \<exists>t. c = Text t \<and> good_reply (tx_replyTo t)" for c
    by (auto simp: fromWire_text_def split: option.splits)
  moreover have "list_all safe_unit (sanitizeFileName nfc n)" for n
    using sanitizeFileName_units [OF assms(1)] by (auto simp: list_all_iff)
  ultimately show ?thesis
    using assms(2)
    by (fastforce simp: fromWire_def bind_result_Inr stored_safe_def sanitizeFileName_nonempty sanitizeFileName_length
        split: option.splits if_splits)
qed

lemma fromWire_all_safe:
  "nfc_keeps_separators_out nfc \<Longrightarrow> fromWire_all nfc xs = Inr ms \<Longrightarrow> list_all stored_safe ms"
  by (induction xs arbitrary: ms) (auto simp: bind_result_Inr dest: fromWire_safe split: option.splits)

lemma messages_of_safe:
  "nfc_keeps_separators_out nfc \<Longrightarrow> messages_of nfc err pt = Inr ms \<Longrightarrow> list_all stored_safe ms"
  by (auto simp: messages_of_def dest: fromWire_all_safe split: option.splits json.splits if_splits)

lemma unpack_safe:
  assumes "nfc_keeps_separators_out nfc" "unpackMessagesFromSync nfc gunzip bs = Inr ms"
  shows "list_all stored_safe ms"
proof -
  obtain pt ms0 where "messages_of nfc ''bad sync payload'' pt = Inr ms0" "ms = map flipFrom ms0"
    using assms(2) by (auto simp: unpackMessagesFromSync_def bind_result_Inr split: option.splits)
  then show ?thesis
    using messages_of_safe [OF assms(1)] by (auto simp: list_all_iff stored_safe_def)
qed

text \<open>What the receiver does with an assembled payload: unpack it and merge the messages into the store.\<close>

definition apply_sync ::
  "(jstr \<Rightarrow> jstr) \<Rightarrow> (bytes \<Rightarrow> bytes option) \<Rightarrow> jstr \<Rightarrow> bytes \<Rightarrow> db \<Rightarrow> db result" where
  "apply_sync nfc gunzip b payload d =
     bind_result (unpackMessagesFromSync nfc gunzip payload) (\<lambda>ms. Inr (mergeMessages nfc b ms d))"

lemma find_Some_mem: "List.find P xs = Some x \<Longrightarrow> x \<in> set xs \<and> P x"
  by (auto simp: find_Some_iff)

text \<open>C31
  A history payload cannot harm. Whatever bytes the partner sends, applying them leaves every stored
  message of the room and every other room as they were; each message it adds is bounded and has a safe
  file name and a valid type; and a payload that is malformed changes nothing at all.
\<close>

theorem sync_payload_is_harmless:
  assumes "nfc_keeps_separators_out nfc" "bucket_ok b d" "apply_sync nfc gunzip b payload d = Inr d'"
  shows "bucket_ok b d' \<and>
    (\<forall>i m. bucket_of d b i = Some m \<longrightarrow> bucket_of d' b i = Some m) \<and>
    (\<forall>b' i. b' \<noteq> b \<and> colon \<notin> set b' \<longrightarrow> bucket_of d' b' i = bucket_of d b' i) \<and>
    (\<forall>i m. bucket_of d b i = None \<and> bucket_of d' b i = Some m \<longrightarrow> stored_safe m \<and> sm_id m = i) \<and>
    db_rooms d' = db_rooms d \<and> db_meta d' = db_meta d"
proof -
  obtain ms where ms: "unpackMessagesFromSync nfc gunzip payload = Inr ms" and d': "d' = bucket.merge b ms d"
    using assms(2,3) by (auto simp: apply_sync_def bind_result_Inr mergeMessages_is_merge)
  have safe: "stored_safe m" if "m \<in> set ms" for m
    using unpack_safe [OF assms(1) ms] that by (simp add: list_all_iff)
  have rest: "db_rooms (bucket.merge b xs x) = db_rooms x \<and> db_meta (bucket.merge b xs x) = db_meta x" for xs x
    by (induction xs arbitrary: x) (simp_all add: addMessage_def)
  show ?thesis
    unfolding d' using assms(2) rest
    by (auto simp: bucket.lookup_merge bucket.merge_wf merge_other_bucket dest!: find_Some_mem intro: safe)
qed

lemma toy_bucket: "bucket_ok (js ''r'') empty_db"
  by (simp add: bucket_ok_def empty_db_ok js_def unit_of_def colon_def)

theorem sync_payload_is_harmless_witness:
  "\<exists>d'. apply_sync (\<lambda>s. s) Some (js ''r'') (packMessagesForSync (\<lambda>b. b) [toy_stored]) empty_db = Inr d' \<and>
        bucket_ok (js ''r'') d' \<and> db_rooms d' = []"
proof -
  have "unpackMessagesFromSync (\<lambda>s. s) Some (packMessagesForSync (\<lambda>b. b) [toy_stored]) = Inr (map flipFrom [toy_stored])"
    by (rule unpack_pack) (simp_all add: toy_storable)
  then obtain d' where
    d': "apply_sync (\<lambda>s. s) Some (js ''r'') (packMessagesForSync (\<lambda>b. b) [toy_stored]) empty_db = Inr d'"
    by (simp add: apply_sync_def)
  with sync_payload_is_harmless [OF toy_nfc toy_bucket d'] show ?thesis by (simp add: empty_db_def)
qed

section \<open>Two peers\<close>

text \<open>The payload a peer sends: its messages whose ids the other one has not listed.\<close>

definition differential :: "(bytes \<Rightarrow> bytes) \<Rightarrow> stored_message list \<Rightarrow> jstr list \<Rightarrow> bytes" where
  "differential gzip myMsgs peerIds =
     (let onlyMine = idsOnlyInA (map sm_id myMsgs) peerIds
      in packMessagesForSync gzip (filterMessagesByIds myMsgs onlyMine))"

definition all_storable :: "(jstr \<Rightarrow> jstr) \<Rightarrow> jstr \<Rightarrow> db \<Rightarrow> bool" where
  "all_storable nfc b d \<longleftrightarrow> (\<forall>i m. bucket_of d b i = Some m \<longrightarrow> storable nfc m)"

lemma normalize_storable: "storable nfc m \<Longrightarrow> normalizeStored nfc m = m"
  by (cases "sm_content m")
    (auto simp: storable_def normalizeStored_def normal_reply_def good_reply_def intro!: stored_message.equality
      text_content.equality image_content.equality file_content.equality split: option.splits)

lemma listMessages_storable:
  assumes "bucket_ok b d" "all_storable nfc b d"
  shows "set (listMessages nfc b d) = {m. bucket_of d b (sm_id m) = Some m}"
    and "list_all (storable nfc) (listMessages nfc b d)"
proof -
  have "set (listMessages nfc b d) = normalizeStored nfc ` {m. \<exists>i. bucket_of d b i = Some m}"
    using assms(1) by (simp add: set_listMessages bucket_ok_def)
  also have "\<dots> = (\<lambda>m. m) ` {m. \<exists>i. bucket_of d b i = Some m}"
    using assms(2) by (intro image_cong) (auto simp: all_storable_def normalize_storable)
  also have "\<dots> = {m. bucket_of d b (sm_id m) = Some m}"
    using assms(1) bucket_id by (fastforce simp: bucket_ok_def)
  finally show set: "set (listMessages nfc b d) = {m. bucket_of d b (sm_id m) = Some m}" .
  show "list_all (storable nfc) (listMessages nfc b d)"
    using assms(2) by (auto simp: list_all_iff set all_storable_def)
qed

lemma find_by_id:
  assumes "distinct (map sm_id xs)" "m \<in> set xs" "sm_id m = i"
  shows "List.find (\<lambda>m. sm_id m = i) xs = Some m"
  using assms by (induction xs) auto

lemma ids_of_bucket:
  "bucket_ok b d \<Longrightarrow> i \<in> set (map sm_id (listMessages nfc b d)) \<longleftrightarrow> bucket_of d b i \<noteq> None"
  using ids_listMessages [of d b nfc] by (simp add: bucket_ok_def del: set_map)

lemma differential_applied:
  assumes "\<forall>bs. gunzip (gzip bs) = Some bs"
    and a: "bucket_ok b dA" "set idsA = set (map sm_id (listMessages nfc b dA))"
    and b: "bucket_ok b dB" "all_storable nfc b dB"
  shows "\<exists>d. apply_sync nfc gunzip b (differential gzip (listMessages nfc b dB) idsA) dA = Inr d \<and> bucket_ok b d \<and>
    (\<forall>i. bucket_of d b i =
       (case bucket_of dA b i of Some m \<Rightarrow> Some m | None \<Rightarrow> map_option flipFrom (bucket_of dB b i)))"
proof -
  let ?ms = "listMessages nfc b dB"
  let ?send = "filterMessagesByIds ?ms (idsOnlyInA (map sm_id ?ms) idsA)"
  note msgs = listMessages_storable [OF b]
  have sub: "set ?send = {m \<in> set ?ms. sm_id m \<notin> set idsA}"
    by (auto simp: filterMessagesByIds_def idsOnlyInA_def)
  have dist: "distinct (map sm_id ?send)"
    using distinct_listMessages [of dB nfc b] b(1)
    by (simp add: filterMessagesByIds_def distinct_map_filter bucket_ok_def)
  have find: "List.find (\<lambda>m. sm_id m = i) (map flipFrom ?send) = map_option flipFrom (bucket_of dB b i)"
    if "bucket_of dA b i = None" for i
  proof (cases "bucket_of dB b i")
    case (Some m)
    have "i \<notin> set idsA" using that a(2) ids_of_bucket [OF a(1)] by simp
    moreover have "sm_id m = i" using b(1) Some bucket_id unfolding bucket_ok_def by blast
    ultimately have "m \<in> set ?send" using Some by (simp add: sub msgs(1))
    then have "List.find (\<lambda>m. sm_id m = i) (map flipFrom ?send) = Some (flipFrom m)"
      using dist \<open>sm_id m = i\<close> by (intro find_by_id) (simp_all add: comp_def)
    with Some show ?thesis by simp
  next
    case None
    then have "\<forall>m \<in> set ?send. sm_id m \<noteq> i" by (auto simp: sub msgs(1))
    then have "List.find (\<lambda>m. sm_id m = i) (map flipFrom ?send) = None" by (simp add: find_None_iff)
    with None show ?thesis by simp
  qed
  have "list_all (storable nfc) ?send" using msgs(2) by (auto simp: list_all_iff sub)
  then have "apply_sync nfc gunzip b (differential gzip ?ms idsA) dA = Inr (bucket.merge b (map flipFrom ?send) dA)"
    using unpack_pack [of gunzip gzip, OF assms(1)] a(1) by (simp add: apply_sync_def differential_def mergeMessages_is_merge)
  then show ?thesis
    using a(1) find by (auto simp: bucket.lookup_merge bucket.merge_wf split: option.splits)
qed

text \<open>C32
  History synchronisation converges. After each of two peers has applied the other's differential payload,
  both hold exactly the union of their messages: what a peer had is unchanged, what it lacked is the
  partner's message with the two sides exchanged, and the digests they then publish are equal, so neither
  sees a mismatch.
\<close>

theorem sync_converges:
  assumes "\<forall>bs. gunzip (gzip bs) = Some bs"
    and "bucket_ok b dA" "all_storable nfc b dA" "bucket_ok b dB" "all_storable nfc b dB"
  shows "\<exists>dA' dB'.
    apply_sync nfc gunzip b
      (differential gzip (listMessages nfc b dB) (sortMessageIds (map sm_id (listMessages nfc b dA)))) dA = Inr dA' \<and>
    apply_sync nfc gunzip b
      (differential gzip (listMessages nfc b dA) (sortMessageIds (map sm_id (listMessages nfc b dB)))) dB = Inr dB' \<and>
    (\<forall>i. bucket_of dA' b i =
       (case bucket_of dA b i of Some m \<Rightarrow> Some m | None \<Rightarrow> map_option flipFrom (bucket_of dB b i))) \<and>
    (\<forall>i. bucket_of dB' b i =
       (case bucket_of dB b i of Some m \<Rightarrow> Some m | None \<Rightarrow> map_option flipFrom (bucket_of dA b i))) \<and>
    computeIdHash sha (map sm_id (listMessages nfc b dA')) = computeIdHash sha (map sm_id (listMessages nfc b dB'))"
proof -
  have sorted: "set (sortMessageIds ids) = set ids" for ids by (simp add: sortMessageIds_def)
  obtain dA' where A: "apply_sync nfc gunzip b
      (differential gzip (listMessages nfc b dB) (sortMessageIds (map sm_id (listMessages nfc b dA)))) dA = Inr dA'"
    "bucket_ok b dA'" "\<forall>i. bucket_of dA' b i =
       (case bucket_of dA b i of Some m \<Rightarrow> Some m | None \<Rightarrow> map_option flipFrom (bucket_of dB b i))"
    using differential_applied [where gunzip = gunzip and gzip = gzip, OF assms(1) assms(2) _ assms(4) assms(5), OF sorted] by blast
  obtain dB' where B: "apply_sync nfc gunzip b
      (differential gzip (listMessages nfc b dA) (sortMessageIds (map sm_id (listMessages nfc b dB)))) dB = Inr dB'"
    "bucket_ok b dB'" "\<forall>i. bucket_of dB' b i =
       (case bucket_of dB b i of Some m \<Rightarrow> Some m | None \<Rightarrow> map_option flipFrom (bucket_of dA b i))"
    using differential_applied [where gunzip = gunzip and gzip = gzip, OF assms(1) assms(4) _ assms(2) assms(3), OF sorted] by blast
  have "set (map sm_id (listMessages nfc b dA')) = set (map sm_id (listMessages nfc b dB'))"
  proof (intro set_eqI)
    fix i
    show "i \<in> set (map sm_id (listMessages nfc b dA')) \<longleftrightarrow> i \<in> set (map sm_id (listMessages nfc b dB'))"
      unfolding ids_of_bucket [OF A(2)] ids_of_bucket [OF B(2)]
      using A(3) B(3) by (auto split: option.splits)
  qed
  then have "computeIdHash sha (map sm_id (listMessages nfc b dA')) = computeIdHash sha (map sm_id (listMessages nfc b dB'))"
    using A(2) B(2) by (intro computeIdHash_set distinct_listMessages) (simp_all add: bucket_ok_def)
  with A B show ?thesis by blast
qed

theorem sync_converges_witness:
  "\<exists>dA'. apply_sync (\<lambda>s. s) Some (js ''r'')
      (differential (\<lambda>b. b) (listMessages (\<lambda>s. s) (js ''r'') (addMessage (js ''r'') toy_stored empty_db))
        (sortMessageIds (map sm_id (listMessages (\<lambda>s. s) (js ''r'') empty_db)))) empty_db = Inr dA' \<and>
     bucket_of dA' (js ''r'') (js ''m1'') = Some (flipFrom toy_stored)"
proof -
  let ?d = "addMessage (js ''r'') toy_stored empty_db"
  have none: "bucket_of empty_db b i = None" for b i by (simp add: bucket_of_def empty_db_def)
  have some: "bucket_of ?d (js ''r'') i = (if i = sm_id toy_stored then Some toy_stored else None)" for i
    using toy_bucket none by (simp add: bucket.lookup_add)
  have ok: "bucket_ok (js ''r'') ?d" using toy_bucket bucket.add_wf by blast
  have st: "all_storable (\<lambda>s. s) (js ''r'') empty_db" "all_storable (\<lambda>s. s) (js ''r'') ?d"
    by (simp_all add: all_storable_def none some toy_storable)
  obtain dA' where a: "apply_sync (\<lambda>s. s) Some (js ''r'')
      (differential (\<lambda>b. b) (listMessages (\<lambda>s. s) (js ''r'') ?d)
        (sortMessageIds (map sm_id (listMessages (\<lambda>s. s) (js ''r'') empty_db)))) empty_db = Inr dA'"
    and l: "\<forall>i. bucket_of dA' (js ''r'') i =
       (case bucket_of empty_db (js ''r'') i of Some m \<Rightarrow> Some m | None \<Rightarrow> map_option flipFrom (bucket_of ?d (js ''r'') i))"
    using sync_converges [of Some "\<lambda>b. b" "js ''r''" empty_db "\<lambda>s. s" ?d, OF _ toy_bucket st(1) ok st(2)] by blast
  have "sm_id toy_stored = js ''m1''" by (simp add: toy_stored_def)
  with a l show ?thesis by (auto simp: none some)
qed

end
