(* ===== verification/Pacer.thy ===== *)
theory Pacer
  imports Complex_Main Prelude
begin

text \<open>
  \<open>Pacer\<close> of \<open>web/src/lib/relay/pacer.ts\<close>: the token bucket that keeps bulk sends under the relay's
  throughput cap. Times are milliseconds; the bucket's level, a floating-point number in the code, is
  a rational here, so rounding is not modelled. \<open>take\<close> chains its callers, which are served one after
  the other; a call loops over readings of the clock, sleeping between them.
\<close>

definition PACER_BYTES_PER_SEC :: nat where "PACER_BYTES_PER_SEC = 200 * 1024"
definition PACER_BURST_BYTES :: nat where "PACER_BURST_BYTES = 512 * 1024"

record pacer =
  pc_rate :: nat
  pc_burst :: nat
  pc_tokens :: rat
  pc_last :: int

definition new_pacer :: "nat \<Rightarrow> nat \<Rightarrow> int \<Rightarrow> pacer" where
  "new_pacer rate burst now =
     \<lparr> pc_rate = rate, pc_burst = burst, pc_tokens = of_nat burst, pc_last = now \<rparr>"

definition refill :: "int \<Rightarrow> pacer \<Rightarrow> pacer" where
  "refill t p =
     p\<lparr>pc_tokens := min (of_nat (pc_burst p))
                     (pc_tokens p + of_int (t - pc_last p) / 1000 * of_nat (pc_rate p)),
       pc_last := t\<rparr>"

text \<open>One turn of the loop: the bytes may be sent, or the caller sleeps for some milliseconds.\<close>

datatype turn = Granted | Sleep int

definition take_turn :: "nat \<Rightarrow> int \<Rightarrow> pacer \<Rightarrow> turn \<times> pacer" where
  "take_turn cost t p =
     (let p1 = refill t p
      in if of_nat cost \<le> pc_tokens p1 \<or> of_nat (pc_burst p1) \<le> pc_tokens p1
         then (Granted, p1\<lparr>pc_tokens := pc_tokens p1 - of_nat cost\<rparr>)
         else (Sleep \<lceil>(of_nat (min cost (pc_burst p1)) - pc_tokens p1) / of_nat (pc_rate p1) * 1000\<rceil>, p1))"

text \<open>
  The loop of one call over the readings of the clock it gets: the reading at which it returned and
  the readings left for later callers, or \<open>None\<close> when it is still sleeping; and the bucket.
\<close>

fun take_loop :: "nat \<Rightarrow> int list \<Rightarrow> pacer \<Rightarrow> (int \<times> int list) option \<times> pacer" where
  "take_loop cost [] p = (None, p)"
| "take_loop cost (t # ts) p =
     (case take_turn cost t p of
        (Granted, p1) \<Rightarrow> (Some (t, ts), p1)
      | (Sleep ms, p1) \<Rightarrow> take_loop cost ts p1)"

text \<open>The chain of calls, served in order: the grants made, each with its time and its cost.\<close>

fun serve :: "nat list \<Rightarrow> int list \<Rightarrow> pacer \<Rightarrow> (int \<times> nat) list \<times> pacer" where
  "serve [] ts p = ([], p)"
| "serve (cost # costs) ts p =
     (case take_loop cost ts p of
        (None, p1) \<Rightarrow> ([], p1)
      | (Some (t, ts1), p1) \<Rightarrow> (let (gs, p2) = serve costs ts1 p1 in ((t, cost) # gs, p2)))"

section \<open>The bucket's balance\<close>

definition pacer_ok :: "pacer \<Rightarrow> bool" where
  "pacer_ok p \<longleftrightarrow> pc_tokens p \<le> of_nat (pc_burst p)"

text \<open>
  \<open>earned p p' n\<close>: going from \<open>p\<close> to \<open>p'\<close> and granting \<open>n\<close> bytes, no more was spent than the refill
  over the time that has passed allows.
\<close>

definition earned :: "pacer \<Rightarrow> pacer \<Rightarrow> nat \<Rightarrow> bool" where
  "earned p p' n \<longleftrightarrow>
     pc_rate p' = pc_rate p \<and> pc_burst p' = pc_burst p \<and> pc_last p \<le> pc_last p' \<and>
     pc_tokens p' + of_nat n \<le>
       pc_tokens p + of_int (pc_last p' - pc_last p) / 1000 * of_nat (pc_rate p)"

lemma earned_refl [simp]: "earned p p 0"
  by (simp add: earned_def)

lemma earned_trans:
  assumes "earned p q m" "earned q r n"
  shows "earned p r (m + n)"
proof -
  have "pc_tokens r + of_nat n \<le>
        pc_tokens q + of_int (pc_last r - pc_last q) / 1000 * of_nat (pc_rate p)"
    "pc_tokens q + of_nat m \<le> pc_tokens p + of_int (pc_last q - pc_last p) / 1000 * of_nat (pc_rate p)"
    using assms by (simp_all add: earned_def)
  moreover have "(of_int (pc_last r - pc_last q) / 1000 * of_nat (pc_rate p) :: rat) +
       of_int (pc_last q - pc_last p) / 1000 * of_nat (pc_rate p) =
       of_int (pc_last r - pc_last p) / 1000 * of_nat (pc_rate p)"
    by (simp add: field_simps)
  ultimately have "pc_tokens r + of_nat (m + n) \<le>
       pc_tokens p + of_int (pc_last r - pc_last p) / 1000 * of_nat (pc_rate p)"
    by simp
  then show ?thesis using assms by (simp add: earned_def)
qed

lemma refill_fields [simp]:
  "pc_rate (refill t p) = pc_rate p" "pc_burst (refill t p) = pc_burst p" "pc_last (refill t p) = t"
  by (simp_all add: refill_def)

lemma refill_earned: "pc_last p \<le> t \<Longrightarrow> earned p (refill t p) 0 \<and> pacer_ok (refill t p)"
  by (simp add: earned_def pacer_ok_def refill_def)

text \<open>After a grant of at most the burst size the bucket is not overdrawn.\<close>

lemma turn_earned:
  assumes "take_turn cost t p = (r, p')" "pc_last p \<le> t"
  shows "earned p p' (if r = Granted then cost else 0) \<and> pacer_ok p' \<and> pc_last p' = t \<and>
         (r = Granted \<and> cost \<le> pc_burst p \<longrightarrow> 0 \<le> pc_tokens p')"
  using assms refill_earned [OF assms(2)]
  by (auto simp: take_turn_def Let_def earned_def pacer_ok_def split: if_splits)


lemma loop_earned:
  assumes "take_loop cost ts p = (r, p')" "sorted (pc_last p # ts)"
  shows "earned p p' (if r = None then 0 else cost) \<and> (pacer_ok p \<longrightarrow> pacer_ok p') \<and>
         (\<forall>t ts'. r = Some (t, ts') \<longrightarrow>
            pc_last p' = t \<and> pc_tokens p' + of_nat cost \<le> of_nat (pc_burst p) \<and>
            sorted (t # ts') \<and> (cost \<le> pc_burst p \<longrightarrow> 0 \<le> pc_tokens p'))"
  using assms
proof (induction ts arbitrary: p)
  case Nil
  then show ?case by simp
next
  case (Cons t ts)
  obtain r1 p1 where turn: "take_turn cost t p = (r1, p1)" by (cases "take_turn cost t p")
  have le: "pc_last p \<le> t" using Cons.prems by simp
  note one = turn_earned [OF turn le]
  show ?case
  proof (cases r1)
    case Granted
    then have "pc_tokens p1 + of_nat cost = pc_tokens (refill t p)"
      using turn by (auto simp: take_turn_def Let_def split: if_splits)
    then have "pc_tokens p1 + of_nat cost \<le> of_nat (pc_burst p)"
      using refill_earned [OF le] by (simp add: pacer_ok_def)
    with Granted one turn Cons.prems show ?thesis by auto
  next
    case (Sleep ms)
    then have "earned p p1 0" "pacer_ok p1" "pc_last p1 = t" using one by auto
    moreover from this have burst: "pc_burst p1 = pc_burst p" by (simp add: earned_def)
    moreover have "take_loop cost ts p1 = (r, p')" using Cons.prems Sleep turn by simp
    moreover have "sorted (pc_last p1 # ts)" using one Cons.prems(2) by simp
    moreover note Cons.IH [of p1]
    ultimately have IH: "earned p1 p' (if r = None then 0 else cost) \<and> (pacer_ok p1 \<longrightarrow> pacer_ok p') \<and>
         (\<forall>t ts'. r = Some (t, ts') \<longrightarrow>
            pc_last p' = t \<and> pc_tokens p' + of_nat cost \<le> of_nat (pc_burst p) \<and>
            sorted (t # ts') \<and> (cost \<le> pc_burst p \<longrightarrow> 0 \<le> pc_tokens p'))"
      unfolding burst by blast
    from \<open>earned p p1 0\<close> IH have "earned p p' (0 + (if r = None then 0 else cost))"
      by (blast intro: earned_trans)
    with IH \<open>pacer_ok p1\<close> show ?thesis by (simp only: add_0) blast
  qed
qed

text \<open>Grants \<open>gs\<close> made by a bucket that had \<open>tokens\<close> at time \<open>t0\<close>.\<close>

definition paced :: "nat \<Rightarrow> rat \<Rightarrow> int \<Rightarrow> (int \<times> nat) list \<Rightarrow> bool" where
  "paced rate tokens t0 gs \<longleftrightarrow>
     (\<forall>n < length gs. of_nat (sum_list (map snd (take (Suc n) gs)))
        \<le> tokens + of_int (fst (gs ! n) - t0) / 1000 * of_nat rate)"

lemma paced_Cons:
  assumes "paced rate (tokens - of_nat c + of_int (t - t0) / 1000 * of_nat rate) t gs"
    and "of_nat c \<le> tokens + of_int (t - t0) / 1000 * of_nat rate"
  shows "paced rate tokens t0 ((t, c) # gs)"
  unfolding paced_def
proof (intro allI impI)
  fix n
  assume n: "n < length ((t, c) # gs)"
  show "of_nat (sum_list (map snd (take (Suc n) ((t, c) # gs))))
          \<le> tokens + of_int (fst (((t, c) # gs) ! n) - t0) / 1000 * of_nat rate"
  proof (cases n)
    case 0
    then show ?thesis using assms(2) by simp
  next
    case (Suc m)
    with assms(1) n have "of_nat (sum_list (map snd (take (Suc m) gs)))
        \<le> tokens - of_nat c + of_int (t - t0) / 1000 * of_nat rate + of_int (fst (gs ! m) - t) / 1000 * of_nat rate"
      by (simp add: paced_def)
    moreover have "(of_int (t - t0) / 1000 * of_nat rate + of_int (fst (gs ! m) - t) / 1000 * of_nat rate :: rat)
        = of_int (fst (gs ! m) - t0) / 1000 * of_nat rate"
      by (simp add: field_simps)
    ultimately show ?thesis using Suc by simp
  qed
qed

lemma paced_mono: "paced rate a t gs \<Longrightarrow> a \<le> b \<Longrightarrow> paced rate b t gs"
  unfolding paced_def by (meson add_right_mono order_trans)

lemma serve_paced:
  assumes "serve costs ts p = (gs, p')" "sorted (pc_last p # ts)" "\<forall>c\<in>set costs. c \<le> pc_burst p"
    and "0 \<le> pc_tokens p \<or> costs \<noteq> []"
  shows "paced (pc_rate p) (pc_tokens p) (pc_last p) gs \<and>
         (\<forall>i < length gs. paced (pc_rate p) (of_nat (pc_burst p)) (fst (gs ! i)) (drop i gs))"
  using assms
proof (induction costs arbitrary: ts p gs)
  case Nil
  then show ?case by (simp add: paced_def)
next
  case (Cons c costs)
  obtain r p1 where loop: "take_loop c ts p = (r, p1)" by (cases "take_loop c ts p")
  note one = loop_earned [OF loop Cons.prems(2)]
  show ?case
  proof (cases r)
    case None
    then show ?thesis using Cons.prems(1) loop by (simp add: paced_def)
  next
    case (Some tts)
    obtain t ts1 where tts: "tts = (t, ts1)" by (cases tts)
    obtain gs1 where gs: "gs = (t, c) # gs1" and rest: "serve costs ts1 p1 = (gs1, p')"
      using Cons.prems(1) loop Some tts by (auto split: prod.splits)
    have last: "pc_last p1 = t" using one Some tts by simp
    have p1: "pc_rate p1 = pc_rate p" "pc_burst p1 = pc_burst p" "pc_last p1 = t" "sorted (t # ts1)"
      "0 \<le> pc_tokens p1" "pc_tokens p1 + of_nat c \<le> of_nat (pc_burst p)"
      "pc_tokens p1 + of_nat c \<le> pc_tokens p + of_int (t - pc_last p) / 1000 * of_nat (pc_rate p)"
      using one Some tts Cons.prems(3) unfolding earned_def last by simp_all
    have IH: "paced (pc_rate p) (pc_tokens p1) t gs1 \<and>
        (\<forall>i < length gs1. paced (pc_rate p) (of_nat (pc_burst p)) (fst (gs1 ! i)) (drop i gs1))"
      using Cons.IH [OF rest] p1 Cons.prems(3) by simp
    have first: "paced (pc_rate p) a t0 gs"
      if "pc_tokens p1 + of_nat c \<le> a + of_int (t - t0) / 1000 * of_nat (pc_rate p)" for a t0
    proof -
      have "pc_tokens p1 \<le> a - of_nat c + of_int (t - t0) / 1000 * of_nat (pc_rate p)"
        using that by linarith
      moreover have "of_nat c \<le> a + of_int (t - t0) / 1000 * of_nat (pc_rate p)"
        using that p1(5) by linarith
      ultimately show ?thesis
        unfolding gs using IH by (blast intro: paced_Cons paced_mono)
    qed
    have "paced (pc_rate p) (pc_tokens p) (pc_last p) gs" using p1(7) by (rule first)
    moreover have "paced (pc_rate p) (of_nat (pc_burst p)) t gs" using p1(6) by (intro first) simp
    ultimately show ?thesis
      using IH unfolding gs by (auto simp: less_Suc_eq_0_disj)
  qed
qed



text \<open>
  No waiting without end. A caller that is told to sleep is granted its bytes by the first reading of the
  clock that is not earlier than the end of that sleep, whatever the cost; the sleep asked for is at
  least a millisecond and at most the time to fill the whole bucket from its present level.
\<close>

theorem pacer_sleep_suffices:
  assumes "take_turn cost t p = (Sleep ms, p1)" "0 < pc_rate p" "t + ms \<le> t'"
  shows "\<exists>p2. take_turn cost t' p1 = (Granted, p2) \<and> 1 \<le> ms \<and>
           of_int ms < (of_nat (pc_burst p) - pc_tokens p1) / of_nat (pc_rate p) * 1000 + 1"
proof -
  let ?need = "of_nat (min cost (pc_burst p)) - pc_tokens p1"
  have p1: "p1 = refill t p" and short: "pc_tokens p1 < of_nat (min cost (pc_burst p))"
    and ms: "ms = \<lceil>?need / of_nat (pc_rate p) * 1000\<rceil>"
    using assms(1) by (auto simp: take_turn_def Let_def min_def split: if_splits)
  have rate: "(0 :: rat) < of_nat (pc_rate p)" using assms(2) by simp
  have "?need / of_nat (pc_rate p) * 1000 \<le> of_int ms" unfolding ms by (rule le_of_int_ceiling)
  then have "?need \<le> of_int ms / 1000 * of_nat (pc_rate p)"
    using rate by (simp add: field_simps)
  also have "\<dots> \<le> of_int (t' - t) / 1000 * of_nat (pc_rate p)"
    using assms(3) rate by (intro mult_right_mono divide_right_mono) (simp_all flip: of_int_diff)
  finally have "of_nat (min cost (pc_burst p)) \<le> pc_tokens p1 + of_int (t' - t) / 1000 * of_nat (pc_rate p)"
    by simp
  then have "of_nat (min cost (pc_burst p)) \<le> pc_tokens (refill t' p1)"
    using p1 by (simp add: refill_def min_def split: if_splits)
  then have granted: "\<exists>p2. take_turn cost t' p1 = (Granted, p2)"
    using p1 by (auto simp: take_turn_def Let_def min_def split: if_splits)
  have "0 < ?need / of_nat (pc_rate p) * 1000" using short rate by simp
  then have "1 \<le> ms" unfolding ms by (simp add: one_le_ceiling)
  have "of_int ms < ?need / of_nat (pc_rate p) * 1000 + 1" unfolding ms by linarith
  also have "\<dots> \<le> (of_nat (pc_burst p) - pc_tokens p1) / of_nat (pc_rate p) * 1000 + 1"
    using rate by (intro add_right_mono mult_right_mono divide_right_mono) auto
  finally show ?thesis using granted \<open>1 \<le> ms\<close> by blast
qed

theorem pacer_sleep_suffices_witness:
  "\<exists>p2. take_turn 200 (1000 + 1000) (refill 1000 \<lparr> pc_rate = 100, pc_burst = 400, pc_tokens = 0, pc_last = 0 \<rparr>)
          = (Granted, p2)"
proof -
  let ?p = "\<lparr> pc_rate = 100, pc_burst = 400, pc_tokens = 0, pc_last = 0 \<rparr>"
  have "take_turn 200 1000 ?p = (Sleep 1000, refill 1000 ?p)"
    by (simp add: take_turn_def refill_def Let_def)
  from pacer_sleep_suffices [OF this, of "1000 + 1000"] show ?thesis by auto
qed

end
