(* ===== verification/Client.thy ===== *)
theory Client
  imports Pow
begin

text \<open>
  \<open>RelayClient\<close> of \<open>web/src/lib/relay/client.ts\<close>: the WebSocket to the relay, its reconnection and its
  deliberate closing. Sockets are numbered in the order they are created; \<open>c_socks\<close> holds the ready
  state the browser shows for each of them. A method runs to its end; the proof-of-work solve, the
  timers and the socket's callbacks are events of their own.
\<close>

section \<open>State\<close>

datatype ready = Connecting | Open | Closing | Closed

datatype status = StConnecting | StOpen | StClosed | StError | StReconnecting

datatype control_msg = ControlMsg jstr "int option"

datatype client_effect =
    StatusCall status "jstr option"
  | NewSocket "jstr option"
  | SendData nat bytes
  | SendControl nat control_msg
  | ControlCall control_msg
  | BinaryCall bytes
  | CloseResolved

record client =
  c_ws :: "nat option"
  c_socks :: "ready list"
  c_intentional :: bool
  c_attempt :: nat
  c_timer :: "nat option"
  c_gen :: nat
  c_solving :: "nat list"
  c_auto :: bool
  c_maxDelay :: nat
  c_waiting :: "nat list"
  c_log :: "client_effect list"

definition new_client :: "bool \<Rightarrow> nat \<Rightarrow> client" where
  "new_client auto maxDelay =
     \<lparr> c_ws = None, c_socks = [], c_intentional = False, c_attempt = 0, c_timer = None, c_gen = 0,
       c_solving = [], c_auto = auto, c_maxDelay = maxDelay, c_waiting = [], c_log = [] \<rparr>"

definition call :: "client_effect \<Rightarrow> client \<Rightarrow> client" where
  "call x c = c\<lparr>c_log := c_log c @ [x]\<rparr>"

definition ready_state :: "client \<Rightarrow> ready option" where
  "ready_state c = map_option (\<lambda>s. c_socks c ! s) (c_ws c)"

definition connected :: "client \<Rightarrow> bool" where
  "connected c \<longleftrightarrow> ready_state c = Some Open"

text \<open>\<open>WebSocket.close()\<close>: a socket that is not closing yet begins to close; the event comes later.\<close>

definition close_socket :: "nat \<Rightarrow> client \<Rightarrow> client" where
  "close_socket s c =
     (if c_socks c ! s = Connecting \<or> c_socks c ! s = Open
      then c\<lparr>c_socks := (c_socks c)[s := Closing]\<rparr> else c)"

section \<open>Operations\<close>

definition clearReconnectTimer :: "client \<Rightarrow> client" where
  "clearReconnectTimer c = c\<lparr>c_timer := None\<rparr>"

definition connect :: "client \<Rightarrow> client" where
  "connect c =
     (let c1 = clearReconnectTimer c;
          c2 = (case c_ws c1 of
                  None \<Rightarrow> c1
                | Some s \<Rightarrow> (close_socket s (c1\<lparr>c_intentional := True\<rparr>))
                              \<lparr>c_ws := None, c_intentional := False\<rparr>);
          c3 = call (StatusCall (if 0 < c_attempt c2 then StReconnecting else StConnecting) None) c2;
          generation = Suc (c_gen c3)
      in c3\<lparr>c_gen := generation, c_solving := c_solving c3 @ [generation]\<rparr>)"

text \<open>\<open>openSocket\<close> after its \<open>await\<close>: \<open>pow\<close> is the solution to send, absent also when solving failed.\<close>

definition openSocket_solved :: "nat \<Rightarrow> jstr option \<Rightarrow> client \<Rightarrow> client" where
  "openSocket_solved generation pow c =
     (let c1 = c\<lparr>c_solving := remove1 generation (c_solving c)\<rparr>
      in if generation \<noteq> c_gen c1 then c1
         else call (NewSocket pow)
                (c1\<lparr>c_socks := c_socks c1 @ [Connecting], c_ws := Some (length (c_socks c1))\<rparr>))"

definition scheduleReconnect :: "client \<Rightarrow> client" where
  "scheduleReconnect c =
     (let c1 = clearReconnectTimer c
      in c1\<lparr>c_timer := Some (min (1000 * 2 ^ c_attempt c1) (c_maxDelay c1)),
            c_attempt := Suc (c_attempt c1)\<rparr>)"

definition onopen :: "nat \<Rightarrow> client \<Rightarrow> client" where
  "onopen s c = call (StatusCall StOpen None) (c\<lparr>c_socks := (c_socks c)[s := Open], c_attempt := 0\<rparr>)"

definition onerror :: "client \<Rightarrow> client" where
  "onerror c = call (StatusCall StError (Some (js ''socket error''))) c"

definition onclose :: "nat \<Rightarrow> client \<Rightarrow> client" where
  "onclose code c =
     (let c1 = call (StatusCall StClosed
                       (Some (if code = 4001 then js ''bucket full'' else js ''closed '' @ decimal code)))
                    (c\<lparr>c_ws := None\<rparr>)
      in if \<not> c_intentional c1 \<and> code \<noteq> 4001 \<and> c_auto c1 then scheduleReconnect c1 else c1)"

text \<open>A settled \<open>closeAndWait\<close>: the function \<open>finish\<close> of its promise.\<close>

definition finish :: "client \<Rightarrow> client" where
  "finish c = call CloseResolved (c\<lparr>c_intentional := True, c_ws := None\<rparr>)"

text \<open>
  The browser's close event of socket \<open>s\<close>: \<open>onclose\<close> first, then the listeners that \<open>closeAndWait\<close> has
  added to that socket.
\<close>

definition socket_closed :: "nat \<Rightarrow> nat \<Rightarrow> client \<Rightarrow> client" where
  "socket_closed s code c =
     (let c1 = onclose code (c\<lparr>c_socks := (c_socks c)[s := Closed]\<rparr>)
      in fold (\<lambda>_. finish) (filter (\<lambda>w. w = s) (c_waiting c1))
           (c1\<lparr>c_waiting := filter (\<lambda>w. w \<noteq> s) (c_waiting c1)\<rparr>))"

text \<open>A message: text that parses as JSON, text that does not, or bytes.\<close>

datatype message = Parsed control_msg | Unparsable | Bytes bytes

definition onmessage :: "message \<Rightarrow> client \<Rightarrow> client" where
  "onmessage m c =
     (case m of Parsed msg \<Rightarrow> call (ControlCall msg) c
      | Unparsable \<Rightarrow> c
      | Bytes data \<Rightarrow> call (BinaryCall data) c)"

definition sendBinary :: "bytes \<Rightarrow> client \<Rightarrow> client" where
  "sendBinary buf c = (if connected c then call (SendData (the (c_ws c)) buf) c else c)"

definition sendControl :: "control_msg \<Rightarrow> client \<Rightarrow> client" where
  "sendControl msg c = (if connected c then call (SendControl (the (c_ws c)) msg) c else c)"

definition closeAndWait :: "client \<Rightarrow> client" where
  "closeAndWait c =
     (let c1 = clearReconnectTimer (c\<lparr>c_auto := False\<rparr>);
          c2 = c1\<lparr>c_gen := Suc (c_gen c1)\<rparr>
      in case c_ws c2 of
           None \<Rightarrow> call CloseResolved (c2\<lparr>c_intentional := True, c_ws := None\<rparr>)
         | Some s \<Rightarrow>
             if c_socks c2 ! s = Closed then call CloseResolved (c2\<lparr>c_intentional := True, c_ws := None\<rparr>)
             else close_socket s (c2\<lparr>c_waiting := c_waiting c2 @ [s], c_intentional := True\<rparr>))"

definition wait_timeout :: "nat \<Rightarrow> client \<Rightarrow> client" where
  "wait_timeout s c =
     (if s \<in> set (c_waiting c) then finish (c\<lparr>c_waiting := remove1 s (c_waiting c)\<rparr>) else c)"

definition close :: "client \<Rightarrow> client" where
  "close c =
     (let c1 = clearReconnectTimer (c\<lparr>c_auto := False\<rparr>);
          c2 = c1\<lparr>c_gen := Suc (c_gen c1), c_intentional := True\<rparr>;
          c3 = (case c_ws c2 of None \<Rightarrow> c2 | Some s \<Rightarrow> close_socket s c2)
      in c3\<lparr>c_ws := None\<rparr>)"

section \<open>The client as a state machine\<close>

datatype client_event =
    CallConnect
  | CallClose
  | CallCloseAndWait
  | CallSendBinary bytes
  | CallSendControl control_msg
  | PowDone nat "jstr option"
  | SocketOpen nat
  | SocketError nat
  | SocketClosed nat nat
  | SocketMessage nat message
  | TimerFires
  | WaitTimeout nat

fun client_step :: "client_event \<Rightarrow> client \<Rightarrow> client" where
  "client_step CallConnect c = connect c"
| "client_step CallClose c = close c"
| "client_step CallCloseAndWait c = closeAndWait c"
| "client_step (CallSendBinary buf) c = sendBinary buf c"
| "client_step (CallSendControl msg) c = sendControl msg c"
| "client_step (PowDone generation pow) c = openSocket_solved generation pow c"
| "client_step (SocketOpen s) c = onopen s c"
| "client_step (SocketError s) c = onerror c"
| "client_step (SocketClosed s code) c = socket_closed s code c"
| "client_step (SocketMessage s m) c = onmessage m c"
| "client_step TimerFires c = connect c"
| "client_step (WaitTimeout s) c = wait_timeout s c"

text \<open>What the browser may report, and when: a timer fires while it is set, a socket opens once.\<close>

fun client_enabled :: "client_event \<Rightarrow> client \<Rightarrow> bool" where
  "client_enabled (PowDone generation pow) c \<longleftrightarrow> generation \<in> set (c_solving c)"
| "client_enabled (SocketOpen s) c \<longleftrightarrow> s < length (c_socks c) \<and> c_socks c ! s = Connecting"
| "client_enabled (SocketError s) c \<longleftrightarrow> s < length (c_socks c) \<and> c_socks c ! s \<noteq> Closed"
| "client_enabled (SocketClosed s code) c \<longleftrightarrow> s < length (c_socks c) \<and> c_socks c ! s \<noteq> Closed"
| "client_enabled (SocketMessage s m) c \<longleftrightarrow> s < length (c_socks c) \<and> c_socks c ! s = Open"
| "client_enabled TimerFires c \<longleftrightarrow> c_timer c \<noteq> None"
| "client_enabled _ c \<longleftrightarrow> True"


section \<open>Invariants\<close>

definition client_inv :: "client \<Rightarrow> bool" where
  "client_inv c \<longleftrightarrow>
     (\<forall>s. c_ws c = Some s \<longrightarrow> s < length (c_socks c)) \<and>
     (\<forall>w \<in> set (c_waiting c). w < length (c_socks c)) \<and>
     (\<forall>g \<in> set (c_solving c). g \<le> c_gen c) \<and>
     (\<forall>d. c_timer c = Some d \<longrightarrow> (\<exists>n. d = min (1000 * 2 ^ n) (c_maxDelay c)))"

lemma call_fields [simp]:
  "c_ws (call x c) = c_ws c" "c_socks (call x c) = c_socks c" "c_intentional (call x c) = c_intentional c"
  "c_attempt (call x c) = c_attempt c" "c_timer (call x c) = c_timer c" "c_gen (call x c) = c_gen c"
  "c_solving (call x c) = c_solving c" "c_auto (call x c) = c_auto c" "c_maxDelay (call x c) = c_maxDelay c"
  "c_waiting (call x c) = c_waiting c"
  by (simp_all add: call_def)

lemma close_socket_fields [simp]:
  "c_ws (close_socket s c) = c_ws c" "length (c_socks (close_socket s c)) = length (c_socks c)"
  "c_intentional (close_socket s c) = c_intentional c" "c_attempt (close_socket s c) = c_attempt c"
  "c_timer (close_socket s c) = c_timer c" "c_gen (close_socket s c) = c_gen c"
  "c_solving (close_socket s c) = c_solving c" "c_auto (close_socket s c) = c_auto c"
  "c_maxDelay (close_socket s c) = c_maxDelay c" "c_waiting (close_socket s c) = c_waiting c"
  by (simp_all add: close_socket_def)

lemma fold_finish:
  "fold (\<lambda>_. finish) ws c = c\<lparr>c_intentional := ws \<noteq> [] \<or> c_intentional c,
     c_ws := (if ws = [] then c_ws c else None), c_log := c_log c @ replicate (length ws) CloseResolved\<rparr>"
  by (induction ws arbitrary: c) (simp_all add: finish_def call_def replicate_app_Cons_same)

lemmas client_ops = connect_def clearReconnectTimer_def openSocket_solved_def scheduleReconnect_def
  onopen_def onerror_def onclose_def finish_def socket_closed_def onmessage_def sendBinary_def
  sendControl_def closeAndWait_def wait_timeout_def close_def Let_def

lemma client_inv_step:
  assumes "client_inv c" "client_enabled ev c"
  shows "client_inv (client_step ev c)"
  using assms
  by (cases ev)
    (auto simp: client_inv_def client_ops fold_finish le_SucI split: option.splits message.splits if_splits
      dest: in_set_remove1 [THEN iffD1] notin_set_remove1)

interpretation relay_client: event_system client_step client_enabled client_inv
  by unfold_locales (rule client_inv_step)

lemma client_inv_new: "client_inv (new_client auto maxDelay)"
  by (simp add: client_inv_def new_client_def)


lemma maxDelay_step: "c_maxDelay (client_step ev c) = c_maxDelay c"
  by (cases ev) (simp_all add: client_ops fold_finish split: option.split message.split)

lemma maxDelay_run: "c_maxDelay (run client_step evs c) = c_maxDelay c"
  by (induction evs arbitrary: c) (simp_all add: maxDelay_step)

definition at_rest :: "client \<Rightarrow> bool" where
  "at_rest c \<longleftrightarrow> c_ws c = None \<and> c_timer c = None \<and> \<not> c_auto c \<and> c_gen c \<notin> set (c_solving c) \<and> client_inv c"

fun no_connect :: "client_event \<Rightarrow> bool" where
  "no_connect CallConnect = False"
| "no_connect _ = True"

fun sends :: "client_effect list \<Rightarrow> client_effect list" where
  "sends [] = []"
| "sends (SendData s b # xs) = SendData s b # sends xs"
| "sends (SendControl s m # xs) = SendControl s m # sends xs"
| "sends (NewSocket p # xs) = NewSocket p # sends xs"
| "sends (_ # xs) = sends xs"

lemma sends_append [simp]: "sends (xs @ ys) = sends xs @ sends ys"
  by (induction xs rule: sends.induct) auto

lemma sends_resolved [simp]: "sends (replicate n CloseResolved) = []"
  by (induction n) auto

lemma close_at_rest: "client_inv c \<Longrightarrow> at_rest (close c)"
  by (auto simp: at_rest_def client_inv_def client_ops split: option.split)

lemma at_rest_step:
  assumes "at_rest c" "client_enabled ev c" "no_connect ev"
  shows "at_rest (client_step ev c) \<and> length (c_socks (client_step ev c)) = length (c_socks c) \<and>
         sends (c_log (client_step ev c)) = sends (c_log c)"
proof -
  have inv: "client_inv (client_step ev c)"
    using assms(1,2) by (auto simp: at_rest_def intro: client_inv_step)
  have bound: "\<forall>g \<in> set (c_solving c). g \<le> c_gen c" using assms(1) by (simp add: at_rest_def client_inv_def)
  show ?thesis
    using assms inv bound
    by (cases ev)
      (auto simp: at_rest_def client_ops fold_finish connected_def ready_state_def call_def
        split: message.splits if_splits dest: notin_set_remove1)
qed


lemma at_rest_run:
  assumes "at_rest c" "run_ok client_enabled client_step evs c" "\<forall>ev \<in> set evs. no_connect ev"
  shows "at_rest (run client_step evs c) \<and> length (c_socks (run client_step evs c)) = length (c_socks c) \<and>
         sends (c_log (run client_step evs c)) = sends (c_log c)"
  using assms
proof (induction evs arbitrary: c)
  case Nil
  then show ?case by simp
next
  case (Cons ev evs)
  from at_rest_step [of c ev] Cons.prems
  have "at_rest (client_step ev c) \<and> length (c_socks (client_step ev c)) = length (c_socks c) \<and>
        sends (c_log (client_step ev c)) = sends (c_log c)" by simp
  with Cons.IH [of "client_step ev c"] Cons.prems show ?case by simp
qed

lemma close_keeps: "length (c_socks (close c)) = length (c_socks c)" "sends (c_log (close c)) = sends (c_log c)"
  by (simp_all add: client_ops close_socket_def split: option.split)

text \<open>
  A closed client stays closed. After \<open>close()\<close> in any reachable state, whatever solves, sockets, timers
  and pending waits still report, and whatever the caller sends or closes, no socket is opened, no
  reconnection is scheduled, nothing is sent, and the client stays without a socket, until \<open>connect()\<close>
  is called again.
\<close>

theorem closed_client_stays_closed:
  assumes "run_ok client_enabled client_step (evs @ CallClose # evs') (new_client auto maxDelay)"
    and "\<forall>ev \<in> set evs'. no_connect ev"
    and "c = run client_step evs (new_client auto maxDelay)" "c' = run client_step (CallClose # evs') c"
  shows "c_ws c' = None \<and> c_timer c' = None \<and> \<not> connected c' \<and>
         length (c_socks c') = length (c_socks c) \<and> sends (c_log c') = sends (c_log c)"
proof -
  have "client_inv c"
    using assms(1,3) relay_client.run_inv [OF client_inv_new] by simp
  then have "at_rest (close c)" by (rule close_at_rest)
  from at_rest_run [OF this, of evs'] assms show ?thesis
    by (simp add: close_keeps at_rest_def connected_def ready_state_def)
qed

theorem closed_client_stays_closed_witness:
  "c_ws (run client_step [CallConnect, PowDone 1 None, CallClose, SocketClosed 0 1000] (new_client True 30000)) = None"
  using closed_client_stays_closed [of "[CallConnect, PowDone 1 None]" "[SocketClosed 0 1000]" True 30000]
  by (simp add: new_client_def client_ops close_socket_def call_def)

text \<open>Backoff. In every reachable state the delay of a pending reconnection is a second doubled some number
  of times, cut at \<open>maxReconnectDelayMs\<close>; a lost connection schedules one exactly when the close was
  not deliberate, the bucket was not full and reconnecting is on, after a second doubled once for each
  attempt counted since a connection last opened.
\<close>

theorem reconnect_backoff:
  assumes "run_ok client_enabled client_step evs (new_client auto maxDelay)"
    and "c = run client_step evs (new_client auto maxDelay)"
    and "s < length (c_socks c)" "c_socks c ! s \<noteq> Closed" "s \<notin> set (c_waiting c)"
  shows "(\<forall>d. c_timer c = Some d \<longrightarrow> (\<exists>n. d = 1000 * 2 ^ n \<and> d \<le> maxDelay \<or> d = maxDelay)) \<and>
    c_timer (client_step (SocketClosed s code) c) =
      (if \<not> c_intentional c \<and> code \<noteq> 4001 \<and> c_auto c
       then Some (min (1000 * 2 ^ c_attempt c) maxDelay) else c_timer c)"
proof -
  have "client_inv c" using assms(1,2) relay_client.run_inv [OF client_inv_new] by simp
  moreover have "c_maxDelay c = maxDelay" using assms(2) by (simp add: maxDelay_run) (simp add: new_client_def)
  ultimately have "\<forall>d. c_timer c = Some d \<longrightarrow> (\<exists>n. d = 1000 * 2 ^ n \<and> d \<le> maxDelay \<or> d = maxDelay)"
    by (auto simp: client_inv_def min_def)
  moreover have "filter (\<lambda>w. w = s) (c_waiting c) = []" using assms(5) by (auto simp: filter_empty_conv)
  ultimately show ?thesis
    using \<open>c_maxDelay c = maxDelay\<close> by (simp add: client_ops)
qed

theorem reconnect_backoff_witness:
  "c_timer (client_step (SocketClosed 0 1006)
     (run client_step [CallConnect, PowDone 1 None] (new_client True 30000))) = Some 1000"
  using reconnect_backoff [of "[CallConnect, PowDone 1 None]" True 30000 _ 0 1006]
  by (simp add: new_client_def client_ops call_def)

text \<open>C22
  A replaced socket's late close event hits its successor. \<open>connect()\<close> on a live client closes the old
  socket but turns \<open>intentionalClose\<close> off again before the browser reports that close. When the report
  comes, \<open>onclose\<close> forgets the new socket, which stays open with nobody to use or close it, and schedules
  a reconnection, which will open yet another one.
\<close>

theorem late_close_orphans_new_socket:
  assumes "c_ws c = Some new" "old \<noteq> new" "c_socks c ! new = Open" "\<not> c_intentional c" "c_auto c"
    and "code \<noteq> 4001" "c_waiting c = []"
  shows "c_ws (client_step (SocketClosed old code) c) = None \<and>
         c_socks (client_step (SocketClosed old code) c) ! new = Open \<and>
         \<not> connected (client_step (SocketClosed old code) c) \<and>
         c_timer (client_step (SocketClosed old code) c) = Some (min (1000 * 2 ^ c_attempt c) (c_maxDelay c)) \<and>
         c_socks (client_step CallClose (client_step (SocketClosed old code) c)) ! new = Open"
  using assms by (simp add: client_ops connected_def ready_state_def)

definition replaced_client :: client where
  "replaced_client = run client_step
     [CallConnect, PowDone 1 None, SocketOpen 0, CallConnect, PowDone 2 None, SocketOpen 1]
     (new_client True 30000)"

theorem late_close_orphans_new_socket_witness:
  "run_ok client_enabled client_step
     [CallConnect, PowDone 1 None, SocketOpen 0, CallConnect, PowDone 2 None, SocketOpen 1, SocketClosed 0 1000]
     (new_client True 30000) \<and>
   c_ws (client_step (SocketClosed 0 1000) replaced_client) = None \<and>
   c_socks (client_step (SocketClosed 0 1000) replaced_client) ! 1 = Open"
proof -
  have shape: "c_ws replaced_client = Some 1" "c_socks replaced_client ! 1 = Open"
    "\<not> c_intentional replaced_client" "c_auto replaced_client" "c_waiting replaced_client = []"
    by (simp_all add: replaced_client_def new_client_def client_ops close_socket_def call_def)
  have "run_ok client_enabled client_step
     [CallConnect, PowDone 1 None, SocketOpen 0, CallConnect, PowDone 2 None, SocketOpen 1, SocketClosed 0 1000]
     (new_client True 30000)"
    by (simp add: new_client_def client_ops close_socket_def call_def)
  with late_close_orphans_new_socket [OF shape(1) _ shape(2-4), of 0 1000] shape(5) show ?thesis by simp
qed

end
