(* ===== verification/UrlParams.thy ===== *)
theory UrlParams
  imports Utf8 Base64
begin

text \<open>
  \<open>URLSearchParams\<close> of the platform, as \<open>room.ts\<close>, \<open>session.ts\<close> and \<open>handoff.ts\<close> use it: a list of names
  and values, the parser and the serializer of \<open>application/x-www-form-urlencoded\<close>, and the operations
  \<open>get\<close>, \<open>set\<close> and \<open>delete\<close>.
\<close>

type_synonym params = "(jstr \<times> jstr) list"

section \<open>Operations\<close>

definition param_get :: "jstr \<Rightarrow> params \<Rightarrow> jstr option" where
  "param_get n ps = map_of ps n"

definition param_delete :: "jstr \<Rightarrow> params \<Rightarrow> params" where
  "param_delete n ps = filter (\<lambda>p. fst p \<noteq> n) ps"

text \<open>The first entry of that name takes the value and the others go; without one, a new entry is appended.\<close>

fun param_set :: "jstr \<Rightarrow> jstr \<Rightarrow> params \<Rightarrow> params" where
  "param_set n v [] = [(n, v)]"
| "param_set n v (p # ps) = (if fst p = n then (n, v) # param_delete n ps else p # param_set n v ps)"

lemma param_get_simps [simp]:
  "param_get n [] = None"
  "param_get n ((m, v) # ps) = (if m = n then Some v else param_get n ps)"
  by (simp_all add: param_get_def)

lemma param_get_delete [simp]:
  "param_get n (param_delete m ps) = (if n = m then None else param_get n ps)"
  by (induction ps) (auto simp: param_delete_def param_get_def)

lemma param_get_set [simp]:
  "param_get n (param_set m v ps) = (if n = m then Some v else param_get n ps)"
proof (induction ps)
  case (Cons p ps)
  then show ?case by (cases p; cases "n = m") auto
qed simp

section \<open>Percent encoding\<close>

definition pct_digit :: "nat \<Rightarrow> byte" where
  "pct_digit n = of_nat (if n < 10 then 48 + n else 55 + n)"

definition pct_value :: "byte \<Rightarrow> nat option" where
  "pct_value b =
     (let n = unat b
      in if 48 \<le> n \<and> n \<le> 57 then Some (n - 48)
         else if 65 \<le> n \<and> n \<le> 70 then Some (n - 55)
         else if 97 \<le> n \<and> n \<le> 102 then Some (n - 87) else None)"

text \<open>The bytes that stand for themselves: letters, digits and the four marks \<open>* - . _\<close>.\<close>

definition form_plain :: "nat \<Rightarrow> bool" where
  "form_plain n \<longleftrightarrow>
     48 \<le> n \<and> n \<le> 57 \<or> 65 \<le> n \<and> n \<le> 90 \<or> 97 \<le> n \<and> n \<le> 122 \<or> n = 0x2A \<or> n = 0x2D \<or> n = 0x2E \<or> n = 0x5F"

definition form_byte :: "byte \<Rightarrow> bytes" where
  "form_byte b =
     (if b = 0x20 then [0x2B]
      else if form_plain (unat b) then [b]
      else [0x25, pct_digit (unat b div 16), pct_digit (unat b mod 16)])"

definition form_bytes :: "bytes \<Rightarrow> bytes" where
  "form_bytes bs = concat (map form_byte bs)"

text \<open>A percent sign that is not followed by two hexadecimal digits stands for itself.\<close>

definition pct_pair :: "bytes \<Rightarrow> byte option" where
  "pct_pair bs =
     (case bs of
        h # l # _ \<Rightarrow>
          (case (pct_value h, pct_value l) of (Some x, Some y) \<Rightarrow> Some (of_nat (16 * x + y)) | _ \<Rightarrow> None)
      | _ \<Rightarrow> None)"

function percent_decode :: "bytes \<Rightarrow> bytes" where
  "percent_decode [] = []"
| "percent_decode (b # bs) =
     (if b = 0x25 then
        (case pct_pair bs of
           None \<Rightarrow> b # percent_decode bs
         | Some c \<Rightarrow> c # percent_decode (drop 2 bs))
      else b # percent_decode bs)"
  by pat_completeness auto
termination by (relation "measure length") auto

declare percent_decode.simps(2) [simp del]

definition plus_to_space :: "byte \<Rightarrow> byte" where
  "plus_to_space b = (if b = 0x2B then 0x20 else b)"

text \<open>A name or a value: decoded as UTF-8, a byte order mark kept.\<close>

definition form_text :: "bytes \<Rightarrow> jstr" where
  "form_text bs = concat (map units_of (decode_points (percent_decode (map plus_to_space bs))))"

section \<open>Parser and serializer\<close>

fun split_on :: "'a \<Rightarrow> 'a list \<Rightarrow> 'a list list" where
  "split_on s [] = [[]]"
| "split_on s (x # xs) =
     (if x = s then [] # split_on s xs
      else (case split_on s xs of [] \<Rightarrow> [[x]] | ys # yss \<Rightarrow> (x # ys) # yss))"

definition form_pair :: "bytes \<Rightarrow> jstr \<times> jstr" where
  "form_pair bs = (form_text (takeWhile (\<lambda>b. b \<noteq> 0x3D) bs), form_text (drop 1 (dropWhile (\<lambda>b. b \<noteq> 0x3D) bs)))"

text \<open>\<open>new URLSearchParams(s)\<close>: one leading question mark is dropped.\<close>

definition parse_params :: "jstr \<Rightarrow> params" where
  "parse_params s =
     (let s' = (case s of [] \<Rightarrow> [] | u # us \<Rightarrow> if u = 0x3F then us else s)
      in map form_pair (filter (\<lambda>x. x \<noteq> []) (split_on 0x26 (utf8_encode s'))))"

definition ascii_text :: "bytes \<Rightarrow> jstr" where
  "ascii_text bs = map (\<lambda>b. of_nat (unat b)) bs"

definition pair_bytes :: "jstr \<times> jstr \<Rightarrow> bytes" where
  "pair_bytes p = form_bytes (utf8_encode (fst p)) @ 0x3D # form_bytes (utf8_encode (snd p))"

fun joined :: "'a \<Rightarrow> 'a list list \<Rightarrow> 'a list" where
  "joined s [] = []"
| "joined s [xs] = xs"
| "joined s (xs # ys # yss) = xs @ s # joined s (ys # yss)"

definition params_text :: "params \<Rightarrow> jstr" where
  "params_text ps = ascii_text (joined 0x26 (map pair_bytes ps))"

section \<open>Round trip\<close>

lemma pct_table:
  assumes "n < 16"
  shows "pct_value (pct_digit n) = Some n" "pct_digit n \<noteq> 0x2B" "unat (pct_digit n) < 128"
    "pct_digit n \<noteq> 0x26" "pct_digit n \<noteq> 0x3D"
proof -
  have "\<forall>n \<in> set [0..<16]. pct_value (pct_digit n) = Some n \<and> pct_digit n \<noteq> 0x2B \<and> unat (pct_digit n) < 128 \<and>
      pct_digit n \<noteq> 0x26 \<and> pct_digit n \<noteq> 0x3D"
    by code_simp
  with assms show "pct_value (pct_digit n) = Some n" "pct_digit n \<noteq> 0x2B" "unat (pct_digit n) < 128"
    "pct_digit n \<noteq> 0x26" "pct_digit n \<noteq> 0x3D"
    by simp_all
qed

lemma form_plain_code: "form_plain (unat (b :: byte)) \<Longrightarrow> unat b \<noteq> 0x2B \<and> unat b \<noteq> 0x25 \<and> unat b \<noteq> 0x26 \<and> unat b \<noteq> 0x3D \<and> unat b < 128"
  by (auto simp: form_plain_def)

lemma form_plain_bytes:
  assumes "form_plain (unat (b :: byte))"
  shows "b \<noteq> 0x2B" "b \<noteq> 0x25" "b \<noteq> 0x26" "b \<noteq> 0x3D" "unat b < 128"
  using form_plain_code [OF assms] by auto

lemma decode_form_byte:
  "percent_decode (map plus_to_space (form_byte b @ bs)) = b # percent_decode (map plus_to_space bs)"
proof -
  consider "b = 0x20" | "b \<noteq> 0x20" "form_plain (unat b)" | "b \<noteq> 0x20" "\<not> form_plain (unat b)" by blast
  then show ?thesis
  proof cases
    case 1
    then show ?thesis by (simp add: form_byte_def plus_to_space_def percent_decode.simps(2))
  next
    case 2
    then show ?thesis
      using form_plain_bytes [OF 2(2)] by (simp add: form_byte_def plus_to_space_def percent_decode.simps(2))
  next
    case 3
    have "unat b div 16 < 16" "unat b mod 16 < 16" using unat_byte [of b] by auto
    moreover have "(of_nat (16 * (unat b div 16) + unat b mod 16) :: byte) = b"
      by (simp only: mult_div_mod_eq) simp
    ultimately show ?thesis
      using 3 pct_table
      by (simp add: form_byte_def plus_to_space_def percent_decode.simps(2) pct_pair_def del: of_nat_add of_nat_mult)
  qed
qed

lemma decode_form_bytes: "percent_decode (map plus_to_space (form_bytes bs)) = bs"
proof (induction bs)
  case (Cons b bs)
  have "form_bytes (b # bs) = form_byte b @ form_bytes bs" by (simp add: form_bytes_def)
  then show ?case using Cons.IH decode_form_byte by (simp only:)
qed (simp add: form_bytes_def)

lemma form_text_back: "well_formed s \<Longrightarrow> form_text (form_bytes (utf8_encode s)) = s"
  using code_points_scalar [of s]
  by (simp add: form_text_def decode_form_bytes utf8_encode_def decode_encode_points units_of_code_points)

lemma form_byte_units: "x \<in> set (form_byte b) \<Longrightarrow> x \<noteq> 0x26 \<and> x \<noteq> 0x3D \<and> unat x < 128"
proof -
  have "unat b div 16 < 16" "unat b mod 16 < 16" using unat_byte [of b] by auto
  moreover assume "x \<in> set (form_byte b)"
  then have "x = 0x2B \<or> x = 0x25 \<or> x = b \<and> form_plain (unat b) \<or> x = pct_digit (unat b div 16) \<or>
      x = pct_digit (unat b mod 16)"
    by (auto simp: form_byte_def split: if_splits)
  ultimately show ?thesis using pct_table form_plain_bytes [of b] by (elim disjE) simp_all
qed

lemma form_bytes_units: "x \<in> set (form_bytes bs) \<Longrightarrow> x \<noteq> 0x26 \<and> x \<noteq> 0x3D \<and> unat x < 128"
  using form_byte_units by (auto simp: form_bytes_def)

lemma form_pair_back:
  assumes "well_formed (fst p)" "well_formed (snd p)"
  shows "form_pair (pair_bytes p) = p"
proof -
  have "\<forall>b \<in> set (form_bytes bs). b \<noteq> 0x3D" for bs using form_bytes_units by blast
  then have "takeWhile (\<lambda>b. b \<noteq> 0x3D) (pair_bytes p) = form_bytes (utf8_encode (fst p))"
    "dropWhile (\<lambda>b. b \<noteq> 0x3D) (pair_bytes p) = 0x3D # form_bytes (utf8_encode (snd p))"
    by (simp_all add: pair_bytes_def takeWhile_append2 dropWhile_append2)
  then show ?thesis using assms by (simp add: form_pair_def form_text_back)
qed

lemma split_on_piece: "s \<notin> set xs \<Longrightarrow> split_on s xs = [xs]"
  by (induction xs) auto

lemma split_on_sep: "s \<notin> set xs \<Longrightarrow> split_on s (xs @ s # ys) = xs # split_on s ys"
  by (induction xs) auto

lemma split_joined: "xss \<noteq> [] \<Longrightarrow> \<forall>xs \<in> set xss. s \<notin> set xs \<Longrightarrow> split_on s (joined s xss) = xss"
  by (induction s xss rule: joined.induct) (auto simp: split_on_piece split_on_sep)

lemma unat_widened: "unat (of_nat (unat (b :: byte)) :: 16 word) = unat b"
proof -
  have "unat b < 2 ^ LENGTH(16)" using unat_byte [of b] by simp
  then have "unat b mod 2 ^ LENGTH(16) = unat b" by simp
  then show ?thesis by (simp only: unat_of_nat)
qed

lemma ascii_append: "\<forall>b \<in> set bs. unat b < 128 \<Longrightarrow> utf8_encode (ascii_text bs @ s) = bs @ utf8_encode s"
proof (induction bs)
  case (Cons b bs)
  have small: "unat b < 128" using Cons.prems by simp
  have "code_points (of_nat (unat b) # us) = unat b # code_points us" for us
    using unat_widened [of b] small by (cases us) (simp_all add: is_high_def is_low_def)
  then have "utf8_encode (ascii_text (b # bs) @ s) = encode_point (unat b) @ utf8_encode (ascii_text bs @ s)"
    by (simp add: ascii_text_def utf8_encode_def del: of_nat_unat)
  then show ?case using Cons small by (simp add: encode_point_def)
qed (simp add: ascii_text_def)

lemma pair_bytes_units: "b \<in> set (pair_bytes p) \<Longrightarrow> b \<noteq> 0x26 \<and> unat b < 128"
  using form_bytes_units by (auto simp: pair_bytes_def)

lemma joined_set: "x \<in> set (joined s xss) \<Longrightarrow> x = s \<or> (\<exists>xs \<in> set xss. x \<in> set xs)"
  by (induction s xss rule: joined.induct) auto

lemma joined_first: "xss \<noteq> [] \<Longrightarrow> hd xss \<noteq> [] \<Longrightarrow> hd (joined s xss) = hd (hd xss) \<and> joined s xss \<noteq> []"
  by (induction s xss rule: joined.induct) auto

lemma form_bytes_no_question: "0x3F \<notin> set (form_bytes bs)"
proof
  assume "0x3F \<in> set (form_bytes bs)"
  then obtain b where "0x3F \<in> set (form_byte b)" by (auto simp: form_bytes_def)
  moreover have "unat b div 16 < 16" "unat b mod 16 < 16" using unat_byte [of b] by auto
  moreover have "\<forall>n \<in> set [0..<16]. pct_digit n \<noteq> 0x3F" by code_simp
  moreover have "\<not> form_plain (unat (0x3F :: byte))" by (simp add: form_plain_def)
  ultimately show False by (auto simp: form_byte_def split: if_splits)
qed

lemma pair_bytes_first: "pair_bytes p \<noteq> [] \<and> hd (pair_bytes p) \<noteq> 0x3F"
  using form_bytes_no_question [of "utf8_encode (fst p)"]
  by (cases "form_bytes (utf8_encode (fst p))") (auto simp: pair_bytes_def)

text \<open>The query does not begin with a question mark, so nothing is dropped.\<close>

lemma params_text_first: "ps \<noteq> [] \<Longrightarrow> \<exists>c cs. params_text ps = c # cs \<and> c \<noteq> 0x3F"
proof -
  assume "ps \<noteq> []"
  let ?bs = "joined 0x26 (map pair_bytes ps)"
  have "?bs \<noteq> [] \<and> hd ?bs \<noteq> 0x3F"
    using \<open>ps \<noteq> []\<close> pair_bytes_first [of "hd ps"] joined_first [of "map pair_bytes ps" "0x26"] by (simp add: hd_map)
  then obtain c cs where c: "?bs = c # cs" "c \<noteq> 0x3F" by (cases ?bs) auto
  have "(of_nat (unat c) :: 16 word) \<noteq> 0x3F"
  proof
    assume "(of_nat (unat c) :: 16 word) = 0x3F"
    then have "unat (of_nat (unat c) :: 16 word) = 0x3F" by simp
    moreover note unat_widened [of c]
    ultimately have "unat c = unat (0x3F :: byte)" by simp
    then have "c = 0x3F" by (simp only: word_unat_eq_iff)
    with c(2) show False by simp
  qed
  with c(1) show ?thesis by (simp add: params_text_def ascii_text_def)
qed

lemma parse_params_text:
  "ps \<noteq> [] \<Longrightarrow> parse_params (params_text ps @ s) =
     map form_pair (filter (\<lambda>x. x \<noteq> []) (split_on 0x26 (joined 0x26 (map pair_bytes ps) @ utf8_encode s)))"
proof -
  assume "ps \<noteq> []"
  have "\<forall>b \<in> set (joined 0x26 (map pair_bytes ps)). unat b < 128" using pair_bytes_units by (auto dest!: joined_set)
  then have "utf8_encode (params_text ps @ s) = joined 0x26 (map pair_bytes ps) @ utf8_encode s"
    unfolding params_text_def by (rule ascii_append)
  moreover obtain c cs where "params_text ps = c # cs" "c \<noteq> 0x3F" using params_text_first [OF \<open>ps \<noteq> []\<close>] by blast
  ultimately show ?thesis by (simp add: parse_params_def)
qed

lemma params_roundtrip:
  assumes "\<forall>p \<in> set ps. well_formed (fst p) \<and> well_formed (snd p)"
  shows "parse_params (params_text ps) = ps"
proof (cases "ps = []")
  case True
  then show ?thesis by (simp add: parse_params_def params_text_def ascii_text_def utf8_encode_def)
next
  case False
  have "parse_params (params_text ps) = map form_pair (filter (\<lambda>x. x \<noteq> []) (split_on 0x26 (joined 0x26 (map pair_bytes ps))))"
    using parse_params_text [OF False, of "[]"] by (simp add: utf8_encode_def)
  also have "split_on 0x26 (joined 0x26 (map pair_bytes ps)) = map pair_bytes ps"
    using False pair_bytes_units by (intro split_joined) auto
  also have "filter (\<lambda>x. x \<noteq> []) (map pair_bytes ps) = map pair_bytes ps"
    using pair_bytes_first by (intro filter_True) auto
  also have "map form_pair (map pair_bytes ps) = ps"
    unfolding map_map using assms by (intro map_idI) (simp add: form_pair_back)
  finally show ?thesis .
qed

text \<open>Text appended to a query: it belongs to the last value, as far as it has no separator.\<close>

lemma decode_form_bytes_append:
  "percent_decode (map plus_to_space (form_bytes bs @ cs)) = bs @ percent_decode (map plus_to_space cs)"
proof (induction bs)
  case (Cons b bs)
  have "form_bytes (b # bs) @ cs = form_byte b @ (form_bytes bs @ cs)" by (simp add: form_bytes_def)
  then show ?case using Cons.IH decode_form_byte by (simp only: append_Cons)
qed (simp add: form_bytes_def)

lemma decode_points_append:
  "list_all scalar cps \<Longrightarrow> decode_points (concat (map encode_point cps) @ bs) = cps @ decode_points bs"
  by (induction cps) (auto simp: decode_encode_point)

lemma split_joined_tail:
  "xss \<noteq> [] \<Longrightarrow> \<forall>xs \<in> set xss. s \<notin> set xs \<Longrightarrow> s \<notin> set ys \<Longrightarrow>
     split_on s (joined s xss @ ys) = butlast xss @ [last xss @ ys]"
  by (induction s xss rule: joined.induct) (auto simp: split_on_piece split_on_sep)

lemma byte_26: "(0x26 :: byte) = of_nat n \<Longrightarrow> n < 256 \<Longrightarrow> n = 0x26"
proof -
  assume "(0x26 :: byte) = of_nat n" "n < 256"
  then have "unat (0x26 :: byte) = n" using unat_small [of n] by (simp only:)
  then show "n = 0x26" by simp
qed

lemma encode_point_sep:
  assumes "0x26 \<in> set (encode_point cp)" "cp < 0x110000"
  shows "cp = 0x26"
proof -
  let ?ns = "if cp < 0x80 then [cp]
    else if cp < 0x800 then [0xC0 + cp div 64, 0x80 + cp mod 64]
    else if cp < 0x10000 then [0xE0 + cp div 4096, 0x80 + cp div 64 mod 64, 0x80 + cp mod 64]
    else [0xF0 + cp div 262144, 0x80 + cp div 4096 mod 64, 0x80 + cp div 64 mod 64, 0x80 + cp mod 64]"
  have "encode_point cp = map of_nat ?ns" by (simp add: encode_point_def del: of_nat_add)
  then obtain n where n: "n \<in> set ?ns" "(0x26 :: byte) = of_nat n" using assms(1) by auto
  have "cp div 4096 < 16" if "cp < 0x10000" using that by auto
  moreover have "cp div 262144 < 5" using assms(2) by auto
  moreover have "cp div 64 < 32" if "cp < 0x800" using that by auto
  ultimately have "n < 256 \<and> (n = 0x26 \<longrightarrow> cp = 0x26)" using n(1) by (auto split: if_splits)
  with byte_26 [OF n(2)] show ?thesis by blast
qed

lemma unit_26: "unat (u :: 16 word) = 0x26 \<Longrightarrow> u = 0x26"
  by (metis of_nat_numeral of_nat_unat ucast_id)

lemma join_pair_bounds: "is_high u \<Longrightarrow> is_low v \<Longrightarrow> 0x10000 \<le> join_pair u v \<and> join_pair u v < 0x110000"
  by (auto simp: is_high_def is_low_def join_pair_def)

lemma code_points_units: "cp \<in> set (code_points s) \<Longrightarrow> cp < 0x110000 \<and> (cp = 0x26 \<longrightarrow> 0x26 \<in> set s)"
proof (induction s rule: code_points.induct)
  case (2 u)
  then show ?case using unat_unit [of u] unit_26 [of u] by (auto split: if_splits)
next
  case (3 u v us)
  then show ?case using unat_unit [of u] unit_26 [of u] join_pair_bounds [of u v] by (auto split: if_splits)
qed simp

lemma utf8_no_sep: "0x26 \<notin> set s \<Longrightarrow> 0x26 \<notin> set (utf8_encode s)"
  using code_points_units encode_point_sep by (fastforce simp: utf8_encode_def)

lemma parse_params_tail:
  assumes wf: "\<forall>p \<in> set (ps @ [(n, v)]). well_formed (fst p) \<and> well_formed (snd p)"
    and u: "u = 0x20 \<or> u = 0x0A" and rest: "0x26 \<notin> set rest"
  shows "parse_params (params_text (ps @ [(n, v)]) @ u # rest) = ps @ [(n, v @ u # form_text (utf8_encode rest))]"
proof -
  let ?xss = "map pair_bytes (ps @ [(n, v)])"
  let ?b = "if u = 0x20 then 0x20 else 0x0A :: byte"
  let ?tail = "?b # utf8_encode rest"
  have tail: "utf8_encode (u # rest) = ?tail"
    using u ascii_append [of "[?b]" rest] by (auto simp: ascii_text_def)
  have "0x26 \<notin> set ?tail" using utf8_no_sep [OF rest] by simp
  then have split: "split_on 0x26 (joined 0x26 ?xss @ ?tail) = map pair_bytes ps @ [pair_bytes (n, v) @ ?tail]"
    using pair_bytes_units by (subst split_joined_tail) auto
  have eq: "\<forall>b \<in> set (form_bytes bs). b \<noteq> 0x3D" for bs using form_bytes_units by blast
  have last: "form_pair (pair_bytes (n, v) @ ?tail) = (n, v @ u # form_text (utf8_encode rest))"
  proof -
    have "form_text (form_bytes (utf8_encode v) @ ?tail) = v @ u # form_text (utf8_encode rest)"
    proof -
      have "percent_decode (map plus_to_space ?tail) = ?b # percent_decode (map plus_to_space (utf8_encode rest))"
        by (simp add: plus_to_space_def percent_decode.simps(2))
      moreover have "decode_points (?b # bs) = unat ?b # decode_points bs" for bs
        by (simp add: decode_points.simps(2))
      moreover have "units_of (unat ?b) = [u]" using u by (auto simp: units_of_def)
      moreover have "decode_points (utf8_encode v @ bs) = code_points v @ decode_points bs" for bs
        using wf code_points_scalar [of v] by (simp add: utf8_encode_def decode_points_append)
      moreover have "concat (map units_of (code_points v)) = v" using wf by (simp add: units_of_code_points)
      ultimately show ?thesis
        unfolding form_text_def decode_form_bytes_append by (simp only: map_append concat_append list.map concat.simps append.simps)
    qed
    moreover have "form_text (form_bytes (utf8_encode n)) = n" using wf by (simp add: form_text_back)
    ultimately show ?thesis
      using eq by (simp add: form_pair_def pair_bytes_def takeWhile_append2 dropWhile_append2)
  qed
  have "parse_params (params_text (ps @ [(n, v)]) @ u # rest) =
      map form_pair (filter (\<lambda>x. x \<noteq> []) (map pair_bytes ps @ [pair_bytes (n, v) @ ?tail]))"
    by (subst parse_params_text) (simp_all only: tail split append_is_Nil_conv list.distinct simp_thms)
  also have "filter (\<lambda>x. x \<noteq> []) (map pair_bytes ps @ [pair_bytes (n, v) @ ?tail]) = map pair_bytes ps @ [pair_bytes (n, v) @ ?tail]"
    using pair_bytes_first by (intro filter_True) auto
  also have "map form_pair \<dots> = ps @ [(n, v @ u # form_text (utf8_encode rest))]"
    using wf last by (auto simp: form_pair_back intro!: map_idI)
  finally show ?thesis .
qed

section \<open>Text in the URL-safe alphabet\<close>

lemma url_safe_code: "url_safe u \<Longrightarrow> unat u < 128 \<and> \<not> is_high u \<and> \<not> is_low u"
  by (auto simp: url_safe_def is_digit_def is_high_def is_low_def)

lemma url_safe_well_formed: "list_all url_safe s \<Longrightarrow> well_formed s"
proof (induction s rule: well_formed.induct)
  case (3 u v us)
  then show ?case using url_safe_code [of u] by simp
qed (use url_safe_code in auto)

end
