(* ===== verification/Room.thy ===== *)
theory Room
  imports Backup UrlParams
begin

text \<open>
  \<open>web/src/lib/crypto/room.ts\<close>: the room link's fragment, the PIN gate, the relay token, and the one-time
  PINs in session storage; also \<open>keyFromFragment\<close> of \<open>session.ts\<close> and the session storage of
  \<open>web/src/lib/storage/history.ts\<close>. PBKDF2 and HKDF are parameters.
\<close>

section \<open>Fragment\<close>

record room_fragment =
  fr_keyRaw :: bytes
  fr_pv :: bytes
  fr_salt :: bytes
  fr_seat :: "nat option"
  fr_legacy :: bool

definition strip_hash :: "jstr \<Rightarrow> jstr" where
  "strip_hash s = (case s of [] \<Rightarrow> [] | u # us \<Rightarrow> if u = 0x23 then us else s)"

definition generateRoomPin :: "32 word \<Rightarrow> jstr" where
  "generateRoomPin rand = pad_left 6 (decimal (unat rand mod 1000000))"

definition cleanB64UrlParam :: "jstr \<Rightarrow> jstr" where
  "cleanB64UrlParam v = takeWhile url_safe (trim v)"

text \<open>
  The search for \<open>(Room PIN | PIN) : digits\<close>, spaces optional and letters in either case: the match that
  starts first counts.
\<close>

definition lower_ascii :: "16 word \<Rightarrow> 16 word" where
  "lower_ascii u = (if 65 \<le> unat u \<and> unat u \<le> 90 then u + 32 else u)"

definition after_word :: "string \<Rightarrow> jstr \<Rightarrow> jstr option" where
  "after_word w s = (if map lower_ascii (take (length w) s) = js w then Some (drop (length w) s) else None)"

definition six_digits :: "jstr \<Rightarrow> jstr option" where
  "six_digits s = (if 6 \<le> length s \<and> list_all is_digit (take 6 s) then Some (take 6 s) else None)"

definition pin_after :: "jstr \<Rightarrow> jstr option" where
  "pin_after s =
     (case dropWhile is_space s of
        [] \<Rightarrow> None
      | u # us \<Rightarrow> if u = 0x3A then six_digits (dropWhile is_space us) else None)"

definition pin_here :: "jstr \<Rightarrow> jstr option" where
  "pin_here s =
     (case Option.bind (after_word ''room'' s) (\<lambda>t. Option.bind (after_word ''pin'' (dropWhile is_space t)) pin_after) of
        Some d \<Rightarrow> Some d
      | None \<Rightarrow> Option.bind (after_word ''pin'' s) pin_after)"

fun find_pin :: "jstr \<Rightarrow> jstr option" where
  "find_pin [] = None"
| "find_pin (u # us) = (case pin_here (u # us) of Some d \<Rightarrow> Some d | None \<Rightarrow> find_pin us)"

definition clean_param :: "jstr \<Rightarrow> params \<Rightarrow> params" where
  "clean_param n ps =
     (case truthy (param_get n ps) of
        None \<Rightarrow> ps
      | Some v \<Rightarrow>
          let cleaned = cleanB64UrlParam v
          in if cleaned \<noteq> [] then param_set n cleaned ps else param_delete n ps)"

definition sanitizeRoomFragmentInput :: "jstr \<Rightarrow> jstr \<times> jstr option" where
  "sanitizeRoomFragmentInput hash =
     (let raw = strip_hash hash;
          pinHint = find_pin raw;
          params = fold (\<lambda>n. clean_param (js n)) [''key'', ''pv'', ''salt''] (parse_params raw);
          params = (if param_get (js ''seat'') params = Some (js ''0'') \<or> param_get (js ''seat'') params = Some (js ''1'')
                    then params else param_delete (js ''seat'') params)
      in if truthy (param_get (js ''key'') params) = None then (hash, pinHint)
         else (0x23 # params_text params, pinHint))"

definition bytes_of :: "jstr \<Rightarrow> bytes option" where
  "bytes_of s = (case base64UrlToBytes s of Inl _ \<Rightarrow> None | Inr bs \<Rightarrow> Some bs)"

definition seat_of :: "jstr option \<Rightarrow> nat option" where
  "seat_of s = (if s = Some (js ''0'') then Some 0 else if s = Some (js ''1'') then Some 1 else None)"

definition parseRoomFragment :: "jstr \<Rightarrow> room_fragment option" where
  "parseRoomFragment hash =
     (let params = parse_params (strip_hash (fst (sanitizeRoomFragmentInput hash)))
      in case truthy (param_get (js ''key'') params) of
           None \<Rightarrow> None
         | Some keyStr \<Rightarrow>
             (case bytes_of keyStr of
                None \<Rightarrow> None
              | Some keyRaw \<Rightarrow>
                  (case (truthy (param_get (js ''pv'') params), truthy (param_get (js ''salt'') params)) of
                     (Some pvStr, Some saltStr) \<Rightarrow>
                       (case (bytes_of pvStr, bytes_of saltStr) of
                          (Some pv, Some salt) \<Rightarrow>
                            Some \<lparr>fr_keyRaw = keyRaw, fr_pv = pv, fr_salt = salt,
                                  fr_seat = seat_of (param_get (js ''seat'') params), fr_legacy = False\<rparr>
                        | _ \<Rightarrow> None)
                   | _ \<Rightarrow> Some \<lparr>fr_keyRaw = keyRaw, fr_pv = [], fr_salt = [], fr_seat = None, fr_legacy = True\<rparr>)))"

definition buildRoomHash :: "bytes \<Rightarrow> bytes \<Rightarrow> bytes \<Rightarrow> nat option \<Rightarrow> jstr" where
  "buildRoomHash keyRaw pv salt seat =
     (let params = param_set (js ''salt'') (bytesToBase64Url salt)
            (param_set (js ''pv'') (bytesToBase64Url pv)
              (param_set (js ''key'') (bytesToBase64Url keyRaw) []));
          params = (case seat of None \<Rightarrow> params | Some n \<Rightarrow> param_set (js ''seat'') (decimal n) params)
      in 0x23 # params_text params)"

definition shareRoomHash :: "jstr \<Rightarrow> jstr" where
  "shareRoomHash hash = 0x23 # params_text (param_delete (js ''seat'') (parse_params (strip_hash hash)))"

definition resolveSeat :: "room_fragment \<Rightarrow> nat" where
  "resolveSeat f = (if fr_seat f = Some 0 \<or> fr_seat f = Some 1 then the (fr_seat f) else 1)"

definition keyFromFragment :: "jstr \<Rightarrow> bytes option" where
  "keyFromFragment frag = Option.bind (truthy (param_get (js ''key'') (parse_params (strip_hash frag)))) bytes_of"

section \<open>PIN gate and relay token\<close>

unbundle bit_operations_syntax

definition constantTimeEqual :: "bytes \<Rightarrow> bytes \<Rightarrow> bool" where
  "constantTimeEqual a b \<longleftrightarrow>
     length a = length b \<and> foldl (\<lambda>diff (x, y). diff OR (x XOR y)) 0 (zip a b) = 0"

text \<open>\<open>pbkdf2\<close> takes the password and the salt, \<open>hkdf\<close> the key, the salt and the info.\<close>

definition createPinVerifier :: "(bytes \<Rightarrow> bytes \<Rightarrow> bytes) \<Rightarrow> jstr \<Rightarrow> bytes \<Rightarrow> jstr \<Rightarrow> bytes" where
  "createPinVerifier pbkdf2 pin salt bucketId = pbkdf2 (utf8_encode pin) (salt @ utf8_encode bucketId)"

definition verifyRoomPin :: "(bytes \<Rightarrow> bytes \<Rightarrow> bytes) \<Rightarrow> jstr \<Rightarrow> bytes \<Rightarrow> jstr \<Rightarrow> bytes \<Rightarrow> bool" where
  "verifyRoomPin pbkdf2 pin salt bucketId expected =
     constantTimeEqual (createPinVerifier pbkdf2 pin salt bucketId) expected"

definition deriveRelayToken :: "(bytes \<Rightarrow> bytes \<Rightarrow> bytes \<Rightarrow> bytes) \<Rightarrow> bytes \<Rightarrow> jstr \<Rightarrow> jstr \<Rightarrow> nat \<Rightarrow> jstr" where
  "deriveRelayToken hkdf keyRaw pin bucketId seat =
     bytesToBase64Url (hkdf keyRaw
       (utf8_encode (js ''byteln-relay|'' @ pin @ js ''|'' @ bucketId @ js ''|'' @ decimal seat))
       (utf8_encode (js ''byteln-relay-v1'')))"

section \<open>Session storage\<close>

text \<open>\<open>None\<close> is a browser that throws on every access (private mode).\<close>

type_synonym session_storage = "(jstr, jstr) jsmap option"

definition getItem :: "jstr \<Rightarrow> session_storage \<Rightarrow> jstr option" where
  "getItem k st = Option.bind st (\<lambda>m. map_of m k)"

definition setItem :: "jstr \<Rightarrow> jstr \<Rightarrow> session_storage \<Rightarrow> session_storage" where
  "setItem k v st = map_option (AList.update k v) st"

definition removeItem :: "jstr \<Rightarrow> session_storage \<Rightarrow> session_storage" where
  "removeItem k st = map_option (AList.delete k) st"

definition pin_once_key :: "jstr \<Rightarrow> jstr" where "pin_once_key b = js ''byteln:pin-once:'' @ b"
definition join_pin_key :: "jstr \<Rightarrow> jstr" where "join_pin_key b = js ''byteln:join-pin:'' @ b"
definition token_key :: "jstr \<Rightarrow> jstr" where "token_key b = js ''byteln:token:'' @ b"

definition take_item :: "jstr \<Rightarrow> session_storage \<Rightarrow> jstr option \<times> session_storage" where
  "take_item k st = (getItem k st, if truthy (getItem k st) = None then st else removeItem k st)"

definition stashCreatorPin :: "jstr \<Rightarrow> jstr \<Rightarrow> session_storage \<Rightarrow> session_storage" where
  "stashCreatorPin b pin = setItem (pin_once_key b) pin"

definition takeCreatorPin :: "jstr \<Rightarrow> session_storage \<Rightarrow> jstr option \<times> session_storage" where
  "takeCreatorPin b = take_item (pin_once_key b)"

definition stashJoinPin :: "jstr \<Rightarrow> jstr \<Rightarrow> session_storage \<Rightarrow> session_storage" where
  "stashJoinPin b pin = setItem (join_pin_key b) pin"

definition takeJoinPin :: "jstr \<Rightarrow> session_storage \<Rightarrow> jstr option \<times> session_storage" where
  "takeJoinPin b = take_item (join_pin_key b)"

definition getSessionToken :: "jstr \<Rightarrow> session_storage \<Rightarrow> jstr option" where
  "getSessionToken b = getItem (token_key b)"

definition setSessionToken :: "jstr \<Rightarrow> jstr \<Rightarrow> session_storage \<Rightarrow> session_storage" where
  "setSessionToken b token = setItem (token_key b) token"

definition clearRoomSessionStorage :: "jstr \<Rightarrow> session_storage \<Rightarrow> session_storage" where
  "clearRoomSessionStorage b st = removeItem (join_pin_key b) (removeItem (pin_once_key b) (removeItem (token_key b) st))"

definition clearBytelnSessionStorage :: "session_storage \<Rightarrow> session_storage" where
  "clearBytelnSessionStorage st =
     map_option (\<lambda>m. fold AList.delete (filter (\<lambda>k. take 7 k = js ''byteln:'') (map fst m)) m) st"

section \<open>Lemmas\<close>

lemma constantTimeEqual_eq [simp]: "constantTimeEqual a b \<longleftrightarrow> a = b"
proof -
  have "foldl (\<lambda>diff (x, y). diff OR (x XOR y)) d (zip a b) = 0 \<longleftrightarrow> d = 0 \<and> a = b"
    if "length a = length b" for d :: byte
    using that
  proof (induction a b arbitrary: d rule: list_induct2)
    case (Cons x xs y ys)
    have "x XOR y = 0 \<longleftrightarrow> x = y" by (metis bit.xor_self xor.assoc xor.left_neutral)
    then show ?case using Cons by (auto simp: or_eq_0_iff)
  qed simp
  then show ?thesis by (auto simp: constantTimeEqual_def)
qed

lemma url_safe_not_space: "url_safe u \<Longrightarrow> \<not> is_space u"
proof
  assume u: "url_safe u" and sp: "is_space u"
  have "unat (0xA0 :: 16 word) = 160" "unat (0x1680 :: 16 word) = 5760" by simp_all
  from sp have "unat u \<le> 32 \<or> 128 \<le> unat u"
    by (auto simp: is_space_def word_le_nat_alt)
  with u show False by (auto simp: url_safe_def is_digit_def)
qed

lemma trim_safe_prefix:
  assumes "list_all url_safe s" "s \<noteq> []"
  shows "\<exists>t'. trim (s @ t) = s @ t' \<and> (t' = [] \<or> hd t' = hd t)"
proof -
  obtain u us v vs where s: "s = u # us" "s = vs @ [v]" using assms(2) by (metis list.exhaust rev_exhaust)
  have "u \<in> set s" "v \<in> set s" using s by (metis list.set_intros(1), metis in_set_conv_decomp)
  then have "\<not> is_space u" "\<not> is_space v" using assms(1) url_safe_not_space by (auto simp: list_all_iff)
  then have "trim (s @ t) = rev (dropWhile is_space (rev t @ rev s))"
    by (simp add: trim_def s(1))
  show ?thesis
  proof (cases "\<forall>x \<in> set t. is_space x")
    case True
    then have "dropWhile is_space (rev t @ rev s) = rev s"
      using \<open>\<not> is_space v\<close> dropWhile_append2 [of "rev t" is_space "v # rev vs"] by (simp add: s(2))
    then show ?thesis using \<open>trim (s @ t) = _\<close> by auto
  next
    case False
    then have "dropWhile is_space (rev t @ rev s) = dropWhile is_space (rev t) @ rev s"
      by (auto intro: dropWhile_append1)
    moreover have "rev (dropWhile is_space (rev t)) \<noteq> []" using False by auto
    moreover have "hd (rev (dropWhile is_space (rev t))) = hd t"
    proof -
      obtain p where "rev t = p @ dropWhile is_space (rev t)" by (metis takeWhile_dropWhile_id)
      then have "t = rev (dropWhile is_space (rev t)) @ rev p" by (metis rev_append rev_rev_ident)
      then show ?thesis using calculation(2) by (metis hd_append2)
    qed
    ultimately show ?thesis using \<open>trim (s @ t) = _\<close> by auto
  qed
qed

lemma clean_safe:
  assumes "list_all url_safe s" "s \<noteq> []" "t = [] \<or> \<not> url_safe (hd t)"
  shows "cleanB64UrlParam (s @ t) = s"
proof -
  obtain t' where t': "trim (s @ t) = s @ t'" "t' = [] \<or> hd t' = hd t" using trim_safe_prefix [OF assms(1,2)] by blast
  show ?thesis
  proof (cases "t = []")
    case True
    have "trim s = s @ t'" using t'(1) True by simp
    moreover have "length (trim s) \<le> length s" by (rule length_trim)
    ultimately show ?thesis using assms(1) True by (simp add: cleanB64UrlParam_def takeWhile_eq_all_conv list_all_iff)
  next
    case False
    then have "takeWhile url_safe t' = []" using t'(2) assms(3) by (cases t') auto
    then show ?thesis using assms(1) t'(1) by (simp add: cleanB64UrlParam_def list_all_iff)
  qed
qed

text \<open>The parameters of a link.\<close>

definition seat_params :: "nat option \<Rightarrow> params" where
  "seat_params seat = (case seat of None \<Rightarrow> [] | Some n \<Rightarrow> [(js ''seat'', decimal n)])"

definition link_params :: "jstr \<Rightarrow> jstr \<Rightarrow> jstr \<Rightarrow> nat option \<Rightarrow> params" where
  "link_params k p s seat = [(js ''key'', k), (js ''pv'', p), (js ''salt'', s)] @ seat_params seat"

lemma decimal_small: "n < 10 \<Longrightarrow> decimal n = [of_nat (48 + n)]"
  by (simp add: decimal.simps)

lemma seat_text: "decimal 0 = js ''0''" "decimal (Suc 0) = js ''1''"
  by (simp_all add: decimal_small js_def unit_of_def)

lemma build_link: "buildRoomHash key pv salt seat =
    0x23 # params_text (link_params (bytesToBase64Url key) (bytesToBase64Url pv) (bytesToBase64Url salt) seat)"
  by (simp add: buildRoomHash_def link_params_def seat_params_def param_delete_def split: option.split)

lemma name_safe: "list_all url_safe (js ''key'')" "list_all url_safe (js ''pv'')" "list_all url_safe (js ''salt'')"
    "list_all url_safe (js ''seat'')" "list_all url_safe (js ''0'')" "list_all url_safe (js ''1'')"
  by (simp_all add: js_def unit_of_def url_safe_def is_digit_def)

definition seat_ok :: "nat option \<Rightarrow> bool" where
  "seat_ok seat \<longleftrightarrow> seat = None \<or> seat = Some 0 \<or> seat = Some 1"

lemma link_back:
  assumes "list_all url_safe k" "list_all url_safe p" "list_all url_safe s" "seat_ok seat"
  shows "parse_params (params_text (link_params k p s seat)) = link_params k p s seat"
  using assms name_safe url_safe_well_formed
  by (intro params_roundtrip) (auto simp: link_params_def seat_params_def seat_ok_def seat_text)

lemma sanitize_link:
  assumes "parse_params (strip_hash h) =
      link_params (bytesToBase64Url key) (bytesToBase64Url pv) (bytesToBase64Url salt @ t) seat"
    and "key \<noteq> []" "pv \<noteq> []" "salt \<noteq> []" "seat_ok seat" "t = [] \<or> \<not> url_safe (hd t)"
  shows "fst (sanitizeRoomFragmentInput h) = buildRoomHash key pv salt seat"
proof -
  let ?b = bytesToBase64Url
  have clean: "cleanB64UrlParam (?b bs @ r) = ?b bs" if "bs \<noteq> []" "r = [] \<or> \<not> url_safe (hd r)" for bs r
    using that by (intro clean_safe) (simp_all add: base64url_safe)
  note clean0 = clean [of _ "[]", simplified]
  show ?thesis
    using assms(2-6)
    by (auto simp: sanitizeRoomFragmentInput_def build_link assms(1) link_params_def seat_params_def seat_ok_def
        clean_param_def truthy_def clean clean0 param_delete_def seat_text)
qed

lemma built_params:
  "seat_ok seat \<Longrightarrow> parse_params (strip_hash (buildRoomHash key pv salt seat)) =
     link_params (bytesToBase64Url key) (bytesToBase64Url pv) (bytesToBase64Url salt) seat"
  by (simp add: build_link strip_hash_def link_back base64url_safe)

lemma parse_link:
  assumes "parse_params (strip_hash h) =
      link_params (bytesToBase64Url key) (bytesToBase64Url pv) (bytesToBase64Url salt @ t) seat"
    and "key \<noteq> []" "pv \<noteq> []" "salt \<noteq> []" "seat_ok seat" "t = [] \<or> \<not> url_safe (hd t)"
  shows "parseRoomFragment h =
    Some \<lparr>fr_keyRaw = key, fr_pv = pv, fr_salt = salt, fr_seat = seat, fr_legacy = False\<rparr>"
  using assms(2-5)
  by (auto simp: parseRoomFragment_def sanitize_link [OF assms] built_params link_params_def truthy_def bytes_of_def seat_of_def
      seat_params_def seat_ok_def seat_text)

text \<open>A link that is built is clean already, and it is read back.\<close>

lemma built_clean:
  assumes "key \<noteq> []" "pv \<noteq> []" "salt \<noteq> []" "seat_ok seat"
  shows "fst (sanitizeRoomFragmentInput (buildRoomHash key pv salt seat)) = buildRoomHash key pv salt seat"
    and "parseRoomFragment (buildRoomHash key pv salt seat) =
      Some \<lparr>fr_keyRaw = key, fr_pv = pv, fr_salt = salt, fr_seat = seat, fr_legacy = False\<rparr>"
  using assms by (auto intro!: sanitize_link [where t = "[]"] parse_link [where t = "[]"] simp: built_params)

lemma share_link:
  assumes "seat_ok seat"
  shows "shareRoomHash (buildRoomHash key pv salt seat) = buildRoomHash key pv salt None"
  unfolding shareRoomHash_def built_params [OF assms]
  by (simp add: build_link) (simp add: link_params_def seat_params_def param_delete_def split: option.split)



end
