(* ===== verification/Vault.thy ===== *)
theory Vault
  imports Room Store
begin

text \<open>
  \<open>web/src/lib/crypto/vault.ts\<close>: the app PIN's vault. Its module variables are the record \<open>vault\<close>, the
  stored \<open>VaultMeta\<close> is an entry of the database, and a \<open>CryptoKey\<close> is its raw bytes. An \<open>EncryptedBlob\<close> is
  the pair of nonce and ciphertext. \<open>JSON.parse\<close> is cast, not checked: a stored value of another shape than
  the program writes makes a property read fail with a \<open>TypeError\<close>, and credentials of another shape are
  read as absent (only the holder of the vault key can have written them).
\<close>

section \<open>State\<close>

record credentials =
  cr_roomHash :: jstr
  cr_roomPin :: "jstr option"
  cr_legacyToken :: "jstr option"

record vault =
  vt_key :: "bytes option"
  vt_sid :: "jstr option"
  vt_session :: "(jstr, credentials) jsmap"

definition new_vault :: vault where
  "new_vault = \<lparr>vt_key = None, vt_sid = None, vt_session = []\<rparr>"

definition isVaultUnlocked :: "vault \<Rightarrow> bool" where
  "isVaultUnlocked v \<longleftrightarrow> vt_key v \<noteq> None"

definition lockVault :: "vault \<Rightarrow> vault" where
  "lockVault v = v\<lparr>vt_key := None, vt_sid := None\<rparr>"

definition getDeviceSessionId :: "vault \<Rightarrow> jstr option" where
  "getDeviceSessionId v = vt_sid v"

section \<open>Keys\<close>

definition deriveVaultKey :: "(bytes \<Rightarrow> bytes \<Rightarrow> bytes) \<Rightarrow> jstr \<Rightarrow> bytes \<Rightarrow> bytes" where
  "deriveVaultKey pbkdf2 pin salt = pbkdf2 (utf8_encode pin) salt"

definition deriveVerifier :: "(bytes \<Rightarrow> bytes \<Rightarrow> bytes) \<Rightarrow> jstr \<Rightarrow> bytes \<Rightarrow> bytes" where
  "deriveVerifier pbkdf2 pin salt = pbkdf2 (utf8_encode pin) (salt @ utf8_encode (js ''verifier''))"

section \<open>Meta\<close>

definition vault_meta_key :: jstr where "vault_meta_key = js ''vaultMeta''"

definition getMetaFromDb :: "db \<Rightarrow> json option" where
  "getMetaFromDb d =
     (case getMetaEntry vault_meta_key d of
        None \<Rightarrow> None
      | Some v \<Rightarrow> (case parse v of None \<Rightarrow> None | Some j \<Rightarrow> if j = JNull then None else Some j))"

definition hasVault :: "db \<Rightarrow> bool" where
  "hasVault d \<longleftrightarrow> getMetaFromDb d \<noteq> None"

definition meta_json :: "bytes \<Rightarrow> bytes \<Rightarrow> jstr \<Rightarrow> json" where
  "meta_json salt verifier sid =
     JObj [Wire.count ''version'' 1, str ''salt'' (bytesToBase64Url salt), str ''verifier'' (bytesToBase64Url verifier),
           str ''deviceSessionId'' sid]"

definition meta_bytes :: "json \<Rightarrow> string \<Rightarrow> bytes result" where
  "meta_bytes j k = (case get_str j k of None \<Rightarrow> Inl TypeError | Some s \<Rightarrow> base64UrlToBytes s)"

definition app_pin_ok :: "jstr \<Rightarrow> bool" where
  "app_pin_ok pin \<longleftrightarrow> 4 \<le> length pin \<and> length pin \<le> 8 \<and> list_all is_digit pin"

text \<open>The message has an en dash, written here as its UTF-8 bytes.\<close>

definition pin_error :: js_error where
  "pin_error = Error (''App PIN must be 4'' @ [CHR 0xE2, CHR 0x80, CHR 0x93] @ ''8 digits.'')"

text \<open>\<open>salt\<close> and \<open>sid\<close> are the outcomes of \<open>getRandomValues\<close> and \<open>randomUUID\<close>.\<close>

definition createVault ::
  "(bytes \<Rightarrow> bytes \<Rightarrow> bytes) \<Rightarrow> bytes \<Rightarrow> jstr \<Rightarrow> jstr \<Rightarrow> vault \<Rightarrow> db \<Rightarrow> (vault \<times> db) result" where
  "createVault pbkdf2 salt sid pin v d =
     (if \<not> app_pin_ok pin then Inl pin_error
      else Inr (v\<lparr>vt_key := Some (deriveVaultKey pbkdf2 pin salt), vt_sid := Some sid\<rparr>,
                setMetaEntry vault_meta_key (stringify (meta_json salt (deriveVerifier pbkdf2 pin salt) sid)) d))"

text \<open>The salt of the stored vault, if the PIN is the one it was made with.\<close>

definition check_pin :: "(bytes \<Rightarrow> bytes \<Rightarrow> bytes) \<Rightarrow> jstr \<Rightarrow> json \<Rightarrow> bytes option result" where
  "check_pin pbkdf2 pin j =
     bind_result (meta_bytes j ''salt'')
       (\<lambda>salt. bind_result (meta_bytes j ''verifier'')
         (\<lambda>expected. Inr (if constantTimeEqual (deriveVerifier pbkdf2 pin salt) expected then Some salt else None)))"

text \<open>\<open>{ ...meta, deviceSessionId }\<close>\<close>

definition with_session_id :: "jstr \<Rightarrow> json \<Rightarrow> json" where
  "with_session_id sid j = (case j of JObj ms \<Rightarrow> JObj (AList.update (js ''deviceSessionId'') (JStr sid) ms) | _ \<Rightarrow> j)"

definition unlockVault ::
  "(bytes \<Rightarrow> bytes \<Rightarrow> bytes) \<Rightarrow> jstr \<Rightarrow> jstr \<Rightarrow> vault \<Rightarrow> db \<Rightarrow> (bool \<times> vault \<times> db) result" where
  "unlockVault pbkdf2 fresh pin v d =
     (case getMetaFromDb d of
        None \<Rightarrow> Inr (True, v\<lparr>vt_key := None, vt_sid := None\<rparr>, d)
      | Some j \<Rightarrow>
          bind_result (check_pin pbkdf2 pin j)
            (\<lambda>r. case r of
                None \<Rightarrow> Inr (False, v\<lparr>vt_key := None, vt_sid := None\<rparr>, d)
              | Some salt \<Rightarrow>
                  (let v1 = v\<lparr>vt_key := Some (deriveVaultKey pbkdf2 pin salt)\<rparr>
                   in case truthy (get_str j ''deviceSessionId'') of
                        Some sid \<Rightarrow> Inr (True, v1\<lparr>vt_sid := Some sid\<rparr>, d)
                      | None \<Rightarrow>
                          Inr (True, v1\<lparr>vt_sid := Some fresh\<rparr>,
                               setMetaEntry vault_meta_key (stringify (with_session_id fresh j)) d))))"

section \<open>Credentials\<close>

definition creds_json :: "credentials \<Rightarrow> json" where
  "creds_json c =
     JObj ([str ''roomHash'' (cr_roomHash c),
            (js ''roomPin'', case cr_roomPin c of None \<Rightarrow> JNull | Some p \<Rightarrow> JStr p)]
           @ opt (str ''legacyToken'') (cr_legacyToken c))"

definition creds_of :: "json \<Rightarrow> credentials option" where
  "creds_of j =
     (case get_str j ''roomHash'' of
        None \<Rightarrow> None
      | Some h \<Rightarrow> Some \<lparr>cr_roomHash = h, cr_roomPin = get_str j ''roomPin'', cr_legacyToken = get_str j ''legacyToken''\<rparr>)"

definition encryptCredentials :: "sealer \<Rightarrow> bytes \<Rightarrow> credentials \<Rightarrow> vault \<Rightarrow> (jstr \<times> jstr) option" where
  "encryptCredentials seal iv c v =
     map_option (\<lambda>key. (bytesToBase64Url iv, bytesToBase64Url (seal key iv (json_bytes (creds_json c))))) (vt_key v)"

definition decryptCredentialsWithKey :: "unsealer \<Rightarrow> jstr \<times> jstr \<Rightarrow> bytes \<Rightarrow> credentials option" where
  "decryptCredentialsWithKey unseal blob key =
     (case (bytes_of (fst blob), bytes_of (snd blob)) of
        (Some iv, Some ct) \<Rightarrow> Option.bind (Option.bind (unseal key iv ct) json_of_bytes) creds_of
      | _ \<Rightarrow> None)"

definition decryptCredentials :: "unsealer \<Rightarrow> jstr \<times> jstr \<Rightarrow> vault \<Rightarrow> credentials option" where
  "decryptCredentials unseal blob v = Option.bind (vt_key v) (decryptCredentialsWithKey unseal blob)"

definition decryptCredentialsWithPin ::
  "(bytes \<Rightarrow> bytes \<Rightarrow> bytes) \<Rightarrow> unsealer \<Rightarrow> jstr \<times> jstr \<Rightarrow> jstr \<Rightarrow> db \<Rightarrow> credentials option result" where
  "decryptCredentialsWithPin pbkdf2 unseal blob pin d =
     (case getMetaFromDb d of
        None \<Rightarrow> Inr None
      | Some j \<Rightarrow>
          bind_result (check_pin pbkdf2 pin j)
            (\<lambda>r. Inr (Option.bind r (\<lambda>salt. decryptCredentialsWithKey unseal blob (deriveVaultKey pbkdf2 pin salt)))))"

section \<open>Session cache\<close>

definition stashSessionCredentials :: "jstr \<Rightarrow> credentials \<Rightarrow> vault \<Rightarrow> vault" where
  "stashSessionCredentials b c v = v\<lparr>vt_session := AList.update b c (vt_session v)\<rparr>"

definition getSessionCredentials :: "jstr \<Rightarrow> vault \<Rightarrow> credentials option" where
  "getSessionCredentials b v = map_of (vt_session v) b"

definition takeSessionCredentials :: "jstr \<Rightarrow> vault \<Rightarrow> credentials option" where
  "takeSessionCredentials b v = map_of (vt_session v) b"

definition clearSessionCredentials :: "vault \<Rightarrow> vault" where
  "clearSessionCredentials v = v\<lparr>vt_session := []\<rparr>"

definition clearSessionCredentialsFor :: "jstr \<Rightarrow> vault \<Rightarrow> vault" where
  "clearSessionCredentialsFor b v = v\<lparr>vt_session := AList.delete b (vt_session v)\<rparr>"

section \<open>Lemmas\<close>

lemma creds_back [simp]: "json_of_bytes (json_bytes (creds_json c)) = Some (creds_json c)"
  by (rule json_roundtrip) (auto simp: creds_json_def str_def opt_def split: option.splits)

lemma creds_of_json [simp]: "creds_of (creds_json c) = Some c"
proof -
  have "member (JObj ((js ''roomPin'', x) # ms)) k = (if k = js ''roomPin'' then Some x else member (JObj ms) k)" for x ms k
    by (simp add: member.simps)
  then show ?thesis
    by (cases c) (auto simp: creds_of_def creds_json_def wire_get opt_def split: option.splits)
qed

lemma decrypt_encrypted:
  assumes "aead seal unseal"
  shows "decryptCredentialsWithKey unseal (bytesToBase64Url iv, bytesToBase64Url (seal key iv (json_bytes (creds_json c)))) key = Some c"
  using assms by (simp add: decryptCredentialsWithKey_def bytes_of_def)

lemma meta_stored:
  "getMetaFromDb (setMetaEntry vault_meta_key (stringify (meta_json salt ver sid)) d) = Some (meta_json salt ver sid)"
proof -
  have "good_json (meta_json salt ver sid)" by (simp add: meta_json_def str_def Wire.count_def)
  then show ?thesis
    by (simp add: getMetaFromDb_def getMetaEntry_def setMetaEntry_def update_conv' parse_stringify) (simp add: meta_json_def)
qed

lemma meta_fields:
  "meta_bytes (meta_json salt ver sid) ''salt'' = Inr salt"
  "meta_bytes (meta_json salt ver sid) ''verifier'' = Inr ver"
  "get_str (meta_json salt ver sid) ''deviceSessionId'' = Some sid"
  by (simp_all add: meta_bytes_def meta_json_def wire_get)

lemma check_meta:
  "check_pin pbkdf2 pin (meta_json salt ver sid) =
     Inr (if deriveVerifier pbkdf2 pin salt = ver then Some salt else None)"
  by (simp add: check_pin_def meta_fields)

text \<open>C34
  The vault. A vault is created exactly for a PIN of four to eight digits and is then unlocked. After it is
  locked nothing can be encrypted or decrypted. Unlocking it with the same PIN restores the same key and
  device session, so credentials encrypted before are read back; a PIN with another verifier is refused and
  leaves the vault locked and the database as it was, and reveals no credentials.
\<close>

theorem vault_keeps_credentials:
  assumes "aead seal unseal" "sid \<noteq> []"
  shows "(createVault pbkdf2 salt sid pin v d \<noteq> Inl pin_error \<longleftrightarrow> app_pin_ok pin) \<and>
    (\<forall>v1 d1. createVault pbkdf2 salt sid pin v d = Inr (v1, d1) \<longrightarrow>
       isVaultUnlocked v1 \<and> \<not> isVaultUnlocked (lockVault v1) \<and>
       encryptCredentials seal iv c (lockVault v1) = None \<and> decryptCredentials unseal blob (lockVault v1) = None \<and>
       unlockVault pbkdf2 fresh pin (lockVault v1) d1 = Inr (True, v1, d1) \<and>
       (\<forall>blob. encryptCredentials seal iv c v1 = Some blob \<longrightarrow>
          decryptCredentials unseal blob v1 = Some c \<and>
          decryptCredentialsWithPin pbkdf2 unseal blob pin d1 = Inr (Some c)) \<and>
       (\<forall>pin'. deriveVerifier pbkdf2 pin' salt \<noteq> deriveVerifier pbkdf2 pin salt \<longrightarrow>
          unlockVault pbkdf2 fresh pin' v1 d1 = Inr (False, lockVault v1, d1) \<and>
          decryptCredentialsWithPin pbkdf2 unseal blob pin' d1 = Inr None))"
  using assms decrypt_encrypted [OF assms(1)]
  by (auto simp: createVault_def isVaultUnlocked_def lockVault_def encryptCredentials_def decryptCredentials_def
      unlockVault_def decryptCredentialsWithPin_def meta_stored check_meta meta_fields truthy_def)

theorem vault_keeps_credentials_witness:
  "\<exists>v1 d1. createVault (\<lambda>p s. p @ s) [1] (js ''sid'') (js ''1234'') new_vault empty_db = Inr (v1, d1) \<and>
     unlockVault (\<lambda>p s. p @ s) (js ''x'') (js ''1234'') (lockVault v1) d1 = Inr (True, v1, d1) \<and>
     unlockVault (\<lambda>p s. p @ s) (js ''x'') (js ''4321'') v1 d1 = Inr (False, lockVault v1, d1)"
proof -
  let ?kdf = "\<lambda>p s :: bytes. p @ s"
  have "app_pin_ok (js ''1234'')" by (simp add: app_pin_ok_def js_def unit_of_def is_digit_def)
  then obtain v1 d1 where made: "createVault ?kdf [1] (js ''sid'') (js ''1234'') new_vault empty_db = Inr (v1, d1)"
    by (simp add: createVault_def)
  have "deriveVerifier ?kdf (js ''4321'') [1] \<noteq> deriveVerifier ?kdf (js ''1234'') [1]"
    by (simp add: deriveVerifier_def utf8_encode_def js_def unit_of_def is_high_def is_low_def encode_point_def)
  with made vault_keeps_credentials [OF toy_sealer_aead, of "js ''sid''" ?kdf "[1]" "js ''1234''" new_vault empty_db "[]" _ _ "js ''x''"]
  show ?thesis by auto
qed

end
