(* ===== verification/Manager.thy ===== *)
theory Manager
  imports TransferEngine HistorySync Pacer Client Vault
begin

text \<open>
  \<open>ConnectionManagerImpl\<close> of \<open>web/src/lib/relay/connection-manager.ts\<close>: its state, the relay clients and the
  transfer engine it drives, the views the pages subscribe to, and sending. Every field of the class and
  every Svelte store of the module is a field of the record \<open>manager\<close>, and the methods are functions on it.

  The manager composes the models of the other components: a room's client is an index into
  \<open>m_clients\<close>, a list of \<open>Client\<close> states with the bucket whose callbacks are wired to each; \<open>m_engine\<close> is the transfer engine, whose
  calls on its dependencies are carried out by \<open>absorb\<close>; \<open>m_db\<close>, \<open>m_vault\<close> and \<open>m_storage\<close> are the database, the
  vault and the session storage.

  An \<open>await\<close> on the cipher, a digest or a further database access is taken to return before anything else
  happens; the waits for the pacer, for a closing socket, for a timer and for the relay, and the first
  database read of a connect flow, are points where other events come in between.
\<close>

section \<open>State\<close>

datatype conn_state = CsIdle | CsConnecting | CsOpen | CsClosed | CsError | CsReconnecting

record runtime =
  rt_connState :: conn_state
  rt_connDetail :: jstr
  rt_peerPresent :: bool
  rt_slot :: "int option"
  rt_bucketFull :: bool
  rt_reconnectAttempt :: nat
  rt_reconnectStalled :: bool

text \<open>\<open>ir_oid\<close> tells the object of a room from the one a later opening of the same room makes.\<close>

record internal_room =
  ir_oid :: nat
  ir_client :: "nat option"
  ir_key :: bytes
  ir_fragment :: room_fragment
  ir_roomPin :: "jstr option"
  ir_legacyToken :: "jstr option"
  ir_relayUrl :: jstr
  ir_runtime :: runtime

datatype sync_phase = PhIdle | PhWaiting | PhTransferring | PhDone | PhError

record resync_status =
  rs_phase :: sync_phase
  rs_progress :: rat
  rs_detail :: "jstr option"
  rs_requestId :: "jstr option"

datatype trust = TrustSame | TrustNew | TrustUnknown

record resync_prompt =
  rp_requestId :: jstr
  rp_ts :: jsnum
  rp_deviceFp :: "jstr option"
  rp_deviceTrust :: trust

record pending_history =
  ph_requestId :: jstr
  ph_total :: nat
  ph_compressedLength :: nat
  ph_parts :: "bytes option list"
  ph_receivedBytes :: nat
  ph_updatedAt :: int

datatype role = Requester | Approver

record resync_session =
  ss_requestId :: jstr
  ss_role :: role
  ss_peerIds :: "jstr list option"
  ss_myIdsSent :: bool
  ss_updatedAt :: int

text \<open>
  A call of \<open>sendPaced\<close> that has encrypted its message and waits for the pacer, or, with \<open>sj_granted\<close>, for
  the socket's buffer to drain; \<open>None\<close> stands for a call that fails. \<open>sj_then\<close> is who waits for the answer.
\<close>

datatype waiter = NoWaiter | TransferWaiter jstr nat | PushWaiter nat

record send_job =
  sj_bucket :: jstr
  sj_buf :: "bytes option"
  sj_client :: "nat option"
  sj_then :: waiter

text \<open>A run of \<open>runDifferentialPush\<close> in its sending loop: the chunks to come and the bytes sent.\<close>

record push =
  pu_bucket :: jstr
  pu_requestId :: jstr
  pu_chunks :: "history_chunk list"
  pu_sent :: nat
  pu_length :: nat
  pu_onlyTheirs :: nat

text \<open>
  A connect flow: a running call of \<open>openRoom\<close> or \<open>reconnectRoom\<close>, at the wait it has reached. \<open>JoinFlow\<close> has
  returned the promise of another flow; the flag tells whether the call's own promise is registered.
\<close>

datatype flow_pc =
    OpenRecord
  | ReconnectRecord
  | JoinFlow nat bool
  | OpenClosing nat internal_room
  | ReconnectClosing nat internal_room
  | ReconnectPause
  | ConnectClosing nat internal_room
  | RelayClosing nat internal_room jstr
  | WaitForRelay int
  | FlowDone "bool result"

datatype after_flow = Nothing | ManagedRetry | StaleRetry

record flow =
  fl_bucket :: jstr
  fl_pc :: flow_pc
  fl_then :: after_flow

datatype manager_effect =
    Sound
  | Notify jstr jstr
  | NotifyJoined jstr jstr
  | BumpRooms

record manager =
  m_rooms :: "(jstr, internal_room) jsmap"
  m_clients :: "(jstr option \<times> client) list"
  m_creds :: "jstr \<rightharpoonup> credentials"
  m_open :: "jstr \<rightharpoonup> nat"
  m_flows :: "flow list"
  m_timers :: "jstr \<rightharpoonup> nat \<times> nat"
  m_attempts :: "jstr \<rightharpoonup> nat"
  m_heartbeats :: "jstr set"
  m_pings :: "jstr set"
  m_suppress :: "jstr set"
  m_locked :: bool
  m_pacers :: "jstr \<rightharpoonup> pacer"
  m_engine :: engine
  m_jobs :: "send_job list"
  m_pushes :: "push list"
  m_pendingHistory :: "jstr \<rightharpoonup> pending_history"
  m_sessions :: "jstr \<rightharpoonup> resync_session"
  m_peerDigests :: "jstr \<rightharpoonup> jsnum \<times> jstr"
  m_peerFp :: "jstr \<rightharpoonup> jstr"
  m_digestTimers :: "jstr set"
  m_expected :: "jstr \<rightharpoonup> nat"
  m_active :: "jstr option"
  m_messages :: "jstr \<rightharpoonup> stored_message list"
  m_runtimes :: "jstr \<rightharpoonup> runtime"
  m_transfers :: "jstr \<rightharpoonup> transfer list"
  m_mismatch :: "jstr \<rightharpoonup> bool"
  m_prompts :: "jstr \<rightharpoonup> resync_prompt"
  m_status :: "jstr \<rightharpoonup> resync_status"
  m_db :: db
  m_vault :: vault
  m_storage :: session_storage
  m_oids :: nat
  m_draws :: nat
  m_log :: "manager_effect list"

text \<open>
  What the platform supplies: Unicode normalisation, SHA-256, gzip, AES-GCM, the two key derivations, and the
  outcomes of its random draws, numbered in the order they are made.
\<close>

record platform =
  pf_nfc :: "jstr \<Rightarrow> jstr"
  pf_sha :: "bytes \<Rightarrow> bytes"
  pf_gzip :: "bytes \<Rightarrow> bytes"
  pf_gunzip :: "bytes \<Rightarrow> bytes option"
  pf_seal :: sealer
  pf_unseal :: unsealer
  pf_hkdf :: "bytes \<Rightarrow> bytes \<Rightarrow> bytes \<Rightarrow> bytes"
  pf_pbkdf2 :: "bytes \<Rightarrow> bytes \<Rightarrow> bytes"
  pf_bytes :: "nat \<Rightarrow> bytes"
  pf_uuid :: "nat \<Rightarrow> jstr"

text \<open>What the browser answers during one event: the clock, and whether the page is hidden.\<close>

record context_now =
  cx_now :: int
  cx_hidden :: bool

definition MAX_OPEN_ROOMS :: nat where "MAX_OPEN_ROOMS = 10"
definition MAX_RECONNECT_ATTEMPTS :: nat where "MAX_RECONNECT_ATTEMPTS = 10"
definition MAX_RECONNECT_DELAY_MS :: nat where "MAX_RECONNECT_DELAY_MS = 30000"
definition RESYNC_TTL_MS :: int where "RESYNC_TTL_MS = 2 * 60 * 1000"

definition new_manager :: "db \<Rightarrow> vault \<Rightarrow> session_storage \<Rightarrow> manager" where
  "new_manager d v st =
     \<lparr> m_rooms = [], m_clients = [], m_creds = Map.empty, m_open = Map.empty, m_flows = [], m_timers = Map.empty,
       m_attempts = Map.empty, m_heartbeats = {}, m_pings = {}, m_suppress = {}, m_locked = False,
       m_pacers = Map.empty, m_engine = new_engine DEFAULT_TRANSFER_LIMITS, m_jobs = [], m_pushes = [],
       m_pendingHistory = Map.empty, m_sessions = Map.empty, m_peerDigests = Map.empty, m_peerFp = Map.empty,
       m_digestTimers = {}, m_expected = Map.empty, m_active = None, m_messages = Map.empty,
       m_runtimes = Map.empty, m_transfers = Map.empty, m_mismatch = Map.empty, m_prompts = Map.empty,
       m_status = Map.empty, m_db = d, m_vault = v, m_storage = st, m_oids = 0, m_draws = 0, m_log = [] \<rparr>"

section \<open>Rooms and their clients\<close>

definition the_room :: "jstr \<Rightarrow> manager \<Rightarrow> internal_room option" where
  "the_room b m = map_of (m_rooms m) b"

definition upd_room :: "jstr \<Rightarrow> (internal_room \<Rightarrow> internal_room) \<Rightarrow> manager \<Rightarrow> manager" where
  "upd_room b f m =
     (case the_room b m of None \<Rightarrow> m | Some r \<Rightarrow> m\<lparr>m_rooms := AList.update b (f r) (m_rooms m)\<rparr>)"

definition upd_runtime :: "jstr \<Rightarrow> (runtime \<Rightarrow> runtime) \<Rightarrow> manager \<Rightarrow> manager" where
  "upd_runtime b f = upd_room b (\<lambda>r. r\<lparr>ir_runtime := f (ir_runtime r)\<rparr>)"

definition client_of :: "manager \<Rightarrow> internal_room \<Rightarrow> client option" where
  "client_of m r = map_option (\<lambda>k. snd (m_clients m ! k)) (ir_client r)"

text \<open>\<open>room?.client?.connected\<close>\<close>

definition is_connected :: "jstr \<Rightarrow> manager \<Rightarrow> bool" where
  "is_connected b m =
     (case the_room b m of
        None \<Rightarrow> False
      | Some r \<Rightarrow> (case client_of m r of None \<Rightarrow> False | Some c \<Rightarrow> connected c))"

definition peer_present :: "jstr \<Rightarrow> manager \<Rightarrow> bool" where
  "peer_present b m = (case the_room b m of None \<Rightarrow> False | Some r \<Rightarrow> rt_peerPresent (ir_runtime r))"

text \<open>A call on a client that calls back nothing.\<close>

definition on_client :: "nat \<Rightarrow> (client \<Rightarrow> client) \<Rightarrow> manager \<Rightarrow> manager" where
  "on_client k f m =
     (if k < length (m_clients m)
      then m\<lparr>m_clients := (m_clients m)[k := (fst (m_clients m ! k), f (snd (m_clients m ! k)))]\<rparr> else m)"

definition syncRuntimes :: "manager \<Rightarrow> manager" where
  "syncRuntimes m = m\<lparr>m_runtimes := (\<lambda>b. map_option ir_runtime (the_room b m))\<rparr>"

definition getRuntime :: "jstr \<Rightarrow> manager \<Rightarrow> runtime option" where
  "getRuntime b m = map_option ir_runtime (the_room b m)"

definition getKey :: "jstr \<Rightarrow> manager \<Rightarrow> bytes option" where
  "getKey b m = map_option ir_key (the_room b m)"

definition log_effect :: "manager_effect \<Rightarrow> manager \<Rightarrow> manager" where
  "log_effect x m = m\<lparr>m_log := m_log m @ [x]\<rparr>"

definition on_db :: "(db \<Rightarrow> db) \<Rightarrow> manager \<Rightarrow> manager" where
  "on_db f m = m\<lparr>m_db := f (m_db m)\<rparr>"

section \<open>Views\<close>

definition getMessages :: "jstr \<Rightarrow> manager \<Rightarrow> stored_message list" where
  "getMessages b m = (case m_messages m b of None \<Rightarrow> [] | Some ms \<Rightarrow> ms)"

text \<open>
  One message per id: the last one, at the place of the first. No two ids are equal after that, so the
  tie-breaker of the comparison function on the timestamp never applies.
\<close>

definition by_id :: "stored_message list \<Rightarrow> stored_message list" where
  "by_id ms = map snd (fold (\<lambda>m acc. AList.update (sm_id m) m acc) ms [])"

definition syncMessages :: "jstr \<Rightarrow> stored_message list \<Rightarrow> manager \<Rightarrow> manager" where
  "syncMessages b ms m = m\<lparr>m_messages := (m_messages m)(b \<mapsto> sort_key sm_id (by_id ms))\<rparr>"

definition has_message :: "jstr \<Rightarrow> jstr \<Rightarrow> manager \<Rightarrow> bool" where
  "has_message b i m = list_ex (\<lambda>x. sm_id x = i) (getMessages b m)"

definition appendMessage :: "jstr \<Rightarrow> stored_message \<Rightarrow> manager \<Rightarrow> bool \<times> manager" where
  "appendMessage b s m =
     (if has_message b (sm_id s) m then (False, m)
      else (True, syncMessages b (getMessages b m @ [s]) m))"

definition setTransfers :: "jstr \<Rightarrow> transfer list \<Rightarrow> manager \<Rightarrow> manager" where
  "setTransfers b ts m = m\<lparr>m_transfers := (m_transfers m)(b := if ts = [] then None else Some ts)\<rparr>"

definition setResyncStatus :: "jstr \<Rightarrow> resync_status \<Rightarrow> manager \<Rightarrow> manager" where
  "setResyncStatus b st m = m\<lparr>m_status := (m_status m)(b \<mapsto> st)\<rparr>"

definition setHistoryMismatch :: "jstr \<Rightarrow> bool \<Rightarrow> manager \<Rightarrow> manager" where
  "setHistoryMismatch b mis m = m\<lparr>m_mismatch := (m_mismatch m)(b := if mis then Some True else None)\<rparr>"

definition schedulePublishDigest :: "jstr \<Rightarrow> manager \<Rightarrow> manager" where
  "schedulePublishDigest b m = m\<lparr>m_digestTimers := insert b (m_digestTimers m)\<rparr>"

definition setActive :: "jstr option \<Rightarrow> manager \<Rightarrow> manager" where
  "setActive b m =
     (let m1 = m\<lparr>m_active := b\<rparr>
      in case truthy b of None \<Rightarrow> m1 | Some b' \<Rightarrow> log_effect BumpRooms (on_db (markRead b') m1))"

section \<open>Sending\<close>

text \<open>\<open>encryptMessage(room.key, msg)\<close> with a fresh nonce.\<close>

definition draw_bytes :: "platform \<Rightarrow> manager \<Rightarrow> bytes \<times> manager" where
  "draw_bytes p m = (pf_bytes p (m_draws m), m\<lparr>m_draws := Suc (m_draws m)\<rparr>)"

definition draw_uuid :: "platform \<Rightarrow> manager \<Rightarrow> jstr \<times> manager" where
  "draw_uuid p m = (pf_uuid p (m_draws m), m\<lparr>m_draws := Suc (m_draws m)\<rparr>)"

text \<open>Encrypt and hand to the room's client: \<open>sendBinary\<close> drops the bytes when the socket is not open.\<close>

definition transmit :: "platform \<Rightarrow> internal_room \<Rightarrow> plain_message \<Rightarrow> manager \<Rightarrow> unit result \<times> manager" where
  "transmit p r msg m =
     (let (iv, m1) = draw_bytes p m
      in case encryptMessage (pf_seal p) (ir_key r) iv msg of
           Inl e \<Rightarrow> (Inl e, m1)
         | Inr buf \<Rightarrow>
             (case ir_client r of
                None \<Rightarrow> (Inl TypeError, m1)
              | Some k \<Rightarrow> (Inr (), on_client k (sendBinary buf) m1)))"

definition pacerFor :: "int \<Rightarrow> jstr \<Rightarrow> manager \<Rightarrow> pacer" where
  "pacerFor now b m =
     (case m_pacers m b of None \<Rightarrow> new_pacer PACER_BYTES_PER_SEC PACER_BURST_BYTES now | Some q \<Rightarrow> q)"

text \<open>\<open>sendPaced\<close> up to its wait for the pacer.\<close>

definition sendPaced :: "platform \<Rightarrow> jstr \<Rightarrow> plain_message \<Rightarrow> waiter \<Rightarrow> manager \<Rightarrow> manager" where
  "sendPaced p b msg w m =
     (case the_room b m of
        None \<Rightarrow> m\<lparr>m_jobs := m_jobs m @ [\<lparr>sj_bucket = b, sj_buf = None, sj_client = None, sj_then = w\<rparr>]\<rparr>
      | Some r \<Rightarrow>
          if \<not> is_connected b m
          then m\<lparr>m_jobs := m_jobs m @ [\<lparr>sj_bucket = b, sj_buf = None, sj_client = None, sj_then = w\<rparr>]\<rparr>
          else
            (let (iv, m1) = draw_bytes p m;
                 buf = (case encryptMessage (pf_seal p) (ir_key r) iv msg of Inl _ \<Rightarrow> None | Inr buf \<Rightarrow> Some buf)
             in m1\<lparr>m_jobs := m_jobs m1 @ [\<lparr>sj_bucket = b, sj_buf = buf, sj_client = None, sj_then = w\<rparr>]\<rparr>))"

section \<open>The transfer engine\<close>

definition engine_env :: "context_now \<Rightarrow> manager \<Rightarrow> env" where
  "engine_env cx m =
     \<lparr> v_now = cx_now cx, v_canSend = (\<lambda>b. is_connected b m \<and> peer_present b m),
       v_hasMessage = (\<lambda>b i. has_message b i m), v_hasStorageFor = True \<rparr>"

definition send_waiter :: "jstr \<Rightarrow> plain_message \<Rightarrow> engine \<Rightarrow> waiter" where
  "send_waiter b msg e =
     (case msg of
        TransferChunk c \<Rightarrow>
          (case reg_get (e_out e) b (tc_id c) of
             None \<Rightarrow> NoWaiter
           | Some x \<Rightarrow> TransferWaiter (o_id x) (o_oid x))
      | _ \<Rightarrow> NoWaiter)"

text \<open>
  A call of the engine on its dependencies. \<open>StorageAsked\<close> and \<open>DeliverAsked\<close> are answered by events of
  their own.
\<close>

fun absorb_effect :: "platform \<Rightarrow> effect \<Rightarrow> manager \<Rightarrow> manager" where
  "absorb_effect p (Sent b msg) m = sendPaced p b msg (send_waiter b msg (m_engine m)) m"
| "absorb_effect p (Published b ts) m = setTransfers b ts m"
| "absorb_effect p (Persisted b ids) m = on_db (setPendingOutgoing b ids) m"
| "absorb_effect p (OnDelivered b i) m = schedulePublishDigest b m"
| "absorb_effect p (StorageAsked b i oid n) m = m"
| "absorb_effect p (DeliverAsked b s) m = m"

definition with_engine :: "platform \<Rightarrow> (engine \<Rightarrow> engine) \<Rightarrow> manager \<Rightarrow> manager" where
  "with_engine p f m =
     (let e = m_engine m; e1 = f e
      in fold (absorb_effect p) (drop (length (e_log e)) (e_log e1)) (m\<lparr>m_engine := e1\<rparr>))"

definition canStartTransfer :: "jstr \<Rightarrow> manager \<Rightarrow> bool" where
  "canStartTransfer b m = canStartSend (m_engine m) b"

definition retryTransfer :: "platform \<Rightarrow> context_now \<Rightarrow> jstr \<Rightarrow> jstr \<Rightarrow> manager \<Rightarrow> manager" where
  "retryTransfer p cx b i m = with_engine p (retry (engine_env cx m) b i) m"

definition cancelTransfer :: "platform \<Rightarrow> context_now \<Rightarrow> jstr \<Rightarrow> jstr \<Rightarrow> manager \<Rightarrow> manager" where
  "cancelTransfer p cx b i m = with_engine p (cancel (engine_env cx m) b i) m"

text \<open>
  The first job of a bucket asks the pacer again; when it is granted its bytes go to the client the room has by
  then. A job that is not the first of its bucket has to wait.
\<close>

definition is_first_job :: "nat \<Rightarrow> manager \<Rightarrow> bool" where
  "is_first_job j m \<longleftrightarrow>
     j < length (m_jobs m) \<and>
     \<not> list_ex (\<lambda>x. sj_bucket x = sj_bucket (m_jobs m ! j) \<and> sj_buf x \<noteq> None \<and> sj_client x = None)
         (take j (m_jobs m))"

definition paced_turn :: "int \<Rightarrow> nat \<Rightarrow> manager \<Rightarrow> manager" where
  "paced_turn now j m =
     (let job = m_jobs m ! j
      in case sj_buf job of
           None \<Rightarrow> m
         | Some buf \<Rightarrow>
             (case take_turn (length buf) now (pacerFor now (sj_bucket job) m) of
                (Sleep ms, q) \<Rightarrow> m\<lparr>m_pacers := (m_pacers m)(sj_bucket job \<mapsto> q)\<rparr>
              | (Granted, q) \<Rightarrow>
                  (let m1 = m\<lparr>m_pacers := (m_pacers m)(sj_bucket job \<mapsto> q)\<rparr>
                   in case Option.bind (the_room (sj_bucket job) m1) ir_client of
                        Some k \<Rightarrow>
                          if is_connected (sj_bucket job) m1
                          then on_client k (sendBinary buf)
                                 (m1\<lparr>m_jobs := (m_jobs m1)[j := job\<lparr>sj_client := Some k\<rparr>]\<rparr>)
                          else m1\<lparr>m_jobs := (m_jobs m1)[j := job\<lparr>sj_buf := None\<rparr>]\<rparr>
                      | None \<Rightarrow> m1\<lparr>m_jobs := (m_jobs m1)[j := job\<lparr>sj_buf := None\<rparr>]\<rparr>)))"

end
