(* ===== verification/Resync.thy ===== *)
theory Resync
  imports Manager
begin

text \<open>
  The history part of \<open>ConnectionManagerImpl\<close>: the digest two peers exchange, the resynchronisation protocol
  (request, approval, id lists, differential payload in chunks), deletion and wiping.
\<close>

section \<open>Digest\<close>

definition message_ids :: "jstr \<Rightarrow> manager \<Rightarrow> jstr list" where
  "message_ids b m = map sm_id (getMessages b m)"

definition own_fingerprint :: "platform \<Rightarrow> manager \<Rightarrow> jstr option" where
  "own_fingerprint p m = truthy (map_option (deviceFingerprint (pf_sha p)) (truthy (getDeviceSessionId (m_vault m))))"

definition publishDigest :: "platform \<Rightarrow> context_now \<Rightarrow> jstr \<Rightarrow> manager \<Rightarrow> manager" where
  "publishDigest p cx b m =
     (case the_room b m of
        None \<Rightarrow> m
      | Some r \<Rightarrow>
          if \<not> is_connected b m \<or> \<not> rt_peerPresent (ir_runtime r) then m
          else
            (let ids = message_ids b m;
                 idHash = computeIdHash (pf_sha p) ids;
                 plain = HistoryDigest (NumI (cx_now cx)) (NumI (int (length ids))) idHash (own_fingerprint p m);
                 (sent, m1) = transmit p r plain m
             in case sent of
                  Inl e \<Rightarrow> m1
                | Inr _ \<Rightarrow>
                    (case m_peerDigests m1 b of
                       None \<Rightarrow> m1
                     | Some (n, peerHash) \<Rightarrow> setHistoryMismatch b (peerHash \<noteq> idHash) m1)))"

text \<open>The debounce timer has run out.\<close>

definition digest_timer_fires :: "platform \<Rightarrow> context_now \<Rightarrow> jstr \<Rightarrow> manager \<Rightarrow> manager" where
  "digest_timer_fires p cx b m = publishDigest p cx b (m\<lparr>m_digestTimers := m_digestTimers m - {b}\<rparr>)"

definition onPeerDigest :: "platform \<Rightarrow> jstr \<Rightarrow> jsnum \<Rightarrow> jstr \<Rightarrow> jstr option \<Rightarrow> manager \<Rightarrow> manager" where
  "onPeerDigest p b n idHash deviceFp m =
     (let m1 = m\<lparr>m_peerDigests := (m_peerDigests m)(b \<mapsto> (n, idHash))\<rparr>;
          m2 = (case truthy deviceFp of None \<Rightarrow> m1 | Some fp \<Rightarrow> m1\<lparr>m_peerFp := (m_peerFp m1)(b \<mapsto> fp)\<rparr>);
          localHash = computeIdHash (pf_sha p) (message_ids b m2)
      in setHistoryMismatch b (localHash \<noteq> idHash) m2)"

definition trustPeerDeviceFp :: "jstr \<Rightarrow> jstr option \<Rightarrow> manager \<Rightarrow> manager" where
  "trustPeerDeviceFp b fp m =
     (case truthy fp of None \<Rightarrow> m | Some f \<Rightarrow> on_db (setLastPeerDeviceFp b (Some f)) m)"

section \<open>Deleting and wiping\<close>

definition applyDelete :: "platform \<Rightarrow> jstr \<Rightarrow> jstr \<Rightarrow> manager \<Rightarrow> manager" where
  "applyDelete p b i m =
     (let m1 = with_engine p (forget b i) m;
          prev = getMessages b m1;
          rest = filter (\<lambda>x. sm_id x \<noteq> i) prev;
          m2 = (if length rest \<noteq> length prev then syncMessages b rest m1 else m1)
      in schedulePublishDigest b (log_effect BumpRooms (on_db (deleteMessage b i) m2)))"

definition sendDelete :: "platform \<Rightarrow> context_now \<Rightarrow> jstr \<Rightarrow> jstr \<Rightarrow> manager \<Rightarrow> bool result \<times> manager" where
  "sendDelete p cx b i m =
     (case the_room b m of
        None \<Rightarrow> (Inr False, m)
      | Some r \<Rightarrow>
          if \<not> is_connected b m \<or> i = [] then (Inr False, m)
          else
            (let (sent, m1) = transmit p r (Delete (NumI (cx_now cx)) i) m
             in case sent of Inl e \<Rightarrow> (Inl e, m1) | Inr _ \<Rightarrow> (Inr True, applyDelete p b i m1)))"

definition wipeLocalHistory :: "platform \<Rightarrow> jstr \<Rightarrow> manager \<Rightarrow> manager" where
  "wipeLocalHistory p b m =
     (let m1 = syncMessages b [] (on_db (deleteMessagesForBucket (pf_nfc p) b) m);
          m2 = with_engine p (clearBucket b True) m1;
          m3 = m2\<lparr>m_prompts := (m_prompts m2)(b := None), m_sessions := (m_sessions m2)(b := None)\<rparr>;
          m4 = setHistoryMismatch b False (on_db (setLastPeerDeviceFp b None) m3)
      in log_effect BumpRooms (schedulePublishDigest b m4))"

definition wipeBothHistories :: "platform \<Rightarrow> context_now \<Rightarrow> jstr \<Rightarrow> manager \<Rightarrow> bool result \<times> manager" where
  "wipeBothHistories p cx b m =
     (case the_room b m of
        None \<Rightarrow> (Inr False, wipeLocalHistory p b m)
      | Some r \<Rightarrow>
          if \<not> is_connected b m then (Inr False, wipeLocalHistory p b m)
          else
            (let (i, m1) = draw_uuid p m;
                 (sent, m2) = transmit p r (WipeHistory (NumI (cx_now cx)) i) m1
             in case sent of Inl e \<Rightarrow> (Inl e, m2) | Inr _ \<Rightarrow> (Inr True, wipeLocalHistory p b m2)))"

definition applyWipeHistory :: "platform \<Rightarrow> jstr \<Rightarrow> manager \<Rightarrow> manager" where
  "applyWipeHistory p b m =
     setResyncStatus b \<lparr>rs_phase = PhDone, rs_progress = 1, rs_detail = Some (js ''Partner wiped chat history''),
                        rs_requestId = None\<rparr> (wipeLocalHistory p b m)"

text \<open>\<open>clearTransfersForBucket\<close> forgets everything the manager keeps in memory about a room's traffic.\<close>

definition forget_session :: "jstr \<Rightarrow> manager \<Rightarrow> manager" where
  "forget_session b m =
     (case m_sessions m b of
        None \<Rightarrow> m
      | Some s \<Rightarrow>
          m\<lparr>m_pendingHistory := (m_pendingHistory m)(ss_requestId s @ js '':requester'' := None,
                                                       ss_requestId s @ js '':approver'' := None),
            m_expected := (m_expected m)(ss_requestId s := None)\<rparr>)"

definition clearTransfersForBucket :: "platform \<Rightarrow> jstr \<Rightarrow> manager \<Rightarrow> manager" where
  "clearTransfersForBucket p b m =
     (let m1 = with_engine p (clearBucket b False) m;
          m2 = forget_session b (m1\<lparr>m_pacers := (m_pacers m1)(b := None)\<rparr>)
      in m2\<lparr>m_sessions := (m_sessions m2)(b := None), m_peerDigests := (m_peerDigests m2)(b := None),
            m_peerFp := (m_peerFp m2)(b := None), m_digestTimers := m_digestTimers m2 - {b},
            m_mismatch := (m_mismatch m2)(b := None), m_prompts := (m_prompts m2)(b := None),
            m_status := (m_status m2)(b := None)\<rparr>)"

section \<open>Asking and answering\<close>

definition ellipsis :: jstr where "ellipsis = [0x2026]"

definition sync_status :: "sync_phase \<Rightarrow> rat \<Rightarrow> jstr \<Rightarrow> jstr \<Rightarrow> resync_status" where
  "sync_status phase progress rid detail =
     \<lparr>rs_phase = phase, rs_progress = progress, rs_detail = Some detail, rs_requestId = Some rid\<rparr>"

definition new_session :: "jstr \<Rightarrow> role \<Rightarrow> bool \<Rightarrow> int \<Rightarrow> resync_session" where
  "new_session rid role sent now =
     \<lparr>ss_requestId = rid, ss_role = role, ss_peerIds = None, ss_myIdsSent = sent, ss_updatedAt = now\<rparr>"

definition requestResync :: "platform \<Rightarrow> context_now \<Rightarrow> jstr \<Rightarrow> manager \<Rightarrow> bool result \<times> manager" where
  "requestResync p cx b m =
     (case the_room b m of
        None \<Rightarrow> (Inr False, m)
      | Some r \<Rightarrow>
          if \<not> is_connected b m \<or> \<not> rt_peerPresent (ir_runtime r) then (Inr False, m)
          else if \<exists>s. m_sessions m b = Some s \<and> cx_now cx - ss_updatedAt s < RESYNC_TTL_MS then (Inr False, m)
          else
            (let (i, m1) = draw_uuid p m;
                 (sent, m2) = transmit p r (ResyncRequest (NumI (cx_now cx)) i (own_fingerprint p m1)) m1
             in case sent of
                  Inl e \<Rightarrow> (Inl e, m2)
                | Inr _ \<Rightarrow>
                    (Inr True,
                     setResyncStatus b (sync_status PhWaiting 0 i (js ''Waiting for peer approval'' @ ellipsis))
                       (m2\<lparr>m_sessions := (m_sessions m2)(b \<mapsto> new_session i Requester False (cx_now cx))\<rparr>))))"

definition respondResync :: "platform \<Rightarrow> context_now \<Rightarrow> jstr \<Rightarrow> bool \<Rightarrow> manager \<Rightarrow> bool result \<times> manager" where
  "respondResync p cx b accept m =
     (case (the_room b m, m_prompts m b) of
        (Some r, Some prompt) \<Rightarrow>
          if \<not> is_connected b m then (Inr False, m)
          else
            (let rid = rp_requestId prompt;
                 m1 = m\<lparr>m_prompts := (m_prompts m)(b := None)\<rparr>
             in if \<not> accept then
                  (let (sent, m2) = transmit p r (ResyncReject (NumI (cx_now cx)) rid (Some (js ''declined''))) m1
                   in case sent of Inl e \<Rightarrow> (Inl e, m2) | Inr _ \<Rightarrow> (Inr True, m2))
                else
                  (let m2 = trustPeerDeviceFp b (rp_deviceFp prompt) m1;
                       ids = sortMessageIds (message_ids b m2);
                       (sent, m3) = transmit p r (ResyncAccept (NumI (cx_now cx)) rid ids) m2
                   in case sent of
                        Inl e \<Rightarrow> (Inl e, m3)
                      | Inr _ \<Rightarrow>
                          (Inr True,
                           setResyncStatus b (sync_status PhWaiting 0 rid (js ''Waiting for peer id list'' @ ellipsis))
                             (m3\<lparr>m_sessions := (m_sessions m3)(b \<mapsto> new_session rid Approver True (cx_now cx))\<rparr>))))
      | _ \<Rightarrow> (Inr False, m))"

definition device_trust :: "jstr option \<Rightarrow> jstr option \<Rightarrow> trust" where
  "device_trust fp known =
     (case (truthy fp, truthy known) of
        (Some f, Some k) \<Rightarrow> if f = k then TrustSame else TrustNew
      | _ \<Rightarrow> TrustUnknown)"

definition onResyncRequest :: "jstr \<Rightarrow> jstr \<Rightarrow> jsnum \<Rightarrow> jstr option \<Rightarrow> manager \<Rightarrow> manager" where
  "onResyncRequest b rid ts deviceFp m =
     (let fp = (case deviceFp of Some f \<Rightarrow> Some f | None \<Rightarrow> m_peerFp m b);
          known = Option.bind (getRoom b (m_db m)) rec_lastPeerDeviceFp
      in m\<lparr>m_prompts := (m_prompts m)(b \<mapsto>
            \<lparr>rp_requestId = rid, rp_ts = ts, rp_deviceFp = fp, rp_deviceTrust = device_trust fp known\<rparr>)\<rparr>)"

definition onResyncReject :: "jstr \<Rightarrow> jstr \<Rightarrow> jstr option \<Rightarrow> manager \<Rightarrow> manager" where
  "onResyncReject b rid reason m =
     (case m_sessions m b of
        None \<Rightarrow> m
      | Some s \<Rightarrow>
          if ss_requestId s \<noteq> rid then m
          else setResyncStatus b
                 \<lparr>rs_phase = PhError, rs_progress = 0,
                  rs_detail = Some (if reason = Some (js ''declined'') then js ''Peer declined sync'' else js ''Sync rejected''),
                  rs_requestId = None\<rparr>
                 (m\<lparr>m_sessions := (m_sessions m)(b := None)\<rparr>))"

section \<open>The differential payload\<close>

definition finishResyncIfDone :: "jstr \<Rightarrow> jstr \<Rightarrow> manager \<Rightarrow> manager" where
  "finishResyncIfDone b rid m =
     (if 0 < (case m_expected m rid of None \<Rightarrow> 0 | Some n \<Rightarrow> n) then m
      else
        (let m1 = m\<lparr>m_expected := (m_expected m)(rid := None), m_sessions := (m_sessions m)(b := None)\<rparr>;
             m2 = trustPeerDeviceFp b (m_peerFp m1 b) m1
         in schedulePublishDigest b (setResyncStatus b (sync_status PhDone 1 rid (js ''History synced'')) m2)))"

text \<open>\<open>Math.round(progress * 100)\<close> as text.\<close>

definition percent :: "rat \<Rightarrow> jstr" where
  "percent x = decimal (nat \<lfloor>x * 100 + 1 / 2\<rfloor>) @ js ''%''"

fun role_text :: "role \<Rightarrow> jstr" where
  "role_text Requester = js ''requester''"
| "role_text Approver = js ''approver''"

definition push_failed :: "jstr \<Rightarrow> jstr \<Rightarrow> jstr \<Rightarrow> manager \<Rightarrow> manager" where
  "push_failed b rid detail m =
     setResyncStatus b (sync_status PhError 0 rid detail)
       (m\<lparr>m_sessions := (m_sessions m)(b := None), m_expected := (m_expected m)(rid := None)\<rparr>)"

text \<open>The head of the sending loop: the next chunk, or the end.\<close>

definition push_next :: "platform \<Rightarrow> nat \<Rightarrow> manager \<Rightarrow> manager" where
  "push_next p j m =
     (let pu = m_pushes m ! j
      in case pu_chunks pu of
           [] \<Rightarrow> if pu_onlyTheirs pu = 0 then finishResyncIfDone (pu_bucket pu) (pu_requestId pu) m else m
         | c # cs \<Rightarrow> sendPaced p (pu_bucket pu) (HistoryChunk c) (PushWaiter j) m)"

text \<open>A chunk's \<open>sendPaced\<close> has answered.\<close>

definition push_settled :: "platform \<Rightarrow> nat \<Rightarrow> bool \<Rightarrow> manager \<Rightarrow> manager" where
  "push_settled p j ok m =
     (let pu = m_pushes m ! j
      in case pu_chunks pu of
           [] \<Rightarrow> m
         | c # cs \<Rightarrow>
             if \<not> ok then
               push_failed (pu_bucket pu) (pu_requestId pu) (js ''disconnected'')
                 (m\<lparr>m_pushes := (m_pushes m)[j := pu\<lparr>pu_chunks := []\<rparr>]\<rparr>)
             else
               (let sent = pu_sent pu + length (hc_data c);
                    progress = (if 0 < pu_length pu then min 1 (of_nat sent / of_nat (pu_length pu)) else 1 :: rat);
                    m1 = m\<lparr>m_pushes := (m_pushes m)[j := pu\<lparr>pu_chunks := cs, pu_sent := sent\<rparr>]\<rparr>
                in push_next p j
                     (setResyncStatus (pu_bucket pu)
                        (sync_status PhTransferring (if 0 < pu_onlyTheirs pu then progress / 2 else progress)
                           (pu_requestId pu) (js ''Sending'' @ ellipsis @ js '' '' @ percent progress))
                        m1)))"

definition runDifferentialPush ::
  "platform \<Rightarrow> jstr \<Rightarrow> jstr \<Rightarrow> stored_message list \<Rightarrow> jstr list \<Rightarrow> manager \<Rightarrow> manager" where
  "runDifferentialPush p b rid myMsgs peerIds m =
     (if \<not> is_connected b m
      then setResyncStatus b (sync_status PhError 0 rid (js ''Disconnected during sync'')) m
      else
        (let myIds = map sm_id myMsgs;
             onlyMine = idsOnlyInA myIds peerIds;
             onlyTheirs = idsOnlyInA peerIds myIds;
             role = (case m_sessions m b of None \<Rightarrow> Requester | Some s \<Rightarrow> ss_role s);
             bundleId = rid @ js '':'' @ role_text role;
             m1 = m\<lparr>m_expected := (m_expected m)(rid \<mapsto> if onlyTheirs \<noteq> [] then 1 else 0)\<rparr>;
             m2 = setResyncStatus b
                    (sync_status PhTransferring 0 rid
                       (if onlyMine = [] \<and> onlyTheirs = [] then js ''Already in sync''
                        else js ''Sending '' @ decimal (length onlyMine) @ js '', expecting '' @
                             decimal (length onlyTheirs) @ ellipsis)) m1;
             compressed = packMessagesForSync (pf_gzip p) (filterMessagesByIds myMsgs onlyMine)
         in case splitHistoryChunks bundleId compressed HISTORY_CHUNK_PAYLOAD_BYTES of
              Inl e \<Rightarrow> push_failed b rid (case e of Error s \<Rightarrow> js s | _ \<Rightarrow> js ''Sync send failed'') m2
            | Inr chunks \<Rightarrow>
                push_next p (length (m_pushes m2))
                  (m2\<lparr>m_pushes := m_pushes m2 @
                        [\<lparr>pu_bucket = b, pu_requestId = rid, pu_chunks = chunks, pu_sent = 0,
                          pu_length = length compressed, pu_onlyTheirs = length onlyTheirs\<rparr>]\<rparr>)))"

definition with_peer_ids :: "jstr list \<Rightarrow> int \<Rightarrow> resync_session \<Rightarrow> resync_session" where
  "with_peer_ids ids now s = s\<lparr>ss_peerIds := Some ids, ss_updatedAt := now\<rparr>"

definition onResyncAccept :: "platform \<Rightarrow> context_now \<Rightarrow> jstr \<Rightarrow> jstr \<Rightarrow> jstr list \<Rightarrow> manager \<Rightarrow> manager" where
  "onResyncAccept p cx b rid peerIds m =
     (case (the_room b m, m_sessions m b) of
        (Some r, Some s) \<Rightarrow>
          if \<not> is_connected b m \<or> ss_requestId s \<noteq> rid \<or> ss_role s \<noteq> Requester then m
          else
            (let s1 = with_peer_ids peerIds (cx_now cx) s;
                 m1 = m\<lparr>m_sessions := (m_sessions m)(b \<mapsto> s1)\<rparr>;
                 myMsgs = getMessages b m1;
                 (sent, m2) = transmit p r (ResyncIds (NumI (cx_now cx)) rid (sortMessageIds (map sm_id myMsgs))) m1
             in case sent of
                  Inl e \<Rightarrow> m2
                | Inr _ \<Rightarrow>
                    runDifferentialPush p b rid myMsgs peerIds
                      (m2\<lparr>m_sessions := (m_sessions m2)(b \<mapsto> s1\<lparr>ss_myIdsSent := True\<rparr>)\<rparr>))
      | _ \<Rightarrow> m)"

definition onResyncIds :: "platform \<Rightarrow> context_now \<Rightarrow> jstr \<Rightarrow> jstr \<Rightarrow> jstr list \<Rightarrow> manager \<Rightarrow> manager" where
  "onResyncIds p cx b rid peerIds m =
     (case m_sessions m b of
        None \<Rightarrow> m
      | Some s \<Rightarrow>
          if ss_requestId s \<noteq> rid \<or> ss_role s \<noteq> Approver then m
          else
            (let m1 = m\<lparr>m_sessions := (m_sessions m)(b \<mapsto> with_peer_ids peerIds (cx_now cx) s)\<rparr>
             in runDifferentialPush p b rid (getMessages b m1) peerIds m1))"

text \<open>A set of parts is complete: the payload is put together and applied.\<close>

definition apply_history :: "platform \<Rightarrow> jstr \<Rightarrow> jstr \<Rightarrow> bytes \<Rightarrow> manager \<Rightarrow> manager" where
  "apply_history p b rid assembled m =
     (case apply_sync (pf_nfc p) (pf_gunzip p) b assembled (m_db m) of
        Inl e \<Rightarrow>
          setResyncStatus b (sync_status PhError 0 rid (js ''Failed to apply sync payload''))
            (m\<lparr>m_sessions := (m_sessions m)(b := None)\<rparr>)
      | Inr d \<Rightarrow>
          (let m1 = m\<lparr>m_db := d\<rparr>;
               m2 = log_effect BumpRooms (syncMessages b (listMessages (pf_nfc p) b d) m1);
               m3 = m2\<lparr>m_expected := (m_expected m2)(rid \<mapsto> 0)\<rparr>
           in schedulePublishDigest b (finishResyncIfDone b rid m3)))"

definition store_part :: "context_now \<Rightarrow> history_chunk \<Rightarrow> pending_history \<Rightarrow> pending_history" where
  "store_part cx c ph =
     ph\<lparr>ph_parts := (ph_parts ph)[hc_index c := Some (hc_data c)],
        ph_receivedBytes := ph_receivedBytes ph + length (hc_data c), ph_updatedAt := cx_now cx\<rparr>"

definition recv_progress :: "pending_history \<Rightarrow> rat" where
  "recv_progress ph =
     (if 0 < ph_compressedLength ph then min 1 (of_nat (ph_receivedBytes ph) / of_nat (ph_compressedLength ph))
      else if None \<notin> set (ph_parts ph) then 1 else 0)"

text \<open>
  The set of parts a chunk belongs to: the pending one, or a new one that only a chunk with the header
  starts. \<open>None\<close>: the chunk is dropped.
\<close>

definition pending_for :: "context_now \<Rightarrow> history_chunk \<Rightarrow> manager \<Rightarrow> pending_history option" where
  "pending_for cx c m =
     (case m_pendingHistory m (hc_id c) of
        Some ph \<Rightarrow> if hc_total c \<noteq> ph_total ph then None else Some ph
      | None \<Rightarrow>
          if hc_index c \<noteq> 0 then None
          else map_option
                 (\<lambda>len. \<lparr>ph_requestId = hc_id c, ph_total = hc_total c, ph_compressedLength = len,
                         ph_parts = replicate (hc_total c) None, ph_receivedBytes = 0, ph_updatedAt = cx_now cx\<rparr>)
                 (hc_compressedLength c))"

text \<open>
  When the parts are more than the header has announced, \<open>assembled.set\<close> throws outside the \<open>try\<close>: the
  exception goes to the caller, which logs it, and the parts stay.
\<close>

definition handleHistoryChunk :: "platform \<Rightarrow> context_now \<Rightarrow> jstr \<Rightarrow> history_chunk \<Rightarrow> manager \<Rightarrow> manager" where
  "handleHistoryChunk p cx b c m =
     (case pending_for cx c m of
        None \<Rightarrow> m
      | Some ph \<Rightarrow>
          (let rid = takeWhile (\<lambda>u. u \<noteq> colon) (hc_id c);
               m1 = m\<lparr>m_pendingHistory := (m_pendingHistory m)(hc_id c \<mapsto> ph)\<rparr>
           in if ph_total ph \<le> hc_index c \<or> ph_parts ph ! hc_index c \<noteq> None then m1
              else
                (let ph1 = store_part cx c ph;
                     progress = recv_progress ph1;
                     m2 = setResyncStatus b
                            (sync_status PhTransferring (1 / 2 + progress / 2) rid
                               (js ''Receiving'' @ ellipsis @ js '' '' @ percent progress))
                            (m1\<lparr>m_pendingHistory := (m_pendingHistory m1)(hc_id c \<mapsto> ph1)\<rparr>)
                 in case place_parts (ph_compressedLength ph1) (ph_parts ph1) [] of
                      Missing \<Rightarrow> m2
                    | Overflow \<Rightarrow> m2
                    | Placed acc \<Rightarrow>
                        apply_history p b rid (acc @ replicate (ph_compressedLength ph1 - length acc) 0)
                          (m2\<lparr>m_pendingHistory := (m_pendingHistory m2)(hc_id c := None)\<rparr>))))"

end
