(* ===== verification/Sending.thy ===== *)
theory Sending
  imports Resync
begin

text \<open>
  Messages and attachments in \<open>ConnectionManagerImpl\<close>: sending text, images and files, resuming interrupted
  uploads, storing what the engine delivers; and a room's credentials and its record.
\<close>

section \<open>Attachments\<close>

definition content_reply :: "content \<Rightarrow> reply_ref option" where
  "content_reply c = (case c of Text t \<Rightarrow> tx_replyTo t | Image i \<Rightarrow> im_replyTo i | File f \<Rightarrow> fl_replyTo f)"

text \<open>The payload of an attachment; a text message has none.\<close>

definition payload_of :: "stored_message \<Rightarrow> outgoing_payload option" where
  "payload_of s =
     (case sm_content s of
        Text t \<Rightarrow> None
      | Image i \<Rightarrow>
          Some \<lparr>p_id = sm_id s, p_kind = KindImage, p_ts = im_ts i, p_mime = mime_string (im_mime i),
                p_data = im_data i, p_name = None, p_w = im_w i, p_h = im_h i, p_replyTo = im_replyTo i\<rparr>
      | File f \<Rightarrow>
          Some \<lparr>p_id = sm_id s, p_kind = KindFile, p_ts = fl_ts f, p_mime = fl_mime f, p_data = fl_data f,
                p_name = Some (fl_name f), p_w = None, p_h = None, p_replyTo = fl_replyTo f\<rparr>)"

definition stored_preview :: "stored_message \<Rightarrow> jstr" where
  "stored_preview s = messagePreview (Content (Some (sm_id s)) (sm_content s))"

definition start_transfer ::
  "platform \<Rightarrow> context_now \<Rightarrow> jstr \<Rightarrow> outgoing_payload \<Rightarrow> bool \<Rightarrow> manager \<Rightarrow> unit result \<times> manager" where
  "start_transfer p cx b payload resume m =
     (case startSend_check b payload (m_engine m) of
        Inl e \<Rightarrow> (Inl e, m)
      | Inr False \<Rightarrow> (Inr (), m)
      | Inr True \<Rightarrow>
          (Inr (), with_engine p (startSend_hashed (sha256Base64Url (pf_sha p)) (engine_env cx m) b payload resume) m))"

definition startOutgoing :: "platform \<Rightarrow> context_now \<Rightarrow> jstr \<Rightarrow> stored_message \<Rightarrow> manager \<Rightarrow> unit result \<times> manager" where
  "startOutgoing p cx b s m =
     (case payload_of s of
        None \<Rightarrow> (Inr (), m)
      | Some payload \<Rightarrow>
          (let m1 = snd (appendMessage b s (on_db (addMessage b s) m));
               m2 = log_effect BumpRooms (on_db (touchRoom (cx_now cx) b (Some (stored_preview s))) m1)
           in start_transfer p cx b payload False m2))"

definition uploads_error :: js_error where
  "uploads_error = Error ''Wait for the current uploads to finish.''"

definition too_large_error :: js_error where
  "too_large_error = Error ''File too large (max 10 MB)''"

text \<open>
  \<open>prepareImage\<close> decodes and recompresses with the browser's canvas; its outcome is the argument \<open>prepared\<close>.
\<close>

definition sendImage ::
  "platform \<Rightarrow> context_now \<Rightarrow> jstr \<Rightarrow> (image_mime \<times> bytes \<times> jsnum option \<times> jsnum option) result
   \<Rightarrow> reply_ref option \<Rightarrow> manager \<Rightarrow> bool result \<times> manager" where
  "sendImage p cx b prepared reply m =
     (if \<not> is_connected b m then (Inr False, m)
      else if \<not> canStartTransfer b m then (Inl uploads_error, m)
      else (case prepared of
              Inl e \<Rightarrow> (Inl e, m)
            | Inr (mime, bs, w, h) \<Rightarrow>
                (let (i, m1) = draw_uuid p m;
                     s = \<lparr>sm_id = i, sm_from = Self,
                          sm_content = Image \<lparr>im_ts = NumI (cx_now cx), im_mime = mime, im_data = bs, im_w = w, im_h = h,
                                              im_replyTo = reply\<rparr>\<rparr>;
                     (r, m2) = startOutgoing p cx b s m1
                 in case r of Inl e \<Rightarrow> (Inl e, m2) | Inr _ \<Rightarrow> (Inr True, m2))))"

definition sendFile ::
  "platform \<Rightarrow> context_now \<Rightarrow> jstr \<Rightarrow> jstr option \<Rightarrow> jstr \<Rightarrow> bytes \<Rightarrow> reply_ref option \<Rightarrow> manager \<Rightarrow> bool result \<times> manager" where
  "sendFile p cx b name mime bs reply m =
     (if \<not> is_connected b m then (Inr False, m)
      else if MAX_TRANSFER_BYTES < length bs then (Inl too_large_error, m)
      else if \<not> canStartTransfer b m then (Inl uploads_error, m)
      else
        (let (i, m1) = draw_uuid p m;
             rawMime = map lower_ascii mime;
             s = \<lparr>sm_id = i, sm_from = Self,
                  sm_content = File \<lparr>fl_ts = NumI (cx_now cx),
                    fl_name = sanitizeFileName (pf_nfc p) (Some (case name of None \<Rightarrow> [] | Some n \<Rightarrow> n)),
                    fl_mime = (if isValidMime rawMime then rawMime else js ''application/octet-stream''),
                    fl_data = bs, fl_replyTo = reply\<rparr>\<rparr>;
             (r, m2) = startOutgoing p cx b s m1
         in case r of Inl e \<Rightarrow> (Inl e, m2) | Inr _ \<Rightarrow> (Inr True, m2)))"

text \<open>The loop of \<open>resumePendingOutgoing\<close>, and how many transfers it has resumed.\<close>

fun resume_loop :: "platform \<Rightarrow> context_now \<Rightarrow> jstr \<Rightarrow> jstr list \<Rightarrow> manager \<Rightarrow> nat \<times> manager" where
  "resume_loop p cx b [] m = (0, m)"
| "resume_loop p cx b (i # ids) m =
     (case List.find (\<lambda>s. sm_id s = i) (getMessages b m) of
        None \<Rightarrow> resume_loop p cx b ids m
      | Some s \<Rightarrow>
          (case (sm_from s, payload_of s) of
             (Self, Some payload) \<Rightarrow>
               (let (r, m1) = start_transfer p cx b payload True m;
                    (n, m2) = resume_loop p cx b ids m1
                in (case r of Inl _ \<Rightarrow> n | Inr _ \<Rightarrow> Suc n, m2))
           | _ \<Rightarrow> resume_loop p cx b ids m))"

definition resumePendingOutgoing :: "platform \<Rightarrow> context_now \<Rightarrow> jstr \<Rightarrow> manager \<Rightarrow> manager" where
  "resumePendingOutgoing p cx b m =
     (let ids = getPendingOutgoing b (m_db m)
      in if ids = [] then m
         else (let (n, m1) = resume_loop p cx b ids m
               in if n = 0 then on_db (setPendingOutgoing b []) m1 else m1))"

section \<open>Messages\<close>

definition send_text :: "platform \<Rightarrow> context_now \<Rightarrow> jstr \<Rightarrow> jstr \<Rightarrow> reply_ref option \<Rightarrow> manager \<Rightarrow> bool result \<times> manager" where
  "send_text p cx b body reply m =
     (case the_room b m of
        None \<Rightarrow> (Inr False, m)
      | Some r \<Rightarrow>
          if \<not> is_connected b m then (Inr False, m)
          else
            (let (i, m1) = draw_uuid p m;
                 c = Text \<lparr>tx_ts = NumI (cx_now cx), tx_body = body, tx_replyTo = reply\<rparr>;
                 (sent, m2) = transmit p r (Content (Some i) c) m1
             in case sent of
                  Inl e \<Rightarrow> (Inl e, m2)
                | Inr _ \<Rightarrow>
                    (let s = \<lparr>sm_id = i, sm_from = Self, sm_content = c\<rparr>;
                         m3 = on_db (addMessage b s) (snd (appendMessage b s m2));
                         m4 = log_effect BumpRooms (on_db (touchRoom (cx_now cx) b (Some body)) m3)
                     in (Inr True, schedulePublishDigest b m4))))"

text \<open>The room is not the one on screen, or the page is hidden.\<close>

definition notify_unless_seen :: "context_now \<Rightarrow> jstr \<Rightarrow> jstr \<Rightarrow> manager \<Rightarrow> manager" where
  "notify_unless_seen cx b preview m =
     (if m_active m \<noteq> Some b \<or> cx_hidden cx
      then (let m1 = log_effect BumpRooms (on_db (markUnread b True) m)
            in log_effect (Notify (partnerLabel (getRoom b (m_db m1))) preview) m1)
      else m)"

text \<open>\<open>deliverIncoming\<close>: an attachment the engine has received and verified.\<close>

definition deliverIncoming :: "context_now \<Rightarrow> jstr \<Rightarrow> stored_message \<Rightarrow> manager \<Rightarrow> manager" where
  "deliverIncoming cx b s m =
     (let (fresh, m1) = appendMessage b s (on_db (addMessage b s) m)
      in if \<not> fresh then m1
         else
           (let preview = stored_preview s;
                m2 = schedulePublishDigest b (log_effect Sound m1)
            in notify_unless_seen cx b preview (on_db (touchRoom (cx_now cx) b (Some preview)) m2)))"

text \<open>A text or a legacy image from the partner, in \<open>onBinary\<close>. A message without id gets a fresh one.\<close>

definition receive_content :: "platform \<Rightarrow> context_now \<Rightarrow> jstr \<Rightarrow> jstr option \<Rightarrow> content \<Rightarrow> manager \<Rightarrow> manager" where
  "receive_content p cx b i c m =
     (let (i', m0) = (case i of Some i \<Rightarrow> (i, m) | None \<Rightarrow> draw_uuid p m);
          s = \<lparr>sm_id = i', sm_from = Peer, sm_content = c\<rparr>;
          (fresh, m1) = appendMessage b s m0
      in if \<not> fresh then m1
         else
           (let m2 = schedulePublishDigest b (on_db (addMessage b s) (log_effect Sound m1));
                known = Option.bind (getRoom b (m_db m2)) (\<lambda>rec. truthy (rec_lastPeerDeviceFp rec));
                m3 = (case (truthy (m_peerFp m2 b), getRoom b (m_db m2), known) of
                        (Some fp, Some rec, None) \<Rightarrow> trustPeerDeviceFp b (Some fp) m2
                      | _ \<Rightarrow> m2);
                preview = messagePreview (Content i c)
            in notify_unless_seen cx b preview (on_db (touchRoom (cx_now cx) b (Some preview)) m3)))"

section \<open>Credentials and the room's record\<close>

definition cached_credentials :: "jstr \<Rightarrow> manager \<Rightarrow> credentials option" where
  "cached_credentials b m =
     (case m_creds m b of Some c \<Rightarrow> Some c | None \<Rightarrow> getSessionCredentials b (m_vault m))"

definition resolveExistingCredentials :: "platform \<Rightarrow> jstr \<Rightarrow> room_record option \<Rightarrow> manager \<Rightarrow> credentials option" where
  "resolveExistingCredentials p b existing m =
     (case cached_credentials b m of
        Some c \<Rightarrow> Some c
      | None \<Rightarrow> Option.bind (Option.bind existing rec_credentialsEnc) (\<lambda>blob. decryptCredentials (pf_unseal p) blob (m_vault m)))"

definition getRoomCredentials :: "platform \<Rightarrow> jstr \<Rightarrow> manager \<Rightarrow> credentials option" where
  "getRoomCredentials p b m = resolveExistingCredentials p b (getRoom b (m_db m)) m"

definition getRoomPin :: "platform \<Rightarrow> jstr \<Rightarrow> manager \<Rightarrow> jstr option" where
  "getRoomPin p b m =
     (case truthy (Option.bind (the_room b m) ir_roomPin) of
        Some pin \<Rightarrow> Some pin
      | None \<Rightarrow> Option.bind (getRoomCredentials p b m) cr_roomPin)"

definition keep_credentials :: "jstr \<Rightarrow> credentials \<Rightarrow> manager \<Rightarrow> manager" where
  "keep_credentials b c m =
     m\<lparr>m_vault := stashSessionCredentials b c (m_vault m), m_creds := (m_creds m)(b \<mapsto> c)\<rparr>"

definition revealRoomPin :: "platform \<Rightarrow> jstr \<Rightarrow> jstr \<Rightarrow> manager \<Rightarrow> jstr option result \<times> manager" where
  "revealRoomPin p b appPin m =
     (case Option.bind (getRoom b (m_db m)) rec_credentialsEnc of
        None \<Rightarrow> (Inr None, m)
      | Some blob \<Rightarrow>
          (case decryptCredentialsWithPin (pf_pbkdf2 p) (pf_unseal p) blob appPin (m_db m) of
             Inl e \<Rightarrow> (Inl e, m)
           | Inr None \<Rightarrow> (Inr None, m)
           | Inr (Some c) \<Rightarrow>
               (case truthy (cr_roomPin c) of
                  None \<Rightarrow> (Inr None, m)
                | Some pin \<Rightarrow>
                    (Inr (Some pin), upd_room b (\<lambda>r. r\<lparr>ir_roomPin := Some pin\<rparr>) (keep_credentials b c m)))))"

text \<open>\<open>encryptCredentials\<close>, which draws a nonce only when the vault is unlocked.\<close>

definition encrypt_creds :: "platform \<Rightarrow> credentials \<Rightarrow> manager \<Rightarrow> (jstr \<times> jstr) option \<times> manager" where
  "encrypt_creds p c m =
     (if isVaultUnlocked (m_vault m)
      then (let (iv, m1) = draw_bytes p m in (encryptCredentials (pf_seal p) iv c (m_vault m1), m1))
      else (None, m))"

definition persist_one :: "platform \<Rightarrow> room_record \<Rightarrow> manager \<Rightarrow> manager" where
  "persist_one p rec m =
     (let b = rec_bucketId rec;
          found = resolveExistingCredentials p b (Some rec) m;
          has_hash = (Option.bind found (\<lambda>c. truthy (Some (cr_roomHash c))) \<noteq> None);
          chosen = (if has_hash then found
                    else if rec_roomHash rec \<noteq> []
                    then Some \<lparr>cr_roomHash = rec_roomHash rec, cr_roomPin = Option.bind found cr_roomPin, cr_legacyToken = None\<rparr>
                    else None)
      in case chosen of
           None \<Rightarrow> m
         | Some c \<Rightarrow>
             (let (enc, m1) = encrypt_creds p c m
              in case enc of
                   None \<Rightarrow> m1
                 | Some blob \<Rightarrow> keep_credentials b c (on_db (upsertRoom (rec\<lparr>rec_credentialsEnc := Some blob\<rparr>)) m1)))"

definition persistAllCredentials :: "platform \<Rightarrow> manager \<Rightarrow> manager" where
  "persistAllCredentials p m =
     (if \<not> isVaultUnlocked (m_vault m) then m else fold (persist_one p) (listRooms (m_db m)) m)"

record register_opts =
  ro_bucketId :: jstr
  ro_roomHash :: jstr
  ro_relayUrl :: jstr
  ro_nickname :: "jstr option"
  ro_roomPin :: "jstr option"
  ro_legacy :: "bool option"
  ro_legacyToken :: "jstr option"
  ro_isCreator :: "bool option"

definition or_else :: "'a option \<Rightarrow> 'a option \<Rightarrow> 'a option" where
  "or_else x y = (case x of Some a \<Rightarrow> Some a | None \<Rightarrow> y)"

text \<open>
  The new record replaces the old one: of its fields, those the source does not list (the preview, a
  released seat and the trusted device of the partner) are gone.
\<close>

definition registerRoom :: "platform \<Rightarrow> context_now \<Rightarrow> register_opts \<Rightarrow> manager \<Rightarrow> manager" where
  "registerRoom p cx opts m =
     (let b = ro_bucketId opts;
          existing = getRoom b (m_db m);
          by_seat = (Option.bind (parseRoomFragment (ro_roomHash opts)) fr_seat = Some 0);
          prior = resolveExistingCredentials p b existing m;
          creds = \<lparr>cr_roomHash = ro_roomHash opts,
                   cr_roomPin = or_else (ro_roomPin opts) (Option.bind prior cr_roomPin),
                   cr_legacyToken = or_else (truthy (ro_legacyToken opts)) (truthy (Option.bind prior cr_legacyToken))\<rparr>;
          m1 = keep_credentials b creds m;
          (enc, m2) = encrypt_creds p creds m1
      in log_effect BumpRooms (on_db (upsertRoom
           \<lparr>rec_bucketId = b,
            rec_nickname = the (or_else (ro_nickname opts) (or_else (map_option rec_nickname existing) (Some (defaultNickname b)))),
            rec_roomHash = ro_roomHash opts, rec_relayUrl = ro_relayUrl opts,
            rec_createdAt = (case existing of None \<Rightarrow> cx_now cx | Some e \<Rightarrow> rec_createdAt e),
            rec_lastActiveAt = cx_now cx, rec_lastPreview = None,
            rec_unread = (case existing of None \<Rightarrow> False | Some e \<Rightarrow> rec_unread e),
            rec_credentialsEnc = or_else enc (Option.bind existing rec_credentialsEnc),
            rec_legacy = or_else (ro_legacy opts) (Option.bind existing rec_legacy),
            rec_isCreator = or_else (ro_isCreator opts) (or_else (Option.bind existing rec_isCreator) (Some by_seat)),
            rec_seatReleased = False, rec_lastPeerDeviceFp = None\<rparr>) m2))"

end
