(* ===== verification/Reconnect.thy ===== *)
theory Reconnect
  imports Sending
begin

text \<open>
  Connecting in \<open>ConnectionManagerImpl\<close>: managed reconnection and heartbeats, the callbacks wired to a relay
  client, and the connect flows (\<open>openRoom\<close>, \<open>reconnectRoom\<close> and what they call), cut at the points where they
  wait for a database read, a closing socket, a timer or the relay.
\<close>

section \<open>Managed reconnection\<close>

definition cancelManagedReconnect :: "jstr \<Rightarrow> manager \<Rightarrow> manager" where
  "cancelManagedReconnect b m = m\<lparr>m_timers := (m_timers m)(b := None)\<rparr>"

definition cancelAllManagedReconnects :: "manager \<Rightarrow> manager" where
  "cancelAllManagedReconnects m = m\<lparr>m_timers := Map.empty\<rparr>"

definition resetReconnectState :: "jstr \<Rightarrow> manager \<Rightarrow> manager" where
  "resetReconnectState b m =
     (let m1 = cancelManagedReconnect b m;
          m2 = m1\<lparr>m_attempts := (m_attempts m1)(b := None)\<rparr>
      in if the_room b m2 = None then m2
         else syncRuntimes (upd_runtime b (\<lambda>rt. rt\<lparr>rt_reconnectAttempt := 0, rt_reconnectStalled := False\<rparr>) m2))"

definition markReconnectStalled :: "jstr \<Rightarrow> manager \<Rightarrow> manager" where
  "markReconnectStalled b m =
     (if the_room b m = None then m
      else syncRuntimes (upd_runtime b
             (\<lambda>rt. rt\<lparr>rt_connState := CsError, rt_connDetail := js ''reconnect manually'', rt_reconnectStalled := True\<rparr>) m))"

definition scheduleManagedReconnect :: "jstr \<Rightarrow> manager \<Rightarrow> manager" where
  "scheduleManagedReconnect b m =
     (if m_locked m \<or> b \<in> m_suppress m then m
      else (case the_room b m of
              None \<Rightarrow> m
            | Some r \<Rightarrow>
                if rt_bucketFull (ir_runtime r) \<or> rt_reconnectStalled (ir_runtime r) then m
                else
                  (let m1 = cancelManagedReconnect b m;
                       attempt = (case m_attempts m1 b of None \<Rightarrow> 0 | Some n \<Rightarrow> n)
                   in if MAX_RECONNECT_ATTEMPTS \<le> attempt then markReconnectStalled b m1
                      else
                        (let delay = min (1000 * 2 ^ attempt) MAX_RECONNECT_DELAY_MS;
                             m2 = syncRuntimes (upd_runtime b
                                    (\<lambda>rt. rt\<lparr>rt_connState := CsReconnecting, rt_reconnectAttempt := attempt + 1,
                                            rt_reconnectStalled := False,
                                            rt_connDetail := (if 0 < attempt then js ''attempt '' @ decimal (attempt + 1) else [])\<rparr>)
                                    m1)
                         in m2\<lparr>m_timers := (m_timers m2)(b \<mapsto> (delay, attempt))\<rparr>))))"

definition handleDisconnectForReconnect :: "jstr \<Rightarrow> manager \<Rightarrow> manager" where
  "handleDisconnectForReconnect b m =
     (if b \<in> m_suppress m \<or> m_locked m then m
      else (case the_room b m of
              None \<Rightarrow> m
            | Some r \<Rightarrow> if rt_bucketFull (ir_runtime r) then m else scheduleManagedReconnect b m))"

section \<open>Starting a flow\<close>

text \<open>
  A call of \<open>openRoom\<close> or \<open>reconnectRoom\<close> returns the promise that is registered for the room, or reads the
  room's record.
\<close>

definition start_flow :: "flow_pc \<Rightarrow> jstr \<Rightarrow> after_flow \<Rightarrow> manager \<Rightarrow> manager" where
  "start_flow pc b th m =
     m\<lparr>m_flows := m_flows m @
         [\<lparr>fl_bucket = b, fl_pc = (case m_open m b of Some n \<Rightarrow> JoinFlow n False | None \<Rightarrow> pc), fl_then = th\<rparr>]\<rparr>"

definition openRoom :: "jstr \<Rightarrow> after_flow \<Rightarrow> manager \<Rightarrow> manager" where
  "openRoom = start_flow OpenRecord"

definition reconnectRoom :: "jstr \<Rightarrow> after_flow \<Rightarrow> manager \<Rightarrow> manager" where
  "reconnectRoom = start_flow ReconnectRecord"

text \<open>The timer of \<open>scheduleManagedReconnect\<close> runs out.\<close>

definition reconnect_timer_fires :: "jstr \<Rightarrow> manager \<Rightarrow> manager" where
  "reconnect_timer_fires b m =
     (case m_timers m b of
        None \<Rightarrow> m
      | Some (delay, attempt) \<Rightarrow>
          (let m1 = m\<lparr>m_timers := (m_timers m)(b := None)\<rparr>
           in if the_room b m1 = None then m1
              else reconnectRoom b ManagedRetry (m1\<lparr>m_attempts := (m_attempts m1)(b \<mapsto> attempt + 1)\<rparr>)))"

section \<open>Heartbeat\<close>

definition stopHeartbeat :: "jstr \<Rightarrow> manager \<Rightarrow> manager" where
  "stopHeartbeat b m = m\<lparr>m_heartbeats := m_heartbeats m - {b}, m_pings := m_pings m - {b}\<rparr>"

definition stopAllHeartbeats :: "manager \<Rightarrow> manager" where
  "stopAllHeartbeats m = m\<lparr>m_heartbeats := {}, m_pings := m_pings m - m_heartbeats m\<rparr>"

definition startHeartbeat :: "jstr \<Rightarrow> manager \<Rightarrow> manager" where
  "startHeartbeat b m = (let m1 = stopHeartbeat b m in m1\<lparr>m_heartbeats := insert b (m_heartbeats m1)\<rparr>)"

definition forceStaleReconnect :: "jstr \<Rightarrow> manager \<Rightarrow> manager" where
  "forceStaleReconnect b m =
     (case the_room b m of
        None \<Rightarrow> m
      | Some r \<Rightarrow>
          if rt_bucketFull (ir_runtime r) \<or> b \<in> m_suppress m then m
          else reconnectRoom b StaleRetry (stopHeartbeat b m))"

definition sendHeartbeatPing :: "jstr \<Rightarrow> manager \<Rightarrow> manager" where
  "sendHeartbeatPing b m =
     (if \<not> is_connected b m then m
      else if b \<in> m_pings m then forceStaleReconnect b m
      else (case Option.bind (the_room b m) ir_client of
              None \<Rightarrow> m
            | Some k \<Rightarrow>
                (let m1 = on_client k (sendControl (ControlMsg (js ''ping'') None)) m
                 in m1\<lparr>m_pings := insert b (m_pings m1)\<rparr>)))"

text \<open>The tick of the interval, and the one five seconds after its start, which is never cancelled.\<close>

definition heartbeat_tick :: "context_now \<Rightarrow> jstr \<Rightarrow> manager \<Rightarrow> manager" where
  "heartbeat_tick cx b m =
     (case the_room b m of
        None \<Rightarrow> m
      | Some r \<Rightarrow>
          if \<not> is_connected b m \<or> rt_connState (ir_runtime r) \<noteq> CsOpen \<or> cx_hidden cx then m
          else sendHeartbeatPing b m)"

definition heartbeat_timeout :: "jstr \<Rightarrow> manager \<Rightarrow> manager" where
  "heartbeat_timeout b m = forceStaleReconnect b (m\<lparr>m_pings := m_pings m - {b}\<rparr>)"

definition onHeartbeatPong :: "jstr \<Rightarrow> manager \<Rightarrow> manager" where
  "onHeartbeatPong b m = m\<lparr>m_pings := m_pings m - {b}\<rparr>"

definition ensure_connected :: "jstr \<Rightarrow> manager \<Rightarrow> manager" where
  "ensure_connected b m =
     (case the_room b m of
        None \<Rightarrow> m
      | Some r \<Rightarrow>
          (let rt = ir_runtime r
           in if rt_bucketFull rt then m
              else if \<not> is_connected b m \<or> rt_connState rt = CsClosed \<or> rt_connState rt = CsError \<or> rt_reconnectStalled rt
              then reconnectRoom b Nothing (resetReconnectState b m)
              else if rt_connState rt = CsOpen then sendHeartbeatPing b m
              else m))"

definition ensureAllConnected :: "manager \<Rightarrow> manager" where
  "ensureAllConnected m = (if m_locked m then m else fold ensure_connected (map fst (m_rooms m)) m)"

text \<open>The browser has gone offline.\<close>

definition went_offline :: "manager \<Rightarrow> manager" where
  "went_offline m =
     syncRuntimes (m\<lparr>m_rooms := map (\<lambda>(b, r).
       (b, if rt_connState (ir_runtime r) = CsOpen
           then r\<lparr>ir_runtime := (ir_runtime r)\<lparr>rt_connDetail := js ''offline''\<rparr>\<rparr> else r)) (m_rooms m)\<rparr>)"

section \<open>Callbacks of a client\<close>

fun conn_of :: "status \<Rightarrow> conn_state" where
  "conn_of StConnecting = CsConnecting"
| "conn_of StOpen = CsOpen"
| "conn_of StClosed = CsClosed"
| "conn_of StError = CsError"
| "conn_of StReconnecting = CsReconnecting"

definition has_peer_messages :: "jstr \<Rightarrow> manager \<Rightarrow> bool" where
  "has_peer_messages b m = list_ex (\<lambda>s. sm_from s = Peer) (getMessages b m)"

definition engine_connected :: "platform \<Rightarrow> context_now \<Rightarrow> jstr \<Rightarrow> manager \<Rightarrow> manager" where
  "engine_connected p cx b m = with_engine p (onConnected (engine_env cx m) b) m"

definition onStatus :: "platform \<Rightarrow> context_now \<Rightarrow> nat \<Rightarrow> jstr \<Rightarrow> status \<Rightarrow> jstr option \<Rightarrow> manager \<Rightarrow> manager" where
  "onStatus p cx k b s detail m =
     (if the_room b m = None then m
      else
        (let ended = (s = StClosed \<or> s = StError);
             full = (s = StClosed \<and> detail = Some (js ''bucket full''));
             m1 = (if s = StOpen
                   then startHeartbeat b (upd_runtime b (\<lambda>rt. rt\<lparr>rt_connState := CsOpen, rt_connDetail := []\<rparr>)
                          (resetReconnectState b m))
                   else (let m' = upd_runtime b (\<lambda>rt. rt\<lparr>rt_connState := conn_of s,
                                    rt_connDetail := (case detail of None \<Rightarrow> [] | Some d \<Rightarrow> d)\<rparr>) m
                         in if ended then stopHeartbeat b m' else m'));
             m2 = (if full
                   then upd_room b (\<lambda>r. r\<lparr>ir_client := None\<rparr>) (on_client k close (cancelManagedReconnect b
                          (upd_runtime b (\<lambda>rt. rt\<lparr>rt_bucketFull := True\<rparr>) m1)))
                   else m1);
             m3 = (if ended \<and> \<not> has_peer_messages b m2 then upd_runtime b (\<lambda>rt. rt\<lparr>rt_peerPresent := False\<rparr>) m2 else m2);
             m4 = (if s = StClosed \<and> \<not> full then handleDisconnectForReconnect b m3 else m3);
             m5 = syncRuntimes m4
         in if s = StOpen then engine_connected p cx b m5
            else if ended then with_engine p (onDisconnected b) m5
            else m5))"

definition onControl :: "platform \<Rightarrow> context_now \<Rightarrow> jstr \<Rightarrow> control_msg \<Rightarrow> manager \<Rightarrow> manager" where
  "onControl p cx b msg m =
     (case (the_room b m, msg) of
        (None, _) \<Rightarrow> m
      | (Some r, ControlMsg t n) \<Rightarrow>
          if t = js ''pong'' then onHeartbeatPong b m
          else
            (let m1 = (case n of
                         Some i \<Rightarrow> if t = js ''slot'' then upd_runtime b (\<lambda>rt. rt\<lparr>rt_slot := Some i\<rparr>) m else m
                       | None \<Rightarrow> m);
                 m2 = (if t \<noteq> js ''peer_join'' then m1
                       else
                         (let m' = upd_runtime b (\<lambda>rt. rt\<lparr>rt_peerPresent := True\<rparr>) m1;
                              m'' = (case (m_active m' = Some b, getRoom b (m_db m')) of
                                       (False, Some rec) \<Rightarrow> log_effect (NotifyJoined b (partnerLabel (Some rec))) m'
                                     | _ \<Rightarrow> m')
                          in if rt_peerPresent (ir_runtime r) then m''
                             else engine_connected p cx b (publishDigest p cx b m'')));
                 m3 = (if t = js ''peer_leave''
                       then with_engine p (onDisconnected b) (upd_runtime b (\<lambda>rt. rt\<lparr>rt_peerPresent := False\<rparr>) m2)
                       else m2)
             in syncRuntimes m3))"

fun receive :: "platform \<Rightarrow> context_now \<Rightarrow> jstr \<Rightarrow> plain_message \<Rightarrow> manager \<Rightarrow> manager" where
  "receive p cx b (Delete ts i) m = schedulePublishDigest b (applyDelete p b i m)"
| "receive p cx b (TransferChunk c) m = with_engine p (handleChunk (engine_env cx m) b c) m"
| "receive p cx b (TransferAck a) m = with_engine p (handleAck (engine_env cx m) b a) m"
| "receive p cx b (TransferQuery ts i) m = with_engine p (handleQuery (engine_env cx m) b i) m"
| "receive p cx b (TransferCancel ts i reason) m = with_engine p (handleCancel b i reason) m"
| "receive p cx b (ImageChunk c) m = m"
| "receive p cx b (HistoryDigest ts n h fp) m = onPeerDigest p b n h fp m"
| "receive p cx b (ResyncRequest ts i fp) m = onResyncRequest b i ts fp m"
| "receive p cx b (WipeHistory ts i) m = applyWipeHistory p b m"
| "receive p cx b (ResyncReject ts i reason) m = onResyncReject b i reason m"
| "receive p cx b (ResyncAccept ts i ids) m = onResyncAccept p cx b i ids m"
| "receive p cx b (ResyncIds ts i ids) m = onResyncIds p cx b i ids m"
| "receive p cx b (HistoryChunk c) m = handleHistoryChunk p cx b c m"
| "receive p cx b (Content i (File f)) m = m"
| "receive p cx b (Content i (Text t)) m = receive_content p cx b i (Text t) m"
| "receive p cx b (Content i (Image im)) m = receive_content p cx b i (Image im) m"

definition onBinary :: "platform \<Rightarrow> context_now \<Rightarrow> jstr \<Rightarrow> bytes \<Rightarrow> manager \<Rightarrow> manager" where
  "onBinary p cx b buf m =
     (case the_room b m of
        None \<Rightarrow> m
      | Some r \<Rightarrow>
          if rt_bucketFull (ir_runtime r) then m
          else
            (let m1 = (if rt_peerPresent (ir_runtime r) then m
                       else engine_connected p cx b (publishDigest p cx b
                              (syncRuntimes (upd_runtime b (\<lambda>rt. rt\<lparr>rt_peerPresent := True\<rparr>) m))))
             in case decryptMessage (pf_nfc p) (pf_unseal p) (ir_key r) buf of
                  Inl e \<Rightarrow> m1
                | Inr plain \<Rightarrow> receive p cx b plain m1))"

fun dispatch_call :: "platform \<Rightarrow> context_now \<Rightarrow> nat \<Rightarrow> jstr \<Rightarrow> client_effect \<Rightarrow> manager \<Rightarrow> manager" where
  "dispatch_call p cx k b (StatusCall s detail) m = onStatus p cx k b s detail m"
| "dispatch_call p cx k b (ControlCall msg) m = onControl p cx b msg m"
| "dispatch_call p cx k b (BinaryCall buf) m = onBinary p cx b buf m"
| "dispatch_call p cx k b _ m = m"

text \<open>Something happens to client \<open>k\<close>: its step, then the callbacks it has made, if it is wired.\<close>

definition client_happens :: "platform \<Rightarrow> context_now \<Rightarrow> nat \<Rightarrow> client_event \<Rightarrow> manager \<Rightarrow> manager" where
  "client_happens p cx k ev m =
     (let (wired, c) = m_clients m ! k;
          c1 = client_step ev c;
          m1 = on_client k (client_step ev) m
      in case wired of
           None \<Rightarrow> m1
         | Some b \<Rightarrow> fold (dispatch_call p cx k b) (drop (length (c_log c)) (c_log c1)) m1)"

end
