(* ===== verification/Flows.thy ===== *)
theory Flows
  imports Reconnect
begin

text \<open>
  The connect flows of \<open>ConnectionManagerImpl\<close>, and closing, locking and restoring rooms. A flow is an entry of
  \<open>m_flows\<close>; \<open>flow_step\<close> takes it from one wait to the next, running what the source runs in between.
\<close>

section \<open>Ending and continuing a flow\<close>

definition set_pc :: "nat \<Rightarrow> flow_pc \<Rightarrow> manager \<Rightarrow> manager" where
  "set_pc n pc m = m\<lparr>m_flows := (m_flows m)[n := (m_flows m ! n)\<lparr>fl_pc := pc\<rparr>]\<rparr>"

text \<open>What the starter of a flow does with its result; a rejected promise does nothing more.\<close>

definition after_done :: "after_flow \<Rightarrow> jstr \<Rightarrow> bool result \<Rightarrow> manager \<Rightarrow> manager" where
  "after_done th b res m =
     (case (the_room b m, res) of
        (Some r, Inr ok) \<Rightarrow>
          (let rt = ir_runtime r
           in case th of
                Nothing \<Rightarrow> m
              | ManagedRetry \<Rightarrow> if ok \<or> rt_bucketFull rt then m else scheduleManagedReconnect b m
              | StaleRetry \<Rightarrow>
                  if \<not> is_connected b m \<and> \<not> rt_bucketFull rt \<and> \<not> rt_reconnectStalled rt
                  then scheduleManagedReconnect b m else m)
      | _ \<Rightarrow> m)"

text \<open>\<open>own\<close>: the call had registered its promise, which its \<open>finally\<close> block removes.\<close>

definition finish_flow :: "nat \<Rightarrow> bool \<Rightarrow> bool result \<Rightarrow> manager \<Rightarrow> manager" where
  "finish_flow n own res m =
     (let f = m_flows m ! n;
          m1 = set_pc n (FlowDone res) m;
          m2 = (if own then m1\<lparr>m_open := (m_open m1)(fl_bucket f := None)\<rparr> else m1)
      in after_done (fl_then f) (fl_bucket f) res m2)"

definition suppress :: "jstr \<Rightarrow> manager \<Rightarrow> manager" where
  "suppress b m = m\<lparr>m_suppress := insert b (m_suppress m)\<rparr>"

definition unsuppress :: "jstr \<Rightarrow> manager \<Rightarrow> manager" where
  "unsuppress b m = m\<lparr>m_suppress := m_suppress m - {b}\<rparr>"

text \<open>A room object that a flow has kept across a wait: what it is now, and a change to it.\<close>

definition live_room :: "jstr \<Rightarrow> internal_room \<Rightarrow> manager \<Rightarrow> internal_room" where
  "live_room b r m =
     (case the_room b m of None \<Rightarrow> r | Some r' \<Rightarrow> if ir_oid r' = ir_oid r then r' else r)"

definition upd_same :: "jstr \<Rightarrow> internal_room \<Rightarrow> (internal_room \<Rightarrow> internal_room) \<Rightarrow> manager \<Rightarrow> manager" where
  "upd_same b r f m =
     (case the_room b m of None \<Rightarrow> m | Some r' \<Rightarrow> if ir_oid r' = ir_oid r then upd_room b f m else m)"

section \<open>Reaching the relay\<close>

definition relayTokenForRoom :: "platform \<Rightarrow> jstr \<Rightarrow> internal_room \<Rightarrow> manager \<Rightarrow> jstr option \<times> manager" where
  "relayTokenForRoom p b r m =
     (if fr_legacy (ir_fragment r) then
        (case truthy (or_else (ir_legacyToken r) (getSessionToken b (m_storage m))) of
           Some token \<Rightarrow> (Some token, m)
         | None \<Rightarrow>
             (let (bs, m1) = draw_bytes p m; token = randomToken bs
              in (Some token, upd_same b r (\<lambda>r. r\<lparr>ir_legacyToken := Some token\<rparr>)
                                (m1\<lparr>m_storage := setSessionToken b token (m_storage m1)\<rparr>))))
      else
        (case truthy (ir_roomPin r) of
           None \<Rightarrow> (None, m)
         | Some pin \<Rightarrow>
             (let seat = (if Option.bind (getRoom b (m_db m)) rec_isCreator = Some True then 0 else 1)
              in (Some (deriveRelayToken (pf_hkdf p) (fr_keyRaw (ir_fragment r)) pin b seat), m))))"

text \<open>The loop of \<open>waitForRelay\<close>, at one of its turns.\<close>

definition waitForRelay :: "context_now \<Rightarrow> nat \<Rightarrow> jstr \<Rightarrow> int \<Rightarrow> manager \<Rightarrow> manager" where
  "waitForRelay cx n b start m =
     (if cx_now cx - start < 8000 then
        (case the_room b m of
           None \<Rightarrow> finish_flow n True (Inr False) m
         | Some r \<Rightarrow>
             (let rt = ir_runtime r
              in if rt_bucketFull rt then finish_flow n True (Inr False) m
                 else if is_connected b m then finish_flow n True (Inr True) m
                 else if rt_connState rt = CsClosed \<and> rt_connDetail rt = js ''bucket full''
                 then finish_flow n True (Inr False) m
                 else set_pc n (WaitForRelay start) m))
      else finish_flow n True (Inr (is_connected b m)) m)"

text \<open>
  A new client for the room object the flow has; its callbacks are wired only when the room is still registered.
\<close>

definition make_client :: "platform \<Rightarrow> context_now \<Rightarrow> nat \<Rightarrow> jstr \<Rightarrow> internal_room \<Rightarrow> manager \<Rightarrow> manager" where
  "make_client p cx n b r m =
     (let k = length (m_clients m);
          wired = (if the_room b m = None then None else Some b);
          m1 = upd_same b r (\<lambda>r. r\<lparr>ir_client := Some k\<rparr>)
                 (m\<lparr>m_clients := m_clients m @ [(wired, new_client False 30000)]\<rparr>)
      in waitForRelay cx n b (cx_now cx) (client_happens p cx k CallConnect m1))"

definition connectRelay :: "platform \<Rightarrow> context_now \<Rightarrow> nat \<Rightarrow> jstr \<Rightarrow> jstr \<Rightarrow> manager \<Rightarrow> manager" where
  "connectRelay p cx n b token m =
     (case the_room b m of
        None \<Rightarrow> finish_flow n True (Inr False) m
      | Some r \<Rightarrow>
          if truthy (getDeviceSessionId (m_vault m)) = None then finish_flow n True (Inr False) m
          else
            (let m1 = upd_runtime b (\<lambda>rt. rt\<lparr>rt_bucketFull := False\<rparr>) m
             in case ir_client r of
                  None \<Rightarrow> make_client p cx n b r m1
                | Some k \<Rightarrow> set_pc n (RelayClosing k r token) (on_client k closeAndWait m1)))"

text \<open>\<open>r\<close> is the room object the caller holds; \<open>quiet\<close> tells whether its \<open>finally\<close> block lifts the suppression.\<close>

definition to_relay :: "platform \<Rightarrow> context_now \<Rightarrow> nat \<Rightarrow> jstr \<Rightarrow> internal_room \<Rightarrow> bool \<Rightarrow> manager \<Rightarrow> manager" where
  "to_relay p cx n b r quiet m =
     (let (token, m1) = relayTokenForRoom p b (live_room b r m) m;
          m2 = (if quiet then unsuppress b m1 else m1)
      in case truthy token of
           None \<Rightarrow> finish_flow n True (Inr False) m2
         | Some t \<Rightarrow> connectRelay p cx n b t m2)"

section \<open>Opening\<close>

definition start_connecting :: "runtime \<Rightarrow> runtime" where
  "start_connecting rt = rt\<lparr>rt_bucketFull := False, rt_connState := CsConnecting\<rparr>"

definition new_runtime :: "bool \<Rightarrow> runtime" where
  "new_runtime present =
     \<lparr>rt_connState = CsConnecting, rt_connDetail = [], rt_peerPresent = present, rt_slot = None, rt_bucketFull = False,
      rt_reconnectAttempt = 0, rt_reconnectStalled = False\<rparr>"

definition aes_key :: "bytes \<Rightarrow> bool" where
  "aes_key k \<longleftrightarrow> length k = 16 \<or> length k = 24 \<or> length k = 32"

text \<open>A room that is not open yet: its credentials, its link, its history.\<close>

definition open_fresh :: "platform \<Rightarrow> context_now \<Rightarrow> nat \<Rightarrow> jstr \<Rightarrow> manager \<Rightarrow> manager" where
  "open_fresh p cx n b m =
     (if MAX_OPEN_ROOMS \<le> length (m_rooms m) then finish_flow n True (Inr False) m
      else
        (case getRoomCredentials p b m of
           None \<Rightarrow> finish_flow n True (Inr False) m
         | Some creds \<Rightarrow>
             (case (parseRoomFragment (cr_roomHash creds), truthy (map_option rec_relayUrl (getRoom b (m_db m)))) of
                (Some fragment, Some relayUrl) \<Rightarrow>
                  if \<not> aes_key (fr_keyRaw fragment) then finish_flow n True (Inl DataError) m
                  else
                    (let m1 = syncMessages b (listMessages (pf_nfc p) b (m_db m)) m;
                         present = list_ex (\<lambda>s. sm_from s = Peer) (listMessages (pf_nfc p) b (m_db m));
                         r = \<lparr>ir_oid = m_oids m1, ir_client = None, ir_key = fr_keyRaw fragment, ir_fragment = fragment,
                              ir_roomPin = cr_roomPin creds, ir_legacyToken = cr_legacyToken creds,
                              ir_relayUrl = relayUrl, ir_runtime = new_runtime present\<rparr>;
                         m2 = m1\<lparr>m_oids := Suc (m_oids m1), m_rooms := AList.update b r (m_rooms m1),
                                 m_creds := (m_creds m1)(b \<mapsto> creds)\<rparr>;
                         m3 = resumePendingOutgoing p cx b (syncRuntimes m2)
                     in to_relay p cx n b r False m3)
              | _ \<Rightarrow> finish_flow n True (Inr False) m)))"

definition doOpenRoom :: "platform \<Rightarrow> context_now \<Rightarrow> nat \<Rightarrow> jstr \<Rightarrow> manager \<Rightarrow> manager" where
  "doOpenRoom p cx n b m =
     (case the_room b m of
        None \<Rightarrow> open_fresh p cx n b m
      | Some r \<Rightarrow>
          if is_connected b m then finish_flow n True (Inr True) m
          else
            (let m1 = syncRuntimes (upd_runtime b start_connecting (suppress b m))
             in case ir_client r of
                  Some k \<Rightarrow> set_pc n (OpenClosing k r) (on_client k closeAndWait m1)
                | None \<Rightarrow> to_relay p cx n b r True m1))"

section \<open>Reconnecting\<close>

definition doReconnectRoom :: "nat \<Rightarrow> jstr \<Rightarrow> manager \<Rightarrow> manager" where
  "doReconnectRoom n b m =
     (let m1 = stopHeartbeat b (suppress b m)
      in case the_room b m1 of
           None \<Rightarrow> set_pc n ReconnectPause m1
         | Some r \<Rightarrow>
             (let m2 = upd_runtime b (\<lambda>rt. rt\<lparr>rt_bucketFull := False, rt_reconnectStalled := False\<rparr>) m1
              in case ir_client r of
                   None \<Rightarrow> set_pc n ReconnectPause m2
                 | Some k \<Rightarrow> set_pc n (ReconnectClosing k r) (on_client k closeAndWait m2)))"

text \<open>
  \<open>connectRoom\<close>, called at the end of \<open>doReconnectRoom\<close>, whose \<open>finally\<close> block runs as soon as \<open>connectRoom\<close>
  comes to its first wait.
\<close>

definition connectRoom :: "platform \<Rightarrow> context_now \<Rightarrow> nat \<Rightarrow> jstr \<Rightarrow> manager \<Rightarrow> manager" where
  "connectRoom p cx n b m =
     (case the_room b m of
        None \<Rightarrow> finish_flow n True (Inr False) (unsuppress b m)
      | Some r \<Rightarrow>
          if is_connected b m then finish_flow n True (Inr True) (unsuppress b m)
          else
            (let m1 = syncRuntimes (upd_runtime b start_connecting (stopHeartbeat b (suppress b m)))
             in case ir_client r of
                  Some k \<Rightarrow> set_pc n (ConnectClosing k r) (unsuppress b (on_client k closeAndWait m1))
                | None \<Rightarrow> to_relay p cx n b r True m1))"

text \<open>After the pause: a room that is gone by now is opened again, by a call of \<open>openRoom\<close> whose promise is awaited.\<close>

definition after_pause :: "platform \<Rightarrow> context_now \<Rightarrow> nat \<Rightarrow> jstr \<Rightarrow> manager \<Rightarrow> manager" where
  "after_pause p cx n b m =
     (if the_room b m = None
      then set_pc n (JoinFlow (length (m_flows m)) True) (openRoom b Nothing (unsuppress b m))
      else connectRoom p cx n b m)"

definition seat_released :: "jstr \<Rightarrow> manager \<Rightarrow> bool" where
  "seat_released b m \<longleftrightarrow> (case getRoom b (m_db m) of None \<Rightarrow> False | Some rec \<Rightarrow> rec_seatReleased rec)"

definition flow_step :: "platform \<Rightarrow> context_now \<Rightarrow> nat \<Rightarrow> manager \<Rightarrow> manager" where
  "flow_step p cx n m =
     (let b = fl_bucket (m_flows m ! n)
      in case fl_pc (m_flows m ! n) of
           OpenRecord \<Rightarrow>
             if seat_released b m then finish_flow n False (Inr False) m
             else if is_connected b m then finish_flow n False (Inr True) m
             else doOpenRoom p cx n b (m\<lparr>m_open := (m_open m)(b \<mapsto> n)\<rparr>)
         | ReconnectRecord \<Rightarrow>
             if seat_released b m then finish_flow n False (Inr False) m
             else doReconnectRoom n b ((resetReconnectState b m)\<lparr>m_open := (m_open m)(b \<mapsto> n)\<rparr>)
         | JoinFlow j own \<Rightarrow>
             (case fl_pc (m_flows m ! j) of FlowDone res \<Rightarrow> finish_flow n own res m | _ \<Rightarrow> m)
         | OpenClosing k r \<Rightarrow> to_relay p cx n b r True (upd_same b r (\<lambda>r. r\<lparr>ir_client := None\<rparr>) m)
         | ReconnectClosing k r \<Rightarrow> set_pc n ReconnectPause (upd_same b r (\<lambda>r. r\<lparr>ir_client := None\<rparr>) m)
         | ReconnectPause \<Rightarrow> after_pause p cx n b m
         | ConnectClosing k r \<Rightarrow> to_relay p cx n b r True (upd_same b r (\<lambda>r. r\<lparr>ir_client := None\<rparr>) m)
         | RelayClosing k r token \<Rightarrow> make_client p cx n b r (upd_same b r (\<lambda>r. r\<lparr>ir_client := None\<rparr>) m)
         | WaitForRelay start \<Rightarrow> waitForRelay cx n b start m
         | FlowDone res \<Rightarrow> m)"

text \<open>A flow that waits for a closing socket goes on when every such wait on that client is over.\<close>

definition closed_by_now :: "nat \<Rightarrow> manager \<Rightarrow> bool" where
  "closed_by_now k m \<longleftrightarrow> k < length (m_clients m) \<and> c_waiting (snd (m_clients m ! k)) = []"

definition flow_enabled :: "nat \<Rightarrow> manager \<Rightarrow> bool" where
  "flow_enabled n m \<longleftrightarrow>
     n < length (m_flows m) \<and>
     (case fl_pc (m_flows m ! n) of
        JoinFlow j own \<Rightarrow> j < length (m_flows m)
      | OpenClosing k r \<Rightarrow> closed_by_now k m
      | ReconnectClosing k r \<Rightarrow> closed_by_now k m
      | ConnectClosing k r \<Rightarrow> closed_by_now k m
      | RelayClosing k r token \<Rightarrow> closed_by_now k m
      | FlowDone res \<Rightarrow> False
      | _ \<Rightarrow> True)"

definition isOpen :: "jstr \<Rightarrow> manager \<Rightarrow> bool" where
  "isOpen b m = is_connected b m"

section \<open>Closing, locking, restoring\<close>

definition closeRoomConnection :: "jstr \<Rightarrow> manager \<Rightarrow> manager" where
  "closeRoomConnection b m =
     (case the_room b m of
        None \<Rightarrow> m
      | Some r \<Rightarrow>
          (let m1 = stopHeartbeat b (cancelManagedReconnect b m);
               m2 = (case ir_client r of None \<Rightarrow> m1 | Some k \<Rightarrow> on_client k close m1)
           in syncRuntimes (m2\<lparr>m_rooms := AList.delete b (m_rooms m2)\<rparr>)))"

definition closeRoom :: "platform \<Rightarrow> jstr \<Rightarrow> manager \<Rightarrow> manager" where
  "closeRoom p b m =
     (let m1 = closeRoomConnection b m;
          m2 = clearTransfersForBucket p b (m1\<lparr>m_creds := (m_creds m1)(b := None)\<rparr>)
      in m2\<lparr>m_messages := (m_messages m2)(b := None)\<rparr>)"

definition forgetRoom :: "platform \<Rightarrow> jstr \<Rightarrow> manager \<Rightarrow> manager" where
  "forgetRoom p b m =
     (let m1 = closeRoom p b m;
          m2 = m1\<lparr>m_vault := clearSessionCredentialsFor b (m_vault m1),
                  m_storage := clearRoomSessionStorage b (m_storage m1)\<rparr>;
          m3 = on_db (\<lambda>d. deleteMessagesForBucket (pf_nfc p) b (removeRoom b d)) m2
      in log_effect BumpRooms (if m_active m3 = Some b then m3\<lparr>m_active := None\<rparr> else m3))"

definition connectWithPin ::
  "platform \<Rightarrow> context_now \<Rightarrow> jstr \<Rightarrow> jstr \<Rightarrow> jstr \<Rightarrow> jstr \<Rightarrow> manager \<Rightarrow> bool \<times> manager" where
  "connectWithPin p cx b pin roomHash relayUrl m =
     (case parseRoomFragment roomHash of
        None \<Rightarrow> (False, m)
      | Some f \<Rightarrow>
          if fr_legacy f \<or> \<not> verifyRoomPin (pf_pbkdf2 p) pin (fr_salt f) b (fr_pv f) then (False, m)
          else
            (let known = Option.bind (getRoom b (m_db m)) rec_isCreator;
                 m1 = registerRoom p cx
                        \<lparr>ro_bucketId = b, ro_roomHash = roomHash, ro_relayUrl = relayUrl, ro_nickname = None,
                         ro_roomPin = Some pin, ro_legacy = Some False, ro_legacyToken = None,
                         ro_isCreator = or_else known (Some (resolveSeat f = 0))\<rparr> m;
                 m2 = on_db (setSeatReleased b False) (closeRoomConnection b m1)
             in (True, openRoom b Nothing m2)))"

text \<open>\<open>releaseSeatForSwitch\<close>, before and after its waits.\<close>

definition release_begin :: "jstr \<Rightarrow> manager \<Rightarrow> manager" where
  "release_begin b m =
     (let m1 = suppress b (stopHeartbeat b (cancelManagedReconnect b m))
      in case Option.bind (the_room b m) ir_client of None \<Rightarrow> m1 | Some k \<Rightarrow> on_client k closeAndWait m1)"

definition release_end :: "platform \<Rightarrow> jstr \<Rightarrow> manager \<Rightarrow> manager" where
  "release_end p b m =
     (let m1 = clearTransfersForBucket p b (closeRoomConnection b m)
      in unsuppress b (log_effect BumpRooms (on_db (setSeatReleased b True) m1)))"

definition rejoinRoom :: "jstr \<Rightarrow> manager \<Rightarrow> manager" where
  "rejoinRoom b m = openRoom b Nothing (log_effect BumpRooms (on_db (setSeatReleased b False) m))"

text \<open>\<open>releaseAllConnections\<close>, before and after its waits; \<open>ids\<close> are the rooms it has found.\<close>

definition release_all_begin :: "manager \<Rightarrow> manager" where
  "release_all_begin m =
     (let m1 = stopAllHeartbeats (cancelAllManagedReconnects m)
      in fold (\<lambda>b m. case Option.bind (the_room b m) ir_client of None \<Rightarrow> m | Some k \<Rightarrow> on_client k closeAndWait m)
           (map fst (m_rooms m1)) m1)"

definition release_all_end :: "jstr list \<Rightarrow> manager \<Rightarrow> manager" where
  "release_all_end ids m =
     (let m1 = fold (\<lambda>b m. closeRoomConnection b (upd_runtime b (\<lambda>rt. rt\<lparr>rt_bucketFull := False\<rparr>) m)) ids m
      in m1\<lparr>m_creds := Map.empty, m_vault := clearSessionCredentials (m_vault m1)\<rparr>)"

definition lock :: "manager \<Rightarrow> manager" where
  "lock m = release_all_begin (stopAllHeartbeats (cancelAllManagedReconnects (m\<lparr>m_locked := True\<rparr>)))"

definition clear_everything :: "platform \<Rightarrow> manager \<Rightarrow> manager" where
  "clear_everything p m =
     (let m1 = stopAllHeartbeats (cancelAllManagedReconnects m);
          m2 = fold (closeRoom p) (map fst (m_rooms m1)) m1;
          m3 = with_engine p clearAll
                 (m2\<lparr>m_creds := Map.empty, m_vault := clearSessionCredentials (m_vault m2), m_active := None,
                     m_runtimes := Map.empty, m_messages := Map.empty\<rparr>)
      in m3\<lparr>m_pacers := Map.empty, m_transfers := Map.empty, m_mismatch := Map.empty, m_prompts := Map.empty,
            m_status := Map.empty, m_pendingHistory := Map.empty, m_sessions := Map.empty,
            m_peerDigests := Map.empty, m_peerFp := Map.empty, m_expected := Map.empty\<rparr>)"

text \<open>\<open>restoreAll\<close>: unlock, then, for one record after the other, its credentials and an \<open>openRoom\<close>.\<close>

definition restore_begin :: "manager \<Rightarrow> manager" where
  "restore_begin m = m\<lparr>m_locked := False\<rparr>"

definition restore_one :: "platform \<Rightarrow> room_record \<Rightarrow> manager \<Rightarrow> manager" where
  "restore_one p rec m =
     (let b = rec_bucketId rec;
          m1 = (case Option.bind (rec_credentialsEnc rec) (\<lambda>blob. decryptCredentials (pf_unseal p) blob (m_vault m)) of
                  None \<Rightarrow> m
                | Some c \<Rightarrow> keep_credentials b c m)
      in if m_creds m1 b = None \<or> rec_seatReleased rec \<or> is_connected b m1 then m1 else openRoom b Nothing m1)"

end
