(* ===== verification/ManagerFrames.thy ===== *)
theory ManagerFrames
  imports Flows
begin

text \<open>
  What the operations of the manager leave alone. \<open>net_of\<close> is the connection part of the state: rooms with their
  clients, timers, heartbeats, pings, the lock, the number of clients and the attempts counted; \<open>flows_of\<close> is the
  registered promises and the flows.
\<close>

definition net_of :: "manager \<Rightarrow>
    (jstr \<times> nat option) list \<times> (jstr \<rightharpoonup> nat \<times> nat) \<times> jstr set \<times> jstr set \<times> bool \<times> nat \<times> (jstr \<rightharpoonup> nat)" where
  "net_of m =
     (map (\<lambda>(b, r). (b, ir_client r)) (m_rooms m), m_timers m, m_heartbeats m, m_pings m, m_locked m,
      length (m_clients m), m_attempts m)"

definition flows_of :: "manager \<Rightarrow> (jstr \<rightharpoonup> nat) \<times> flow list" where
  "flows_of m = (m_open m, m_flows m)"

lemma net_upd [simp]:
  "net_of (m\<lparr>m_creds := x0\<rparr>) = net_of m"
  "net_of (m\<lparr>m_suppress := x2\<rparr>) = net_of m"
  "net_of (m\<lparr>m_pacers := x3\<rparr>) = net_of m"
  "net_of (m\<lparr>m_engine := x4\<rparr>) = net_of m"
  "net_of (m\<lparr>m_jobs := x5\<rparr>) = net_of m"
  "net_of (m\<lparr>m_pushes := x6\<rparr>) = net_of m"
  "net_of (m\<lparr>m_pendingHistory := x7\<rparr>) = net_of m"
  "net_of (m\<lparr>m_sessions := x8\<rparr>) = net_of m"
  "net_of (m\<lparr>m_peerDigests := x9\<rparr>) = net_of m"
  "net_of (m\<lparr>m_peerFp := x10\<rparr>) = net_of m"
  "net_of (m\<lparr>m_digestTimers := x11\<rparr>) = net_of m"
  "net_of (m\<lparr>m_expected := x12\<rparr>) = net_of m"
  "net_of (m\<lparr>m_active := x13\<rparr>) = net_of m"
  "net_of (m\<lparr>m_messages := x14\<rparr>) = net_of m"
  "net_of (m\<lparr>m_runtimes := x15\<rparr>) = net_of m"
  "net_of (m\<lparr>m_transfers := x16\<rparr>) = net_of m"
  "net_of (m\<lparr>m_mismatch := x17\<rparr>) = net_of m"
  "net_of (m\<lparr>m_prompts := x18\<rparr>) = net_of m"
  "net_of (m\<lparr>m_status := x19\<rparr>) = net_of m"
  "net_of (m\<lparr>m_db := x20\<rparr>) = net_of m"
  "net_of (m\<lparr>m_vault := x21\<rparr>) = net_of m"
  "net_of (m\<lparr>m_storage := x22\<rparr>) = net_of m"
  "net_of (m\<lparr>m_oids := x23\<rparr>) = net_of m"
  "net_of (m\<lparr>m_draws := x24\<rparr>) = net_of m"
  "net_of (m\<lparr>m_log := x25\<rparr>) = net_of m"
  "net_of (m\<lparr>m_open := x26\<rparr>) = net_of m"
  "net_of (m\<lparr>m_flows := x27\<rparr>) = net_of m"
  by (simp_all add: net_of_def)

lemma flows_upd [simp]:
  "flows_of (m\<lparr>m_creds := x0\<rparr>) = flows_of m"
  "flows_of (m\<lparr>m_attempts := x1\<rparr>) = flows_of m"
  "flows_of (m\<lparr>m_suppress := x2\<rparr>) = flows_of m"
  "flows_of (m\<lparr>m_pacers := x3\<rparr>) = flows_of m"
  "flows_of (m\<lparr>m_engine := x4\<rparr>) = flows_of m"
  "flows_of (m\<lparr>m_jobs := x5\<rparr>) = flows_of m"
  "flows_of (m\<lparr>m_pushes := x6\<rparr>) = flows_of m"
  "flows_of (m\<lparr>m_pendingHistory := x7\<rparr>) = flows_of m"
  "flows_of (m\<lparr>m_sessions := x8\<rparr>) = flows_of m"
  "flows_of (m\<lparr>m_peerDigests := x9\<rparr>) = flows_of m"
  "flows_of (m\<lparr>m_peerFp := x10\<rparr>) = flows_of m"
  "flows_of (m\<lparr>m_digestTimers := x11\<rparr>) = flows_of m"
  "flows_of (m\<lparr>m_expected := x12\<rparr>) = flows_of m"
  "flows_of (m\<lparr>m_active := x13\<rparr>) = flows_of m"
  "flows_of (m\<lparr>m_messages := x14\<rparr>) = flows_of m"
  "flows_of (m\<lparr>m_runtimes := x15\<rparr>) = flows_of m"
  "flows_of (m\<lparr>m_transfers := x16\<rparr>) = flows_of m"
  "flows_of (m\<lparr>m_mismatch := x17\<rparr>) = flows_of m"
  "flows_of (m\<lparr>m_prompts := x18\<rparr>) = flows_of m"
  "flows_of (m\<lparr>m_status := x19\<rparr>) = flows_of m"
  "flows_of (m\<lparr>m_db := x20\<rparr>) = flows_of m"
  "flows_of (m\<lparr>m_vault := x21\<rparr>) = flows_of m"
  "flows_of (m\<lparr>m_storage := x22\<rparr>) = flows_of m"
  "flows_of (m\<lparr>m_oids := x23\<rparr>) = flows_of m"
  "flows_of (m\<lparr>m_draws := x24\<rparr>) = flows_of m"
  "flows_of (m\<lparr>m_log := x25\<rparr>) = flows_of m"
  "flows_of (m\<lparr>m_rooms := x26\<rparr>) = flows_of m"
  "flows_of (m\<lparr>m_clients := x27\<rparr>) = flows_of m"
  "flows_of (m\<lparr>m_timers := x28\<rparr>) = flows_of m"
  "flows_of (m\<lparr>m_heartbeats := x29\<rparr>) = flows_of m"
  "flows_of (m\<lparr>m_pings := x30\<rparr>) = flows_of m"
  "flows_of (m\<lparr>m_locked := x31\<rparr>) = flows_of m"
  by (simp_all add: flows_of_def)

section \<open>Basic operations\<close>

lemma map_update_same:
  "map_of xs b = Some r \<Longrightarrow> h r' = h r \<Longrightarrow> map (\<lambda>(k, v). (k, h v)) (AList.update b r' xs) = map (\<lambda>(k, v). (k, h v)) xs"
  by (induction xs) auto

lemma upd_room_net: "(\<And>r. ir_client (f r) = ir_client r) \<Longrightarrow> net_of (upd_room b f m) = net_of m"
  by (simp add: upd_room_def the_room_def net_of_def map_update_same [where h = ir_client] split: option.split)

lemma upd_room_flows [simp]: "flows_of (upd_room b f m) = flows_of m"
  by (simp add: upd_room_def split: option.split)

lemma on_client_frame [simp]: "net_of (on_client k h m) = net_of m" "flows_of (on_client k h m) = flows_of m"
  by (simp_all add: on_client_def) (simp add: net_of_def)

lemmas basic_defs = upd_runtime_def syncRuntimes_def log_effect_def on_db_def syncMessages_def
      appendMessage_def setTransfers_def setResyncStatus_def setHistoryMismatch_def schedulePublishDigest_def
      setActive_def draw_bytes_def draw_uuid_def sendPaced_def paced_turn_def transmit_def Let_def

lemma basic_frame [simp]:
  "net_of (upd_runtime b g m) = net_of m" "net_of (syncRuntimes m) = net_of m"
  "net_of (log_effect x m) = net_of m" "net_of (on_db d m) = net_of m" "net_of (syncMessages b ms m) = net_of m"
  "net_of (snd (appendMessage b s m)) = net_of m" "net_of (setTransfers b ts m) = net_of m"
  "net_of (setResyncStatus b st m) = net_of m" "net_of (setHistoryMismatch b mis m) = net_of m"
  "net_of (schedulePublishDigest b m) = net_of m" 
  "net_of (snd (draw_bytes p m)) = net_of m" "net_of (snd (draw_uuid p m)) = net_of m"
  "flows_of (upd_runtime b g m) = flows_of m" "flows_of (syncRuntimes m) = flows_of m"
  "flows_of (log_effect x m) = flows_of m" "flows_of (on_db d m) = flows_of m" "flows_of (syncMessages b ms m) = flows_of m"
  "flows_of (snd (appendMessage b s m)) = flows_of m" "flows_of (setTransfers b ts m) = flows_of m"
  "flows_of (setResyncStatus b st m) = flows_of m" "flows_of (setHistoryMismatch b mis m) = flows_of m"
  "flows_of (schedulePublishDigest b m) = flows_of m" 
  "flows_of (snd (draw_bytes p m)) = flows_of m" "flows_of (snd (draw_uuid p m)) = flows_of m"
  by (simp_all add: basic_defs upd_room_net)

lemma send_frame [simp]:
  "net_of (setActive ab m) = net_of m" "net_of (sendPaced p b msg w m) = net_of m"
  "net_of (paced_turn now j m) = net_of m" "net_of (snd (transmit p r msg m)) = net_of m"
  "flows_of (setActive ab m) = flows_of m" "flows_of (sendPaced p b msg w m) = flows_of m"
  "flows_of (paced_turn now j m) = flows_of m" "flows_of (snd (transmit p r msg m)) = flows_of m"
  by (simp_all add: setActive_def draw_bytes_def sendPaced_def paced_turn_def transmit_def Let_def
      split: option.split sum.split prod.split turn.split)

lemma fold_frame: "(\<And>x m. P (f x m) = P m) \<Longrightarrow> P (fold f xs m) = P m"
  by (induction xs arbitrary: m) simp_all

lemma absorb_frame: "net_of (absorb_effect p x m) = net_of m" "flows_of (absorb_effect p x m) = flows_of m"
  by (cases x; simp)+

lemma engine_frame [simp]: "net_of (with_engine p f m) = net_of m" "flows_of (with_engine p f m) = flows_of m"
  by (simp_all add: with_engine_def Let_def fold_frame [where P = net_of] fold_frame [where P = flows_of] absorb_frame)

section \<open>Histories\<close>

lemma publishDigest_frame [simp]:
  "net_of (publishDigest p cx b m) = net_of m" "flows_of (publishDigest p cx b m) = flows_of m"
  by (simp_all add: publishDigest_def Let_def case_prod_beta split: option.split sum.split list.split prod.split bool.split placement.split)

lemma digest_timer_fires_frame [simp]:
  "net_of (digest_timer_fires p cx b m) = net_of m" "flows_of (digest_timer_fires p cx b m) = flows_of m"
  by (simp_all add: digest_timer_fires_def Let_def case_prod_beta split: option.split sum.split list.split prod.split bool.split placement.split)

lemma onPeerDigest_frame [simp]:
  "net_of (onPeerDigest p b n h fp m) = net_of m" "flows_of (onPeerDigest p b n h fp m) = flows_of m"
  by (simp_all add: onPeerDigest_def Let_def case_prod_beta split: option.split sum.split list.split prod.split bool.split placement.split)

lemma trustPeerDeviceFp_frame [simp]:
  "net_of (trustPeerDeviceFp b fp m) = net_of m" "flows_of (trustPeerDeviceFp b fp m) = flows_of m"
  by (simp_all add: trustPeerDeviceFp_def Let_def case_prod_beta split: option.split sum.split list.split prod.split bool.split placement.split)

lemma applyDelete_frame [simp]:
  "net_of (applyDelete p b i m) = net_of m" "flows_of (applyDelete p b i m) = flows_of m"
  by (simp_all add: applyDelete_def Let_def case_prod_beta split: option.split sum.split list.split prod.split bool.split placement.split)

lemma sendDelete_frame [simp]:
  "net_of (snd (sendDelete p cx b i m)) = net_of m" "flows_of (snd (sendDelete p cx b i m)) = flows_of m"
  by (simp_all add: sendDelete_def Let_def case_prod_beta split: option.split sum.split list.split prod.split bool.split placement.split)

lemma wipeLocalHistory_frame [simp]:
  "net_of (wipeLocalHistory p b m) = net_of m" "flows_of (wipeLocalHistory p b m) = flows_of m"
  by (simp_all add: wipeLocalHistory_def Let_def case_prod_beta split: option.split sum.split list.split prod.split bool.split placement.split)

lemma wipeBothHistories_frame [simp]:
  "net_of (snd (wipeBothHistories p cx b m)) = net_of m" "flows_of (snd (wipeBothHistories p cx b m)) = flows_of m"
  by (simp_all add: wipeBothHistories_def Let_def case_prod_beta split: option.split sum.split list.split prod.split bool.split placement.split)

lemma applyWipeHistory_frame [simp]:
  "net_of (applyWipeHistory p b m) = net_of m" "flows_of (applyWipeHistory p b m) = flows_of m"
  by (simp_all add: applyWipeHistory_def Let_def case_prod_beta split: option.split sum.split list.split prod.split bool.split placement.split)

lemma forget_session_frame [simp]:
  "net_of (forget_session b m) = net_of m" "flows_of (forget_session b m) = flows_of m"
  by (simp_all add: forget_session_def Let_def case_prod_beta split: option.split sum.split list.split prod.split bool.split placement.split)

lemma clearTransfersForBucket_frame [simp]:
  "net_of (clearTransfersForBucket p b m) = net_of m" "flows_of (clearTransfersForBucket p b m) = flows_of m"
  by (simp_all add: clearTransfersForBucket_def Let_def case_prod_beta split: option.split sum.split list.split prod.split bool.split placement.split)

lemma requestResync_frame [simp]:
  "net_of (snd (requestResync p cx b m)) = net_of m" "flows_of (snd (requestResync p cx b m)) = flows_of m"
  by (simp_all add: requestResync_def Let_def case_prod_beta split: option.split sum.split list.split prod.split bool.split placement.split)

lemma respondResync_frame [simp]:
  "net_of (snd (respondResync p cx b acc m)) = net_of m" "flows_of (snd (respondResync p cx b acc m)) = flows_of m"
  by (simp_all add: respondResync_def Let_def case_prod_beta split: option.split sum.split list.split prod.split bool.split placement.split)

lemma onResyncRequest_frame [simp]:
  "net_of (onResyncRequest b rid ts fp m) = net_of m" "flows_of (onResyncRequest b rid ts fp m) = flows_of m"
  by (simp_all add: onResyncRequest_def Let_def case_prod_beta split: option.split sum.split list.split prod.split bool.split placement.split)

lemma onResyncReject_frame [simp]:
  "net_of (onResyncReject b rid reason m) = net_of m" "flows_of (onResyncReject b rid reason m) = flows_of m"
  by (simp_all add: onResyncReject_def Let_def case_prod_beta split: option.split sum.split list.split prod.split bool.split placement.split)

lemma finishResyncIfDone_frame [simp]:
  "net_of (finishResyncIfDone b rid m) = net_of m" "flows_of (finishResyncIfDone b rid m) = flows_of m"
  by (simp_all add: finishResyncIfDone_def Let_def case_prod_beta split: option.split sum.split list.split prod.split bool.split placement.split)

lemma push_failed_frame [simp]:
  "net_of (push_failed b rid d m) = net_of m" "flows_of (push_failed b rid d m) = flows_of m"
  by (simp_all add: push_failed_def Let_def case_prod_beta split: option.split sum.split list.split prod.split bool.split placement.split)

lemma push_next_frame [simp]:
  "net_of (push_next p j m) = net_of m" "flows_of (push_next p j m) = flows_of m"
  by (simp_all add: push_next_def Let_def case_prod_beta split: option.split sum.split list.split prod.split bool.split placement.split)

lemma push_settled_frame [simp]:
  "net_of (push_settled p j ok m) = net_of m" "flows_of (push_settled p j ok m) = flows_of m"
  by (simp_all add: push_settled_def Let_def case_prod_beta split: option.split sum.split list.split prod.split bool.split placement.split)

lemma runDifferentialPush_frame [simp]:
  "net_of (runDifferentialPush p b rid ms ids m) = net_of m" "flows_of (runDifferentialPush p b rid ms ids m) = flows_of m"
  by (simp_all add: runDifferentialPush_def Let_def case_prod_beta split: option.split sum.split list.split prod.split bool.split placement.split)

lemma onResyncAccept_frame [simp]:
  "net_of (onResyncAccept p cx b rid ids m) = net_of m" "flows_of (onResyncAccept p cx b rid ids m) = flows_of m"
  by (simp_all add: onResyncAccept_def Let_def case_prod_beta split: option.split sum.split list.split prod.split bool.split placement.split)

lemma onResyncIds_frame [simp]:
  "net_of (onResyncIds p cx b rid ids m) = net_of m" "flows_of (onResyncIds p cx b rid ids m) = flows_of m"
  by (simp_all add: onResyncIds_def Let_def case_prod_beta split: option.split sum.split list.split prod.split bool.split placement.split)

lemma apply_history_frame [simp]:
  "net_of (apply_history p b rid bs m) = net_of m" "flows_of (apply_history p b rid bs m) = flows_of m"
  by (simp_all add: apply_history_def Let_def case_prod_beta split: option.split sum.split list.split prod.split bool.split placement.split)

lemma handleHistoryChunk_frame [simp]:
  "net_of (handleHistoryChunk p cx b c m) = net_of m" "flows_of (handleHistoryChunk p cx b c m) = flows_of m"
  by (simp_all add: handleHistoryChunk_def Let_def case_prod_beta split: option.split sum.split list.split prod.split bool.split placement.split)

section \<open>Messages and credentials\<close>

lemma start_transfer_frame [simp]:
  "net_of (snd (start_transfer p cx b pl res m)) = net_of m" "flows_of (snd (start_transfer p cx b pl res m)) = flows_of m"
  by (simp_all add: start_transfer_def Let_def case_prod_beta split: option.split sum.split list.split prod.split bool.split placement.split)

lemma startOutgoing_frame [simp]:
  "net_of (snd (startOutgoing p cx b s m)) = net_of m" "flows_of (snd (startOutgoing p cx b s m)) = flows_of m"
  by (simp_all add: startOutgoing_def Let_def case_prod_beta split: option.split sum.split list.split prod.split bool.split placement.split)

lemma sendImage_frame [simp]:
  "net_of (snd (sendImage p cx b pr rep m)) = net_of m" "flows_of (snd (sendImage p cx b pr rep m)) = flows_of m"
  by (simp_all add: sendImage_def Let_def case_prod_beta split: option.split sum.split list.split prod.split bool.split placement.split)

lemma sendFile_frame [simp]:
  "net_of (snd (sendFile p cx b nm mi bs rep m)) = net_of m" "flows_of (snd (sendFile p cx b nm mi bs rep m)) = flows_of m"
  by (simp_all add: sendFile_def Let_def case_prod_beta split: option.split sum.split list.split prod.split bool.split placement.split)

lemma resume_loop_frame [simp]:
  "net_of (snd (resume_loop p cx b ids m)) = net_of m" "flows_of (snd (resume_loop p cx b ids m)) = flows_of m"
  by (induction ids arbitrary: m) (simp_all add: Let_def case_prod_beta split: option.split side.split sum.split)

lemma resumePendingOutgoing_frame [simp]:
  "net_of (resumePendingOutgoing p cx b m) = net_of m" "flows_of (resumePendingOutgoing p cx b m) = flows_of m"
  by (simp_all add: resumePendingOutgoing_def Let_def case_prod_beta split: option.split sum.split list.split prod.split bool.split placement.split)

lemma send_text_frame [simp]:
  "net_of (snd (send_text p cx b body rep m)) = net_of m" "flows_of (snd (send_text p cx b body rep m)) = flows_of m"
  by (simp_all add: send_text_def Let_def case_prod_beta split: option.split sum.split list.split prod.split bool.split placement.split)

lemma notify_unless_seen_frame [simp]:
  "net_of (notify_unless_seen cx b pv m) = net_of m" "flows_of (notify_unless_seen cx b pv m) = flows_of m"
  by (simp_all add: notify_unless_seen_def Let_def case_prod_beta split: option.split sum.split list.split prod.split bool.split placement.split)

lemma deliverIncoming_frame [simp]:
  "net_of (deliverIncoming cx b s m) = net_of m" "flows_of (deliverIncoming cx b s m) = flows_of m"
  by (simp_all add: deliverIncoming_def Let_def case_prod_beta split: option.split sum.split list.split prod.split bool.split placement.split)

lemma receive_content_frame [simp]:
  "net_of (receive_content p cx b i c m) = net_of m" "flows_of (receive_content p cx b i c m) = flows_of m"
  by (simp_all add: receive_content_def Let_def case_prod_beta split: option.split sum.split list.split prod.split bool.split placement.split)

lemma keep_credentials_frame [simp]:
  "net_of (keep_credentials b c m) = net_of m" "flows_of (keep_credentials b c m) = flows_of m"
  by (simp_all add: keep_credentials_def Let_def case_prod_beta split: option.split sum.split list.split prod.split bool.split placement.split)

lemma revealRoomPin_frame [simp]:
  "net_of (snd (revealRoomPin p b pin m)) = net_of m" "flows_of (snd (revealRoomPin p b pin m)) = flows_of m"
  by (simp_all add: revealRoomPin_def upd_room_net Let_def case_prod_beta split: option.split sum.split list.split prod.split bool.split placement.split)

lemma encrypt_creds_frame [simp]:
  "net_of (snd (encrypt_creds p c m)) = net_of m" "flows_of (snd (encrypt_creds p c m)) = flows_of m"
  by (simp_all add: encrypt_creds_def Let_def case_prod_beta split: option.split sum.split list.split prod.split bool.split placement.split)

lemma persist_one_frame [simp]:
  "net_of (persist_one p rec m) = net_of m" "flows_of (persist_one p rec m) = flows_of m"
  by (simp_all add: persist_one_def Let_def case_prod_beta split: option.split sum.split list.split prod.split bool.split placement.split)

lemma persistAllCredentials_frame [simp]:
  "net_of (persistAllCredentials p m) = net_of m" "flows_of (persistAllCredentials p m) = flows_of m"
  by (simp_all add: persistAllCredentials_def fold_frame [where P = net_of] fold_frame [where P = flows_of] split: option.split sum.split list.split prod.split bool.split placement.split)

lemma registerRoom_frame [simp]:
  "net_of (registerRoom p cx opts m) = net_of m" "flows_of (registerRoom p cx opts m) = flows_of m"
  by (simp_all add: registerRoom_def Let_def case_prod_beta split: option.split sum.split list.split prod.split bool.split placement.split)

end
