(* ===== verification/ManagerSystem.thy ===== *)
theory ManagerSystem
  imports Flows
begin

text \<open>
  \<open>ConnectionManagerImpl\<close> as a state machine: what can happen to it, and when.
\<close>

section \<open>Events\<close>

datatype manager_event =
    ClientEvent nat client_event
  | FlowGoesOn nat
  | ReconnectTimer jstr
  | HeartbeatTick jstr
  | PingTimeout jstr
  | DigestTimer jstr
  | PacerTurn nat
  | SendSettles nat
  | EngineTick
  | EngineHashed jstr jstr nat
  | EngineStorage jstr jstr nat bool
  | EngineDelivers jstr stored_message
  | EngineDelivered nat bool
  | CameBack
  | WentOffline
  | UserOpens jstr
  | UserReconnects jstr
  | UserRejoins jstr
  | UserConnects jstr jstr jstr jstr
  | UserRegisters register_opts
  | UserSends jstr jstr "reply_ref option"
  | UserSendsImage jstr "(image_mime \<times> bytes \<times> jsnum option \<times> jsnum option) result" "reply_ref option"
  | UserSendsFile jstr "jstr option" jstr bytes "reply_ref option"
  | UserDeletes jstr jstr
  | UserRetries jstr jstr
  | UserCancels jstr jstr
  | UserRequestsSync jstr
  | UserAnswersSync jstr bool
  | UserWipesOwn jstr
  | UserWipesBoth jstr
  | UserOpensView "jstr option"
  | UserForgets jstr
  | UserReleases jstr
  | SeatReleased jstr
  | UserRevealsPin jstr jstr
  | Lock
  | AllReleased "jstr list"
  | ClearAll
  | Restore
  | RestoreRoom room_record
  | PersistCredentials
  | SetVault vault

definition engine_does :: "platform \<Rightarrow> context_now \<Rightarrow> event \<Rightarrow> manager \<Rightarrow> manager" where
  "engine_does p cx ev m = with_engine p (engine_step (sha256Base64Url (pf_sha p)) (engine_env cx m, ev)) m"

text \<open>
  A call of \<open>sendPaced\<close> settles: the socket's buffer has drained, or the call has failed. Its caller goes on with
  whether the client it has sent on is connected.
\<close>

definition send_settles :: "platform \<Rightarrow> context_now \<Rightarrow> nat \<Rightarrow> manager \<Rightarrow> manager" where
  "send_settles p cx j m =
     (let job = m_jobs m ! j;
          ok = (case sj_client job of None \<Rightarrow> False | Some k \<Rightarrow> connected (snd (m_clients m ! k)));
          m1 = m\<lparr>m_jobs := take j (m_jobs m) @ drop (Suc j) (m_jobs m)\<rparr>
      in case sj_then job of
           NoWaiter \<Rightarrow> m1
         | TransferWaiter xid oid \<Rightarrow> engine_does p cx (EvSendSettled (sj_bucket job) xid oid ok) m1
         | PushWaiter i \<Rightarrow> push_settled p i ok m1)"

fun manager_step :: "platform \<Rightarrow> context_now \<times> manager_event \<Rightarrow> manager \<Rightarrow> manager" where
  "manager_step p (cx, ClientEvent k ev) m = client_happens p cx k ev m"
| "manager_step p (cx, FlowGoesOn n) m = flow_step p cx n m"
| "manager_step p (cx, ReconnectTimer b) m = reconnect_timer_fires b m"
| "manager_step p (cx, HeartbeatTick b) m = heartbeat_tick cx b m"
| "manager_step p (cx, PingTimeout b) m = heartbeat_timeout b m"
| "manager_step p (cx, DigestTimer b) m = digest_timer_fires p cx b m"
| "manager_step p (cx, PacerTurn j) m = paced_turn (cx_now cx) j m"
| "manager_step p (cx, SendSettles j) m = send_settles p cx j m"
| "manager_step p (cx, EngineTick) m = engine_does p cx EvTick m"
| "manager_step p (cx, EngineHashed b xid oid) m = engine_does p cx (EvHashed b xid oid) m"
| "manager_step p (cx, EngineStorage b xid oid ok) m = engine_does p cx (EvStorage b xid oid ok) m"
| "manager_step p (cx, EngineDelivers b s) m = deliverIncoming cx b s m"
| "manager_step p (cx, EngineDelivered oid ok) m = engine_does p cx (EvDeliverSettled oid ok) m"
| "manager_step p (cx, CameBack) m = ensureAllConnected m"
| "manager_step p (cx, WentOffline) m = went_offline m"
| "manager_step p (cx, UserOpens b) m = openRoom b Nothing m"
| "manager_step p (cx, UserReconnects b) m = reconnectRoom b Nothing m"
| "manager_step p (cx, UserRejoins b) m = rejoinRoom b m"
| "manager_step p (cx, UserConnects b pin h url) m = snd (connectWithPin p cx b pin h url m)"
| "manager_step p (cx, UserRegisters opts) m = registerRoom p cx opts m"
| "manager_step p (cx, UserSends b body reply) m = snd (send_text p cx b body reply m)"
| "manager_step p (cx, UserSendsImage b prepared reply) m = snd (sendImage p cx b prepared reply m)"
| "manager_step p (cx, UserSendsFile b name mime bs reply) m = snd (sendFile p cx b name mime bs reply m)"
| "manager_step p (cx, UserDeletes b i) m = snd (sendDelete p cx b i m)"
| "manager_step p (cx, UserRetries b i) m = retryTransfer p cx b i m"
| "manager_step p (cx, UserCancels b i) m = cancelTransfer p cx b i m"
| "manager_step p (cx, UserRequestsSync b) m = snd (requestResync p cx b m)"
| "manager_step p (cx, UserAnswersSync b accept) m = snd (respondResync p cx b accept m)"
| "manager_step p (cx, UserWipesOwn b) m = wipeLocalHistory p b m"
| "manager_step p (cx, UserWipesBoth b) m = snd (wipeBothHistories p cx b m)"
| "manager_step p (cx, UserOpensView b) m = setActive b m"
| "manager_step p (cx, UserForgets b) m = forgetRoom p b m"
| "manager_step p (cx, UserReleases b) m = release_begin b m"
| "manager_step p (cx, SeatReleased b) m = release_end p b m"
| "manager_step p (cx, UserRevealsPin b pin) m = snd (revealRoomPin p b pin m)"
| "manager_step p (cx, Lock) m = lock m"
| "manager_step p (cx, AllReleased ids) m = release_all_end ids m"
| "manager_step p (cx, ClearAll) m = clear_everything p m"
| "manager_step p (cx, Restore) m = restore_begin m"
| "manager_step p (cx, RestoreRoom rec) m = restore_one p rec m"
| "manager_step p (cx, PersistCredentials) m = persistAllCredentials p m"
| "manager_step p (cx, SetVault v) m = m\<lparr>m_vault := v\<rparr>"

text \<open>
  What can happen when. A timer that is not set does not fire; a flow, a job and a client must exist; the engine
  delivers only what it has asked to be delivered. The five-second tick of a heartbeat cannot be cancelled, so a
  tick is always possible, and the waits of the two releasing functions may end at any time.
\<close>

fun manager_enabled :: "context_now \<times> manager_event \<Rightarrow> manager \<Rightarrow> bool" where
  "manager_enabled (cx, ClientEvent k ev) m \<longleftrightarrow>
     k < length (m_clients m) \<and> client_enabled ev (snd (m_clients m ! k)) \<and> ev \<notin> {CallConnect, CallClose, CallCloseAndWait} \<and>
     (\<forall>b. ev \<noteq> CallSendBinary b) \<and> (\<forall>c. ev \<noteq> CallSendControl c)"
| "manager_enabled (cx, FlowGoesOn n) m \<longleftrightarrow> flow_enabled n m"
| "manager_enabled (cx, ReconnectTimer b) m \<longleftrightarrow> m_timers m b \<noteq> None"
| "manager_enabled (cx, PingTimeout b) m \<longleftrightarrow> b \<in> m_pings m"
| "manager_enabled (cx, DigestTimer b) m \<longleftrightarrow> b \<in> m_digestTimers m"
| "manager_enabled (cx, PacerTurn j) m \<longleftrightarrow> is_first_job j m \<and> sj_client (m_jobs m ! j) = None"
| "manager_enabled (cx, SendSettles j) m \<longleftrightarrow>
     j < length (m_jobs m) \<and> (sj_buf (m_jobs m ! j) = None \<or> sj_client (m_jobs m ! j) \<noteq> None)"
| "manager_enabled (cx, EngineDelivers b s) m \<longleftrightarrow> DeliverAsked b s \<in> set (e_log (m_engine m))"
| "manager_enabled _ m \<longleftrightarrow> True"

end
