(* ===== verification/ManagerInv.thy ===== *)
theory ManagerInv
  imports ManagerFrames ManagerSystem
begin

text \<open>
  Invariants of the connection manager over everything that can happen to it: the resources its rooms hold, and
  the order of the messages it shows.
\<close>

section \<open>Resources of the rooms\<close>

text \<open>
  At most ten rooms are open; timers, heartbeats and pings belong to open rooms; a locked manager has no timer; a
  room's client exists.
\<close>

definition resources_ok :: "manager \<Rightarrow> bool" where
  "resources_ok m \<longleftrightarrow>
     length (m_rooms m) \<le> MAX_OPEN_ROOMS \<and> distinct (map fst (m_rooms m)) \<and>
     dom (m_timers m) \<subseteq> set (map fst (m_rooms m)) \<and>
     m_heartbeats m \<subseteq> set (map fst (m_rooms m)) \<and> m_pings m \<subseteq> set (map fst (m_rooms m)) \<and>
     (m_locked m \<longrightarrow> m_timers m = Map.empty) \<and>
     (\<forall>(b, r) \<in> set (m_rooms m). \<forall>k. ir_client r = Some k \<longrightarrow> k < length (m_clients m))"

text \<open>The same on the connection part alone, which most operations leave as it is.\<close>

definition net_rooms :: "(jstr \<times> nat option) list \<times> 'b \<Rightarrow> jstr set" where
  "net_rooms net = fst ` set (fst net)"

fun net_locked :: "'a \<times> 'b \<times> 'c \<times> 'd \<times> bool \<times> 'f \<Rightarrow> bool" where
  "net_locked (rooms, timers, beats, pings, locked, n) = locked"

fun net_ok :: "(jstr \<times> nat option) list \<times> (jstr \<rightharpoonup> nat \<times> nat) \<times> jstr set \<times> jstr set \<times> bool \<times> nat \<times> (jstr \<rightharpoonup> nat) \<Rightarrow> bool" where
  "net_ok (rooms, timers, beats, pings, locked, n, attempts) \<longleftrightarrow>
     length rooms \<le> MAX_OPEN_ROOMS \<and> distinct (map fst rooms) \<and> dom timers \<subseteq> fst ` set rooms \<and>
     beats \<subseteq> fst ` set rooms \<and> pings \<subseteq> fst ` set rooms \<and> (locked \<longrightarrow> timers = Map.empty) \<and>
     (\<forall>(b, c) \<in> set rooms. \<forall>k. c = Some k \<longrightarrow> k < n)"

lemma fst_rooms: "fst ` (\<lambda>(b, r). (b, ir_client r)) ` X = fst ` X"
  by force

lemma resources_net: "resources_ok m \<longleftrightarrow> net_ok (net_of m)"
  by (simp add: resources_ok_def net_of_def fst_rooms comp_def case_prod_beta image_image)

lemma net_rooms_room: "b \<in> net_rooms (net_of m) \<longleftrightarrow> the_room b m \<noteq> None"
  by (simp add: net_rooms_def net_of_def fst_rooms the_room_def map_of_eq_None_iff)

lemma net_locked_locked: "net_locked (net_of m) = m_locked m"
  by (simp add: net_of_def)

text \<open>Steps that keep the connection part in order, and what they leave of it.\<close>

lemma room_known: "the_room b m = Some r \<Longrightarrow> b \<in> net_rooms (net_of m)"
  by (simp add: net_rooms_room)

lemma bind_room_known: "Option.bind (the_room b m) f = Some k \<Longrightarrow> b \<in> net_rooms (net_of m)"
  by (cases "the_room b m") (auto simp: net_rooms_room)

lemma timer_set:
  assumes "net_ok (net_of m)" "b \<in> net_rooms (net_of m)" "\<not> net_locked (net_of m)"
  shows "net_ok (net_of (m\<lparr>m_timers := (m_timers m)(b \<mapsto> x)\<rparr>))"
  using assms by (auto simp: net_of_def net_rooms_def)

lemma net_small:
  "net_ok (net_of m) \<Longrightarrow> net_ok (net_of (cancelManagedReconnect b m))"
  "net_ok (net_of m) \<Longrightarrow> net_ok (net_of (cancelAllManagedReconnects m))"
  "net_ok (net_of m) \<Longrightarrow> net_ok (net_of (stopHeartbeat b m))"
  "net_ok (net_of m) \<Longrightarrow> net_ok (net_of (stopAllHeartbeats m))"
  "net_ok (net_of m) \<Longrightarrow> net_ok (net_of (onHeartbeatPong b m))"
  "net_ok (net_of m) \<Longrightarrow> net_ok (net_of (m\<lparr>m_locked := False\<rparr>))"
  "net_ok (net_of m) \<Longrightarrow> net_ok (net_of (m\<lparr>m_timers := (m_timers m)(b := None)\<rparr>))"
  "net_ok (net_of m) \<Longrightarrow> net_ok (net_of (m\<lparr>m_pings := m_pings m - X\<rparr>))"
  "net_ok (net_of m) \<Longrightarrow> net_ok (net_of (m\<lparr>m_attempts := a\<rparr>))"
  "net_ok (net_of m) \<Longrightarrow> b \<in> net_rooms (net_of m) \<Longrightarrow> net_ok (net_of (startHeartbeat b m))"
  "net_ok (net_of m) \<Longrightarrow> b \<in> net_rooms (net_of m) \<Longrightarrow> net_ok (net_of (m\<lparr>m_pings := insert b (m_pings m)\<rparr>))"
  by (auto simp: cancelManagedReconnect_def cancelAllManagedReconnects_def stopHeartbeat_def stopAllHeartbeats_def
      onHeartbeatPong_def startHeartbeat_def Let_def net_of_def net_rooms_def)

lemma net_same [simp]:
  "net_rooms (net_of (cancelManagedReconnect b m)) = net_rooms (net_of m)"
  "net_locked (net_of (cancelManagedReconnect b m)) = net_locked (net_of m)"
  "net_rooms (net_of (stopHeartbeat b m)) = net_rooms (net_of m)"
  "net_rooms (net_of (m\<lparr>m_timers := t\<rparr>)) = net_rooms (net_of m)"
  "net_locked (net_of (m\<lparr>m_timers := t\<rparr>)) = net_locked (net_of m)"
  "net_rooms (net_of (m\<lparr>m_attempts := a\<rparr>)) = net_rooms (net_of m)"
  by (simp_all add: cancelManagedReconnect_def stopHeartbeat_def net_of_def net_rooms_def)

lemma net_reset:
  "net_of (resetReconnectState b m) =
     net_of ((cancelManagedReconnect b m)\<lparr>m_attempts := (m_attempts (cancelManagedReconnect b m))(b := None)\<rparr>)"
  by (simp add: resetReconnectState_def Let_def)

lemma net_stalled: "net_of (markReconnectStalled b m) = net_of m"
  by (simp add: markReconnectStalled_def)

lemma net_start_flow [simp]:
  "net_of (start_flow pc b th m) = net_of m" "net_of (openRoom b th m) = net_of m" "net_of (reconnectRoom b th m) = net_of m"
  by (simp_all add: start_flow_def openRoom_def reconnectRoom_def)

lemma net_schedule: "net_ok (net_of m) \<Longrightarrow> net_ok (net_of (scheduleManagedReconnect b m))"
  by (auto simp: scheduleManagedReconnect_def Let_def net_small net_stalled net_locked_locked cancelManagedReconnect_def [of b m, THEN arg_cong [where f = m_locked]]
      intro!: timer_set dest: room_known split: option.split)

lemma net_disconnect: "net_ok (net_of m) \<Longrightarrow> net_ok (net_of (handleDisconnectForReconnect b m))"
  by (simp add: handleDisconnectForReconnect_def net_schedule split: option.split)

lemma net_timer_fires: "net_ok (net_of m) \<Longrightarrow> net_ok (net_of (reconnect_timer_fires b m))"
  by (simp add: reconnect_timer_fires_def Let_def net_small split: option.split)

lemma net_stale: "net_ok (net_of m) \<Longrightarrow> net_ok (net_of (forceStaleReconnect b m))"
  by (simp add: forceStaleReconnect_def net_small split: option.split)

lemma net_ping: "net_ok (net_of m) \<Longrightarrow> net_ok (net_of (sendHeartbeatPing b m))"
  by (auto simp: sendHeartbeatPing_def Let_def net_stale split: option.split intro!: net_small dest: bind_room_known)

lemma net_ticks:
  "net_ok (net_of m) \<Longrightarrow> net_ok (net_of (heartbeat_tick cx b m))"
  "net_ok (net_of m) \<Longrightarrow> net_ok (net_of (heartbeat_timeout b m))"
  "net_ok (net_of m) \<Longrightarrow> net_ok (net_of (ensure_connected b m))"
  by (simp_all add: heartbeat_tick_def heartbeat_timeout_def ensure_connected_def Let_def net_ping net_stale net_small
      net_reset split: option.split)

lemma fold_keeps: "P m \<Longrightarrow> (\<And>x m. P m \<Longrightarrow> P (f x m)) \<Longrightarrow> P (fold f xs m)"
  by (induction xs arbitrary: m) simp_all

lemma net_ensure_all: "net_ok (net_of m) \<Longrightarrow> net_ok (net_of (ensureAllConnected m))"
  by (simp add: ensureAllConnected_def fold_keeps [where P = "\<lambda>m. net_ok (net_of m)"] net_ticks)

lemma net_offline: "net_of (went_offline m) = net_of m"
  by (simp add: went_offline_def) (simp add: net_of_def comp_def case_prod_beta)

section \<open>Callbacks\<close>

lemma net_upd_room:
  assumes "net_ok (net_of m)" "\<And>r k. ir_client (f r) = Some k \<Longrightarrow> k < length (m_clients m)"
  shows "net_ok (net_of (upd_room b f m))"
proof (cases "the_room b m")
  case None
  then show ?thesis using assms(1) by (simp add: upd_room_def)
next
  case (Some r)
  let ?rooms = "AList.update b (f r) (m_rooms m)"
  have b: "b \<in> fst ` set (m_rooms m)" using Some by (simp add: the_room_def map_of_mem_keys)
  have ok: "resources_ok m" using assms(1) by (simp add: resources_net)
  then have "distinct (map fst (m_rooms m))" by (simp add: resources_ok_def)
  then have "set ?rooms \<subseteq> insert (b, f r) (set (m_rooms m))" by (auto simp: set_update)
  then have "\<forall>(b, r) \<in> set ?rooms. \<forall>k. ir_client r = Some k \<longrightarrow> k < length (m_clients m)"
    using ok assms(2) [of r] unfolding resources_ok_def by blast
  moreover have "map fst ?rooms = map fst (m_rooms m)" using b by (rule map_fst_update_mem)
  moreover from this have "length ?rooms = length (m_rooms m)" by (metis length_map)
  ultimately have "resources_ok (m\<lparr>m_rooms := ?rooms\<rparr>)" using ok unfolding resources_ok_def by simp
  then show ?thesis using Some by (simp add: upd_room_def resources_net)
qed

lemma net_drop_client: "net_ok (net_of m) \<Longrightarrow> net_ok (net_of (upd_room b (\<lambda>r. r\<lparr>ir_client := None\<rparr>) m))"
  by (rule net_upd_room) simp_all

lemma net_onStatus: "net_ok (net_of m) \<Longrightarrow> net_ok (net_of (onStatus p cx k b s detail m))"
  by (auto simp: onStatus_def engine_connected_def Let_def net_small net_reset net_disconnect net_drop_client net_rooms_room)

lemma net_onControl: "net_ok (net_of m) \<Longrightarrow> net_ok (net_of (onControl p cx b msg m))"
  by (auto simp: onControl_def engine_connected_def Let_def net_small split: option.split control_msg.split bool.split)

lemma net_receive: "net_of (receive p cx b plain m) = net_of m"
  by (cases "(p, cx, b, plain, m)" rule: receive.cases) simp_all

lemma net_onBinary: "net_of (onBinary p cx b buf m) = net_of m"
  by (simp add: onBinary_def engine_connected_def Let_def net_receive split: option.split sum.split)

lemma net_dispatch: "net_ok (net_of m) \<Longrightarrow> net_ok (net_of (dispatch_call p cx k b x m))"
  by (cases x) (simp_all add: net_onStatus net_onControl net_onBinary)

lemma net_client: "net_ok (net_of m) \<Longrightarrow> net_ok (net_of (client_happens p cx k ev m))"
  by (simp add: client_happens_def Let_def case_prod_beta fold_keeps [where P = "\<lambda>m. net_ok (net_of m)"] net_dispatch
      split: option.split)

section \<open>Flows\<close>

lemma net_flow_parts [simp]:
  "net_of (set_pc n pc m) = net_of m" "net_of (suppress b m) = net_of m" "net_of (unsuppress b m) = net_of m"
  by (simp_all add: set_pc_def suppress_def unsuppress_def)

lemma net_finish: "net_ok (net_of m) \<Longrightarrow> net_ok (net_of (finish_flow n own res m))"
  by (simp add: finish_flow_def after_done_def Let_def net_schedule split: option.split sum.split after_flow.split)

lemma net_wait: "net_ok (net_of m) \<Longrightarrow> net_ok (net_of (waitForRelay cx n b start m))"
  by (simp add: waitForRelay_def Let_def net_finish split: option.split)

lemma net_upd_same:
  assumes "net_ok (net_of m)" "\<And>r k. ir_client (f r) = Some k \<Longrightarrow> k < length (m_clients m)"
  shows "net_ok (net_of (upd_same b r f m))"
  using assms by (simp add: upd_same_def net_upd_room split: option.split)

lemma net_forget_client: "net_ok (net_of m) \<Longrightarrow> net_ok (net_of (upd_same b r (\<lambda>r. r\<lparr>ir_client := None\<rparr>) m))"
  by (rule net_upd_same) simp_all

lemma net_same_token: "net_of (upd_same b r (\<lambda>r. r\<lparr>ir_legacyToken := t\<rparr>) m) = net_of m"
  by (simp add: upd_same_def upd_room_net split: option.split)

lemma net_token: "net_of (snd (relayTokenForRoom p b r m)) = net_of m"
  by (simp add: relayTokenForRoom_def Let_def case_prod_beta net_same_token split: option.split)

lemma net_add_client:
  "net_ok (net_of m) \<Longrightarrow> net_ok (net_of (m\<lparr>m_clients := m_clients m @ [c]\<rparr>))"
  by (auto simp: net_of_def less_Suc_eq)

lemma net_make: "net_ok (net_of m) \<Longrightarrow> net_ok (net_of (make_client p cx n b r m))"
  unfolding make_client_def Let_def
  by (intro net_wait net_client net_upd_same net_add_client) simp_all

lemma net_relay: "net_ok (net_of m) \<Longrightarrow> net_ok (net_of (connectRelay p cx n b t m))"
  by (simp add: connectRelay_def Let_def net_finish net_make split: option.split)

lemma net_to_relay: "net_ok (net_of m) \<Longrightarrow> net_ok (net_of (to_relay p cx n b r quiet m))"
  by (simp add: to_relay_def Let_def case_prod_beta net_finish net_relay net_token split: option.split)

lemma net_add_room:
  assumes "net_ok (net_of m)" "the_room b m = None" "length (m_rooms m) < MAX_OPEN_ROOMS" "ir_client r = None"
  shows "net_ok (net_of (m\<lparr>m_rooms := AList.update b r (m_rooms m)\<rparr>))"
proof -
  have b: "b \<notin> fst ` set (m_rooms m)" using assms(2) by (simp add: the_room_def map_of_eq_None_iff)
  then have "AList.update b r (m_rooms m) = m_rooms m @ [(b, r)]" by (rule update_absent)
  then show ?thesis using assms b by (auto simp: resources_net [symmetric] resources_ok_def)
qed

lemma net_open_fresh:
  assumes "net_ok (net_of m)" "the_room b m = None"
  shows "net_ok (net_of (open_fresh p cx n b m))"
proof -
  have room: "net_of (m\<lparr>m_messages := u, m_oids := v, m_rooms := R\<rparr>) = net_of (m\<lparr>m_rooms := R\<rparr>)" for u v R
    by (simp add: net_of_def)
  show ?thesis
    using assms
    by (auto simp: open_fresh_def syncMessages_def Let_def room net_finish split: option.split
        intro!: net_to_relay net_add_room)
qed

lemma net_open: "net_ok (net_of m) \<Longrightarrow> net_ok (net_of (doOpenRoom p cx n b m))"
  by (simp add: doOpenRoom_def Let_def net_finish net_to_relay net_open_fresh split: option.split)

lemma net_doReconnect: "net_ok (net_of m) \<Longrightarrow> net_ok (net_of (doReconnectRoom n b m))"
  by (simp add: doReconnectRoom_def Let_def net_small split: option.split)

lemma net_connectRoom: "net_ok (net_of m) \<Longrightarrow> net_ok (net_of (connectRoom p cx n b m))"
  by (simp add: connectRoom_def Let_def net_finish net_to_relay net_small split: option.split)

lemma net_flow: "net_ok (net_of m) \<Longrightarrow> net_ok (net_of (flow_step p cx n m))"
  by (simp add: flow_step_def Let_def after_pause_def net_finish net_open net_doReconnect net_reset net_small net_connectRoom
      net_to_relay net_make net_wait net_forget_client split: flow_pc.split)

section \<open>Closing\<close>

lemma net_remove:
  assumes "net_ok (net_of m)" "b \<notin> dom (m_timers m)" "b \<notin> m_heartbeats m" "b \<notin> m_pings m"
  shows "net_ok (net_of (m\<lparr>m_rooms := AList.delete b (m_rooms m)\<rparr>))"
proof -
  let ?rooms = "AList.delete b (m_rooms m)"
  have ok: "resources_ok m" using assms(1) by (simp add: resources_net)
  have "set (map fst ?rooms) = set (map fst (m_rooms m)) - {b}" by (auto simp: set_delete)
  moreover have "length ?rooms \<le> length (m_rooms m)" by (rule Prelude.length_delete_le)
  moreover have "distinct (map fst ?rooms)" using ok by (simp add: resources_ok_def distinct_delete)
  moreover have "set ?rooms \<subseteq> set (m_rooms m)" by (auto simp: set_delete)
  then have "\<forall>(b, r) \<in> set ?rooms. \<forall>k. ir_client r = Some k \<longrightarrow> k < length (m_clients m)"
    using ok unfolding resources_ok_def by blast
  ultimately have "resources_ok (m\<lparr>m_rooms := ?rooms\<rparr>)"
    using ok assms(2-4) unfolding resources_ok_def by (auto simp del: set_map)
  then show ?thesis by (simp add: resources_net)
qed

lemma net_close: "net_ok (net_of m) \<Longrightarrow> net_ok (net_of (closeRoomConnection b m))"
proof -
  assume ok: "net_ok (net_of m)"
  let ?m1 = "stopHeartbeat b (cancelManagedReconnect b m)"
  have quiet: "b \<notin> dom (m_timers ?m1)" "b \<notin> m_heartbeats ?m1" "b \<notin> m_pings ?m1"
    by (auto simp: stopHeartbeat_def cancelManagedReconnect_def)
  have same: "m_timers (on_client k h x) = m_timers x" "m_heartbeats (on_client k h x) = m_heartbeats x"
    "m_pings (on_client k h x) = m_pings x" for k h x
    by (simp_all add: on_client_def)
  have "net_ok (net_of ?m1)" using ok by (simp add: net_small)
  with quiet show ?thesis
    by (auto simp: closeRoomConnection_def Let_def same ok intro!: net_remove split: option.split)
qed

lemma net_closeRoom: "net_ok (net_of m) \<Longrightarrow> net_ok (net_of (closeRoom p b m))"
  by (simp add: closeRoom_def Let_def net_close)

lemma net_closing:
  "net_ok (net_of m) \<Longrightarrow> net_ok (net_of (forgetRoom p b m))"
  "net_ok (net_of m) \<Longrightarrow> net_ok (net_of (snd (connectWithPin p cx b pin h url m)))"
  "net_ok (net_of m) \<Longrightarrow> net_ok (net_of (release_begin b m))"
  "net_ok (net_of m) \<Longrightarrow> net_ok (net_of (release_end p b m))"
  "net_ok (net_of m) \<Longrightarrow> net_ok (net_of (rejoinRoom b m))"
  "net_ok (net_of m) \<Longrightarrow> net_ok (net_of (release_all_end ids m))"
  "net_ok (net_of m) \<Longrightarrow> net_ok (net_of (restore_one p rec m))"
  by (simp_all add: forgetRoom_def connectWithPin_def release_begin_def release_end_def rejoinRoom_def release_all_end_def
      restore_one_def Let_def net_closeRoom net_close net_small fold_keeps [where P = "\<lambda>m. net_ok (net_of m)"]
      split: option.split)

lemma net_release_begin: "net_ok (net_of m) \<Longrightarrow> net_ok (net_of (release_all_begin m))"
  by (simp add: release_all_begin_def Let_def net_small fold_keeps [where P = "\<lambda>m. net_ok (net_of m)"]
      split: option.split)

lemma net_lock: "net_ok (net_of m) \<Longrightarrow> net_ok (net_of (lock m))"
proof -
  assume "net_ok (net_of m)"
  then have "net_ok (net_of (stopAllHeartbeats (cancelAllManagedReconnects (m\<lparr>m_locked := True\<rparr>))))"
    by (auto simp: stopAllHeartbeats_def cancelAllManagedReconnects_def net_of_def)
  then show ?thesis unfolding lock_def by (rule net_release_begin)
qed

lemma net_clear: "net_ok (net_of m) \<Longrightarrow> net_ok (net_of (clear_everything p m))"
  by (simp add: clear_everything_def Let_def net_small net_closeRoom fold_keeps [where P = "\<lambda>m. net_ok (net_of m)"])

section \<open>Every event\<close>

lemma net_send_settles: "net_of (send_settles p cx j m) = net_of m"
  by (simp add: send_settles_def engine_does_def Let_def split: option.split waiter.split)

lemma net_step: "net_ok (net_of m) \<Longrightarrow> net_ok (net_of (manager_step p e m))"
  by (cases "(p, e, m)" rule: manager_step.cases)
    (simp_all add: net_client net_flow net_timer_fires net_ticks net_send_settles engine_does_def net_ensure_all net_offline
      retryTransfer_def cancelTransfer_def net_closing net_lock net_clear restore_begin_def net_small)

interpretation manager: event_system "manager_step p" manager_enabled resources_ok
  by unfold_locales (simp add: resources_net net_step)

lemma new_manager_ok: "resources_ok (new_manager d v st)"
  by (simp add: resources_ok_def new_manager_def)


text \<open>A concrete platform and a concrete room.\<close>

definition toy_platform :: platform where
  "toy_platform =
     \<lparr>pf_nfc = (\<lambda>s. s), pf_sha = (\<lambda>b. b), pf_gzip = (\<lambda>b. b), pf_gunzip = Some, pf_seal = toy_sealer,
      pf_unseal = toy_unsealer, pf_hkdf = (\<lambda>k s i. k), pf_pbkdf2 = (\<lambda>p s. p @ s),
      pf_bytes = (\<lambda>n. replicate 12 (of_nat n)), pf_uuid = (\<lambda>n. js ''id'')\<rparr>"

definition toy_context :: context_now where "toy_context = \<lparr>cx_now = 0, cx_hidden = False\<rparr>"

definition toy_hash :: jstr where "toy_hash = buildRoomHash (replicate 32 7) [1] [2] (Some 0)"

definition toy_opts :: register_opts where
  "toy_opts = \<lparr>ro_bucketId = js ''room'', ro_roomHash = toy_hash, ro_relayUrl = js ''wss://r'', ro_nickname = None,
     ro_roomPin = Some (js ''123456''), ro_legacy = None, ro_legacyToken = None, ro_isCreator = None\<rparr>"

definition toy_opening :: "(context_now \<times> manager_event) list" where
  "toy_opening = map (Pair toy_context) [UserRegisters toy_opts, UserOpens (js ''room''), FlowGoesOn 0]"

lemma toy_parsed: "parseRoomFragment toy_hash =
    Some \<lparr>fr_keyRaw = replicate 32 7, fr_pv = [1], fr_salt = [2], fr_seat = Some 0, fr_legacy = False\<rparr>"
  unfolding toy_hash_def by (rule built_clean(2)) (simp_all add: seat_ok_def)

lemmas opening_defs = toy_opening_def new_manager_def flow_enabled_def registerRoom_def openRoom_def start_flow_def
  Let_def toy_opts_def toy_parsed keep_credentials_def encrypt_creds_def isVaultUnlocked_def new_vault_def
  resolveExistingCredentials_def cached_credentials_def getSessionCredentials_def stashSessionCredentials_def
  getRoom_def empty_db_def on_db_def log_effect_def upsertRoom_def flow_step_def seat_released_def is_connected_def
  the_room_def doOpenRoom_def open_fresh_def getRoomCredentials_def MAX_OPEN_ROOMS_def aes_key_def truthy_def
  listMessages_def syncMessages_def syncRuntimes_def resumePendingOutgoing_def getPendingOutgoing_def
  getMetaEntry_def to_relay_def relayTokenForRoom_def live_room_def connectRelay_def finish_flow_def after_done_def
  set_pc_def getDeviceSessionId_def or_else_def toy_context_def deriveRelayToken_def unsuppress_def

lemma toy_opened:
  "run_ok manager_enabled (manager_step toy_platform) toy_opening (new_manager empty_db new_vault (Some []))"
  "map fst (m_rooms (run (manager_step toy_platform) toy_opening (new_manager empty_db new_vault (Some [])))) = [js ''room'']"
  by (simp_all add: opening_defs)


end
