(* ===== verification/FlowFrames.thy ===== *)
theory FlowFrames
  imports ManagerInv
begin

text \<open>
  The connect flows and the rest of the manager: which operations leave the registered promises and the flows as
  they are, and what the others add.
\<close>

section \<open>Operations that leave the flows alone\<close>

lemma cancelManagedReconnect_flows [simp]: "flows_of (cancelManagedReconnect b m) = flows_of m"
  by (simp add: cancelManagedReconnect_def Let_def case_prod_beta split: option.split sum.split list.split prod.split bool.split after_flow.split)

lemma cancelAllManagedReconnects_flows [simp]: "flows_of (cancelAllManagedReconnects m) = flows_of m"
  by (simp add: cancelAllManagedReconnects_def Let_def case_prod_beta split: option.split sum.split list.split prod.split bool.split after_flow.split)

lemma resetReconnectState_flows [simp]: "flows_of (resetReconnectState b m) = flows_of m"
  by (simp add: resetReconnectState_def Let_def case_prod_beta split: option.split sum.split list.split prod.split bool.split after_flow.split)

lemma markReconnectStalled_flows [simp]: "flows_of (markReconnectStalled b m) = flows_of m"
  by (simp add: markReconnectStalled_def Let_def case_prod_beta split: option.split sum.split list.split prod.split bool.split after_flow.split)

lemma scheduleManagedReconnect_flows [simp]: "flows_of (scheduleManagedReconnect b m) = flows_of m"
  by (simp add: scheduleManagedReconnect_def Let_def case_prod_beta split: option.split sum.split list.split prod.split bool.split after_flow.split)

lemma handleDisconnectForReconnect_flows [simp]: "flows_of (handleDisconnectForReconnect b m) = flows_of m"
  by (simp add: handleDisconnectForReconnect_def Let_def case_prod_beta split: option.split sum.split list.split prod.split bool.split after_flow.split)

lemma stopHeartbeat_flows [simp]: "flows_of (stopHeartbeat b m) = flows_of m"
  by (simp add: stopHeartbeat_def Let_def case_prod_beta split: option.split sum.split list.split prod.split bool.split after_flow.split)

lemma stopAllHeartbeats_flows [simp]: "flows_of (stopAllHeartbeats m) = flows_of m"
  by (simp add: stopAllHeartbeats_def Let_def case_prod_beta split: option.split sum.split list.split prod.split bool.split after_flow.split)

lemma startHeartbeat_flows [simp]: "flows_of (startHeartbeat b m) = flows_of m"
  by (simp add: startHeartbeat_def Let_def case_prod_beta split: option.split sum.split list.split prod.split bool.split after_flow.split)

lemma onHeartbeatPong_flows [simp]: "flows_of (onHeartbeatPong b m) = flows_of m"
  by (simp add: onHeartbeatPong_def Let_def case_prod_beta split: option.split sum.split list.split prod.split bool.split after_flow.split)

lemma went_offline_flows [simp]: "flows_of (went_offline m) = flows_of m"
  by (simp add: went_offline_def Let_def case_prod_beta split: option.split sum.split list.split prod.split bool.split after_flow.split)

lemma engine_connected_flows [simp]: "flows_of (engine_connected p cx b m) = flows_of m"
  by (simp add: engine_connected_def Let_def case_prod_beta split: option.split sum.split list.split prod.split bool.split after_flow.split)

lemma onStatus_flows [simp]: "flows_of (onStatus p cx k b s d m) = flows_of m"
  by (simp add: onStatus_def Let_def case_prod_beta split: option.split sum.split list.split prod.split bool.split after_flow.split)

lemma onControl_flows [simp]: "flows_of (onControl p cx b msg m) = flows_of m"
  by (cases msg) (simp add: onControl_def Let_def split: option.split bool.split)

lemma receive_flows [simp]: "flows_of (receive p cx b plain m) = flows_of m"
  by (cases "(p, cx, b, plain, m)" rule: receive.cases) simp_all

lemma onBinary_flows [simp]: "flows_of (onBinary p cx b buf m) = flows_of m"
  by (simp add: onBinary_def Let_def case_prod_beta split: option.split sum.split list.split prod.split bool.split after_flow.split)

lemma dispatch_flows [simp]: "flows_of (dispatch_call p cx k b x m) = flows_of m"
  by (cases x) simp_all

lemma client_flows [simp]: "flows_of (client_happens p cx k ev m) = flows_of m"
  by (simp add: client_happens_def Let_def case_prod_beta fold_frame [where P = flows_of] split: option.split)

lemma after_done_flows [simp]: "flows_of (after_done th b res m) = flows_of m"
  by (simp add: after_done_def Let_def case_prod_beta split: option.split sum.split list.split prod.split bool.split after_flow.split)

lemma suppress_flows [simp]: "flows_of (suppress b m) = flows_of m"
  by (simp add: suppress_def Let_def case_prod_beta split: option.split sum.split list.split prod.split bool.split after_flow.split)

lemma unsuppress_flows [simp]: "flows_of (unsuppress b m) = flows_of m"
  by (simp add: unsuppress_def Let_def case_prod_beta split: option.split sum.split list.split prod.split bool.split after_flow.split)

lemma upd_same_flows [simp]: "flows_of (upd_same b r f m) = flows_of m"
  by (simp add: upd_same_def Let_def case_prod_beta split: option.split sum.split list.split prod.split bool.split after_flow.split)

lemma relayTokenForRoom_flows [simp]: "flows_of (snd (relayTokenForRoom p b r m)) = flows_of m"
  by (simp add: relayTokenForRoom_def Let_def case_prod_beta split: option.split sum.split list.split prod.split bool.split after_flow.split)

lemma closeRoomConnection_flows [simp]: "flows_of (closeRoomConnection b m) = flows_of m"
  by (simp add: closeRoomConnection_def Let_def case_prod_beta split: option.split sum.split list.split prod.split bool.split after_flow.split)

lemma closeRoom_flows [simp]: "flows_of (closeRoom p b m) = flows_of m"
  by (simp add: closeRoom_def Let_def case_prod_beta split: option.split sum.split list.split prod.split bool.split after_flow.split)

lemma forgetRoom_flows [simp]: "flows_of (forgetRoom p b m) = flows_of m"
  by (simp add: forgetRoom_def Let_def case_prod_beta split: option.split sum.split list.split prod.split bool.split after_flow.split)

lemma release_begin_flows [simp]: "flows_of (release_begin b m) = flows_of m"
  by (simp add: release_begin_def Let_def case_prod_beta split: option.split sum.split list.split prod.split bool.split after_flow.split)

lemma release_end_flows [simp]: "flows_of (release_end p b m) = flows_of m"
  by (simp add: release_end_def Let_def case_prod_beta split: option.split sum.split list.split prod.split bool.split after_flow.split)

lemma closing_flows [simp]:
  "flows_of (release_all_begin m) = flows_of m" "flows_of (release_all_end ids m) = flows_of m"
  "flows_of (lock m) = flows_of m" "flows_of (restore_begin m) = flows_of m"
  "flows_of (clear_everything p m) = flows_of m"
  by (simp_all add: release_all_begin_def release_all_end_def lock_def restore_begin_def clear_everything_def Let_def
      fold_frame [where P = flows_of] split: option.split)

lemma settles_flows [simp]:
  "flows_of (engine_does p cx ev m) = flows_of m" "flows_of (send_settles p cx j m) = flows_of m"
  by (simp_all add: engine_does_def send_settles_def Let_def split: option.split waiter.split)

section \<open>Operations that start, move and end flows\<close>

lemma flows_set_pc:
  "flows_of (set_pc n pc m) = (m_open m, (m_flows m)[n := (m_flows m ! n)\<lparr>fl_pc := pc\<rparr>])"
  by (simp add: set_pc_def flows_of_def)

lemma flows_start:
  "flows_of (start_flow pc b th m) =
     (m_open m, m_flows m @
        [\<lparr>fl_bucket = b, fl_pc = (case m_open m b of Some n \<Rightarrow> JoinFlow n False | None \<Rightarrow> pc), fl_then = th\<rparr>])"
  by (simp add: start_flow_def flows_of_def)

lemma flows_finish:
  "flows_of (finish_flow n own res m) =
     (if own then (m_open m)(fl_bucket (m_flows m ! n) := None) else m_open m,
      (m_flows m)[n := (m_flows m ! n)\<lparr>fl_pc := FlowDone res\<rparr>])"
  by (simp add: finish_flow_def Let_def flows_set_pc) (simp add: flows_of_def set_pc_def)

end
