(* ===== verification/ManagerViews.thy ===== *)
theory ManagerViews
  imports FlowFrames
begin

text \<open>
  What the connection manager shows is what the database holds: the list of messages a page sees of an open room
  has exactly the stored ids, each once and in order, whatever happens in whatever order.
\<close>

section \<open>What is shown, and what leaves it alone\<close>

text \<open>
  The rooms that are open, the lists that are shown and the stored rows; and the buckets the clients are wired to.
\<close>

definition shown_of :: "manager \<Rightarrow>
    jstr set \<times> (jstr \<rightharpoonup> stored_message list) \<times> (jstr, jstr \<times> stored_message) jsmap" where
  "shown_of m = (fst ` set (m_rooms m), m_messages m, db_messages (m_db m))"

definition wired_of :: "manager \<Rightarrow> jstr option list" where
  "wired_of m = map fst (m_clients m)"

lemma shown_upd [simp]:
  "shown_of (m\<lparr>m_creds := x0\<rparr>) = shown_of m"
  "shown_of (m\<lparr>m_timers := x1\<rparr>) = shown_of m"
  "shown_of (m\<lparr>m_attempts := x2\<rparr>) = shown_of m"
  "shown_of (m\<lparr>m_heartbeats := x3\<rparr>) = shown_of m"
  "shown_of (m\<lparr>m_pings := x4\<rparr>) = shown_of m"
  "shown_of (m\<lparr>m_suppress := x5\<rparr>) = shown_of m"
  "shown_of (m\<lparr>m_locked := x6\<rparr>) = shown_of m"
  "shown_of (m\<lparr>m_pacers := x7\<rparr>) = shown_of m"
  "shown_of (m\<lparr>m_engine := x8\<rparr>) = shown_of m"
  "shown_of (m\<lparr>m_jobs := x9\<rparr>) = shown_of m"
  "shown_of (m\<lparr>m_pushes := x10\<rparr>) = shown_of m"
  "shown_of (m\<lparr>m_pendingHistory := x11\<rparr>) = shown_of m"
  "shown_of (m\<lparr>m_sessions := x12\<rparr>) = shown_of m"
  "shown_of (m\<lparr>m_peerDigests := x13\<rparr>) = shown_of m"
  "shown_of (m\<lparr>m_peerFp := x14\<rparr>) = shown_of m"
  "shown_of (m\<lparr>m_digestTimers := x15\<rparr>) = shown_of m"
  "shown_of (m\<lparr>m_expected := x16\<rparr>) = shown_of m"
  "shown_of (m\<lparr>m_active := x17\<rparr>) = shown_of m"
  "shown_of (m\<lparr>m_runtimes := x18\<rparr>) = shown_of m"
  "shown_of (m\<lparr>m_transfers := x19\<rparr>) = shown_of m"
  "shown_of (m\<lparr>m_mismatch := x20\<rparr>) = shown_of m"
  "shown_of (m\<lparr>m_prompts := x21\<rparr>) = shown_of m"
  "shown_of (m\<lparr>m_status := x22\<rparr>) = shown_of m"
  "shown_of (m\<lparr>m_vault := x23\<rparr>) = shown_of m"
  "shown_of (m\<lparr>m_storage := x24\<rparr>) = shown_of m"
  "shown_of (m\<lparr>m_oids := x25\<rparr>) = shown_of m"
  "shown_of (m\<lparr>m_draws := x26\<rparr>) = shown_of m"
  "shown_of (m\<lparr>m_log := x27\<rparr>) = shown_of m"
  "shown_of (m\<lparr>m_open := x28\<rparr>) = shown_of m"
  "shown_of (m\<lparr>m_flows := x29\<rparr>) = shown_of m"
  by (simp_all add: shown_of_def)

lemma wired_upd [simp]:
  "wired_of (m\<lparr>m_creds := x0\<rparr>) = wired_of m"
  "wired_of (m\<lparr>m_timers := x1\<rparr>) = wired_of m"
  "wired_of (m\<lparr>m_attempts := x2\<rparr>) = wired_of m"
  "wired_of (m\<lparr>m_heartbeats := x3\<rparr>) = wired_of m"
  "wired_of (m\<lparr>m_pings := x4\<rparr>) = wired_of m"
  "wired_of (m\<lparr>m_suppress := x5\<rparr>) = wired_of m"
  "wired_of (m\<lparr>m_locked := x6\<rparr>) = wired_of m"
  "wired_of (m\<lparr>m_pacers := x7\<rparr>) = wired_of m"
  "wired_of (m\<lparr>m_engine := x8\<rparr>) = wired_of m"
  "wired_of (m\<lparr>m_jobs := x9\<rparr>) = wired_of m"
  "wired_of (m\<lparr>m_pushes := x10\<rparr>) = wired_of m"
  "wired_of (m\<lparr>m_pendingHistory := x11\<rparr>) = wired_of m"
  "wired_of (m\<lparr>m_sessions := x12\<rparr>) = wired_of m"
  "wired_of (m\<lparr>m_peerDigests := x13\<rparr>) = wired_of m"
  "wired_of (m\<lparr>m_peerFp := x14\<rparr>) = wired_of m"
  "wired_of (m\<lparr>m_digestTimers := x15\<rparr>) = wired_of m"
  "wired_of (m\<lparr>m_expected := x16\<rparr>) = wired_of m"
  "wired_of (m\<lparr>m_active := x17\<rparr>) = wired_of m"
  "wired_of (m\<lparr>m_runtimes := x18\<rparr>) = wired_of m"
  "wired_of (m\<lparr>m_transfers := x19\<rparr>) = wired_of m"
  "wired_of (m\<lparr>m_mismatch := x20\<rparr>) = wired_of m"
  "wired_of (m\<lparr>m_prompts := x21\<rparr>) = wired_of m"
  "wired_of (m\<lparr>m_status := x22\<rparr>) = wired_of m"
  "wired_of (m\<lparr>m_vault := x23\<rparr>) = wired_of m"
  "wired_of (m\<lparr>m_storage := x24\<rparr>) = wired_of m"
  "wired_of (m\<lparr>m_oids := x25\<rparr>) = wired_of m"
  "wired_of (m\<lparr>m_draws := x26\<rparr>) = wired_of m"
  "wired_of (m\<lparr>m_log := x27\<rparr>) = wired_of m"
  "wired_of (m\<lparr>m_open := x28\<rparr>) = wired_of m"
  "wired_of (m\<lparr>m_flows := x29\<rparr>) = wired_of m"
  "wired_of (m\<lparr>m_rooms := x30\<rparr>) = wired_of m"
  "wired_of (m\<lparr>m_messages := x31\<rparr>) = wired_of m"
  "wired_of (m\<lparr>m_db := x32\<rparr>) = wired_of m"
  by (simp_all add: wired_of_def)

lemma shown_upd_room [simp]: "shown_of (upd_room b f m) = shown_of m" "wired_of (upd_room b f m) = wired_of m"
proof -
  have "fst ` set (AList.update b x (m_rooms m)) = fst ` set (m_rooms m)" if "the_room b m = Some r" for x r
    using map_fst_update_mem [of b "m_rooms m" x] that unfolding set_map [symmetric]
    by (simp add: the_room_def map_of_mem_keys del: set_map) (simp add: map_of_mem_keys)
  then show "shown_of (upd_room b f m) = shown_of m" "wired_of (upd_room b f m) = wired_of m"
    by (simp_all add: upd_room_def shown_of_def split: option.split)
qed

lemma shown_on_client [simp]: "shown_of (on_client k h m) = shown_of m" "wired_of (on_client k h m) = wired_of m"
  by (simp_all add: on_client_def shown_of_def wired_of_def map_update list_update_same_conv)

lemma shown_on_db [simp]:
  "db_messages (f (m_db m)) = db_messages (m_db m) \<Longrightarrow> shown_of (on_db f m) = shown_of m"
  "wired_of (on_db f m) = wired_of m"
  by (simp_all add: on_db_def shown_of_def)

lemma rows_same [simp]:
  "db_messages (upsertRoom r d) = db_messages d" "db_messages (with_room b g d) = db_messages d"
  "db_messages (markRead b d) = db_messages d" "db_messages (removeRoom b d) = db_messages d"
  "db_messages (setMetaEntry k v d) = db_messages d"
  by (simp_all add: upsertRoom_def with_room_def markRead_def removeRoom_def setMetaEntry_def split: option.split)

lemma rows_same_room [simp]:
  "db_messages (markUnread b u d) = db_messages d" "db_messages (touchRoom now b pv d) = db_messages d"
  "db_messages (setSeatReleased b rel d) = db_messages d" "db_messages (setLastPeerDeviceFp b fp d) = db_messages d"
  "db_messages (setPendingOutgoing b ids d) = db_messages d"
  by (simp_all add: markUnread_def touchRoom_def setSeatReleased_def setLastPeerDeviceFp_def setPendingOutgoing_def)

lemma shown_basic [simp]:
  "shown_of (upd_runtime b g m) = shown_of m" "shown_of (syncRuntimes m) = shown_of m"
  "shown_of (log_effect x m) = shown_of m" "shown_of (setTransfers b ts m) = shown_of m"
  "shown_of (setResyncStatus b st m) = shown_of m" "shown_of (setHistoryMismatch b mis m) = shown_of m"
  "shown_of (schedulePublishDigest b m) = shown_of m"
  "shown_of (snd (draw_bytes p m)) = shown_of m" "shown_of (snd (draw_uuid p m)) = shown_of m"
  "wired_of (upd_runtime b g m) = wired_of m" "wired_of (syncRuntimes m) = wired_of m"
  "wired_of (log_effect x m) = wired_of m" "wired_of (setTransfers b ts m) = wired_of m"
  "wired_of (setResyncStatus b st m) = wired_of m" "wired_of (setHistoryMismatch b mis m) = wired_of m"
  "wired_of (schedulePublishDigest b m) = wired_of m"
  "wired_of (snd (draw_bytes p m)) = wired_of m" "wired_of (snd (draw_uuid p m)) = wired_of m"
  "wired_of (syncMessages b ms m) = wired_of m" "wired_of (snd (appendMessage b s m)) = wired_of m"
  by (simp_all add: basic_defs)

lemma shown_sending [simp]:
  "shown_of (setActive ab m) = shown_of m" "shown_of (sendPaced p b msg w m) = shown_of m"
  "shown_of (paced_turn now j m) = shown_of m" "shown_of (snd (transmit p r msg m)) = shown_of m"
  "wired_of (setActive ab m) = wired_of m" "wired_of (sendPaced p b msg w m) = wired_of m"
  "wired_of (paced_turn now j m) = wired_of m" "wired_of (snd (transmit p r msg m)) = wired_of m"
  by (simp_all add: setActive_def draw_bytes_def sendPaced_def paced_turn_def transmit_def Let_def
      split: option.split sum.split prod.split turn.split)

lemma shown_absorb: "shown_of (absorb_effect p x m) = shown_of m" "wired_of (absorb_effect p x m) = wired_of m"
  by (cases x; simp)+

lemma shown_engine [simp]: "shown_of (with_engine p f m) = shown_of m" "wired_of (with_engine p f m) = wired_of m"
  by (simp_all add: with_engine_def Let_def fold_frame [where P = shown_of] fold_frame [where P = wired_of] shown_absorb)

lemma publishDigest_view [simp]:
  "shown_of (publishDigest p cx b m) = shown_of m"
  "wired_of (publishDigest p cx b m) = wired_of m"
  by (simp_all add: publishDigest_def Let_def case_prod_beta split: option.split sum.split list.split prod.split bool.split placement.split)

lemma digest_timer_fires_view [simp]:
  "shown_of (digest_timer_fires p cx b m) = shown_of m"
  "wired_of (digest_timer_fires p cx b m) = wired_of m"
  by (simp_all add: digest_timer_fires_def Let_def case_prod_beta split: option.split sum.split list.split prod.split bool.split placement.split)

lemma onPeerDigest_view [simp]:
  "shown_of (onPeerDigest p b n h fp m) = shown_of m"
  "wired_of (onPeerDigest p b n h fp m) = wired_of m"
  by (simp_all add: onPeerDigest_def Let_def case_prod_beta split: option.split sum.split list.split prod.split bool.split placement.split)

lemma trustPeerDeviceFp_view [simp]:
  "shown_of (trustPeerDeviceFp b fp m) = shown_of m"
  "wired_of (trustPeerDeviceFp b fp m) = wired_of m"
  by (simp_all add: trustPeerDeviceFp_def Let_def case_prod_beta split: option.split sum.split list.split prod.split bool.split placement.split)

lemma forget_session_view [simp]:
  "shown_of (forget_session b m) = shown_of m"
  "wired_of (forget_session b m) = wired_of m"
  by (simp_all add: forget_session_def Let_def case_prod_beta split: option.split sum.split list.split prod.split bool.split placement.split)

lemma clearTransfersForBucket_view [simp]:
  "shown_of (clearTransfersForBucket p b m) = shown_of m"
  "wired_of (clearTransfersForBucket p b m) = wired_of m"
  by (simp_all add: clearTransfersForBucket_def Let_def case_prod_beta split: option.split sum.split list.split prod.split bool.split placement.split)

lemma requestResync_view [simp]:
  "shown_of (snd (requestResync p cx b m)) = shown_of m"
  "wired_of (snd (requestResync p cx b m)) = wired_of m"
  by (simp_all add: requestResync_def Let_def case_prod_beta split: option.split sum.split list.split prod.split bool.split placement.split)

lemma respondResync_view [simp]:
  "shown_of (snd (respondResync p cx b acc m)) = shown_of m"
  "wired_of (snd (respondResync p cx b acc m)) = wired_of m"
  by (simp_all add: respondResync_def Let_def case_prod_beta split: option.split sum.split list.split prod.split bool.split placement.split)

lemma onResyncRequest_view [simp]:
  "shown_of (onResyncRequest b rid ts fp m) = shown_of m"
  "wired_of (onResyncRequest b rid ts fp m) = wired_of m"
  by (simp_all add: onResyncRequest_def Let_def case_prod_beta split: option.split sum.split list.split prod.split bool.split placement.split)

lemma onResyncReject_view [simp]:
  "shown_of (onResyncReject b rid reason m) = shown_of m"
  "wired_of (onResyncReject b rid reason m) = wired_of m"
  by (simp_all add: onResyncReject_def Let_def case_prod_beta split: option.split sum.split list.split prod.split bool.split placement.split)

lemma finishResyncIfDone_view [simp]:
  "shown_of (finishResyncIfDone b rid m) = shown_of m"
  "wired_of (finishResyncIfDone b rid m) = wired_of m"
  by (simp_all add: finishResyncIfDone_def Let_def case_prod_beta split: option.split sum.split list.split prod.split bool.split placement.split)

lemma push_failed_view [simp]:
  "shown_of (push_failed b rid d m) = shown_of m"
  "wired_of (push_failed b rid d m) = wired_of m"
  by (simp_all add: push_failed_def Let_def case_prod_beta split: option.split sum.split list.split prod.split bool.split placement.split)

lemma push_next_view [simp]:
  "shown_of (push_next p j m) = shown_of m"
  "wired_of (push_next p j m) = wired_of m"
  by (simp_all add: push_next_def Let_def case_prod_beta split: option.split sum.split list.split prod.split bool.split placement.split)

lemma push_settled_view [simp]:
  "shown_of (push_settled p j ok m) = shown_of m"
  "wired_of (push_settled p j ok m) = wired_of m"
  by (simp_all add: push_settled_def Let_def case_prod_beta split: option.split sum.split list.split prod.split bool.split placement.split)

lemma runDifferentialPush_view [simp]:
  "shown_of (runDifferentialPush p b rid ms ids m) = shown_of m"
  "wired_of (runDifferentialPush p b rid ms ids m) = wired_of m"
  by (simp_all add: runDifferentialPush_def Let_def case_prod_beta split: option.split sum.split list.split prod.split bool.split placement.split)

lemma onResyncAccept_view [simp]:
  "shown_of (onResyncAccept p cx b rid ids m) = shown_of m"
  "wired_of (onResyncAccept p cx b rid ids m) = wired_of m"
  by (simp_all add: onResyncAccept_def Let_def case_prod_beta split: option.split sum.split list.split prod.split bool.split placement.split)

lemma onResyncIds_view [simp]:
  "shown_of (onResyncIds p cx b rid ids m) = shown_of m"
  "wired_of (onResyncIds p cx b rid ids m) = wired_of m"
  by (simp_all add: onResyncIds_def Let_def case_prod_beta split: option.split sum.split list.split prod.split bool.split placement.split)

lemma start_transfer_view [simp]:
  "shown_of (snd (start_transfer p cx b pl res m)) = shown_of m"
  "wired_of (snd (start_transfer p cx b pl res m)) = wired_of m"
  by (simp_all add: start_transfer_def Let_def case_prod_beta split: option.split sum.split list.split prod.split bool.split placement.split)

lemma resume_loop_view [simp]:
  "shown_of (snd (resume_loop p cx b ids m)) = shown_of m"
  "wired_of (snd (resume_loop p cx b ids m)) = wired_of m"
  by (induction ids arbitrary: m) (simp_all add: Let_def case_prod_beta split: option.split side.split sum.split)

lemma resumePendingOutgoing_view [simp]:
  "shown_of (resumePendingOutgoing p cx b m) = shown_of m"
  "wired_of (resumePendingOutgoing p cx b m) = wired_of m"
  by (simp_all add: resumePendingOutgoing_def Let_def case_prod_beta split: option.split sum.split list.split prod.split bool.split placement.split)

lemma notify_unless_seen_view [simp]:
  "shown_of (notify_unless_seen cx b pv m) = shown_of m"
  "wired_of (notify_unless_seen cx b pv m) = wired_of m"
  by (simp_all add: notify_unless_seen_def Let_def case_prod_beta split: option.split sum.split list.split prod.split bool.split placement.split)

lemma keep_credentials_view [simp]:
  "shown_of (keep_credentials b c m) = shown_of m"
  "wired_of (keep_credentials b c m) = wired_of m"
  by (simp_all add: keep_credentials_def Let_def case_prod_beta split: option.split sum.split list.split prod.split bool.split placement.split)

lemma revealRoomPin_view [simp]:
  "shown_of (snd (revealRoomPin p b pin m)) = shown_of m"
  "wired_of (snd (revealRoomPin p b pin m)) = wired_of m"
  by (simp_all add: revealRoomPin_def Let_def case_prod_beta split: option.split sum.split list.split prod.split bool.split placement.split)

lemma encrypt_creds_view [simp]:
  "shown_of (snd (encrypt_creds p c m)) = shown_of m"
  "wired_of (snd (encrypt_creds p c m)) = wired_of m"
  by (simp_all add: encrypt_creds_def Let_def case_prod_beta split: option.split sum.split list.split prod.split bool.split placement.split)

lemma persist_one_view [simp]:
  "shown_of (persist_one p rec m) = shown_of m"
  "wired_of (persist_one p rec m) = wired_of m"
  by (simp_all add: persist_one_def Let_def case_prod_beta split: option.split sum.split list.split prod.split bool.split placement.split)

lemma registerRoom_view [simp]:
  "shown_of (registerRoom p cx opts m) = shown_of m"
  "wired_of (registerRoom p cx opts m) = wired_of m"
  by (simp_all add: registerRoom_def Let_def case_prod_beta split: option.split sum.split list.split prod.split bool.split placement.split)

lemma persistAll_view [simp]:
  "shown_of (persistAllCredentials p m) = shown_of m" "wired_of (persistAllCredentials p m) = wired_of m"
  by (simp_all add: persistAllCredentials_def fold_frame [where P = shown_of] fold_frame [where P = wired_of])

lemma applyDelete_wired [simp]:
  "wired_of (applyDelete p b i m) = wired_of m"
  by (simp_all add: applyDelete_def Let_def case_prod_beta split: option.split sum.split list.split prod.split bool.split placement.split)

lemma sendDelete_wired [simp]:
  "wired_of (snd (sendDelete p cx b i m)) = wired_of m"
  by (simp_all add: sendDelete_def Let_def case_prod_beta split: option.split sum.split list.split prod.split bool.split placement.split)

lemma wipeLocalHistory_wired [simp]:
  "wired_of (wipeLocalHistory p b m) = wired_of m"
  by (simp_all add: wipeLocalHistory_def Let_def case_prod_beta split: option.split sum.split list.split prod.split bool.split placement.split)

lemma wipeBothHistories_wired [simp]:
  "wired_of (snd (wipeBothHistories p cx b m)) = wired_of m"
  by (simp_all add: wipeBothHistories_def Let_def case_prod_beta split: option.split sum.split list.split prod.split bool.split placement.split)

lemma applyWipeHistory_wired [simp]:
  "wired_of (applyWipeHistory p b m) = wired_of m"
  by (simp_all add: applyWipeHistory_def Let_def case_prod_beta split: option.split sum.split list.split prod.split bool.split placement.split)

lemma apply_history_wired [simp]:
  "wired_of (apply_history p b rid bs m) = wired_of m"
  by (simp_all add: apply_history_def Let_def case_prod_beta split: option.split sum.split list.split prod.split bool.split placement.split)

lemma handleHistoryChunk_wired [simp]:
  "wired_of (handleHistoryChunk p cx b c m) = wired_of m"
  by (simp_all add: handleHistoryChunk_def Let_def case_prod_beta split: option.split sum.split list.split prod.split bool.split placement.split)

lemma startOutgoing_wired [simp]:
  "wired_of (snd (startOutgoing p cx b s m)) = wired_of m"
  by (simp_all add: startOutgoing_def Let_def case_prod_beta split: option.split sum.split list.split prod.split bool.split placement.split)

lemma sendImage_wired [simp]:
  "wired_of (snd (sendImage p cx b pr rep m)) = wired_of m"
  by (simp_all add: sendImage_def Let_def case_prod_beta split: option.split sum.split list.split prod.split bool.split placement.split)

lemma sendFile_wired [simp]:
  "wired_of (snd (sendFile p cx b nm mi bs rep m)) = wired_of m"
  by (simp_all add: sendFile_def Let_def case_prod_beta split: option.split sum.split list.split prod.split bool.split placement.split)

lemma send_text_wired [simp]:
  "wired_of (snd (send_text p cx b body rep m)) = wired_of m"
  by (simp_all add: send_text_def Let_def case_prod_beta split: option.split sum.split list.split prod.split bool.split placement.split)

lemma deliverIncoming_wired [simp]:
  "wired_of (deliverIncoming cx b s m) = wired_of m"
  by (simp_all add: deliverIncoming_def Let_def case_prod_beta split: option.split sum.split list.split prod.split bool.split placement.split)

lemma receive_content_wired [simp]:
  "wired_of (receive_content p cx b i c m) = wired_of m"
  by (simp_all add: receive_content_def Let_def case_prod_beta split: option.split sum.split list.split prod.split bool.split placement.split)

section \<open>Connecting\<close>

lemma cancelManagedReconnect_view [simp]:
  "shown_of (cancelManagedReconnect b m) = shown_of m"
  "wired_of (cancelManagedReconnect b m) = wired_of m"
  by (simp_all add: cancelManagedReconnect_def Let_def case_prod_beta split: option.split sum.split list.split prod.split bool.split placement.split)

lemma cancelAllManagedReconnects_view [simp]:
  "shown_of (cancelAllManagedReconnects m) = shown_of m"
  "wired_of (cancelAllManagedReconnects m) = wired_of m"
  by (simp_all add: cancelAllManagedReconnects_def Let_def case_prod_beta split: option.split sum.split list.split prod.split bool.split placement.split)

lemma resetReconnectState_view [simp]:
  "shown_of (resetReconnectState b m) = shown_of m"
  "wired_of (resetReconnectState b m) = wired_of m"
  by (simp_all add: resetReconnectState_def Let_def case_prod_beta split: option.split sum.split list.split prod.split bool.split placement.split)

lemma markReconnectStalled_view [simp]:
  "shown_of (markReconnectStalled b m) = shown_of m"
  "wired_of (markReconnectStalled b m) = wired_of m"
  by (simp_all add: markReconnectStalled_def Let_def case_prod_beta split: option.split sum.split list.split prod.split bool.split placement.split)

lemma scheduleManagedReconnect_view [simp]:
  "shown_of (scheduleManagedReconnect b m) = shown_of m"
  "wired_of (scheduleManagedReconnect b m) = wired_of m"
  by (simp_all add: scheduleManagedReconnect_def Let_def case_prod_beta split: option.split sum.split list.split prod.split bool.split placement.split)

lemma handleDisconnectForReconnect_view [simp]:
  "shown_of (handleDisconnectForReconnect b m) = shown_of m"
  "wired_of (handleDisconnectForReconnect b m) = wired_of m"
  by (simp_all add: handleDisconnectForReconnect_def Let_def case_prod_beta split: option.split sum.split list.split prod.split bool.split placement.split)

lemma start_flow_view [simp]:
  "shown_of (start_flow pc b th m) = shown_of m"
  "wired_of (start_flow pc b th m) = wired_of m"
  by (simp_all add: start_flow_def Let_def case_prod_beta split: option.split sum.split list.split prod.split bool.split placement.split)

lemma openRoom_view [simp]:
  "shown_of (openRoom b th m) = shown_of m"
  "wired_of (openRoom b th m) = wired_of m"
  by (simp_all add: openRoom_def Let_def case_prod_beta split: option.split sum.split list.split prod.split bool.split placement.split)

lemma reconnectRoom_view [simp]:
  "shown_of (reconnectRoom b th m) = shown_of m"
  "wired_of (reconnectRoom b th m) = wired_of m"
  by (simp_all add: reconnectRoom_def Let_def case_prod_beta split: option.split sum.split list.split prod.split bool.split placement.split)

lemma reconnect_timer_fires_view [simp]:
  "shown_of (reconnect_timer_fires b m) = shown_of m"
  "wired_of (reconnect_timer_fires b m) = wired_of m"
  by (simp_all add: reconnect_timer_fires_def Let_def case_prod_beta split: option.split sum.split list.split prod.split bool.split placement.split)

lemma stopHeartbeat_view [simp]:
  "shown_of (stopHeartbeat b m) = shown_of m"
  "wired_of (stopHeartbeat b m) = wired_of m"
  by (simp_all add: stopHeartbeat_def Let_def case_prod_beta split: option.split sum.split list.split prod.split bool.split placement.split)

lemma stopAllHeartbeats_view [simp]:
  "shown_of (stopAllHeartbeats m) = shown_of m"
  "wired_of (stopAllHeartbeats m) = wired_of m"
  by (simp_all add: stopAllHeartbeats_def Let_def case_prod_beta split: option.split sum.split list.split prod.split bool.split placement.split)

lemma startHeartbeat_view [simp]:
  "shown_of (startHeartbeat b m) = shown_of m"
  "wired_of (startHeartbeat b m) = wired_of m"
  by (simp_all add: startHeartbeat_def Let_def case_prod_beta split: option.split sum.split list.split prod.split bool.split placement.split)

lemma forceStaleReconnect_view [simp]:
  "shown_of (forceStaleReconnect b m) = shown_of m"
  "wired_of (forceStaleReconnect b m) = wired_of m"
  by (simp_all add: forceStaleReconnect_def Let_def case_prod_beta split: option.split sum.split list.split prod.split bool.split placement.split)

lemma sendHeartbeatPing_view [simp]:
  "shown_of (sendHeartbeatPing b m) = shown_of m"
  "wired_of (sendHeartbeatPing b m) = wired_of m"
  by (simp_all add: sendHeartbeatPing_def Let_def case_prod_beta split: option.split sum.split list.split prod.split bool.split placement.split)

lemma heartbeat_tick_view [simp]:
  "shown_of (heartbeat_tick cx b m) = shown_of m"
  "wired_of (heartbeat_tick cx b m) = wired_of m"
  by (simp_all add: heartbeat_tick_def Let_def case_prod_beta split: option.split sum.split list.split prod.split bool.split placement.split)

lemma heartbeat_timeout_view [simp]:
  "shown_of (heartbeat_timeout b m) = shown_of m"
  "wired_of (heartbeat_timeout b m) = wired_of m"
  by (simp_all add: heartbeat_timeout_def Let_def case_prod_beta split: option.split sum.split list.split prod.split bool.split placement.split)

lemma onHeartbeatPong_view [simp]:
  "shown_of (onHeartbeatPong b m) = shown_of m"
  "wired_of (onHeartbeatPong b m) = wired_of m"
  by (simp_all add: onHeartbeatPong_def Let_def case_prod_beta split: option.split sum.split list.split prod.split bool.split placement.split)

lemma ensure_connected_view [simp]:
  "shown_of (ensure_connected b m) = shown_of m"
  "wired_of (ensure_connected b m) = wired_of m"
  by (simp_all add: ensure_connected_def Let_def case_prod_beta split: option.split sum.split list.split prod.split bool.split placement.split)

lemma engine_connected_view [simp]:
  "shown_of (engine_connected p cx b m) = shown_of m"
  "wired_of (engine_connected p cx b m) = wired_of m"
  by (simp_all add: engine_connected_def Let_def case_prod_beta split: option.split sum.split list.split prod.split bool.split placement.split)

lemma onStatus_view [simp]:
  "shown_of (onStatus p cx k b s d m) = shown_of m"
  "wired_of (onStatus p cx k b s d m) = wired_of m"
  by (simp_all add: onStatus_def Let_def case_prod_beta split: option.split sum.split list.split prod.split bool.split placement.split)

lemma onControl_view [simp]:
  "shown_of (onControl p cx b msg m) = shown_of m" "wired_of (onControl p cx b msg m) = wired_of m"
  by (cases msg; simp add: onControl_def Let_def split: option.split bool.split)+

section \<open>Showing what is stored\<close>

definition only_rows :: "(jstr, jstr \<times> stored_message) jsmap \<Rightarrow> db" where
  "only_rows rows = \<lparr>db_messages = rows, db_rooms = [], db_meta = []\<rparr>"

lemma only_rows [simp]:
  "db_ok (only_rows (db_messages d)) = db_ok d" "bucket_of (only_rows (db_messages d)) = bucket_of d"
  by (simp_all add: db_ok_def bucket_of_def fun_eq_iff only_rows_def)

definition ids_in :: "jstr \<Rightarrow> db \<Rightarrow> jstr set" where
  "ids_in b d = {i. bucket_of d b i \<noteq> None}"

text \<open>
  An open room has a list, of exactly the stored ids; every list is sorted by id without repetition; and no open room's
  name has a colon.
\<close>

fun shown_ok :: "jstr set \<times> (jstr \<rightharpoonup> stored_message list) \<times> (jstr, jstr \<times> stored_message) jsmap \<Rightarrow> bool" where
  "shown_ok (rooms, views, rows) \<longleftrightarrow>
     db_ok (only_rows rows) \<and>
     (\<forall>b \<in> rooms. colon \<notin> set b \<and>
        (\<exists>ms. views b = Some ms \<and> set (map sm_id ms) = ids_in b (only_rows rows))) \<and>
     (\<forall>b ms. views b = Some ms \<longrightarrow> sorted_wrt (<) (map sm_id ms))"

lemma ids_in_only_rows [simp]: "ids_in b (only_rows (db_messages d)) = ids_in b d"
  by (simp add: ids_in_def)

lemma shown_ok_iff:
  "shown_ok (shown_of m) \<longleftrightarrow>
     db_ok (m_db m) \<and>
     (\<forall>b. the_room b m \<noteq> None \<longrightarrow>
        colon \<notin> set b \<and> m_messages m b \<noteq> None \<and> set (map sm_id (getMessages b m)) = ids_in b (m_db m)) \<and>
     (\<forall>b. sorted_wrt (<) (map sm_id (getMessages b m)))"
proof -
  have rooms: "b \<in> fst ` set (m_rooms m) \<longleftrightarrow> the_room b m \<noteq> None" for b
    by (simp add: the_room_def map_of_eq_None_iff)
  have views: "(\<exists>ms. m_messages m b = Some ms \<and> set (map sm_id ms) = X) \<longleftrightarrow>
      m_messages m b \<noteq> None \<and> set (map sm_id (getMessages b m)) = X" for b X
    by (auto simp: getMessages_def split: option.split)
  have sorted: "(\<forall>ms. m_messages m b = Some ms \<longrightarrow> sorted_wrt (<) (map sm_id ms)) \<longleftrightarrow>
      sorted_wrt (<) (map sm_id (getMessages b m))" for b
    by (auto simp: getMessages_def split: option.split)
  show ?thesis
    unfolding shown_of_def shown_ok.simps Ball_def rooms views sorted by simp
qed

lemma shown_okE:
  assumes "shown_ok (shown_of m)"
  shows "db_ok (m_db m)" "the_room b m \<noteq> None \<Longrightarrow> colon \<notin> set b"
    "the_room b m \<noteq> None \<Longrightarrow> set (map sm_id (getMessages b m)) = ids_in b (m_db m)"
    "sorted_wrt (<) (map sm_id (getMessages b m))"
  using assms unfolding shown_ok_iff by blast+

lemma ids_by_id: "map sm_id (by_id ms) = fold (\<lambda>k ks. if k \<in> set ks then ks else ks @ [k]) (map sm_id ms) []"
proof -
  let ?f = "fold (\<lambda>m acc. AList.update (sm_id m) m acc)"
  have "map sm_id (map snd acc) = map fst acc \<Longrightarrow>
      map sm_id (map snd (?f ms acc)) = map fst (?f ms acc) \<and>
      map fst (?f ms acc) = fold (\<lambda>k ks. if k \<in> set ks then ks else ks @ [k]) (map sm_id ms) (map fst acc)" for acc
  proof (induction ms arbitrary: acc)
    case Nil
    then show ?case by simp
  next
    case (Cons m ms)
    have "map sm_id (map snd (AList.update (sm_id m) m acc)) = map fst (AList.update (sm_id m) m acc)"
      using Cons.prems by (induction acc) auto
    from Cons.IH [OF this] show ?case by (auto simp: update_keys simp del: map_map)
  qed
  from this [of "[]"] show ?thesis by (simp add: by_id_def del: map_map)
qed

lemma set_ids_by_id: "set (map sm_id (by_id ms)) = set (map sm_id ms)" "distinct (map sm_id (by_id ms))"
proof -
  have "set (fold (\<lambda>k ks. if k \<in> set ks then ks else ks @ [k]) xs ks) = set xs \<union> set ks \<and>
      (distinct ks \<longrightarrow> distinct (fold (\<lambda>k ks. if k \<in> set ks then ks else ks @ [k]) xs ks))" for xs ks :: "jstr list"
    by (induction xs arbitrary: ks) auto
  from this [of "map sm_id ms" "[]"]
  show "set (map sm_id (by_id ms)) = set (map sm_id ms)" "distinct (map sm_id (by_id ms))"
    unfolding ids_by_id by simp_all
qed

lemma ids_sync:
  "set (map sm_id (sort_key sm_id (by_id ms))) = set (map sm_id ms)"
  "sorted_wrt (<) (map sm_id (sort_key sm_id (by_id ms)))"
proof -
  show "set (map sm_id (sort_key sm_id (by_id ms))) = set (map sm_id ms)"
    using set_ids_by_id(1) [of ms] by simp
  have "mset (map sm_id (sort_key sm_id (by_id ms))) = mset (map sm_id (by_id ms))" by simp
  then have "distinct (map sm_id (sort_key sm_id (by_id ms)))"
    using set_ids_by_id(2) mset_eq_imp_distinct_iff by blast
  then show "sorted_wrt (<) (map sm_id (sort_key sm_id (by_id ms)))"
    by (simp add: strict_sorted_iff)
qed

text \<open>One bucket's rows change, and its list is replaced.\<close>

lemma shown_replace:
  assumes "shown_ok (shown_of m)" "db_ok d" "colon \<notin> set b"
    and "\<And>b' i. b' \<noteq> b \<Longrightarrow> colon \<notin> set b' \<Longrightarrow> bucket_of d b' i = bucket_of (m_db m) b' i"
    and "the_room b m \<noteq> None \<Longrightarrow> set (map sm_id ms) = ids_in b d"
  shows "shown_ok (shown_of (syncMessages b ms (m\<lparr>m_db := d\<rparr>)))"
proof -
  have "ids_in b' d = ids_in b' (m_db m)" if "b' \<noteq> b" "colon \<notin> set b'" for b'
    using that assms(4) by (simp add: ids_in_def)
  then show ?thesis
    using assms(1-3,5) ids_sync [of ms] unfolding shown_ok_iff
    by (auto simp: syncMessages_def getMessages_def the_room_def simp del: set_map set_sort)
qed

text \<open>The rows change, the ids of the shown list do not.\<close>

lemma shown_rows:
  assumes "shown_ok (shown_of m)" "db_ok d" "colon \<notin> set b"
    and "\<And>b' i. b' \<noteq> b \<Longrightarrow> colon \<notin> set b' \<Longrightarrow> bucket_of d b' i = bucket_of (m_db m) b' i"
    and "the_room b m \<noteq> None \<Longrightarrow> ids_in b d = ids_in b (m_db m)"
  shows "shown_ok (shown_of (m\<lparr>m_db := d\<rparr>))"
proof -
  have "ids_in b' d = ids_in b' (m_db m)" if "b' \<noteq> b" "colon \<notin> set b'" for b'
    using that assms(4) by (simp add: ids_in_def)
  then have "ids_in b' d = ids_in b' (m_db m)" if "the_room b' m \<noteq> None" for b'
    using that shown_okE(2) [OF assms(1)] assms(5) by metis
  then show ?thesis
    using assms(1,2) unfolding shown_ok_iff by (simp add: getMessages_def the_room_def)
qed

lemma append_parts [simp]:
  "m_db (snd (appendMessage b s m)) = m_db m" "the_room b' (snd (appendMessage b s m)) = the_room b' m"
  "the_room b' (on_db f m) = the_room b' m" "m_messages (on_db f m) = m_messages m" "m_db (on_db f m) = f (m_db m)"
  by (simp_all add: appendMessage_def syncMessages_def the_room_def on_db_def)

lemma append_on_db: "snd (appendMessage b s (on_db f m)) = on_db f (snd (appendMessage b s m))"
  by (simp add: appendMessage_def has_message_def getMessages_def syncMessages_def on_db_def)

lemma sync_on_db:
  "on_db f (syncMessages b ms m) = syncMessages b ms (m\<lparr>m_db := f (m_db m)\<rparr>)"
  "syncMessages b ms (on_db f m) = syncMessages b ms (m\<lparr>m_db := f (m_db m)\<rparr>)"
  by (simp_all add: on_db_def syncMessages_def)

text \<open>A message is stored and shown.\<close>

lemma shown_add:
  assumes "shown_ok (shown_of m)" "colon \<notin> set b"
  shows "shown_ok (shown_of (on_db (addMessage b s) (snd (appendMessage b s m))))"
proof -
  let ?d = "addMessage b s (m_db m)"
  have bucket: "bucket_ok b (m_db m)" using shown_okE(1) [OF assms(1)] assms(2) by (simp add: bucket_ok_def)
  then have d: "db_ok ?d" using bucket.add_wf by (simp add: bucket_ok_def)
  have ids: "ids_in b ?d = insert (sm_id s) (ids_in b (m_db m))"
    using bucket by (auto simp: ids_in_def bucket.lookup_add)
  have other: "bucket_of ?d b' i = bucket_of (m_db m) b' i" if "b' \<noteq> b" "colon \<notin> set b'" for b' i
    using bucket that by (simp add: bucket_addMessage bucket_ok_def)
  show ?thesis
  proof (cases "has_message b (sm_id s) m")
    case True
    then have "sm_id s \<in> set (map sm_id (getMessages b m))" by (auto simp: has_message_def list_ex_iff image_iff) metis
    then have "the_room b m \<noteq> None \<Longrightarrow> ids_in b ?d = ids_in b (m_db m)"
      using ids shown_okE(3) [OF assms(1)] by (simp add: insert_absorb del: set_map)
    then have "shown_ok (shown_of (m\<lparr>m_db := ?d\<rparr>))"
      using assms d other by (intro shown_rows) simp_all
    with True show ?thesis by (simp add: appendMessage_def on_db_def)
  next
    case False
    have "the_room b m \<noteq> None \<Longrightarrow> set (map sm_id (getMessages b m @ [s])) = ids_in b ?d"
      using ids shown_okE(3) [OF assms(1)] by (simp del: set_map)
    then have "shown_ok (shown_of (syncMessages b (getMessages b m @ [s]) (m\<lparr>m_db := ?d\<rparr>)))"
      using assms d other by (intro shown_replace) simp_all
    with False show ?thesis by (simp add: appendMessage_def sync_on_db)
  qed
qed

lemma shown_logged: "shown_of (on_db f (log_effect x m)) = shown_of (on_db f m)"
  by (simp add: on_db_def log_effect_def shown_of_def)

lemma shown_deliver:
  assumes "shown_ok (shown_of m)" "colon \<notin> set b"
  shows "shown_ok (shown_of (deliverIncoming cx b s m))"
  using shown_add [OF assms, of s] by (simp add: deliverIncoming_def Let_def case_prod_beta append_on_db)

lemma shown_content:
  assumes "shown_ok (shown_of m)" "colon \<notin> set b"
  shows "shown_ok (shown_of (receive_content p cx b i c m))"
proof -
  let ?r = "case i of Some i \<Rightarrow> (i, m) | None \<Rightarrow> draw_uuid p m"
  let ?s = "\<lparr>sm_id = fst ?r, sm_from = Peer, sm_content = c\<rparr>"
  have start: "shown_ok (shown_of (snd ?r))" using assms(1) by (simp split: option.split)
  show ?thesis
  proof (cases "has_message b (sm_id ?s) (snd ?r)")
    case True
    then show ?thesis using start by (simp add: receive_content_def Let_def case_prod_beta appendMessage_def)
  next
    case False
    then have "fst (appendMessage b ?s (snd ?r))" by (simp add: appendMessage_def)
    then show ?thesis using shown_add [OF start assms(2), of ?s]
      by (cases i; simp add: receive_content_def Let_def case_prod_beta shown_logged split: option.split)
  qed
qed

lemma shown_text:
  assumes "shown_ok (shown_of m)" "colon \<notin> set b"
  shows "shown_ok (shown_of (snd (send_text p cx b body rep m)))"
  using assms by (simp add: send_text_def Let_def case_prod_beta shown_add split: option.split sum.split)

lemma shown_outgoing:
  assumes "shown_ok (shown_of m)" "colon \<notin> set b"
  shows "shown_ok (shown_of (snd (startOutgoing p cx b s m)))"
  using assms by (simp add: startOutgoing_def Let_def case_prod_beta append_on_db shown_add split: option.split)

lemma shown_attachments:
  assumes "shown_ok (shown_of m)" "colon \<notin> set b"
  shows "shown_ok (shown_of (snd (sendImage p cx b pr rep m)))" "shown_ok (shown_of (snd (sendFile p cx b nm mi bs rep m)))"
  using assms by (simp_all add: sendImage_def sendFile_def Let_def case_prod_beta shown_outgoing split: option.split sum.split prod.split)

text \<open>Messages are deleted.\<close>

lemma view_parts [simp]:
  "getMessages b (with_engine p f m) = getMessages b m" "db_messages (m_db (with_engine p f m)) = db_messages (m_db m)"
  using shown_engine(1) [of p f m] by (simp_all add: shown_of_def getMessages_def)

lemma shown_applyDelete:
  assumes "shown_ok (shown_of m)" "colon \<notin> set b"
  shows "shown_ok (shown_of (applyDelete p b i m))"
proof -
  let ?m = "with_engine p (forget b i) m" and ?d = "deleteMessage b i"
  let ?rest = "filter (\<lambda>x. sm_id x \<noteq> i) (getMessages b m)"
  have ok: "shown_ok (shown_of ?m)" using assms(1) by simp
  have bucket: "bucket_ok b (m_db ?m)" using shown_okE(1) [OF ok] assms(2) by (simp add: bucket_ok_def)
  then have d: "db_ok (?d (m_db ?m))" by (simp add: bucket_ok_def deleteMessage_ok)
  have lookup: "bucket_of (?d (m_db ?m)) b' j = (if b' = b \<and> j = i then None else bucket_of (m_db ?m) b' j)"
    if "colon \<notin> set b'" for b' j
    using bucket that by (simp add: bucket_deleteMessage bucket_ok_def)
  then have ids: "ids_in b (?d (m_db ?m)) = ids_in b (m_db ?m) - {i}" using assms(2) by (auto simp: ids_in_def)
  have shown: "the_room b ?m \<noteq> None \<Longrightarrow> sm_id ` set (getMessages b m) = ids_in b (m_db ?m)"
    using shown_okE(3) [OF ok, of b] by simp
  show ?thesis
  proof (cases "length ?rest = length (getMessages b m)")
    case True
    then have "i \<notin> sm_id ` set (getMessages b m)" using length_filter_less [of _ "getMessages b m" "\<lambda>x. sm_id x \<noteq> i"] by fastforce
    then have "the_room b ?m \<noteq> None \<Longrightarrow> ids_in b (?d (m_db ?m)) = ids_in b (m_db ?m)" using ids shown by simp
    then have "shown_ok (shown_of (?m\<lparr>m_db := ?d (m_db ?m)\<rparr>))"
      using ok d assms(2) lookup by (intro shown_rows) auto
    with True show ?thesis by (simp add: applyDelete_def Let_def shown_logged on_db_def)
  next
    case False
    have "the_room b ?m \<noteq> None \<Longrightarrow> set (map sm_id ?rest) = ids_in b (?d (m_db ?m))" using ids shown by auto
    then have "shown_ok (shown_of (syncMessages b ?rest (?m\<lparr>m_db := ?d (m_db ?m)\<rparr>)))"
      using ok d assms(2) lookup by (intro shown_replace) auto
    with False show ?thesis by (simp add: applyDelete_def Let_def sync_on_db)
  qed
qed

lemma shown_sendDelete:
  assumes "shown_ok (shown_of m)" "colon \<notin> set b"
  shows "shown_ok (shown_of (snd (sendDelete p cx b i m)))"
  using assms by (simp add: sendDelete_def Let_def case_prod_beta shown_applyDelete split: option.split sum.split)

lemma shown_wipe:
  assumes "shown_ok (shown_of m)" "colon \<notin> set b"
  shows "shown_ok (shown_of (wipeLocalHistory p b m))"
proof -
  let ?d = "deleteMessagesForBucket (pf_nfc p) b (m_db m)"
  have bucket: "bucket_ok b (m_db m)" using shown_okE(1) [OF assms(1)] assms(2) by (simp add: bucket_ok_def)
  have "ids_in b ?d = {}" using bucket assms(2) by (simp add: ids_in_def bucket_deleteMessagesForBucket)
  then have "shown_ok (shown_of (syncMessages b [] (m\<lparr>m_db := ?d\<rparr>)))"
    using assms bucket by (intro shown_replace) (simp_all add: deleteMessagesForBucket_ok bucket_deleteMessagesForBucket)
  then show ?thesis by (simp add: wipeLocalHistory_def Let_def sync_on_db)
qed

lemma shown_wipes:
  assumes "shown_ok (shown_of m)" "colon \<notin> set b"
  shows "shown_ok (shown_of (snd (wipeBothHistories p cx b m)))" "shown_ok (shown_of (applyWipeHistory p b m))"
  using assms by (simp_all add: wipeBothHistories_def applyWipeHistory_def Let_def case_prod_beta shown_wipe split: option.split sum.split)

text \<open>Messages are merged.\<close>

lemma shown_apply_history:
  assumes "shown_ok (shown_of m)" "colon \<notin> set b"
  shows "shown_ok (shown_of (apply_history p b rid bs m))"
proof (cases "apply_sync (pf_nfc p) (pf_gunzip p) b bs (m_db m)")
  case (Inl e)
  then show ?thesis using assms(1) by (simp add: apply_history_def)
next
  case (Inr d)
  have bucket: "bucket_ok b (m_db m)" using shown_okE(1) [OF assms(1)] assms(2) by (simp add: bucket_ok_def)
  from Inr obtain ms where d: "d = bucket.merge b ms (m_db m)"
    using bucket by (auto simp: apply_sync_def bind_result_Inr mergeMessages_is_merge)
  then have ok: "bucket_ok b d" using bucket by (simp add: bucket.merge_wf)
  let ?m = "syncMessages b (listMessages (pf_nfc p) b d) (m\<lparr>m_db := d\<rparr>)"
  have "shown_ok (shown_of ?m)"
    using assms bucket ok
    by (intro shown_replace) (simp_all add: d merge_other_bucket bucket_ok_def ids_listMessages ids_in_def del: set_map)
  with Inr show ?thesis by (simp add: apply_history_def Let_def)
qed

lemma shown_chunk:
  assumes "shown_ok (shown_of m)" "colon \<notin> set b"
  shows "shown_ok (shown_of (handleHistoryChunk p cx b c m))"
  using assms by (simp add: handleHistoryChunk_def Let_def shown_apply_history split: option.split placement.split)


section \<open>Names\<close>

text \<open>No client is wired to, and no flow runs for, a room whose name has a colon.\<close>

abbreviation flow_names :: "manager \<Rightarrow> jstr list" where
  "flow_names m \<equiv> map fl_bucket (snd (flows_of m))"

definition names_ok :: "jstr option list \<Rightarrow> jstr list \<Rightarrow> bool" where
  "names_ok ws fs \<longleftrightarrow> (\<forall>b. Some b \<in> set ws \<longrightarrow> colon \<notin> set b) \<and> (\<forall>b \<in> set fs. colon \<notin> set b)"

definition views_ok :: "manager \<Rightarrow> bool" where
  "views_ok m \<longleftrightarrow> shown_ok (shown_of m) \<and> names_ok (wired_of m) (flow_names m)"

lemma views_frame:
  "shown_of m' = shown_of m \<Longrightarrow> wired_of m' = wired_of m \<Longrightarrow> flows_of m' = flows_of m \<Longrightarrow> views_ok m \<Longrightarrow> views_ok m'"
  by (simp add: views_ok_def)

lemma names_set_pc [simp]: "flow_names (set_pc n pc m) = flow_names m"
proof -
  have "map fl_bucket (xs[n := (xs ! n)\<lparr>fl_pc := pc\<rparr>]) = map fl_bucket xs" for xs :: "flow list"
    by (cases "n < length xs") (simp_all add: map_update list_update_same_conv list_update_beyond)
  then show ?thesis by (simp add: flows_set_pc) (simp add: flows_of_def)
qed

lemma shown_set_pc [simp]: "shown_of (set_pc n pc m) = shown_of m" "wired_of (set_pc n pc m) = wired_of m"
  by (simp_all add: set_pc_def)

lemma views_start:
  "views_ok m \<Longrightarrow> colon \<notin> set b \<Longrightarrow> views_ok (start_flow pc b th m)"
  "views_ok m \<Longrightarrow> colon \<notin> set b \<Longrightarrow> views_ok (openRoom b th m)"
  "views_ok m \<Longrightarrow> colon \<notin> set b \<Longrightarrow> views_ok (reconnectRoom b th m)"
  by (auto simp: views_ok_def openRoom_def reconnectRoom_def flows_start names_ok_def)
    (auto simp: flows_of_def)

text \<open>Operations that leave all of this alone.\<close>

lemma views_same [simp]:
  "views_ok (stopHeartbeat b m) = views_ok m" "views_ok (resetReconnectState b m) = views_ok m"
  "views_ok (cancelManagedReconnect b m) = views_ok m" "views_ok (cancelAllManagedReconnects m) = views_ok m"
  "views_ok (stopAllHeartbeats m) = views_ok m" "views_ok (upd_runtime b g m) = views_ok m"
  "views_ok (upd_room b f m) = views_ok m" "views_ok (syncRuntimes m) = views_ok m"
  "views_ok (on_client k ch m) = views_ok m" "views_ok (set_pc n pc m) = views_ok m"
  "views_ok (scheduleManagedReconnect b m) = views_ok m" "views_ok (log_effect x m) = views_ok m"
  "views_ok (with_engine p ef m) = views_ok m" "views_ok (clearTransfersForBucket p b m) = views_ok m"
  "views_ok (registerRoom p cx opts m) = views_ok m" "views_ok (keep_credentials b c m) = views_ok m"
  by (simp_all add: views_ok_def)

lemma views_upd [simp]:
  "views_ok (m\<lparr>m_timers := x1\<rparr>) = views_ok m" "views_ok (m\<lparr>m_attempts := x2\<rparr>) = views_ok m"
  "views_ok (m\<lparr>m_pings := x3\<rparr>) = views_ok m" "views_ok (m\<lparr>m_suppress := x4\<rparr>) = views_ok m"
  "views_ok (m\<lparr>m_creds := x5\<rparr>) = views_ok m" "views_ok (m\<lparr>m_vault := x6\<rparr>) = views_ok m"
  "views_ok (m\<lparr>m_locked := x7\<rparr>) = views_ok m" "views_ok (m\<lparr>m_storage := x8\<rparr>) = views_ok m"
  "views_ok (m\<lparr>m_active := x9\<rparr>) = views_ok m"
  by (simp_all add: views_ok_def)

lemma flows_upd_open [simp]: "flow_names (m\<lparr>m_open := x\<rparr>) = flow_names m"
  by (simp add: flows_of_def)

lemma views_open_upd [simp]: "views_ok (m\<lparr>m_open := x\<rparr>) = views_ok m"
  by (simp add: views_ok_def)

lemma views_on_db [simp]:
  "db_messages (f (m_db m)) = db_messages (m_db m) \<Longrightarrow> views_ok (on_db f m) = views_ok m"
  by (simp add: views_ok_def)

text \<open>Timers and heartbeats.\<close>

lemma views_timer_fires: "views_ok m \<Longrightarrow> colon \<notin> set b \<Longrightarrow> views_ok (reconnect_timer_fires b m)"
  by (simp add: reconnect_timer_fires_def Let_def views_start split: option.split)

lemma views_stale: "views_ok m \<Longrightarrow> colon \<notin> set b \<Longrightarrow> views_ok (forceStaleReconnect b m)"
  by (simp add: forceStaleReconnect_def views_start split: option.split)

lemma views_ping: "views_ok m \<Longrightarrow> colon \<notin> set b \<Longrightarrow> views_ok (sendHeartbeatPing b m)"
  by (simp add: sendHeartbeatPing_def Let_def views_stale split: option.split)

lemma views_ticks:
  "views_ok m \<Longrightarrow> colon \<notin> set b \<Longrightarrow> views_ok (heartbeat_tick cx b m)"
  "views_ok m \<Longrightarrow> colon \<notin> set b \<Longrightarrow> views_ok (heartbeat_timeout b m)"
  by (simp_all add: heartbeat_tick_def heartbeat_timeout_def views_ping views_stale split: option.split)

lemma views_rooms: "views_ok m \<Longrightarrow> the_room b m \<noteq> None \<Longrightarrow> colon \<notin> set b"
  unfolding views_ok_def using shown_okE(2) by blast

lemma views_ensure: "views_ok m \<Longrightarrow> views_ok (ensure_connected b m)"
  using views_rooms [of m b]
  by (auto simp: ensure_connected_def Let_def views_ping views_start split: option.split)

lemma views_ensure_all: "views_ok m \<Longrightarrow> views_ok (ensureAllConnected m)"
  by (simp add: ensureAllConnected_def fold_keeps [where P = views_ok] views_ensure)

lemma views_offline: "views_ok m \<Longrightarrow> views_ok (went_offline m)"
proof (rule views_frame)
  show "shown_of (went_offline m) = shown_of m"
    by (simp add: went_offline_def) (simp add: shown_of_def image_image case_prod_beta)
  show "wired_of (went_offline m) = wired_of m" by (simp add: went_offline_def)
qed simp_all

text \<open>Callbacks.\<close>

lemma views_receive:
  assumes "views_ok m" "colon \<notin> set b"
  shows "views_ok (receive p cx b plain m)"
  using assms unfolding views_ok_def
  by (cases "(p, cx, b, plain, m)" rule: receive.cases)
    (simp_all add: shown_applyDelete shown_wipes shown_chunk shown_content)

lemma views_onBinary: "views_ok m \<Longrightarrow> colon \<notin> set b \<Longrightarrow> views_ok (onBinary p cx b buf m)"
proof -
  assume ok: "views_ok m" "colon \<notin> set b"
  have "views_ok (engine_connected p cx b (publishDigest p cx b x)) = views_ok x" for x
    by (simp add: views_ok_def)
  then show ?thesis using ok
    by (simp add: onBinary_def Let_def views_receive split: option.split sum.split)
qed

lemma views_dispatch: "views_ok m \<Longrightarrow> colon \<notin> set b \<Longrightarrow> views_ok (dispatch_call p cx k b x m)"
  by (cases x) (simp_all add: views_onBinary, simp_all add: views_ok_def)

lemma views_client:
  assumes "views_ok m" "k < length (m_clients m)"
  shows "views_ok (client_happens p cx k ev m)"
proof -
  have "fst (m_clients m ! k) \<in> set (wired_of m)" using assms(2) by (simp add: wired_of_def)
  then have "colon \<notin> set b" if "fst (m_clients m ! k) = Some b" for b
    using that assms(1) by (simp add: views_ok_def names_ok_def)
  then show ?thesis
    using assms(1)
    by (auto simp: client_happens_def Let_def case_prod_beta fold_keeps [where P = views_ok] views_dispatch split: option.split)
qed

section \<open>Flows\<close>

lemma names_finish [simp]: "flow_names (finish_flow n own res m) = flow_names m"
  by (simp add: finish_flow_def Let_def)

lemma views_suppress [simp]:
  "views_ok (suppress b m) = views_ok m" "views_ok (unsuppress b m) = views_ok m"
  by (simp_all add: suppress_def unsuppress_def)

lemma views_upd_same [simp]: "views_ok (upd_same b r f m) = views_ok m"
  by (simp add: upd_same_def split: option.split)

lemma views_finish [simp]: "views_ok (finish_flow n own res m) = views_ok m"
  by (simp add: finish_flow_def after_done_def Let_def split: option.split sum.split after_flow.split)

lemma views_wait [simp]: "views_ok (waitForRelay cx n b start m) = views_ok m"
  by (simp add: waitForRelay_def Let_def split: option.split)

lemma views_token [simp]: "views_ok (snd (relayTokenForRoom p b r m)) = views_ok m"
proof -
  have "views_ok (snd (draw_bytes p x)) = views_ok x" for x by (simp add: views_ok_def)
  then show ?thesis by (simp add: relayTokenForRoom_def Let_def case_prod_beta split: option.split)
qed

lemma views_make:
  assumes "views_ok m" "colon \<notin> set b"
  shows "views_ok (make_client p cx n b r m)"
proof -
  let ?w = "if the_room b m = None then None else Some b"
  have "views_ok (m\<lparr>m_clients := m_clients m @ [(?w, c)]\<rparr>)" for c
    using assms by (auto simp: views_ok_def shown_of_def wired_of_def names_ok_def)
  moreover have "length (m_clients (upd_same b r f x)) = length (m_clients x)" for f x
    by (simp add: upd_same_def upd_room_def split: option.split)
  ultimately show ?thesis
    by (simp add: make_client_def Let_def views_client del: if_split)
qed

lemma views_relay: "views_ok m \<Longrightarrow> colon \<notin> set b \<Longrightarrow> views_ok (connectRelay p cx n b t m)"
  by (simp add: connectRelay_def Let_def views_make split: option.split)

lemma views_to_relay: "views_ok m \<Longrightarrow> colon \<notin> set b \<Longrightarrow> views_ok (to_relay p cx n b r quiet m)"
  by (simp add: to_relay_def Let_def case_prod_beta views_relay split: option.split)

text \<open>A room is opened with the list of what is stored.\<close>

lemma shown_open:
  assumes "shown_ok (shown_of m)" "colon \<notin> set b"
  shows "shown_ok (shown_of ((syncMessages b (listMessages nfc b (m_db m)) m)\<lparr>m_rooms := AList.update b r (m_rooms m)\<rparr>))"
proof -
  have "set (map sm_id (listMessages nfc b (m_db m))) = ids_in b (m_db m)"
    using shown_okE(1) [OF assms(1)] assms(2) by (simp add: ids_listMessages ids_in_def del: set_map)
  then show ?thesis
    using assms ids_sync [of "listMessages nfc b (m_db m)"] unfolding shown_ok_iff
    by (auto simp: syncMessages_def getMessages_def the_room_def update_conv' simp del: set_map set_sort split: if_splits)
qed

lemma views_open_fresh: "views_ok m \<Longrightarrow> colon \<notin> set b \<Longrightarrow> views_ok (open_fresh p cx n b m)"
proof -
  assume ok: "views_ok m" "colon \<notin> set b"
  let ?m = "\<lambda>r. (syncMessages b (listMessages (pf_nfc p) b (m_db m)) m)\<lparr>m_rooms := AList.update b r (m_rooms m)\<rparr>"
  have same: "views_ok (resumePendingOutgoing p cx b (syncRuntimes x)) = views_ok x" for x
    by (simp add: views_ok_def)
  have "flows_of (?m r) = flows_of m \<and> wired_of (?m r) = wired_of m" for r by simp
  then have room: "views_ok (?m r)" for r
    using ok shown_open [where m = m and b = b and nfc = "pf_nfc p" and r = r] by (simp add: views_ok_def)
  then have "views_ok ((syncMessages b (listMessages (pf_nfc p) b (m_db m)) m)
      \<lparr>m_oids := x, m_rooms := AList.update b r (m_rooms m), m_creds := y\<rparr>)" for x y r
    by (rule views_frame [rotated 3]) (simp_all add: shown_of_def)
  then show ?thesis
    using ok unfolding open_fresh_def Let_def
    by (auto simp: same syncMessages_def intro!: views_to_relay split: option.split)
qed

lemma views_open: "views_ok m \<Longrightarrow> colon \<notin> set b \<Longrightarrow> views_ok (doOpenRoom p cx n b m)"
  by (simp add: doOpenRoom_def Let_def views_to_relay views_open_fresh split: option.split)

lemma views_reconnect: "views_ok m \<Longrightarrow> views_ok (doReconnectRoom n b m)"
  by (simp add: doReconnectRoom_def Let_def split: option.split)

lemma views_connectRoom: "views_ok m \<Longrightarrow> colon \<notin> set b \<Longrightarrow> views_ok (connectRoom p cx n b m)"
  by (simp add: connectRoom_def Let_def views_to_relay split: option.split)

lemma views_flow:
  assumes "views_ok m" "n < length (m_flows m)"
  shows "views_ok (flow_step p cx n m)"
proof -
  have "fl_bucket (m_flows m ! n) \<in> set (flow_names m)" using assms(2) by (simp add: flows_of_def)
  then have "colon \<notin> set (fl_bucket (m_flows m ! n))" using assms(1) unfolding views_ok_def names_ok_def by blast
  then show ?thesis
    using assms(1)
    by (simp add: flow_step_def Let_def after_pause_def views_open views_reconnect views_connectRoom views_to_relay views_make
        views_start split: flow_pc.split)
qed

section \<open>Closing\<close>

lemma shown_remove:
  "shown_ok (shown_of m) \<Longrightarrow> shown_ok (shown_of (m\<lparr>m_rooms := AList.delete b (m_rooms m)\<rparr>))"
  unfolding shown_ok_iff by (auto simp: getMessages_def the_room_def delete_conv' split: if_splits)

lemma views_close: "views_ok m \<Longrightarrow> views_ok (closeRoomConnection b m)"
proof -
  have "views_ok x \<Longrightarrow> views_ok (x\<lparr>m_rooms := AList.delete b (m_rooms x)\<rparr>)" for x
    using shown_remove [of x b] by (simp add: views_ok_def)
  then show "views_ok m \<Longrightarrow> views_ok (closeRoomConnection b m)"
    by (simp add: closeRoomConnection_def Let_def split: option.split)
qed

lemma closed_room: "the_room b' (closeRoomConnection b m) = (if b' = b then None else the_room b' m)"
proof -
  have same: "m_rooms (on_client k h x) = m_rooms x" for k h x by (simp add: on_client_def)
  show ?thesis
    by (simp add: closeRoomConnection_def Let_def syncRuntimes_def the_room_def same stopHeartbeat_def
        cancelManagedReconnect_def delete_conv' split: option.split)
qed

lemma shown_hide:
  "shown_ok (shown_of m) \<Longrightarrow> the_room b m = None \<Longrightarrow> shown_ok (shown_of (m\<lparr>m_messages := (m_messages m)(b := None)\<rparr>))"
  unfolding shown_ok_iff by (auto simp: getMessages_def the_room_def)

lemma rooms_shown: "shown_of m' = shown_of m \<Longrightarrow> the_room b m' = None \<longleftrightarrow> the_room b m = None"
  by (simp add: shown_of_def the_room_def map_of_eq_None_iff)

lemma views_closeRoom:
  assumes "views_ok m"
  shows "views_ok (closeRoom p b m)" "the_room b' (closeRoom p b m) = None \<longleftrightarrow> b' = b \<or> the_room b' m = None"
proof -
  let ?m = "\<lambda>c. clearTransfersForBucket p b ((closeRoomConnection b m)\<lparr>m_creds := c\<rparr>)"
  have shown: "shown_of (?m c) = shown_of (closeRoomConnection b m)" for c by simp
  have room: "the_room b' (?m c) = None \<longleftrightarrow> b' = b \<or> the_room b' m = None" for b' c
    using rooms_shown [OF shown] by (simp add: closed_room)
  have "views_ok (?m c)" for c using assms by (simp add: views_close)
  then show "views_ok (closeRoom p b m)"
    using shown_hide [of "?m _" b] room by (simp add: closeRoom_def Let_def views_ok_def)
  show "the_room b' (closeRoom p b m) = None \<longleftrightarrow> b' = b \<or> the_room b' m = None"
    using room by (simp add: closeRoom_def Let_def the_room_def)
qed

lemma shown_forget:
  assumes "shown_ok (shown_of m)" "colon \<notin> set b" "the_room b m = None"
  shows "shown_ok (shown_of (on_db (\<lambda>d. deleteMessagesForBucket nfc b (removeRoom b d)) m))"
proof -
  have bucket: "bucket_ok b (m_db m)" using shown_okE(1) [OF assms(1)] assms(2) by (simp add: bucket_ok_def)
  have "bucket_ok b (removeRoom b (m_db m))" "bucket_of (removeRoom b (m_db m)) = bucket_of (m_db m)"
    using bucket by (simp_all add: bucket_ok_def db_ok_def removeRoom_def bucket_of_def fun_eq_iff)
  then show ?thesis
    unfolding on_db_def using assms
    by (intro shown_rows) (auto simp: deleteMessagesForBucket_ok bucket_deleteMessagesForBucket)
qed

lemma views_forget: "views_ok m \<Longrightarrow> colon \<notin> set b \<Longrightarrow> views_ok (forgetRoom p b m)"
proof -
  assume ok: "views_ok m" "colon \<notin> set b"
  let ?m = "\<lambda>v t. (closeRoom p b m)\<lparr>m_vault := v, m_storage := t\<rparr>"
  have "views_ok (?m v t)" "the_room b (?m v t) = None" for v t
    using views_closeRoom [OF ok(1), where p = p and b = b] by (simp_all, simp add: the_room_def)
  then have "views_ok (on_db (\<lambda>d. deleteMessagesForBucket (pf_nfc p) b (removeRoom b d)) (?m v t))" for v t
    using ok(2) shown_forget [of "?m v t" b "pf_nfc p"] unfolding views_ok_def by simp
  then show ?thesis by (simp add: forgetRoom_def Let_def)
qed

lemma views_closing:
  "views_ok m \<Longrightarrow> colon \<notin> set b \<Longrightarrow> views_ok (snd (connectWithPin p cx b pin h url m))"
  "views_ok m \<Longrightarrow> views_ok (release_begin b m)"
  "views_ok m \<Longrightarrow> views_ok (release_end p b m)"
  "views_ok m \<Longrightarrow> colon \<notin> set b \<Longrightarrow> views_ok (rejoinRoom b m)"
  "views_ok m \<Longrightarrow> views_ok (release_all_end ids m)"
  "views_ok m \<Longrightarrow> colon \<notin> set (rec_bucketId rec) \<Longrightarrow> views_ok (restore_one p rec m)"
  by (simp_all add: connectWithPin_def release_begin_def release_end_def rejoinRoom_def release_all_end_def
      restore_one_def Let_def views_close views_start fold_keeps [where P = views_ok] split: option.split)

lemma views_release_all: "views_ok m \<Longrightarrow> views_ok (release_all_begin m)"
  by (simp add: release_all_begin_def Let_def fold_keeps [where P = views_ok] split: option.split)

lemma views_close_all:
  assumes "views_ok m"
  shows "views_ok (fold (closeRoom p) bs m)"
    "the_room b (fold (closeRoom p) bs m) = None \<longleftrightarrow> b \<in> set bs \<or> the_room b m = None"
  using assms by (induction bs arbitrary: m) (auto simp: views_closeRoom)

lemma views_clear: "views_ok m \<Longrightarrow> views_ok (clear_everything p m)"
proof -
  assume ok: "views_ok m"
  let ?m1 = "stopAllHeartbeats (cancelAllManagedReconnects m)"
  let ?m2 = "fold (closeRoom p) (map fst (m_rooms ?m1)) ?m1"
  have ok1: "views_ok ?m1" using ok by simp
  have none: "the_room b ?m2 = None" for b
    using views_close_all(2) [OF ok1, of b p "map fst (m_rooms ?m1)"]
    by (auto simp: the_room_def map_of_eq_None_iff)
  have empty: "shown_ok (shown_of (x\<lparr>m_messages := Map.empty\<rparr>))"
    if "shown_ok (shown_of x)" "\<And>b. the_room b x = None" for x
    using that unfolding shown_ok_iff by (simp add: getMessages_def the_room_def)
  have shown: "shown_ok (shown_of ?m2)" "names_ok (wired_of ?m2) (flow_names ?m2)"
    using views_close_all(1) [OF ok1] unfolding views_ok_def by blast+
  have "shown_of (clear_everything p m) = shown_of (?m2\<lparr>m_messages := Map.empty\<rparr>)"
    by (simp add: clear_everything_def Let_def) (simp add: shown_of_def)
  moreover have "wired_of (clear_everything p m) = wired_of ?m2" by (simp add: clear_everything_def Let_def)
  moreover have "flow_names ?m2 = flow_names (clear_everything p m)" by (simp add: fold_frame [where P = flows_of])
  ultimately show ?thesis using empty [OF shown(1) none] shown(2) by (simp add: views_ok_def)
qed

section \<open>Every event\<close>

text \<open>The rooms an event names itself; a relay's line ids, which are generated from letters and digits, have no colon.\<close>

fun named_rooms :: "manager_event \<Rightarrow> jstr list" where
  "named_rooms (ReconnectTimer b) = [b]"
| "named_rooms (HeartbeatTick b) = [b]"
| "named_rooms (PingTimeout b) = [b]"
| "named_rooms (EngineDelivers b s) = [b]"
| "named_rooms (UserOpens b) = [b]"
| "named_rooms (UserReconnects b) = [b]"
| "named_rooms (UserRejoins b) = [b]"
| "named_rooms (UserConnects b pin h url) = [b]"
| "named_rooms (UserSends b body reply) = [b]"
| "named_rooms (UserSendsImage b prepared reply) = [b]"
| "named_rooms (UserSendsFile b name mime bs reply) = [b]"
| "named_rooms (UserDeletes b i) = [b]"
| "named_rooms (UserWipesOwn b) = [b]"
| "named_rooms (UserWipesBoth b) = [b]"
| "named_rooms (UserForgets b) = [b]"
| "named_rooms (RestoreRoom rec) = [rec_bucketId rec]"
| "named_rooms _ = []"

definition plain_names :: "context_now \<times> manager_event \<Rightarrow> bool" where
  "plain_names e \<longleftrightarrow> list_all (\<lambda>b. colon \<notin> set b) (named_rooms (snd e))"

lemma views_step:
  assumes "views_ok m" "manager_enabled e m" "plain_names e"
  shows "views_ok (manager_step p e m)"
  using assms
  by (cases "(p, e, m)" rule: manager_step.cases) (simp_all add: plain_names_def views_client views_flow flow_enabled_def views_timer_fires views_ticks views_ensure_all
    views_offline views_start views_closing views_forget lock_def views_release_all views_clear restore_begin_def, 
    simp_all add: views_ok_def shown_deliver shown_text shown_attachments shown_sendDelete shown_wipe shown_wipes
      retryTransfer_def cancelTransfer_def engine_does_def send_settles_def Let_def split: option.split waiter.split)

interpretation views: event_system "manager_step p" "\<lambda>e m. manager_enabled e m \<and> plain_names e" views_ok
  by unfold_locales (simp add: views_step)

lemma run_ok_restrict:
  "run_ok en step es s \<Longrightarrow> list_all P es \<Longrightarrow> run_ok (\<lambda>e s. en e s \<and> P e) step es s"
  by (induction es arbitrary: s) simp_all

lemma new_manager_views: "db_ok d \<Longrightarrow> views_ok (new_manager d v st)"
  by (simp add: views_ok_def names_ok_def wired_of_def flows_of_def new_manager_def shown_ok_iff getMessages_def the_room_def)


text \<open>The concrete room, with one message stored.\<close>

definition toy_db :: db where
  "toy_db = addMessage (js ''room'') toy_stored empty_db"

abbreviation toy_open_room :: manager where
  "toy_open_room \<equiv> run (manager_step toy_platform) toy_opening (new_manager toy_db new_vault (Some []))"

lemma toy_room_opened:
  "run_ok manager_enabled (manager_step toy_platform) toy_opening (new_manager toy_db new_vault (Some []))"
  "the_room (js ''room'') toy_open_room \<noteq> None" "db_messages (m_db toy_open_room) = db_messages toy_db"
  by (simp_all add: opening_defs toy_db_def addMessage_def)

lemma toy_names: "db_ok toy_db" "list_all plain_names toy_opening"
  by (simp_all add: toy_db_def addMessage_ok empty_db_ok js_def unit_of_def colon_def toy_opening_def plain_names_def)


end
