(* ===== verification/Retries.thy ===== *)
theory Retries
  imports ManagerInv
begin

text \<open>
  The managed reconnection of a room: its delay is meant to double with every attempt that fails. The count of
  attempts is lost when the next attempt starts, so it never does.
\<close>

section \<open>A count that is lost\<close>

text \<open>No attempt is counted for the room, and a timer it may have is the first one.\<close>

fun first_retry :: "jstr \<Rightarrow> (jstr \<times> nat option) list \<times> (jstr \<rightharpoonup> nat \<times> nat) \<times> jstr set \<times> jstr set \<times> bool \<times> nat \<times>
    (jstr \<rightharpoonup> nat) \<Rightarrow> bool" where
  "first_retry b (rooms, timers, beats, pings, locked, n, attempts) \<longleftrightarrow>
     attempts b = None \<and> (timers b = None \<or> timers b = Some (1000, 0))"

lemma first_retry_iff:
  "first_retry b (net_of m) \<longleftrightarrow> m_attempts m b = None \<and> (m_timers m b = None \<or> m_timers m b = Some (1000, 0))"
  by (simp add: net_of_def)

lemma first_same [simp]:
  "first_retry b (net_of (stopHeartbeat b' m)) = first_retry b (net_of m)"
  "first_retry b (net_of (stopAllHeartbeats m)) = first_retry b (net_of m)"
  "first_retry b (net_of (startHeartbeat b' m)) = first_retry b (net_of m)"
  "first_retry b (net_of (onHeartbeatPong b' m)) = first_retry b (net_of m)"
  "first_retry b (net_of (upd_room b' f m)) = first_retry b (net_of m)"
  "first_retry b (net_of (upd_same b' r f m)) = first_retry b (net_of m)"
  "first_retry b (net_of (m\<lparr>m_pings := x1\<rparr>)) = first_retry b (net_of m)"
  "first_retry b (net_of (m\<lparr>m_locked := x2\<rparr>)) = first_retry b (net_of m)"
  "first_retry b (net_of (m\<lparr>m_clients := x3\<rparr>)) = first_retry b (net_of m)"
  "first_retry b (net_of (m\<lparr>m_rooms := x4\<rparr>)) = first_retry b (net_of m)"
  by (simp_all add: first_retry_iff stopHeartbeat_def stopAllHeartbeats_def startHeartbeat_def onHeartbeatPong_def
      upd_room_def upd_same_def Let_def split: option.split)

lemma first_cancel:
  "first_retry b (net_of m) \<Longrightarrow> first_retry b (net_of (cancelManagedReconnect b' m))"
  "first_retry b (net_of m) \<Longrightarrow> first_retry b (net_of (cancelAllManagedReconnects m))"
  "first_retry b (net_of m) \<Longrightarrow> first_retry b (net_of (resetReconnectState b' m))"
  unfolding net_reset by (simp_all add: cancelManagedReconnect_def cancelAllManagedReconnects_def first_retry_iff)

lemma first_reset: "first_retry b (net_of (resetReconnectState b m))"
  unfolding net_reset by (simp add: cancelManagedReconnect_def first_retry_iff)

lemma first_schedule:
  assumes "first_retry b (net_of m)"
  shows "first_retry b (net_of (scheduleManagedReconnect b' m))"
proof -
  have reach: "m_timers (syncRuntimes (upd_runtime b' g x)) = m_timers x" "m_attempts (syncRuntimes (upd_runtime b' g x)) = m_attempts x"
    for g x by (simp_all add: syncRuntimes_def upd_runtime_def upd_room_def split: option.split)
  then have stalled: "m_timers (markReconnectStalled b' x) = m_timers x" "m_attempts (markReconnectStalled b' x) = m_attempts x"
    for x by (simp_all add: markReconnectStalled_def)
  have new: "(case m_attempts x b' of None \<Rightarrow> 0 | Some n \<Rightarrow> n) = 0" if "first_retry b (net_of x)" "b' = b" for x
    using that by (simp add: first_retry_iff)
  show ?thesis
    using assms new [of "cancelManagedReconnect b' m"] first_cancel(1) [OF assms, of b']
    by (auto simp: scheduleManagedReconnect_def Let_def net_stalled first_retry_iff reach stalled MAX_RECONNECT_ATTEMPTS_def
        MAX_RECONNECT_DELAY_MS_def split: option.split)
qed

lemma first_disconnect: "first_retry b (net_of m) \<Longrightarrow> first_retry b (net_of (handleDisconnectForReconnect b' m))"
  by (simp add: handleDisconnectForReconnect_def first_schedule split: option.split)

lemma first_timer_fires: "first_retry b (net_of m) \<Longrightarrow> b' \<noteq> b \<Longrightarrow> first_retry b (net_of (reconnect_timer_fires b' m))"
  by (simp add: reconnect_timer_fires_def Let_def split: option.split) (auto simp: first_retry_iff)

lemma first_stale: "first_retry b (net_of m) \<Longrightarrow> first_retry b (net_of (forceStaleReconnect b' m))"
  by (simp add: forceStaleReconnect_def split: option.split)

lemma first_ping: "first_retry b (net_of m) \<Longrightarrow> first_retry b (net_of (sendHeartbeatPing b' m))"
  by (simp add: sendHeartbeatPing_def Let_def first_stale split: option.split)

lemma first_ticks:
  "first_retry b (net_of m) \<Longrightarrow> first_retry b (net_of (heartbeat_tick cx b' m))"
  "first_retry b (net_of m) \<Longrightarrow> first_retry b (net_of (heartbeat_timeout b' m))"
  "first_retry b (net_of m) \<Longrightarrow> first_retry b (net_of (ensure_connected b' m))"
  by (simp_all add: heartbeat_tick_def heartbeat_timeout_def ensure_connected_def Let_def first_ping first_stale first_cancel
      split: option.split)

lemma first_ensure_all: "first_retry b (net_of m) \<Longrightarrow> first_retry b (net_of (ensureAllConnected m))"
  by (simp add: ensureAllConnected_def fold_keeps [where P = "\<lambda>m. first_retry b (net_of m)"] first_ticks)

section \<open>Callbacks and flows\<close>

lemma first_onStatus: "first_retry b (net_of m) \<Longrightarrow> first_retry b (net_of (onStatus p cx k b' s detail m))"
  by (simp add: onStatus_def engine_connected_def Let_def first_cancel first_disconnect)

lemma first_onControl: "first_retry b (net_of m) \<Longrightarrow> first_retry b (net_of (onControl p cx b' msg m))"
  by (simp add: onControl_def engine_connected_def Let_def split: option.split control_msg.split bool.split)

lemma first_dispatch: "first_retry b (net_of m) \<Longrightarrow> first_retry b (net_of (dispatch_call p cx k b' x m))"
  by (cases x) (simp_all add: first_onStatus first_onControl net_onBinary)

lemma first_client: "first_retry b (net_of m) \<Longrightarrow> first_retry b (net_of (client_happens p cx k ev m))"
  by (simp add: client_happens_def Let_def case_prod_beta fold_keeps [where P = "\<lambda>m. first_retry b (net_of m)"]
      first_dispatch split: option.split)

lemma first_finish: "first_retry b (net_of m) \<Longrightarrow> first_retry b (net_of (finish_flow n own res m))"
  by (simp add: finish_flow_def after_done_def Let_def first_schedule split: option.split sum.split after_flow.split)

lemma first_wait: "first_retry b (net_of m) \<Longrightarrow> first_retry b (net_of (waitForRelay cx n b' start m))"
  by (simp add: waitForRelay_def Let_def first_finish split: option.split)

lemma first_relay: "first_retry b (net_of m) \<Longrightarrow> first_retry b (net_of (connectRelay p cx n b' t m))"
  by (simp add: connectRelay_def make_client_def Let_def first_finish first_wait first_client split: option.split)

lemma first_to_relay: "first_retry b (net_of m) \<Longrightarrow> first_retry b (net_of (to_relay p cx n b' r quiet m))"
  by (simp add: to_relay_def Let_def case_prod_beta first_finish first_relay net_token split: option.split)

lemma first_open_fresh: "first_retry b (net_of m) \<Longrightarrow> first_retry b (net_of (open_fresh p cx n b' m))"
proof -
  assume ok: "first_retry b (net_of m)"
  have "first_retry b (net_of (m\<lparr>m_messages := u, m_oids := v, m_rooms := R\<rparr>))" for u v R
    using ok by (simp add: first_retry_iff)
  then show ?thesis
    using ok by (simp add: open_fresh_def syncMessages_def Let_def first_finish first_to_relay split: option.split)
qed

lemma first_open: "first_retry b (net_of m) \<Longrightarrow> first_retry b (net_of (doOpenRoom p cx n b' m))"
  by (simp add: doOpenRoom_def Let_def first_finish first_to_relay first_open_fresh split: option.split)

lemma first_reconnecting:
  "first_retry b (net_of m) \<Longrightarrow> first_retry b (net_of (doReconnectRoom n b' m))"
  "first_retry b (net_of m) \<Longrightarrow> first_retry b (net_of (connectRoom p cx n b' m))"
  by (simp_all add: doReconnectRoom_def connectRoom_def Let_def first_finish first_to_relay split: option.split)

lemma first_flow: "first_retry b (net_of m) \<Longrightarrow> first_retry b (net_of (flow_step p cx n m))"
  by (simp add: flow_step_def Let_def after_pause_def make_client_def first_finish first_open first_reconnecting first_cancel
      first_to_relay first_wait first_client split: flow_pc.split)

section \<open>Closing\<close>

lemma first_close: "first_retry b (net_of m) \<Longrightarrow> first_retry b (net_of (closeRoomConnection b' m))"
  by (simp add: closeRoomConnection_def Let_def first_cancel split: option.split)

lemma first_closeRoom: "first_retry b (net_of m) \<Longrightarrow> first_retry b (net_of (closeRoom p b' m))"
  by (simp add: closeRoom_def Let_def first_close)

lemma first_closing:
  assumes "first_retry b (net_of m)"
  shows "first_retry b (net_of (forgetRoom p b' m))" "first_retry b (net_of (snd (connectWithPin p cx b' pin h url m)))"
    "first_retry b (net_of (release_begin b' m))" "first_retry b (net_of (release_end p b' m))"
    "first_retry b (net_of (rejoinRoom b' m))" "first_retry b (net_of (release_all_end ids m))"
    "first_retry b (net_of (restore_one p rec m))" "first_retry b (net_of (lock m))"
    "first_retry b (net_of (clear_everything p m))"
  using assms
  by (simp_all add: forgetRoom_def connectWithPin_def release_begin_def release_end_def rejoinRoom_def release_all_end_def
      restore_one_def lock_def release_all_begin_def clear_everything_def Let_def first_closeRoom first_close first_cancel
      fold_keeps [where P = "\<lambda>m. first_retry b (net_of m)"] split: option.split)

lemma first_step:
  "first_retry b (net_of m) \<Longrightarrow> snd e \<noteq> ReconnectTimer b \<Longrightarrow> first_retry b (net_of (manager_step p e m))"
  by (cases "(p, e, m)" rule: manager_step.cases)
    (simp_all add: first_client first_flow first_timer_fires first_ticks net_send_settles engine_does_def first_ensure_all
      net_offline retryTransfer_def cancelTransfer_def first_closing restore_begin_def)

interpretation retries: event_system "manager_step p" "\<lambda>e m. snd e \<noteq> ReconnectTimer b" "\<lambda>m. first_retry b (net_of m)"
  by unfold_locales (simp add: first_step)

lemma run_ok_all: "list_all P es \<Longrightarrow> run_ok (\<lambda>e s. P e) step es s"
  by (induction es arbitrary: s) simp_all

lemma flow_started:
  "m_open m b = None \<Longrightarrow> the_room b m \<noteq> None \<Longrightarrow> m_timers m b = Some t \<Longrightarrow>
   m_flows (reconnect_timer_fires b m) = m_flows m @ [\<lparr>fl_bucket = b, fl_pc = ReconnectRecord, fl_then = ManagedRetry\<rparr>] \<and>
   m_db (reconnect_timer_fires b m) = m_db m"
  by (cases t) (simp add: reconnect_timer_fires_def Let_def the_room_def reconnectRoom_def start_flow_def)


text \<open>A concrete room, waiting for its sixth attempt; it has no PIN, so the attempt fails.\<close>

definition toy_waiting_room :: internal_room where
  "toy_waiting_room =
     \<lparr>ir_oid = 0, ir_client = None, ir_key = [],
      ir_fragment = \<lparr>fr_keyRaw = [], fr_pv = [1], fr_salt = [2], fr_seat = None, fr_legacy = False\<rparr>,
      ir_roomPin = None, ir_legacyToken = None, ir_relayUrl = [], ir_runtime = new_runtime False\<rparr>"

definition toy_waiting :: manager where
  "toy_waiting = (new_manager empty_db new_vault (Some []))
     \<lparr>m_rooms := [([], toy_waiting_room)], m_timers := [[] \<mapsto> (30000, 5)], m_attempts := [[] \<mapsto> 5]\<rparr>"

definition toy_retry :: "(context_now \<times> manager_event) list" where
  "toy_retry = map (Pair toy_context) [FlowGoesOn 0, FlowGoesOn 0]"

lemma toy_waits:
  "m_timers toy_waiting [] = Some (30000, 5)" "the_room [] toy_waiting \<noteq> None"
  "m_open toy_waiting [] = None" "\<not> seat_released [] toy_waiting" "length (m_flows toy_waiting) = 0"
  "list_all (\<lambda>e. snd e \<noteq> ReconnectTimer []) toy_retry"
  by (simp_all add: toy_waiting_def toy_retry_def new_manager_def the_room_def seat_released_def getRoom_def empty_db_def)

lemmas retry_defs = reconnect_timer_fires_def reconnectRoom_def start_flow_def flow_step_def seat_released_def getRoom_def
  doReconnectRoom_def resetReconnectState_def cancelManagedReconnect_def upd_runtime_def upd_room_def stopHeartbeat_def
  suppress_def unsuppress_def after_pause_def connectRoom_def to_relay_def relayTokenForRoom_def live_room_def finish_flow_def
  after_done_def set_pc_def scheduleManagedReconnect_def MAX_RECONNECT_ATTEMPTS_def MAX_RECONNECT_DELAY_MS_def
  start_connecting_def syncRuntimes_def the_room_def is_connected_def client_of_def truthy_def new_manager_def empty_db_def
  toy_waiting_room_def new_runtime_def Let_def


end
