(* ===== verification/Deadlock.thy ===== *)
theory Deadlock
  imports ManagerViews Retries
begin

text \<open>
  A connect flow that waits for itself. A reconnection that finds its room closed after its pause calls
  \<open>openRoom\<close>, which returns the promise that is registered for the room: the reconnection's own.
\<close>

section \<open>Rooms that are open\<close>

text \<open>\<open>fst (shown_of m)\<close> is the set of open rooms; the operations on messages leave it alone.\<close>

lemma rooms_net: "fst (shown_of m) = net_rooms (net_of m)"
  by (simp add: shown_of_def net_of_def net_rooms_def fst_rooms)

lemma rooms_touching [simp]:
  "fst (shown_of (applyDelete p b i m)) = fst (shown_of m)" "fst (shown_of (snd (sendDelete p cx b i m))) = fst (shown_of m)"
  "fst (shown_of (wipeLocalHistory p b m)) = fst (shown_of m)"
  "fst (shown_of (snd (wipeBothHistories p cx b m))) = fst (shown_of m)"
  "fst (shown_of (applyWipeHistory p b m)) = fst (shown_of m)"
  "fst (shown_of (handleHistoryChunk p cx b c m)) = fst (shown_of m)"
  "fst (shown_of (snd (sendImage p cx b pr rep m))) = fst (shown_of m)"
  "fst (shown_of (snd (sendFile p cx b nm mi bs rep m))) = fst (shown_of m)"
  "fst (shown_of (snd (send_text p cx b body rep m))) = fst (shown_of m)"
  "fst (shown_of (deliverIncoming cx b s m)) = fst (shown_of m)"
  "fst (shown_of (receive_content p cx b oi ct m)) = fst (shown_of m)"
  by (simp_all add: rooms_net)

lemma rooms_receive [simp]: "fst (shown_of (receive p cx b plain m)) = fst (shown_of m)"
  by (cases "(p, cx, b, plain, m)" rule: receive.cases) simp_all

lemma rooms_onBinary [simp]: "fst (shown_of (onBinary p cx b buf m)) = fst (shown_of m)"
  by (simp add: onBinary_def Let_def split: option.split sum.split)

lemma rooms_dispatch [simp]: "fst (shown_of (dispatch_call p cx k b x m)) = fst (shown_of m)"
  by (cases x) simp_all

lemma rooms_client [simp]: "fst (shown_of (client_happens p cx k ev m)) = fst (shown_of m)"
  by (simp add: client_happens_def Let_def case_prod_beta fold_frame [where P = "\<lambda>m. fst (shown_of m)"] split: option.split)

section \<open>A flow that waits for itself\<close>

fun finished :: "flow_pc \<Rightarrow> bool" where
  "finished (FlowDone res) = True"
| "finished _ = False"

text \<open>
  Flow \<open>n\<close> holds the room's promise and waits for flow \<open>k\<close>, which waits for flow \<open>n\<close>; every other flow of the room
  waits for flow \<open>n\<close>, unless it has finished before flow \<open>k\<close> was started; and the room is not open.
\<close>

fun stuck :: "jstr \<Rightarrow> nat \<Rightarrow> nat \<Rightarrow> jstr set \<Rightarrow> (jstr \<rightharpoonup> nat) \<times> flow list \<Rightarrow> bool" where
  "stuck b n k rooms (promises, fs) \<longleftrightarrow>
     b \<notin> rooms \<and> promises b = Some n \<and> n < length fs \<and> k < length fs \<and> n \<noteq> k \<and>
     fl_bucket (fs ! n) = b \<and> fl_pc (fs ! n) = JoinFlow k True \<and> fl_bucket (fs ! k) = b \<and> fl_pc (fs ! k) = JoinFlow n False \<and>
     (\<forall>i < length fs. fl_bucket (fs ! i) = b \<and> i \<noteq> n \<longrightarrow>
        fl_pc (fs ! i) = JoinFlow n False \<or> i < k \<and> finished (fl_pc (fs ! i)))"

definition stuck_in :: "jstr \<Rightarrow> nat \<Rightarrow> nat \<Rightarrow> manager \<Rightarrow> bool" where
  "stuck_in b n k m \<longleftrightarrow> stuck b n k (fst (shown_of m)) (flows_of m)"

text \<open>The same, while flow \<open>i\<close> of another room makes its step.\<close>

fun other_flow :: "jstr \<Rightarrow> nat \<Rightarrow> (jstr \<rightharpoonup> nat) \<times> flow list \<Rightarrow> bool" where
  "other_flow b i (promises, fs) \<longleftrightarrow> i < length fs \<and> fl_bucket (fs ! i) \<noteq> b"

definition going :: "jstr \<Rightarrow> nat \<Rightarrow> nat \<Rightarrow> nat \<Rightarrow> manager \<Rightarrow> bool" where
  "going b n k i m \<longleftrightarrow> stuck_in b n k m \<and> other_flow b i (flows_of m)"

lemma stuck_more:
  assumes "stuck b n k rooms (promises, fs)" "fl_bucket f = b \<Longrightarrow> fl_pc f = JoinFlow n False"
  shows "stuck b n k rooms (promises, fs @ [f])"
  using assms by (auto simp: nth_append less_Suc_eq)

lemma stuck_other:
  assumes "stuck b n k rooms (promises, fs)" "fl_bucket (fs ! i) \<noteq> b" "fl_bucket f \<noteq> b" "promises' b = promises b"
  shows "stuck b n k rooms (promises', fs[i := f])"
proof -
  have "i \<noteq> n" "i \<noteq> k" using assms(1,2) by auto
  moreover have "fl_pc (fs[i := f] ! j) = JoinFlow n False \<or> j < k \<and> finished (fl_pc (fs[i := f] ! j))"
    if "j < length fs" "fl_bucket (fs[i := f] ! j) = b" "j \<noteq> n" for j
    using that assms by (cases "i = j") auto
  ultimately show ?thesis using assms by simp
qed

lemma stuck_start: "stuck_in b n k m \<Longrightarrow> stuck_in b n k (start_flow pc b' th m)"
proof -
  assume s: "stuck_in b n k m"
  then have "m_open m b = Some n" by (simp add: flows_of_def stuck_in_def)
  then show "stuck_in b n k (start_flow pc b' th m)"
    using s unfolding flows_start stuck_in_def by (intro stuck_more) (simp_all add: flows_of_def)
qed

lemma stuck_open: "stuck_in b n k m \<Longrightarrow> stuck_in b n k (openRoom b' th m)"
  and stuck_reconnect: "stuck_in b n k m \<Longrightarrow> stuck_in b n k (reconnectRoom b' th m)"
  using stuck_start unfolding openRoom_def reconnectRoom_def by blast+

lemma going_parts:
  "going b n k i m \<longleftrightarrow> stuck b n k (fst (shown_of m)) (m_open m, m_flows m) \<and> i < length (m_flows m) \<and>
     fl_bucket (m_flows m ! i) \<noteq> b"
  by (simp add: going_def stuck_in_def flows_of_def del: stuck.simps)

lemma going_start: "going b n k i m \<Longrightarrow> going b n k i (start_flow pc b' th m)"
  using stuck_start [of b n k m pc b' th] unfolding going_def
  by (simp add: flows_start) (simp add: flows_of_def nth_append)

lemma going_set_pc: "going b n k i m \<Longrightarrow> going b n k i (set_pc i pc m)"
  unfolding going_parts by (auto simp: set_pc_def simp del: stuck.simps intro!: stuck_other)

lemma going_finish: "going b n k i m \<Longrightarrow> going b n k i (finish_flow i own res m)"
proof -
  assume g: "going b n k i m"
  have rooms: "fst (shown_of (finish_flow i own res m)) = fst (shown_of m)"
    by (simp add: finish_flow_def after_done_def Let_def split: option.split sum.split after_flow.split)
  show ?thesis
    using g unfolding going_def stuck_in_def rooms flows_finish
    by (auto simp: flows_of_def simp del: stuck.simps intro!: stuck_other)
qed

lemma going_promise:
  "going b n k i m \<Longrightarrow> b' \<noteq> b \<Longrightarrow> m_open m = f \<Longrightarrow> going b n k i (m\<lparr>m_open := f(b' := x)\<rparr>)"
  unfolding going_def stuck_in_def by (auto simp: flows_of_def)

lemma promises_reset [simp]: "m_open (resetReconnectState b m) = m_open m"
  using arg_cong [OF resetReconnectState_flows, of fst] by (simp add: flows_of_def)

lemma going_room:
  "going b n k i m \<Longrightarrow> b' \<noteq> b \<Longrightarrow> going b n k i (m\<lparr>m_rooms := AList.update b' r (m_rooms m)\<rparr>)"
proof -
  have "fst (shown_of (m\<lparr>m_rooms := AList.update b' r (m_rooms m)\<rparr>)) = insert b' (fst (shown_of m))"
    by (simp add: shown_of_def dom_update)
  then show "going b n k i m \<Longrightarrow> b' \<noteq> b \<Longrightarrow> going b n k i (m\<lparr>m_rooms := AList.update b' r (m_rooms m)\<rparr>)"
    unfolding going_def stuck_in_def by (cases "flows_of m") simp
qed

lemma going_frame:
  "fst (shown_of m') = fst (shown_of m) \<Longrightarrow> flows_of m' = flows_of m \<Longrightarrow> going b n k i m' = going b n k i m"
  by (simp add: going_def stuck_in_def)

lemma going_same [simp]:
  "going b n k i (stopHeartbeat b' m) = going b n k i m" "going b n k i (resetReconnectState b' m) = going b n k i m"
  "going b n k i (upd_runtime b' g m) = going b n k i m" "going b n k i (syncRuntimes m) = going b n k i m"
  "going b n k i (on_client c h m) = going b n k i m" "going b n k i (suppress b' m) = going b n k i m"
  "going b n k i (unsuppress b' m) = going b n k i m" "going b n k i (upd_same b' r f m) = going b n k i m"
  "going b n k i (client_happens p cx c ev m) = going b n k i m"
  "going b n k i (snd (relayTokenForRoom p b' r m)) = going b n k i m"
  "going b n k i (m\<lparr>m_creds := x1\<rparr>) = going b n k i m" "going b n k i (m\<lparr>m_oids := x2\<rparr>) = going b n k i m"
  "going b n k i (resumePendingOutgoing p cx b' m) = going b n k i m"
  by (simp_all add: going_def stuck_in_def suppress_def unsuppress_def upd_same_def relayTokenForRoom_def Let_def case_prod_beta
      split: option.split)

lemma going_fields [simp]:
  "going b n k i (m\<lparr>m_clients := x1\<rparr>) = going b n k i m" "going b n k i (m\<lparr>m_messages := x2\<rparr>) = going b n k i m"
  by (simp_all add: going_def stuck_in_def) (simp_all add: shown_of_def)

section \<open>Steps of other flows\<close>

lemma going_wait: "going b n k i m \<Longrightarrow> going b n k i (waitForRelay cx i b' start m)"
  by (simp add: waitForRelay_def Let_def going_finish going_set_pc split: option.split)

lemma going_relay: "going b n k i m \<Longrightarrow> going b n k i (connectRelay p cx i b' t m)"
  by (simp add: connectRelay_def make_client_def Let_def going_finish going_set_pc going_wait split: option.split)

lemma going_to_relay: "going b n k i m \<Longrightarrow> going b n k i (to_relay p cx i b' r quiet m)"
  by (simp add: to_relay_def Let_def case_prod_beta going_finish going_relay split: option.split)

lemma going_open_fresh:
  assumes "going b n k i m" "b' \<noteq> b"
  shows "going b n k i (open_fresh p cx i b' m)"
proof -
  have "going b n k i (m\<lparr>m_messages := u, m_oids := v, m_rooms := AList.update b' r (m_rooms m)\<rparr>)" for u v r
    using going_room [of b n k i "m\<lparr>m_messages := u, m_oids := v\<rparr>" b' r] assms by simp
  then show ?thesis
    using assms by (simp add: open_fresh_def syncMessages_def Let_def going_finish going_to_relay split: option.split)
qed

lemma going_open: "going b n k i m \<Longrightarrow> b' \<noteq> b \<Longrightarrow> going b n k i (doOpenRoom p cx i b' m)"
  by (simp add: doOpenRoom_def Let_def going_finish going_to_relay going_set_pc going_open_fresh split: option.split)

lemma going_reconnecting:
  "going b n k i m \<Longrightarrow> going b n k i (doReconnectRoom i b' m)"
  "going b n k i m \<Longrightarrow> going b n k i (connectRoom p cx i b' m)"
  by (simp_all add: doReconnectRoom_def connectRoom_def Let_def going_finish going_to_relay going_set_pc split: option.split)

lemma enabled_unfinished: "flow_enabled i m \<Longrightarrow> \<not> finished (fl_pc (m_flows m ! i))"
  by (cases "fl_pc (m_flows m ! i)") (simp_all add: flow_enabled_def)

lemma stuck_flow:
  assumes "stuck_in b n k m" "flow_enabled i m"
  shows "stuck_in b n k (flow_step p cx i m)"
proof (cases "fl_bucket (m_flows m ! i) = b")
  case True
  have "fl_pc (m_flows m ! i) = JoinFlow n False \<or> i = n"
    using assms True enabled_unfinished [OF assms(2)] by (auto simp: stuck_in_def flows_of_def flow_enabled_def)
  then have "flow_step p cx i m = m"
    using assms(1) by (auto simp: flow_step_def Let_def flows_of_def stuck_in_def)
  with assms(1) show ?thesis by simp
next
  case False
  then have g: "going b n k i m" using assms by (simp add: going_def flow_enabled_def flows_of_def)
  have "going b n k i (flow_step p cx i m)"
    using g False
    by (simp add: flow_step_def Let_def after_pause_def make_client_def openRoom_def going_finish going_open going_reconnecting
        going_to_relay going_wait going_set_pc going_start going_promise split: flow_pc.split)
  then show ?thesis by (simp add: going_def)
qed

section \<open>Every event\<close>

lemma rooms_iff: "b \<in> fst (shown_of m) \<longleftrightarrow> the_room b m \<noteq> None"
  by (simp add: rooms_net net_rooms_room)

lemma rooms_upd [simp]:
  "fst (shown_of (on_db f m)) = fst (shown_of m)" "fst (shown_of (m\<lparr>m_messages := x\<rparr>)) = fst (shown_of m)"
  by (simp_all add: shown_of_def on_db_def)

lemma rooms_close [simp]:
  "fst (shown_of (closeRoomConnection b' m)) = fst (shown_of m) - {b'}"
  "fst (shown_of (closeRoom p b' m)) = fst (shown_of m) - {b'}"
proof -
  show close: "fst (shown_of (closeRoomConnection b' m)) = fst (shown_of m) - {b'}" for m
    by (auto simp: rooms_iff closed_room split: if_splits)
  show "fst (shown_of (closeRoom p b' m)) = fst (shown_of m) - {b'}"
    by (simp add: closeRoom_def Let_def close)
qed

lemma stuck_fewer:
  assumes "stuck_in b n k m" "fst (shown_of m') \<subseteq> fst (shown_of m)" "flows_of m' = flows_of m"
  shows "stuck_in b n k m'"
  using assms unfolding stuck_in_def by (cases "flows_of m") auto

lemma stuck_closing:
  assumes "stuck_in b n k m"
  shows "stuck_in b n k (closeRoomConnection b' m)" "stuck_in b n k (closeRoom p b' m)" "stuck_in b n k (forgetRoom p b' m)"
    "stuck_in b n k (release_begin b' m)" "stuck_in b n k (release_end p b' m)"
  by (rule stuck_fewer [OF assms]; auto simp: forgetRoom_def release_begin_def release_end_def suppress_def unsuppress_def
      Let_def split: option.split)+

lemma stuck_same [simp]:
  "stuck_in b n k (stopHeartbeat b' m) = stuck_in b n k m" "stuck_in b n k (resetReconnectState b' m) = stuck_in b n k m"
  "stuck_in b n k (stopAllHeartbeats m) = stuck_in b n k m" "stuck_in b n k (cancelAllManagedReconnects m) = stuck_in b n k m"
  "stuck_in b n k (upd_runtime b' g m) = stuck_in b n k m" "stuck_in b n k (on_client c h m) = stuck_in b n k m"
  "stuck_in b n k (on_db f m) = stuck_in b n k m" "stuck_in b n k (log_effect x m) = stuck_in b n k m"
  "stuck_in b n k (keep_credentials b' cr m) = stuck_in b n k m" "stuck_in b n k (registerRoom p cx opts m) = stuck_in b n k m"
  "stuck_in b n k (m\<lparr>m_pings := x1\<rparr>) = stuck_in b n k m" "stuck_in b n k (m\<lparr>m_timers := x2\<rparr>) = stuck_in b n k m"
  "stuck_in b n k (m\<lparr>m_attempts := x3\<rparr>) = stuck_in b n k m" "stuck_in b n k (m\<lparr>m_creds := x4\<rparr>) = stuck_in b n k m"
  "stuck_in b n k (m\<lparr>m_vault := x5\<rparr>) = stuck_in b n k m" "stuck_in b n k (m\<lparr>m_locked := x6\<rparr>) = stuck_in b n k m"
  by (simp_all add: stuck_in_def)

lemma stuck_opening:
  assumes "stuck_in b n k m"
  shows "stuck_in b n k (snd (connectWithPin p cx b' pin h url m))" "stuck_in b n k (rejoinRoom b' m)"
    "stuck_in b n k (restore_one p rec m)" "stuck_in b n k (reconnect_timer_fires b' m)"
    "stuck_in b n k (ensure_connected b' m)" "stuck_in b n k (heartbeat_tick cx b' m)" "stuck_in b n k (heartbeat_timeout b' m)"
  using assms
  by (simp_all add: connectWithPin_def rejoinRoom_def restore_one_def reconnect_timer_fires_def ensure_connected_def
      heartbeat_tick_def heartbeat_timeout_def sendHeartbeatPing_def forceStaleReconnect_def Let_def stuck_open
      stuck_reconnect stuck_closing split: option.split)

lemma stuck_many:
  assumes "stuck_in b n k m"
  shows "stuck_in b n k (release_all_begin m)" "stuck_in b n k (release_all_end ids m)"
    "stuck_in b n k (ensureAllConnected m)" "stuck_in b n k (clear_everything p m)"
proof -
  note keeps = fold_keeps [where P = "stuck_in b n k"]
  show "stuck_in b n k (release_all_begin m)" "stuck_in b n k (release_all_end ids m)" "stuck_in b n k (ensureAllConnected m)"
    using assms
    by (simp_all add: release_all_begin_def release_all_end_def ensureAllConnected_def Let_def keeps stuck_closing stuck_opening
        split: option.split)
  have "stuck_in b n k (fold (closeRoom p) (map fst (m_rooms m')) m')" if "stuck_in b n k m'" for m'
    using that by (simp add: keeps stuck_closing)
  from this [of "stopAllHeartbeats (cancelAllManagedReconnects m)"] show "stuck_in b n k (clear_everything p m)"
    using assms by (rule_tac stuck_fewer) (simp_all add: clear_everything_def Let_def)
qed

lemma rooms_offline [simp]: "fst (shown_of (went_offline m)) = fst (shown_of m)"
  by (simp add: rooms_net net_offline)

lemma stuck_step:
  assumes "stuck_in b n k m" "manager_enabled e m"
  shows "stuck_in b n k (manager_step p e m)"
  using assms
  by (cases "(p, e, m)" rule: manager_step.cases)
    (simp_all add: stuck_flow stuck_open stuck_reconnect stuck_closing stuck_opening stuck_many lock_def restore_begin_def,
     simp_all add: stuck_in_def retryTransfer_def cancelTransfer_def engine_does_def send_settles_def Let_def
      split: option.split waiter.split)

interpretation stuck: event_system "manager_step p" manager_enabled "stuck_in b n k"
  by unfold_locales (rule stuck_step)

text \<open>C38
  A reconnection can wait for itself for ever. When a reconnection comes back from its pause and its room has been
  closed in the meantime (by leaving it, by locking the app, by entering the PIN again), it never returns, whatever
  happens afterwards: it keeps the room's only connect promise, no later call of \<open>openRoom\<close> or \<open>reconnectRoom\<close> for the
  room returns either, and the room is never open again.
\<close>

theorem reconnection_of_closed_room_hangs:
  assumes "n < length (m_flows m)" "m_flows m ! n = \<lparr>fl_bucket = b, fl_pc = ReconnectPause, fl_then = th\<rparr>"
    and "m_open m b = Some n" "the_room b m = None"
    and "\<forall>i < length (m_flows m). fl_bucket (m_flows m ! i) = b \<and> i \<noteq> n \<longrightarrow>
           fl_pc (m_flows m ! i) = JoinFlow n False \<or> finished (fl_pc (m_flows m ! i))"
    and "run_ok manager_enabled (manager_step p) ((cx, FlowGoesOn n) # evs) m"
    and "m' = run (manager_step p) ((cx, FlowGoesOn n) # evs) m"
  shows "m_open m' b = Some n \<and> the_room b m' = None \<and> fl_pc (m_flows m' ! n) = JoinFlow (length (m_flows m)) True \<and>
    (\<forall>i. length (m_flows m) \<le> i \<and> i < length (m_flows m') \<and> fl_bucket (m_flows m' ! i) = b \<longrightarrow>
       fl_pc (m_flows m' ! i) = JoinFlow n False)"
proof -
  let ?k = "length (m_flows m)" and ?m1 = "flow_step p cx n m"
  have "?m1 = set_pc n (JoinFlow ?k True) (openRoom b Nothing (unsuppress b m))"
    using assms(2,4) by (simp add: flow_step_def Let_def after_pause_def)
  then have flows: "flows_of ?m1 = (m_open m, (m_flows m)[n := \<lparr>fl_bucket = b, fl_pc = JoinFlow ?k True, fl_then = th\<rparr>] @
      [\<lparr>fl_bucket = b, fl_pc = JoinFlow n False, fl_then = Nothing\<rparr>])"
    and rooms: "fst (shown_of ?m1) = fst (shown_of m)"
    using assms(1-3)
    by (simp_all add: flows_set_pc openRoom_def start_flow_def unsuppress_def nth_append list_update_append)
  have "stuck_in b n ?k ?m1"
    using assms(1,3-5) unfolding stuck_in_def flows rooms
    by (auto simp: rooms_iff nth_append nth_list_update less_Suc_eq)
  then have "stuck_in b n ?k m'" using stuck.run_inv assms(6,7) by simp
  then show ?thesis
    using assms(1) by (auto simp: stuck_in_def flows_of_def rooms_iff)
qed

text \<open>A room that is reconnected without having been opened, and then opened.\<close>

definition toy_reconnecting :: manager where
  "toy_reconnecting = run (manager_step toy_platform) (map (Pair toy_context) [UserReconnects [], FlowGoesOn 0])
     (new_manager empty_db new_vault (Some []))"

lemma toy_reconnects:
  "0 < length (m_flows toy_reconnecting)"
  "m_flows toy_reconnecting ! 0 = \<lparr>fl_bucket = [], fl_pc = ReconnectPause, fl_then = Nothing\<rparr>"
  "m_open toy_reconnecting [] = Some 0" "the_room [] toy_reconnecting = None"
  "\<forall>i < length (m_flows toy_reconnecting). fl_bucket (m_flows toy_reconnecting ! i) = [] \<and> i \<noteq> 0 \<longrightarrow>
     fl_pc (m_flows toy_reconnecting ! i) = JoinFlow 0 False \<or> finished (fl_pc (m_flows toy_reconnecting ! i))"
  "run_ok manager_enabled (manager_step toy_platform) [(toy_context, FlowGoesOn 0), (toy_context, UserOpens [])] toy_reconnecting"
  by (simp_all add: toy_reconnecting_def retry_defs flow_enabled_def)

theorem reconnection_of_closed_room_hangs_witness:
  "m_open (run (manager_step toy_platform) [(toy_context, FlowGoesOn 0), (toy_context, UserOpens [])] toy_reconnecting) []
     = Some 0"
  using reconnection_of_closed_room_hangs [OF toy_reconnects refl] by blast

end
