(* ===== verification/HistoryArrival.thy ===== *)
theory HistoryArrival
  imports ManagerInv TransferInv
begin

text \<open>
  The receiving end of a history bundle: the chunks of \<open>splitHistoryChunks\<close>, taken in by \<open>handleHistoryChunk\<close>.
\<close>

section \<open>A bundle on its way\<close>

definition parts_of :: "bytes \<Rightarrow> nat \<Rightarrow> nat set \<Rightarrow> bytes option list" where
  "parts_of blob cs S = map (\<lambda>k. if k \<in> S then Some (slice_at cs blob k) else None) [0..<piece_count cs (length blob)]"

lemma parts_of_length [simp]: "length (parts_of blob cs S) = piece_count cs (length blob)"
  by (simp add: parts_of_def)

lemma parts_of_nth: "k < piece_count cs (length blob) \<Longrightarrow>
    parts_of blob cs S ! k = (if k \<in> S then Some (slice_at cs blob k) else None)"
  by (simp add: parts_of_def)

lemma parts_of_add:
  "k < piece_count cs (length blob) \<Longrightarrow> (parts_of blob cs S)[k := Some (slice_at cs blob k)] = parts_of blob cs (insert k S)"
  by (rule nth_equalityI) (auto simp: parts_of_nth nth_list_update)

lemma parts_of_none [simp]: "parts_of blob cs {} = replicate (piece_count cs (length blob)) None"
  by (rule nth_equalityI) (auto simp: parts_of_nth)

text \<open>While a piece is missing nothing is put together; with all of them, it is the blob.\<close>

lemma place_missing: "None \<in> set ps \<Longrightarrow> place_parts sz ps acc \<noteq> Placed bs"
proof (induction ps arbitrary: acc)
  case (Cons p ps)
  then show ?case by (cases p) auto
qed simp

lemma place_whole:
  assumes "0 < cs" "{0..<piece_count cs (length blob)} \<subseteq> S"
  shows "place_parts (length blob) (parts_of blob cs S) [] = Placed blob"
proof -
  have "map the (parts_of blob cs S) = map (slice_at cs blob) [0..<piece_count cs (length blob)]"
    using assms(2) by (auto simp: parts_of_def)
  then have "concat (map the (parts_of blob cs S)) = blob" using assms(1) by (simp add: concat_slices)
  moreover have "\<forall>p \<in> set (parts_of blob cs S). p \<noteq> None" using assms(2) by (auto simp: parts_of_def)
  ultimately show ?thesis using place_parts_all [of "parts_of blob cs S" "[]" "length blob"] by simp
qed

text \<open>
  The receiver holds the pieces in \<open>S\<close>; of what it had before, only the pending bundles and the progress it shows
  have changed.
\<close>

definition receiving :: "jstr \<Rightarrow> bytes \<Rightarrow> nat \<Rightarrow> nat set \<Rightarrow> manager \<Rightarrow> manager \<Rightarrow> bool" where
  "receiving i blob cs S m0 m \<longleftrightarrow>
     (\<exists>pend st ph. m = m0\<lparr>m_pendingHistory := pend, m_status := st\<rparr> \<and> pend i = Some ph \<and>
        ph_total ph = piece_count cs (length blob) \<and> ph_compressedLength ph = length blob \<and>
        ph_parts ph = parts_of blob cs S)"

definition bundle_applied :: "platform \<Rightarrow> jstr \<Rightarrow> jstr \<Rightarrow> bytes \<Rightarrow> manager \<Rightarrow> manager \<Rightarrow> bool" where
  "bundle_applied p b i blob m0 m \<longleftrightarrow>
     (\<exists>pend st. m = apply_history p b (takeWhile (\<lambda>u. u \<noteq> colon) i) blob (m0\<lparr>m_pendingHistory := pend, m_status := st\<rparr>) \<and>
        pend i = None)"

lemma record_order:
  "m\<lparr>m_status := st, m_pendingHistory := pend\<rparr> = m\<lparr>m_pendingHistory := pend, m_status := st\<rparr>" for m :: manager
  by simp

lemma history_piece_simps:
  "hc_id (history_piece i blob cs k) = i" "hc_index (history_piece i blob cs k) = k"
  "hc_total (history_piece i blob cs k) = piece_count cs (length blob)"
  "hc_data (history_piece i blob cs k) = slice_at cs blob k"
  using history.cut [of "(i, blob)" cs k] by simp_all

text \<open>The set of parts a piece finds: the one that waits for it, or a new one when it is the first.\<close>

lemma pending_receiving:
  assumes "receiving i blob cs S m0 m"
  obtains ph pend st where "pending_for cx (history_piece i blob cs k) m = Some ph"
    "m = m0\<lparr>m_pendingHistory := pend, m_status := st\<rparr>" "ph_total ph = piece_count cs (length blob)"
    "ph_compressedLength ph = length blob" "ph_parts ph = parts_of blob cs S"
proof -
  obtain pend st ph where m: "m = m0\<lparr>m_pendingHistory := pend, m_status := st\<rparr>" "pend i = Some ph"
    and ph: "ph_total ph = piece_count cs (length blob)" "ph_compressedLength ph = length blob"
      "ph_parts ph = parts_of blob cs S"
    using assms unfolding receiving_def by blast
  then have "pending_for cx (history_piece i blob cs k) m = Some ph"
    by (simp add: pending_for_def history_piece_simps)
  with m(1) ph show thesis by (rule that [rotated])
qed

lemma pending_first:
  assumes "m_pendingHistory m i = None"
  obtains ph where "pending_for cx (history_piece i blob cs 0) m = Some ph"
    "ph_total ph = piece_count cs (length blob)" "ph_compressedLength ph = length blob"
    "ph_parts ph = parts_of blob cs {}"
  using assms by (auto simp: pending_for_def history_piece_simps) (simp add: history_piece_def)

text \<open>A piece is taken in: the bundle is still on its way, or it is applied.\<close>

lemma chunk_stored:
  assumes "0 < cs" "k < piece_count cs (length blob)" "k \<notin> S"
    and "pending_for cx (history_piece i blob cs k) m = Some ph"
    and "m = m0\<lparr>m_pendingHistory := pend, m_status := st\<rparr>"
    and "ph_total ph = piece_count cs (length blob)" "ph_compressedLength ph = length blob" "ph_parts ph = parts_of blob cs S"
  shows "{0..<piece_count cs (length blob)} \<subseteq> insert k S \<Longrightarrow>
      bundle_applied p b i blob m0 (handleHistoryChunk p cx b (history_piece i blob cs k) m)"
    and "\<not> {0..<piece_count cs (length blob)} \<subseteq> insert k S \<Longrightarrow>
      receiving i blob cs (insert k S) m0 (handleHistoryChunk p cx b (history_piece i blob cs k) m)"
proof -
  let ?c = "history_piece i blob cs k"
  let ?shown = "sync_status PhTransferring (1 / 2 + recv_progress (store_part cx ?c ph) / 2) (takeWhile (\<lambda>u. u \<noteq> colon) i)
     (js ''Receiving'' @ ellipsis @ js '' '' @ percent (recv_progress (store_part cx ?c ph)))"
  have free: "\<not> (ph_total ph \<le> hc_index ?c \<or> ph_parts ph ! hc_index ?c \<noteq> None)"
    using assms(2,3,6,8) by (simp add: history_piece_simps parts_of_nth)
  have parts: "ph_parts (store_part cx ?c ph) = parts_of blob cs (insert k S)"
    using assms(2,8) by (simp add: store_part_def history_piece_simps parts_of_add)
  have same: "ph_total (store_part cx ?c ph) = piece_count cs (length blob)"
    "ph_compressedLength (store_part cx ?c ph) = length blob"
    using assms(6,7) by (simp_all add: store_part_def)
  have applied: "handleHistoryChunk p cx b ?c m = apply_history p b (takeWhile (\<lambda>u. u \<noteq> colon) i) blob
      (m0\<lparr>m_status := st(b \<mapsto> ?shown), m_pendingHistory := pend(i := None)\<rparr>)"
    if "{0..<piece_count cs (length blob)} \<subseteq> insert k S"
    using place_whole [OF assms(1) that] assms(4,5) free
    by (simp add: handleHistoryChunk_def Let_def parts same history_piece_simps setResyncStatus_def)
  show "bundle_applied p b i blob m0 (handleHistoryChunk p cx b ?c m)"
    if "{0..<piece_count cs (length blob)} \<subseteq> insert k S"
    unfolding bundle_applied_def applied [OF that]
    by (intro exI conjI, rule arg_cong [where f = "apply_history _ _ _ _"], rule record_order) simp
  show "receiving i blob cs (insert k S) m0 (handleHistoryChunk p cx b ?c m)"
    if "\<not> {0..<piece_count cs (length blob)} \<subseteq> insert k S"
  proof -
    have "None \<in> set (parts_of blob cs (insert k S))" using that by (auto simp: parts_of_def)
    then have missing: "place_parts (length blob) (parts_of blob cs (insert k S)) [] \<noteq> Placed bs" for bs
      by (rule place_missing)
    have "handleHistoryChunk p cx b ?c m =
        setResyncStatus b ?shown (m\<lparr>m_pendingHistory := (m_pendingHistory m)(i \<mapsto> store_part cx ?c ph)\<rparr>)"
      using assms(4) free
      by (cases "place_parts (length blob) (parts_of blob cs (insert k S)) []")
        (simp_all add: handleHistoryChunk_def Let_def parts same history_piece_simps missing)
    then show ?thesis using parts same
      unfolding receiving_def assms(5) setResyncStatus_def
      by (intro exI [where x = "pend(i \<mapsto> store_part cx ?c ph)"] exI [where x = "st(b \<mapsto> ?shown)"]
          exI [where x = "store_part cx ?c ph"]) simp
  qed
qed

text \<open>The rest of the pieces, in any order.\<close>

abbreviation take_in :: "platform \<Rightarrow> jstr \<Rightarrow> (context_now \<times> history_chunk) list \<Rightarrow> manager \<Rightarrow> manager" where
  "take_in p b \<equiv> fold (\<lambda>(cx, c). handleHistoryChunk p cx b c)"

lemma rest_arrives:
  assumes "0 < cs" "receiving i blob cs S m0 m" "distinct ks" "set ks = {0..<piece_count cs (length blob)} - S" "ks \<noteq> []"
    and "map snd ds = map (history_piece i blob cs) ks"
  shows "bundle_applied p b i blob m0 (take_in p b ds m)"
  using assms(2-)
proof (induction ds arbitrary: ks S m)
  case Nil
  then show ?case by simp
next
  case (Cons d ds)
  let ?n = "piece_count cs (length blob)"
  obtain cx c where d: "d = (cx, c)" by (cases d)
  obtain k ks' where ks: "ks = k # ks'" using Cons.prems(4) by (cases ks) auto
  have c: "c = history_piece i blob cs k" "map snd ds = map (history_piece i blob cs) ks'"
    using Cons.prems(5) by (simp_all add: ks d)
  have k: "k < ?n" "k \<notin> S" and ks': "distinct ks'" "set ks' = {0..<?n} - insert k S"
    using Cons.prems(2,3) by (auto simp: ks)
  obtain ph pend st where ph: "pending_for cx c m = Some ph" "m = m0\<lparr>m_pendingHistory := pend, m_status := st\<rparr>"
      "ph_total ph = ?n" "ph_compressedLength ph = length blob" "ph_parts ph = parts_of blob cs S"
    using pending_receiving [OF Cons.prems(1)] unfolding c(1) by metis
  note stored = chunk_stored [OF assms(1) k ph(1) [unfolded c(1)] ph(2-), of p b]
  show ?case
  proof (cases ks')
    case Nil
    with ks'(2) c have "{0..<?n} \<subseteq> insert k S" "ds = []" by auto
    with stored(1) show ?thesis by (simp add: d c(1))
  next
    case (Cons k' ks'')
    with ks'(2) have "\<not> {0..<?n} \<subseteq> insert k S" by auto
    from Cons.IH [OF stored(2) [OF this] ks' _ c(2)] Cons show ?thesis by (simp add: d c(1))
  qed
qed


section \<open>A bundle arrives\<close>

text \<open>What applying a readable payload leaves behind.\<close>

lemma applied_state:
  assumes "apply_sync (pf_nfc p) (pf_gunzip p) b blob (m_db m) = Inr d"
  shows "m_db (apply_history p b rid blob m) =
      (case truthy (m_peerFp m b) of None \<Rightarrow> d | Some f \<Rightarrow> setLastPeerDeviceFp b (Some f) d)"
    and "m_messages (apply_history p b rid blob m) b = Some (sort_key sm_id (by_id (listMessages (pf_nfc p) b d)))"
    and "m_sessions (apply_history p b rid blob m) b = None"
    and "m_expected (apply_history p b rid blob m) rid = None"
    and "m_status (apply_history p b rid blob m) b = Some (sync_status PhDone 1 rid (js ''History synced''))"
    and "m_pendingHistory (apply_history p b rid blob m) = m_pendingHistory m"
  using assms
  by (simp_all add: apply_history_def finishResyncIfDone_def Let_def trustPeerDeviceFp_def syncMessages_def log_effect_def
      setResyncStatus_def schedulePublishDigest_def on_db_def split: option.split)

lemma first_arrives:
  assumes "0 < cs" "m_pendingHistory m0 i = None" "distinct ks" "set ks = {0<..<piece_count cs (length blob)}"
    and "map snd ds = map (history_piece i blob cs) ks"
  shows "bundle_applied p b i blob m0 (take_in p b ((cx, history_piece i blob cs 0) # ds) m0)"
proof -
  let ?n = "piece_count cs (length blob)"
  have n: "0 < ?n" by (simp add: piece_count_def)
  obtain ph where ph: "pending_for cx (history_piece i blob cs 0) m0 = Some ph"
    "ph_total ph = ?n" "ph_compressedLength ph = length blob" "ph_parts ph = parts_of blob cs {}"
    using pending_first [OF assms(2)] .
  have m0: "m0 = m0\<lparr>m_pendingHistory := m_pendingHistory m0, m_status := m_status m0\<rparr>" by simp
  note stored = chunk_stored [OF assms(1) n _ ph(1) m0 ph(2-), of p b, simplified]
  show ?thesis
  proof (cases ks)
    case Nil
    with assms(4) have "{0..<?n} \<subseteq> {0}" by (auto simp: set_eq_iff)
    with stored(1) Nil assms(5) show ?thesis by simp
  next
    case (Cons k ks')
    with assms(4) have "0 < k \<and> k < ?n" by (metis greaterThanLessThan_iff list.set_intros(1))
    then have more: "\<not> {0..<?n} \<subseteq> {0}" by auto
    have "set ks = {0..<?n} - {0}" using assms(4) by auto
    from rest_arrives [OF assms(1) stored(2) [OF more] assms(3) this _ assms(5)] Cons show ?thesis by simp
  qed
qed

text \<open>The indices of the pieces behind the first.\<close>

lemma rest_pieces:
  assumes "splitHistoryChunks i blob cs = Inr (h # rest)" "mset rest' = mset rest"
  obtains ks where "0 < cs" "h = history_piece i blob cs 0" "distinct ks" "set ks = {0<..<piece_count cs (length blob)}"
    "rest' = map (history_piece i blob cs) ks"
proof -
  let ?n = "piece_count cs (length blob)" and ?ks = "map hc_index rest'"
  have cs: "0 < cs" and all: "h # rest = map (history_piece i blob cs) [0..<?n]"
    using assms(1) by (auto simp: splitHistoryChunks_def chunk_total_pieces split: if_splits)
  have upt: "[0..<?n] = 0 # [Suc 0..<?n]" using upt_rec [of 0 ?n] by (simp add: piece_count_def)
  have h: "h = history_piece i blob cs 0" and rest: "rest = map (history_piece i blob cs) [Suc 0..<?n]"
    using all unfolding upt by simp_all
  have "set rest' = set rest" using assms(2) by (metis set_mset_mset)
  then have "map (history_piece i blob cs \<circ> hc_index) rest' = rest'"
    by (intro map_idI) (auto simp: rest history_piece_simps)
  moreover have "mset ?ks = mset (map hc_index rest)" by (simp add: assms(2))
  then have "mset ?ks = mset [Suc 0..<?n]" by (simp add: rest comp_def history_piece_simps)
  then have "distinct ?ks" "set ?ks = {Suc 0..<?n}"
    using mset_eq_imp_distinct_iff [of ?ks "[Suc 0..<?n]"] mset_eq_setD [of ?ks "[Suc 0..<?n]"] by simp_all
  ultimately show thesis using that [of ?ks] cs h by (simp add: atLeastSucLessThan_greaterThanLessThan)
qed

text \<open>C39
  A history bundle arrives. The peer packs messages and cuts the payload into chunks under the id
  \<open>requestId:role\<close>; the chunk with the header comes first, the others in any order, at any times. Then the
  messages, sides swapped, are merged into the room's stored history; what is shown is the merged history in order;
  nothing is pending under that id; the session is over and the status says so. No request, prompt or approval is
  a hypothesis: a peer's chunks are merged, and the device the peer has named is trusted, whatever was asked for.
\<close>

theorem bundle_arrives:
  assumes "\<forall>bs. pf_gunzip p (pf_gzip p bs) = Some bs" "list_all (storable (pf_nfc p)) ms"
    and "colon \<notin> set rid" "i = rid @ js '':'' @ role"
    and "splitHistoryChunks i (packMessagesForSync (pf_gzip p) ms) cs = Inr (h # rest)"
    and "map snd ds = h # rest'" "mset rest' = mset rest" "m_pendingHistory m0 i = None"
    and "m = fold (\<lambda>(cx, c). handleHistoryChunk p cx b c) ds m0"
    and "d = mergeMessages (pf_nfc p) b (map flipFrom ms) (m_db m0)"
  shows "m_db m = (case truthy (m_peerFp m0 b) of None \<Rightarrow> d | Some f \<Rightarrow> setLastPeerDeviceFp b (Some f) d) \<and>
    m_messages m b = Some (sort_key sm_id (by_id (listMessages (pf_nfc p) b d))) \<and>
    m_pendingHistory m i = None \<and> m_sessions m b = None \<and> m_expected m rid = None \<and>
    m_status m b = Some (sync_status PhDone 1 rid (js ''History synced''))"
proof -
  let ?blob = "packMessagesForSync (pf_gzip p) ms"
  obtain ks where ks: "0 < cs" "h = history_piece i ?blob cs 0" "distinct ks"
    "set ks = {0<..<piece_count cs (length ?blob)}" "rest' = map (history_piece i ?blob cs) ks"
    using rest_pieces [OF assms(5,7)] .
  obtain cx ds' where ds: "ds = (cx, h) # ds'" "map snd ds' = rest'"
    using assms(6) by (cases ds) auto
  have "bundle_applied p b i ?blob m0 m"
    using first_arrives [OF ks(1) assms(8) ks(3,4)] ds ks(2,5) by (simp add: assms(9))
  moreover have "takeWhile (\<lambda>u. u \<noteq> colon) i = rid"
    using assms(3) by (auto simp: assms(4) js_def unit_of_def colon_def takeWhile_append)
  ultimately obtain pend st where m: "m = apply_history p b rid ?blob (m0\<lparr>m_pendingHistory := pend, m_status := st\<rparr>)"
    and none: "pend i = None" by (auto simp: bundle_applied_def)
  have "apply_sync (pf_nfc p) (pf_gunzip p) b ?blob (m_db (m0\<lparr>m_pendingHistory := pend, m_status := st\<rparr>)) = Inr d"
    using assms(1,2) by (simp add: apply_sync_def assms(10) unpack_pack)
  from applied_state [OF this, of rid] show ?thesis by (simp add: m none)
qed

text \<open>One message, in chunks of 20 bytes; those behind the first come in reverse.\<close>

abbreviation toy_bundle :: "history_chunk list result" where
  "toy_bundle \<equiv> splitHistoryChunks (js ''q:approver'') (packMessagesForSync (pf_gzip toy_platform) [toy_stored]) 20"

theorem bundle_arrives_witness:
  "\<exists>chunks m. toy_bundle = Inr chunks \<and>
     m = fold (\<lambda>(cx, c). handleHistoryChunk toy_platform cx (js ''r'') c)
           (map (Pair toy_context) (hd chunks # rev (tl chunks))) (new_manager empty_db new_vault (Some [])) \<and>
     m_db m = mergeMessages (\<lambda>s. s) (js ''r'') [flipFrom toy_stored] empty_db \<and>
     m_status m (js ''r'') = Some (sync_status PhDone 1 (js ''q'') (js ''History synced''))"
proof -
  have "0 < chunk_total 20 n" for n by (simp add: chunk_total_def)
  then obtain h rest where chunks: "toy_bundle = Inr (h # rest)"
    by (simp add: splitHistoryChunks_def upt_conv_Cons del: upt_Suc)
  let ?m0 = "new_manager empty_db new_vault (Some [])"
  have nfc: "pf_nfc toy_platform = (\<lambda>s. s)" and zip: "\<forall>bs. pf_gunzip toy_platform (pf_gzip toy_platform bs) = Some bs"
    by (simp_all add: toy_platform_def)
  have ms: "list_all (storable (pf_nfc toy_platform)) [toy_stored]" by (simp add: toy_storable)
  have names: "colon \<notin> set (js ''q'')" "js ''q:approver'' = js ''q'' @ js '':'' @ js ''approver''"
    by (simp_all add: js_def unit_of_def colon_def)
  have empty: "truthy (m_peerFp ?m0 b) = None" "m_db ?m0 = empty_db" "m_pendingHistory ?m0 i = None" for b i
    by (simp_all add: new_manager_def truthy_def)
  have "map snd (map (Pair toy_context) (h # rev rest)) = h # rev rest" by (simp add: comp_def)
  then obtain m where m: "m = fold (\<lambda>(cx, c). handleHistoryChunk toy_platform cx (js ''r'') c)
      (map (Pair toy_context) (h # rev rest)) ?m0"
    and snd: "map snd (map (Pair toy_context) (h # rev rest)) = h # rev rest" by simp
  note arrived = bundle_arrives [OF zip ms names chunks snd mset_rev empty(3) m refl, unfolded nfc empty(1,2)]
  then have "m_db m = mergeMessages (\<lambda>s. s) (js ''r'') [flipFrom toy_stored] empty_db"
    "m_status m (js ''r'') = Some (sync_status PhDone 1 (js ''q'') (js ''History synced''))" by simp_all
  then show ?thesis using chunks m by (intro exI [where x = "h # rest"] exI [where x = m] conjI) (simp_all only: list.sel)
qed

end
