(* ===== verification/GateFrames.thy ===== *)
theory GateFrames
  imports ManagerViews Retries
begin

text \<open>
  The connection manager and the vault: no operation of the manager touches the vault's key or the entry of the
  database that holds the PIN's verifier. \<open>gate_of\<close> is that part of the state.
\<close>

section \<open>The vault's part of the state\<close>

definition gate_of :: "manager \<Rightarrow> bytes option \<times> json option" where
  "gate_of m = (vt_key (m_vault m), getMetaFromDb (m_db m))"

lemmas frame_splits = option.split sum.split list.split prod.split bool.split placement.split after_flow.split waiter.split

lemmas frame_simps = Let_def case_prod_beta

lemma gate_fields [simp]:
  "gate_of (m\<lparr>m_rooms := u0\<rparr>) = gate_of m"
  "gate_of (m\<lparr>m_clients := u1\<rparr>) = gate_of m"
  "gate_of (m\<lparr>m_creds := u2\<rparr>) = gate_of m"
  "gate_of (m\<lparr>m_open := u3\<rparr>) = gate_of m"
  "gate_of (m\<lparr>m_flows := u4\<rparr>) = gate_of m"
  "gate_of (m\<lparr>m_timers := u5\<rparr>) = gate_of m"
  "gate_of (m\<lparr>m_attempts := u6\<rparr>) = gate_of m"
  "gate_of (m\<lparr>m_heartbeats := u7\<rparr>) = gate_of m"
  "gate_of (m\<lparr>m_pings := u8\<rparr>) = gate_of m"
  "gate_of (m\<lparr>m_suppress := u9\<rparr>) = gate_of m"
  "gate_of (m\<lparr>m_locked := u10\<rparr>) = gate_of m"
  "gate_of (m\<lparr>m_pacers := u11\<rparr>) = gate_of m"
  "gate_of (m\<lparr>m_engine := u12\<rparr>) = gate_of m"
  "gate_of (m\<lparr>m_jobs := u13\<rparr>) = gate_of m"
  "gate_of (m\<lparr>m_pushes := u14\<rparr>) = gate_of m"
  "gate_of (m\<lparr>m_pendingHistory := u15\<rparr>) = gate_of m"
  "gate_of (m\<lparr>m_sessions := u16\<rparr>) = gate_of m"
  "gate_of (m\<lparr>m_peerDigests := u17\<rparr>) = gate_of m"
  "gate_of (m\<lparr>m_peerFp := u18\<rparr>) = gate_of m"
  "gate_of (m\<lparr>m_digestTimers := u19\<rparr>) = gate_of m"
  "gate_of (m\<lparr>m_expected := u20\<rparr>) = gate_of m"
  "gate_of (m\<lparr>m_active := u21\<rparr>) = gate_of m"
  "gate_of (m\<lparr>m_messages := u22\<rparr>) = gate_of m"
  "gate_of (m\<lparr>m_runtimes := u23\<rparr>) = gate_of m"
  "gate_of (m\<lparr>m_transfers := u24\<rparr>) = gate_of m"
  "gate_of (m\<lparr>m_mismatch := u25\<rparr>) = gate_of m"
  "gate_of (m\<lparr>m_prompts := u26\<rparr>) = gate_of m"
  "gate_of (m\<lparr>m_status := u27\<rparr>) = gate_of m"
  "gate_of (m\<lparr>m_storage := u28\<rparr>) = gate_of m"
  "gate_of (m\<lparr>m_oids := u29\<rparr>) = gate_of m"
  "gate_of (m\<lparr>m_draws := u30\<rparr>) = gate_of m"
  "gate_of (m\<lparr>m_log := u31\<rparr>) = gate_of m"
  by (simp_all add: gate_of_def)

text \<open>The other entries of the database, and the cached credentials.\<close>

lemma entries_same [simp]:
  "db_meta (addMessage b s d) = db_meta d" "db_meta (deleteMessage b i d) = db_meta d"
  "db_meta (upsertRoom r d) = db_meta d" "db_meta (with_room b g d) = db_meta d" "db_meta (markRead b d) = db_meta d"
  "db_meta (removeRoom b d) = db_meta d"
  by (simp_all add: addMessage_def deleteMessage_def upsertRoom_def with_room_def markRead_def removeRoom_def split: option.split)

lemma entries_same_loops [simp]:
  "db_meta (merge_loop b seen ms d) = db_meta d" "db_meta (deleteMessagesForBucket nfc b d) = db_meta d"
  "db_meta (mergeMessages nfc b ms d) = db_meta d"
proof -
  show loop: "db_meta (merge_loop b seen ms d) = db_meta d" for seen d
    by (induction b seen ms d rule: merge_loop.induct) simp_all
  show "db_meta (deleteMessagesForBucket nfc b d) = db_meta d"
    by (simp add: deleteMessagesForBucket_def fold_frame [where P = db_meta])
  show "db_meta (mergeMessages nfc b ms d) = db_meta d" by (simp add: mergeMessages_def loop)
qed

lemma entries_same_room [simp]:
  "db_meta (markUnread b u d) = db_meta d" "db_meta (touchRoom now b pv d) = db_meta d"
  "db_meta (setSeatReleased b rel d) = db_meta d" "db_meta (setLastPeerDeviceFp b fp d) = db_meta d"
  by (simp_all add: markUnread_def touchRoom_def setSeatReleased_def setLastPeerDeviceFp_def)

lemma meta_same: "db_meta d' = db_meta d \<Longrightarrow> getMetaFromDb d' = getMetaFromDb d"
  by (simp add: getMetaFromDb_def getMetaEntry_def)

lemma pending_not_vault [simp]: "getMetaFromDb (setPendingOutgoing b ids d) = getMetaFromDb d"
  by (simp add: getMetaFromDb_def getMetaEntry_def setPendingOutgoing_def setMetaEntry_def update_conv' pending_key_def
      vault_meta_key_def js_def unit_of_def)

lemma metas_same [simp]:
  "getMetaFromDb (addMessage b s d) = getMetaFromDb d" "getMetaFromDb (deleteMessage b i d) = getMetaFromDb d"
  "getMetaFromDb (upsertRoom r d) = getMetaFromDb d" "getMetaFromDb (markRead b d) = getMetaFromDb d"
  "getMetaFromDb (removeRoom b d) = getMetaFromDb d" "getMetaFromDb (deleteMessagesForBucket nfc b d) = getMetaFromDb d"
  "getMetaFromDb (markUnread b u d) = getMetaFromDb d" "getMetaFromDb (touchRoom now b pv d) = getMetaFromDb d"
  "getMetaFromDb (setSeatReleased b rel d) = getMetaFromDb d" "getMetaFromDb (setLastPeerDeviceFp b fp d) = getMetaFromDb d"
  by (rule meta_same, simp)+

lemma merged_same: "apply_sync nfc gunzip b bs d = Inr d' \<Longrightarrow> getMetaFromDb d' = getMetaFromDb d"
  by (auto simp: apply_sync_def bind_result_Inr intro: meta_same)

lemma keys_same [simp]:
  "vt_key (stashSessionCredentials b c v) = vt_key v" "vt_key (clearSessionCredentials v) = vt_key v"
  "vt_key (clearSessionCredentialsFor b v) = vt_key v"
  by (simp_all add: stashSessionCredentials_def clearSessionCredentials_def clearSessionCredentialsFor_def)

lemma gate_on_db [simp]: "getMetaFromDb (f (m_db m)) = getMetaFromDb (m_db m) \<Longrightarrow> gate_of (on_db f m) = gate_of m"
  by (simp add: gate_of_def on_db_def)

lemma gate_vault [simp]: "vt_key v = vt_key (m_vault m) \<Longrightarrow> gate_of (m\<lparr>m_vault := v\<rparr>) = gate_of m"
  by (simp add: gate_of_def)

lemma gate_db [simp]: "getMetaFromDb d = getMetaFromDb (m_db m) \<Longrightarrow> gate_of (m\<lparr>m_db := d\<rparr>) = gate_of m"
  by (simp add: gate_of_def)

lemma gate_rooms [simp]:
  "gate_of (upd_room b f m) = gate_of m" "gate_of (on_client k h m) = gate_of m"
  by (simp_all add: upd_room_def on_client_def split: option.split)

lemma gate_basic [simp]:
  "gate_of (upd_runtime b g m) = gate_of m" "gate_of (syncRuntimes m) = gate_of m" "gate_of (log_effect e m) = gate_of m"
  "gate_of (syncMessages b ms m) = gate_of m" "gate_of (setTransfers b ts m) = gate_of m"
  "gate_of (setResyncStatus b st m) = gate_of m" "gate_of (setHistoryMismatch b mis m) = gate_of m"
  "gate_of (schedulePublishDigest b m) = gate_of m" "gate_of (snd (appendMessage b s m)) = gate_of m"
  "gate_of (snd (draw_bytes p m)) = gate_of m" "gate_of (snd (draw_uuid p m)) = gate_of m"
  "gate_of (set_pc n pc m) = gate_of m"
  by (simp_all add: upd_runtime_def syncRuntimes_def log_effect_def syncMessages_def setTransfers_def setResyncStatus_def
      setHistoryMismatch_def schedulePublishDigest_def appendMessage_def draw_bytes_def draw_uuid_def set_pc_def)

lemma gate_sending [simp]:
  "gate_of (setActive ab m) = gate_of m" "gate_of (sendPaced p b msg w m) = gate_of m"
  "gate_of (paced_turn now j m) = gate_of m" "gate_of (snd (transmit p r msg m)) = gate_of m"
  by (simp_all add: setActive_def sendPaced_def paced_turn_def transmit_def draw_bytes_def frame_simps
      split: option.split sum.split prod.split turn.split)

lemma gate_all [simp]:
  "gate_of (cancelAllManagedReconnects m) = gate_of m" "gate_of (stopAllHeartbeats m) = gate_of m"
  "gate_of (went_offline m) = gate_of m" "gate_of (restore_begin m) = gate_of m"
  by (simp_all add: cancelAllManagedReconnects_def stopAllHeartbeats_def went_offline_def restore_begin_def frame_simps
      fold_frame [where P = gate_of] split: frame_splits)

section \<open>The manager's operations\<close>

lemma gate_ops_1a [simp]:
  "gate_of (notify_unless_seen cx b b' m) = gate_of m"
  "gate_of (keep_credentials b x13 m) = gate_of m"
  "gate_of (onPeerDigest p b x16 b' os m) = gate_of m"
  "gate_of (trustPeerDeviceFp b os m) = gate_of m"
  "gate_of (forget_session b m) = gate_of m"
  "gate_of (onResyncRequest b b' x16 os m) = gate_of m"
  "gate_of (onResyncReject b b' os m) = gate_of m"
  "gate_of (push_failed b b' b'' m) = gate_of m"
  by (simp_all add: notify_unless_seen_def keep_credentials_def onPeerDigest_def trustPeerDeviceFp_def forget_session_def onResyncRequest_def onResyncReject_def push_failed_def frame_simps split: frame_splits)

lemma gate_ops_1b [simp]:
  "gate_of (cancelManagedReconnect b m) = gate_of m"
  "gate_of (markReconnectStalled b m) = gate_of m"
  "gate_of (start_flow x19 b x20 m) = gate_of m"
  "gate_of (stopHeartbeat b m) = gate_of m"
  "gate_of (onHeartbeatPong b m) = gate_of m"
  "gate_of (suppress b m) = gate_of m"
  "gate_of (unsuppress b m) = gate_of m"
  "gate_of (upd_same b x1 x26 m) = gate_of m"
  by (simp_all add: cancelManagedReconnect_def markReconnectStalled_def start_flow_def stopHeartbeat_def onHeartbeatPong_def suppress_def unsuppress_def upd_same_def frame_simps split: frame_splits)

lemma gate_ops_2a [simp]:
  "gate_of (deliverIncoming cx b x0 m) = gate_of m"
  "gate_of (receive_content p cx b os x12 m) = gate_of m"
  "gate_of (snd (revealRoomPin p b b' m)) = gate_of m"
  "gate_of (snd (encrypt_creds p x13 m)) = gate_of m"
  "gate_of (finishResyncIfDone b b' m) = gate_of m"
  "gate_of (resetReconnectState b m) = gate_of m"
  "gate_of (scheduleManagedReconnect b m) = gate_of m"
  "gate_of (openRoom b x20 m) = gate_of m"
  by (simp_all add: deliverIncoming_def receive_content_def revealRoomPin_def encrypt_creds_def finishResyncIfDone_def resetReconnectState_def scheduleManagedReconnect_def openRoom_def frame_simps split: frame_splits)

lemma gate_ops_2b [simp]:
  "gate_of (reconnectRoom b x20 m) = gate_of m"
  "gate_of (startHeartbeat b m) = gate_of m"
  "gate_of (snd (relayTokenForRoom p b x1 m)) = gate_of m"
  "gate_of (doReconnectRoom n b m) = gate_of m"
  "gate_of (closeRoomConnection b m) = gate_of m"
  "gate_of (release_begin b m) = gate_of m"
  by (simp_all add: reconnectRoom_def startHeartbeat_def relayTokenForRoom_def doReconnectRoom_def closeRoomConnection_def release_begin_def frame_simps split: frame_splits)

lemma gate_ops_3a [simp]:
  "gate_of (snd (send_text p cx b b' x9 m)) = gate_of m"
  "gate_of (persist_one p x14 m) = gate_of m"
  "gate_of (registerRoom p cx x15 m) = gate_of m"
  "gate_of (publishDigest p cx b m) = gate_of m"
  "gate_of (snd (requestResync p cx b m)) = gate_of m"
  "gate_of (snd (respondResync p cx b q m)) = gate_of m"
  "gate_of (push_next p n m) = gate_of m"
  "gate_of (apply_history p b b' x10 m) = gate_of m"
  by (simp_all add: send_text_def persist_one_def registerRoom_def publishDigest_def requestResync_def respondResync_def push_next_def apply_history_def merged_same frame_simps split: frame_splits)

lemma gate_ops_3b [simp]:
  "gate_of (handleDisconnectForReconnect b m) = gate_of m"
  "gate_of (reconnect_timer_fires b m) = gate_of m"
  "gate_of (forceStaleReconnect b m) = gate_of m"
  "gate_of (rejoinRoom b m) = gate_of m"
  "gate_of (restore_one p x14 m) = gate_of m"
  by (simp_all add: handleDisconnectForReconnect_def reconnect_timer_fires_def forceStaleReconnect_def rejoinRoom_def restore_one_def frame_simps split: frame_splits)

lemma gate_absorb: "gate_of (absorb_effect p e m) = gate_of m"
  by (cases e) simp_all

lemma gate_engine [simp]: "gate_of (with_engine p ef m) = gate_of m"
  by (simp add: with_engine_def frame_simps fold_frame [where P = gate_of] gate_absorb)

lemma gate_releasing [simp]:
  "gate_of (release_all_begin m) = gate_of m" "gate_of (release_all_end ids m) = gate_of m" "gate_of (lock m) = gate_of m"
  by (simp_all add: release_all_begin_def release_all_end_def lock_def frame_simps fold_frame [where P = gate_of] split: option.split)

lemma gate_persist [simp]: "gate_of (persistAllCredentials p m) = gate_of m"
  by (simp add: persistAllCredentials_def fold_frame [where P = gate_of])

lemma gate_ops_4a [simp]:
  "gate_of (digest_timer_fires p cx b m) = gate_of m"
  "gate_of (push_settled p n q m) = gate_of m"
  "gate_of (runDifferentialPush p b b' x17 x11 m) = gate_of m"
  "gate_of (handleHistoryChunk p cx b x18 m) = gate_of m"
  "gate_of (sendHeartbeatPing b m) = gate_of m"
  "gate_of (heartbeat_timeout b m) = gate_of m"
  "gate_of (snd (connectWithPin p cx b b' b'' b''' m)) = gate_of m"
  by (simp_all add: digest_timer_fires_def push_settled_def runDifferentialPush_def handleHistoryChunk_def sendHeartbeatPing_def heartbeat_timeout_def connectWithPin_def frame_simps split: frame_splits)

lemma gate_flow [simp]: "gate_of (after_done th b r m) = gate_of m" "gate_of (finish_flow n q r m) = gate_of m"
  by (simp_all add: after_done_def finish_flow_def frame_simps split: frame_splits)

lemma gate_ops_5a [simp]:
  "gate_of (retryTransfer p cx b b' m) = gate_of m"
  "gate_of (cancelTransfer p cx b b' m) = gate_of m"
  "gate_of (snd (start_transfer p cx b x7 q m)) = gate_of m"
  "gate_of (applyDelete p b b' m) = gate_of m"
  "gate_of (wipeLocalHistory p b m) = gate_of m"
  "gate_of (clearTransfersForBucket p b m) = gate_of m"
  "gate_of (onResyncAccept p cx b b' x11 m) = gate_of m"
  "gate_of (onResyncIds p cx b b' x11 m) = gate_of m"
  by (simp_all add: retryTransfer_def cancelTransfer_def start_transfer_def applyDelete_def wipeLocalHistory_def clearTransfersForBucket_def onResyncAccept_def onResyncIds_def frame_simps split: frame_splits)

lemma gate_ops_5b [simp]:
  "gate_of (heartbeat_tick cx b m) = gate_of m"
  "gate_of (ensure_connected b m) = gate_of m"
  "gate_of (engine_connected p cx b m) = gate_of m"
  "gate_of (waitForRelay cx n b x6 m) = gate_of m"
  by (simp_all add: heartbeat_tick_def ensure_connected_def engine_connected_def waitForRelay_def frame_simps split: frame_splits)

lemma gate_all_connected [simp]: "gate_of (ensureAllConnected m) = gate_of m"
  by (simp add: ensureAllConnected_def fold_frame [where P = gate_of])

lemma gate_control [simp]: "gate_of (onControl p cx b msg m) = gate_of m"
  by (cases msg) (simp add: onControl_def frame_simps split: option.split bool.split)

lemma gate_ops_6a [simp]:
  "gate_of (snd (startOutgoing p cx b x0 m)) = gate_of m"
  "gate_of (snd (sendDelete p cx b b' m)) = gate_of m"
  "gate_of (snd (wipeBothHistories p cx b m)) = gate_of m"
  "gate_of (applyWipeHistory p b m) = gate_of m"
  "gate_of (onStatus p cx n b x21 os m) = gate_of m"
  "gate_of (closeRoom p b m) = gate_of m"
  "gate_of (release_end p b m) = gate_of m"
  by (simp_all add: startOutgoing_def sendDelete_def wipeBothHistories_def applyWipeHistory_def onStatus_def closeRoom_def release_end_def frame_simps split: frame_splits)

lemma gate_resume [simp]: "gate_of (snd (resume_loop p cx b ids m)) = gate_of m"
  by (induction ids arbitrary: m) (simp_all add: frame_simps split: option.split side.split sum.split)

lemma gate_clear [simp]: "gate_of (clear_everything p m) = gate_of m"
  by (simp add: clear_everything_def frame_simps fold_frame [where P = gate_of])

lemma gate_receive [simp]: "gate_of (receive p cx b msg m) = gate_of m"
  by (cases "(p, cx, b, msg, m)" rule: receive.cases) simp_all

lemma gate_ops_7a [simp]:
  "gate_of (snd (sendImage p cx b x8 x9 m)) = gate_of m"
  "gate_of (snd (sendFile p cx b os b' x10 x9 m)) = gate_of m"
  "gate_of (resumePendingOutgoing p cx b m) = gate_of m"
  "gate_of (forgetRoom p b m) = gate_of m"
  by (simp_all add: sendImage_def sendFile_def resumePendingOutgoing_def forgetRoom_def frame_simps split: frame_splits)

lemma gate_ops_8a [simp]:
  "gate_of (onBinary p cx b x10 m) = gate_of m"
  by (simp_all add: onBinary_def frame_simps split: frame_splits)

lemma gate_dispatch: "gate_of (dispatch_call p cx n b e m) = gate_of m"
  by (cases e) simp_all

lemma gate_client [simp]: "gate_of (client_happens p cx n ev m) = gate_of m"
  by (simp add: client_happens_def frame_simps fold_frame [where P = gate_of] gate_dispatch split: option.split)

lemma gate_ops_11a [simp]:
  "gate_of (make_client p cx n b x1 m) = gate_of m"
  by (simp_all add: make_client_def frame_simps split: frame_splits)

lemma gate_ops_12a [simp]:
  "gate_of (connectRelay p cx n b b' m) = gate_of m"
  by (simp_all add: connectRelay_def frame_simps split: frame_splits)

lemma gate_ops_13a [simp]:
  "gate_of (to_relay p cx n b x1 q m) = gate_of m"
  by (simp_all add: to_relay_def frame_simps split: frame_splits)

lemma gate_ops_14a [simp]:
  "gate_of (open_fresh p cx n b m) = gate_of m"
  "gate_of (connectRoom p cx n b m) = gate_of m"
  by (simp_all add: open_fresh_def connectRoom_def frame_simps split: frame_splits)

lemma gate_ops_15a [simp]:
  "gate_of (doOpenRoom p cx n b m) = gate_of m"
  "gate_of (after_pause p cx n b m) = gate_of m"
  by (simp_all add: doOpenRoom_def after_pause_def frame_simps split: frame_splits)

lemma gate_flow_step [simp]: "gate_of (flow_step p cx n m) = gate_of m"
  by (simp add: flow_step_def frame_simps split: flow_pc.split)

lemma gate_settles [simp]: "gate_of (engine_does p cx ev m) = gate_of m" "gate_of (send_settles p cx j m) = gate_of m"
  by (simp_all add: engine_does_def send_settles_def frame_simps split: frame_splits)

text \<open>So whatever happens to the manager, unless the vault itself is set.\<close>

lemma gate_step:
  assumes "\<And>cx v. e \<noteq> (cx, SetVault v)"
  shows "gate_of (manager_step p e m) = gate_of m"
  using assms by (cases "(p, e, m)" rule: manager_step.cases) simp_all

end
