(* ===== verification/Gate.thy ===== *)
theory Gate
  imports GateFrames
begin

text \<open>
  The gate in front of the app: the script of \<open>web/src/lib/components/VaultGate.svelte\<close>, with
  \<open>web/src/lib/app-session.ts\<close>, through which its \<open>lockApp\<close> and \<open>wipeAllLocal\<close> are called, and
  \<open>clearAllLocalData\<close> of \<open>web/src/lib/storage/history.ts\<close>. A function of the component that waits is cut at its
  waits: \<open>gt_op\<close> is the one that waits, \<open>gt_restores\<close> are the calls of \<open>restoreAll\<close> under way. The buttons
  decide what can be called: a form is not submitted while \<open>busy\<close>, the app with its lock and clear buttons is
  shown in the mode \<open>ready\<close> only, and those buttons are disabled while one of the two functions runs.
\<close>

section \<open>State\<close>

datatype gate_mode = GateLoading | GateIntro | GateUnlock | GateSetup | GateReady

datatype gate_op =
    Mounting
  | Unlocking jstr
  | SettingUp jstr
  | Releasing "jstr list"
  | Relocking
  | Wiping

text \<open>A call of \<open>restoreAll\<close>: the records left, the flow it waits for, and whether \<open>busy\<close> ends with it.\<close>

record restore_loop =
  rl_left :: "room_record list"
  rl_flow :: "nat option"
  rl_busy :: bool

record gate =
  gt_manager :: manager
  gt_mode :: gate_mode
  gt_pin :: jstr
  gt_confirm :: jstr
  gt_error :: jstr
  gt_busy :: bool
  gt_op :: "gate_op option"
  gt_restores :: "restore_loop list"

definition on_manager :: "(manager \<Rightarrow> manager) \<Rightarrow> gate \<Rightarrow> gate" where
  "on_manager f g = g\<lparr>gt_manager := f (gt_manager g)\<rparr>"

definition gate_db :: "gate \<Rightarrow> db" where "gate_db g = m_db (gt_manager g)"
definition gate_vault :: "gate \<Rightarrow> vault" where "gate_vault g = m_vault (gt_manager g)"

definition set_vault :: "vault \<Rightarrow> manager \<Rightarrow> manager" where
  "set_vault v m = m\<lparr>m_vault := v\<rparr>"

definition pin_screen :: "db \<Rightarrow> gate_mode" where
  "pin_screen d = (if hasVault d then GateUnlock else GateSetup)"

section \<open>Operations\<close>

definition start_restore :: "bool \<Rightarrow> gate \<Rightarrow> gate" where
  "start_restore busy g =
     (let g1 = on_manager restore_begin g
      in g1\<lparr>gt_restores := gt_restores g1 @
             [\<lparr>rl_left = listRooms (gate_db g1), rl_flow = None, rl_busy = busy\<rparr>]\<rparr>)"

text \<open>\<open>onMount\<close>: an unlocked vault opens the app at once.\<close>

definition mount :: "db \<Rightarrow> vault \<Rightarrow> session_storage \<Rightarrow> gate" where
  "mount d v st =
     (let g = \<lparr>gt_manager = new_manager d v st, gt_mode = GateLoading, gt_pin = [], gt_confirm = [], gt_error = [],
               gt_busy = False, gt_op = None, gt_restores = []\<rparr>
      in if isVaultUnlocked v then start_restore False (g\<lparr>gt_mode := GateReady\<rparr>) else g\<lparr>gt_op := Some Mounting\<rparr>)"

definition mount_checked :: "gate \<Rightarrow> gate" where
  "mount_checked g =
     (let d = gate_db g;
          g1 = (if hasVault d \<and> \<not> hasSeenIntro d then on_manager (on_db markIntroSeen) g else g);
          d1 = gate_db g1
      in g1\<lparr>gt_op := None, gt_mode := if \<not> hasSeenIntro d1 then GateIntro else pin_screen d1\<rparr>)"

definition continueFromIntro :: "gate \<Rightarrow> gate" where
  "continueFromIntro g =
     (let g1 = on_manager (on_db markIntroSeen) g in g1\<lparr>gt_mode := pin_screen (gate_db g1)\<rparr>)"

definition lockApp :: "gate \<Rightarrow> gate" where
  "lockApp g = (on_manager release_all_begin g)\<lparr>gt_op := Some (Releasing (map fst (m_rooms (gt_manager g))))\<rparr>"

definition lock_released :: "jstr list \<Rightarrow> gate \<Rightarrow> gate" where
  "lock_released ids g =
     (let g1 = on_manager (release_all_end ids) g
      in (on_manager (set_vault (lockVault (gate_vault g1))) g1)\<lparr>gt_op := Some Relocking\<rparr>)"

definition lock_shown :: "gate \<Rightarrow> gate" where
  "lock_shown g = g\<lparr>gt_op := None, gt_mode := pin_screen (gate_db g)\<rparr>"

definition wipeAllLocal :: "platform \<Rightarrow> gate \<Rightarrow> gate" where
  "wipeAllLocal p g =
     (let g1 = on_manager (clear_everything p) g
      in (on_manager (set_vault (lockVault (gate_vault g1))) g1)\<lparr>gt_op := Some Wiping\<rparr>)"

text \<open>
  \<open>clearAllLocalData\<close> has deleted the database, or its deletion is blocked by another tab and will come later.
\<close>

definition clearAllLocalData :: "bool \<Rightarrow> manager \<Rightarrow> manager" where
  "clearAllLocalData blocked m =
     m\<lparr>m_db := if blocked then m_db m else empty_db, m_storage := clearBytelnSessionStorage (m_storage m)\<rparr>"

definition wipe_done :: "bool \<Rightarrow> gate \<Rightarrow> gate" where
  "wipe_done blocked g =
     (on_manager (\<lambda>m. log_effect BumpRooms (clearAllLocalData blocked m)) g)\<lparr>gt_op := None, gt_mode := GateIntro\<rparr>"

definition doUnlock :: "gate \<Rightarrow> gate" where
  "doUnlock g = g\<lparr>gt_busy := True, gt_error := [], gt_op := Some (Unlocking (gt_pin g))\<rparr>"

text \<open>The vault is open: the credentials are saved and the rooms restored; \<open>busy\<close> ends when that is over.\<close>

definition enter :: "platform \<Rightarrow> gate \<Rightarrow> gate" where
  "enter p g =
     start_restore True
       (on_manager (persistAllCredentials p) (g\<lparr>gt_op := None, gt_mode := GateReady, gt_pin := []\<rparr>))"

text \<open>An exception of \<open>unlockVault\<close> is not caught: only the \<open>finally\<close> block runs.\<close>

definition unlock_answered :: "platform \<Rightarrow> jstr \<Rightarrow> jstr \<Rightarrow> gate \<Rightarrow> gate" where
  "unlock_answered p fresh pin g =
     (case unlockVault (pf_pbkdf2 p) fresh pin (gate_vault g) (gate_db g) of
        Inl e \<Rightarrow> g\<lparr>gt_op := None, gt_busy := False\<rparr>
      | Inr (ok, v, d) \<Rightarrow>
          (let g1 = on_manager (\<lambda>m. m\<lparr>m_vault := v, m_db := d\<rparr>) g
           in if ok then enter p g1
              else g1\<lparr>gt_op := None, gt_busy := False, gt_error := js ''Wrong app PIN.''\<rparr>))"

definition digits_hint :: jstr where
  "digits_hint = js ''App PIN must be 4'' @ 0x2013 # js ''8 digits.''"

definition doSetup :: "gate \<Rightarrow> gate" where
  "doSetup g =
     (if \<not> app_pin_ok (gt_pin g) then g\<lparr>gt_error := digits_hint\<rparr>
      else if gt_pin g \<noteq> gt_confirm g then g\<lparr>gt_error := js ''PINs do not match.''\<rparr>
      else g\<lparr>gt_busy := True, gt_error := [], gt_op := Some (SettingUp (gt_pin g))\<rparr>)"

definition setup_answered :: "platform \<Rightarrow> bytes \<Rightarrow> jstr \<Rightarrow> jstr \<Rightarrow> gate \<Rightarrow> gate" where
  "setup_answered p salt sid pin g =
     (case createVault (pf_pbkdf2 p) salt sid pin (gate_vault g) (gate_db g) of
        Inl e \<Rightarrow> g\<lparr>gt_op := None, gt_busy := False, gt_error := (case e of Error s \<Rightarrow> js s | _ \<Rightarrow> js ''Could not create vault'')\<rparr>
      | Inr (v, d) \<Rightarrow> enter p (on_manager (\<lambda>m. m\<lparr>m_vault := v, m_db := d\<rparr>) (g\<lparr>gt_confirm := []\<rparr>)))"

text \<open>The loop of \<open>restoreAll\<close>: one record after the other, each waiting for its \<open>openRoom\<close>.\<close>

definition restore_goes_on :: "platform \<Rightarrow> nat \<Rightarrow> gate \<Rightarrow> gate" where
  "restore_goes_on p j g =
     (let r = gt_restores g ! j
      in case rl_flow r of
           Some n \<Rightarrow> g\<lparr>gt_restores := (gt_restores g)[j := r\<lparr>rl_flow := None\<rparr>]\<rparr>
         | None \<Rightarrow>
             (case rl_left r of
                [] \<Rightarrow> g\<lparr>gt_restores := take j (gt_restores g) @ drop (Suc j) (gt_restores g),
                        gt_busy := gt_busy g \<and> \<not> rl_busy r\<rparr>
              | rec # recs \<Rightarrow>
                  (let g1 = on_manager (restore_one p rec) g;
                       n = length (m_flows (gt_manager g))
                   in g1\<lparr>gt_restores := (gt_restores g)[j := r\<lparr>rl_left := recs,
                        rl_flow := if n < length (m_flows (gt_manager g1)) then Some n else None\<rparr>]\<rparr>)))"

definition flow_done :: "nat \<Rightarrow> manager \<Rightarrow> bool" where
  "flow_done n m \<longleftrightarrow> (case fl_pc (m_flows m ! n) of FlowDone res \<Rightarrow> True | _ \<Rightarrow> False)"

section \<open>Events\<close>

datatype gate_event =
    ManagerDoes "context_now \<times> manager_event"
  | MountChecked
  | IntroDone
  | TypePin jstr
  | TypeConfirm jstr
  | SubmitUnlock
  | UnlockAnswered jstr
  | SubmitSetup
  | SetupAnswered bytes jstr
  | LockPressed
  | LockReleased
  | LockShown
  | WipePressed
  | WipeDone bool
  | RestoreGoesOn nat

fun gate_step :: "platform \<Rightarrow> gate_event \<Rightarrow> gate \<Rightarrow> gate" where
  "gate_step p (ManagerDoes e) g = on_manager (manager_step p e) g"
| "gate_step p MountChecked g = mount_checked g"
| "gate_step p IntroDone g = continueFromIntro g"
| "gate_step p (TypePin s) g = g\<lparr>gt_pin := s\<rparr>"
| "gate_step p (TypeConfirm s) g = g\<lparr>gt_confirm := s\<rparr>"
| "gate_step p SubmitUnlock g = doUnlock g"
| "gate_step p (UnlockAnswered fresh) g =
     (case gt_op g of Some (Unlocking pin) \<Rightarrow> unlock_answered p fresh pin g | _ \<Rightarrow> g)"
| "gate_step p SubmitSetup g = doSetup g"
| "gate_step p (SetupAnswered salt sid) g =
     (case gt_op g of Some (SettingUp pin) \<Rightarrow> setup_answered p salt sid pin g | _ \<Rightarrow> g)"
| "gate_step p LockPressed g = lockApp g"
| "gate_step p LockReleased g = (case gt_op g of Some (Releasing ids) \<Rightarrow> lock_released ids g | _ \<Rightarrow> g)"
| "gate_step p LockShown g = lock_shown g"
| "gate_step p WipePressed g = wipeAllLocal p g"
| "gate_step p (WipeDone blocked) g = wipe_done blocked g"
| "gate_step p (RestoreGoesOn j) g = restore_goes_on p j g"

text \<open>The manager's own locking, clearing and restoring are the gate's; the rest happens as the manager allows it.\<close>

fun outside_gate :: "manager_event \<Rightarrow> bool" where
  "outside_gate Lock = False"
| "outside_gate (AllReleased ids) = False"
| "outside_gate ClearAll = False"
| "outside_gate Restore = False"
| "outside_gate (RestoreRoom rec) = False"
| "outside_gate PersistCredentials = False"
| "outside_gate (SetVault v) = False"
| "outside_gate e = True"

fun gate_enabled :: "gate_event \<Rightarrow> gate \<Rightarrow> bool" where
  "gate_enabled (ManagerDoes e) g \<longleftrightarrow> outside_gate (snd e) \<and> manager_enabled e (gt_manager g)"
| "gate_enabled MountChecked g \<longleftrightarrow> gt_op g = Some Mounting"
| "gate_enabled IntroDone g \<longleftrightarrow> gt_mode g = GateIntro"
| "gate_enabled (TypePin s) g \<longleftrightarrow> gt_mode g = GateUnlock \<or> gt_mode g = GateSetup"
| "gate_enabled (TypeConfirm s) g \<longleftrightarrow> gt_mode g = GateSetup"
| "gate_enabled SubmitUnlock g \<longleftrightarrow> gt_mode g = GateUnlock \<and> \<not> gt_busy g \<and> gt_op g = None"
| "gate_enabled (UnlockAnswered fresh) g \<longleftrightarrow> (\<exists>pin. gt_op g = Some (Unlocking pin))"
| "gate_enabled SubmitSetup g \<longleftrightarrow> gt_mode g = GateSetup \<and> \<not> gt_busy g \<and> gt_op g = None"
| "gate_enabled (SetupAnswered salt sid) g \<longleftrightarrow> (\<exists>pin. gt_op g = Some (SettingUp pin))"
| "gate_enabled LockPressed g \<longleftrightarrow> gt_mode g = GateReady \<and> gt_op g = None"
| "gate_enabled LockReleased g \<longleftrightarrow> (\<exists>ids. gt_op g = Some (Releasing ids))"
| "gate_enabled LockShown g \<longleftrightarrow> gt_op g = Some Relocking"
| "gate_enabled WipePressed g \<longleftrightarrow> gt_mode g = GateReady \<and> gt_op g = None"
| "gate_enabled (WipeDone blocked) g \<longleftrightarrow> gt_op g = Some Wiping"
| "gate_enabled (RestoreGoesOn j) g \<longleftrightarrow> j < length (gt_restores g) \<and>
     (\<forall>n. rl_flow (gt_restores g ! j) = Some n \<longrightarrow> flow_done n (gt_manager g))"

section \<open>The gate in every run\<close>

text \<open>What the gate shows agrees with the vault, up to the moments between two steps of a lock or a wipe.\<close>

definition gate_ok :: "gate \<Rightarrow> bool" where
  "gate_ok g \<longleftrightarrow>
     (let locked = \<not> isVaultUnlocked (gate_vault g); has = hasVault (gate_db g); mode = gt_mode g
      in case gt_op g of
           None \<Rightarrow> mode \<noteq> GateLoading \<and> (mode = GateReady \<longleftrightarrow> \<not> locked) \<and> (mode = GateUnlock \<longrightarrow> has)
         | Some Mounting \<Rightarrow> mode = GateLoading \<and> locked
         | Some (Unlocking pin) \<Rightarrow> mode = GateUnlock \<and> locked \<and> has
         | Some (SettingUp pin) \<Rightarrow> mode = GateSetup \<and> locked \<and> app_pin_ok pin
         | Some (Releasing ids) \<Rightarrow> mode = GateReady \<and> \<not> locked
         | Some Relocking \<Rightarrow> mode = GateReady \<and> locked
         | Some Wiping \<Rightarrow> mode = GateReady \<and> locked)"

text \<open>It depends on the manager only through the vault's part of its state.\<close>

lemma gate_ok_manager:
  assumes "gate_of m = gate_of (gt_manager g)"
  shows "gate_ok (g\<lparr>gt_manager := m\<rparr>) = gate_ok g"
  using assms by (simp add: gate_ok_def gate_vault_def gate_db_def gate_of_def isVaultUnlocked_def hasVault_def Let_def
      split: option.split gate_op.split)

lemma gate_ok_fields [simp]:
  "gate_ok (g\<lparr>gt_pin := s\<rparr>) = gate_ok g" "gate_ok (g\<lparr>gt_confirm := s\<rparr>) = gate_ok g" "gate_ok (g\<lparr>gt_error := s\<rparr>) = gate_ok g"
  "gate_ok (g\<lparr>gt_busy := q\<rparr>) = gate_ok g" "gate_ok (g\<lparr>gt_restores := rs\<rparr>) = gate_ok g"
  by (simp_all add: gate_ok_def gate_vault_def gate_db_def)

lemma gate_ok_on_manager: "gate_of (f (gt_manager g)) = gate_of (gt_manager g) \<Longrightarrow> gate_ok (on_manager f g) = gate_ok g"
  by (simp add: on_manager_def gate_ok_manager)

lemma gate_ok_restore [simp]: "gate_ok (start_restore q g) = gate_ok g"
  by (simp add: start_restore_def Let_def gate_ok_on_manager)

text \<open>What the vault answers.\<close>

lemma unlock_True:
  assumes "unlockVault pbkdf2 fresh pin v d = Inr (True, v', d')" "hasVault d"
  shows "isVaultUnlocked v'" "\<exists>j salt. getMetaFromDb d = Some j \<and> check_pin pbkdf2 pin j = Inr (Some salt)"
proof -
  obtain j where j: "getMetaFromDb d = Some j" using assms(2) by (auto simp: hasVault_def)
  with assms(1) obtain r where r: "check_pin pbkdf2 pin j = Inr r"
    by (cases "check_pin pbkdf2 pin j") (auto simp: unlockVault_def)
  with assms(1) j obtain salt where salt: "r = Some salt" by (cases r) (auto simp: unlockVault_def)
  from assms(1) j r salt show "isVaultUnlocked v'"
    by (cases "truthy (get_str j ''deviceSessionId'')") (auto simp: unlockVault_def Let_def isVaultUnlocked_def)
  show "\<exists>j salt. getMetaFromDb d = Some j \<and> check_pin pbkdf2 pin j = Inr (Some salt)" using j r salt by blast
qed

lemma unlock_False:
  assumes "unlockVault pbkdf2 fresh pin v d = Inr (False, v', d')"
  shows "\<not> isVaultUnlocked v'" "d' = d"
  using assms
  by (auto simp: unlockVault_def isVaultUnlocked_def bind_result_Inr Let_def split: option.splits)

lemma created_unlocked: "createVault pbkdf2 salt sid pin v d = Inr (v', d') \<Longrightarrow> isVaultUnlocked v' \<and> app_pin_ok pin"
  by (auto simp: createVault_def isVaultUnlocked_def split: if_splits)

lemma gate_ok_enter: "isVaultUnlocked (gate_vault g) \<Longrightarrow> gate_ok (enter p g)"
  unfolding enter_def gate_ok_restore
  by (subst gate_ok_on_manager) (simp_all add: gate_ok_def gate_vault_def)

lemma locked_again [simp]: "\<not> isVaultUnlocked (lockVault v)"
  by (simp add: isVaultUnlocked_def lockVault_def)

lemma gate_ok_unlock:
  assumes "gate_ok g" "gt_op g = Some (Unlocking pin)"
  shows "gate_ok (unlock_answered p fresh pin g)"
proof (cases "unlockVault (pf_pbkdf2 p) fresh pin (gate_vault g) (gate_db g)")
  case (Inl e)
  then show ?thesis using assms by (simp add: unlock_answered_def) (simp add: gate_ok_def gate_vault_def gate_db_def Let_def)
next
  case (Inr r)
  obtain ok v d where r: "r = (ok, v, d)" by (cases r)
  have has: "hasVault (gate_db g)" using assms by (simp add: gate_ok_def Let_def)
  show ?thesis
  proof (cases ok)
    case True
    then have "isVaultUnlocked v" using unlock_True(1) [OF _ has] Inr r by simp
    then show ?thesis using Inr r True by (simp add: unlock_answered_def Let_def gate_ok_enter on_manager_def gate_vault_def)
  next
    case False
    then have "\<not> isVaultUnlocked v" "d = gate_db g" using unlock_False Inr r by simp_all
    with assms Inr r False show ?thesis
      by (simp add: unlock_answered_def Let_def on_manager_def) (simp add: gate_ok_def gate_vault_def gate_db_def Let_def)
  qed
qed

lemma gate_ok_setup:
  assumes "gate_ok g" "gt_op g = Some (SettingUp pin)"
  shows "gate_ok (setup_answered p salt sid pin g)"
proof (cases "createVault (pf_pbkdf2 p) salt sid pin (gate_vault g) (gate_db g)")
  case (Inl e)
  then show ?thesis using assms by (simp add: setup_answered_def) (simp add: gate_ok_def gate_vault_def gate_db_def Let_def)
next
  case (Inr r)
  then show ?thesis
    using created_unlocked [of "pf_pbkdf2 p" salt sid pin "gate_vault g" "gate_db g"]
    by (cases r) (simp add: setup_answered_def gate_ok_enter on_manager_def gate_vault_def)
qed

lemma gate_ok_restoring: "gate_ok (restore_goes_on p j g) = gate_ok g"
  by (simp add: restore_goes_on_def Let_def gate_ok_on_manager split: option.split list.split)

lemma intro_meta [simp]: "getMetaFromDb (markIntroSeen d) = getMetaFromDb d"
  by (simp add: getMetaFromDb_def getMetaEntry_def markIntroSeen_def setMetaEntry_def update_conv' vault_meta_key_def js_def unit_of_def)

lemma gate_ok_step:
  assumes "gate_ok g" "gate_enabled ev g"
  shows "gate_ok (gate_step p ev g)"
proof (cases ev)
  case (ManagerDoes e)
  have "e \<noteq> (cx, SetVault v)" for cx v using assms(2) ManagerDoes by auto
  then show ?thesis using assms(1) by (simp add: ManagerDoes gate_ok_on_manager gate_step)
next
  case (UnlockAnswered fresh)
  then show ?thesis using assms gate_ok_unlock by auto
next
  case (SetupAnswered salt sid)
  then show ?thesis using assms gate_ok_setup by auto
next
  case (RestoreGoesOn j)
  then show ?thesis using assms by (simp add: gate_ok_restoring)
next
  case SubmitSetup
  with assms show ?thesis by (simp add: doSetup_def) (simp add: gate_ok_def gate_vault_def gate_db_def Let_def)
next
  case LockPressed
  then have "gate_ok (on_manager release_all_begin g)" using assms by (simp add: gate_ok_on_manager)
  with LockPressed assms(2) show ?thesis
    by (simp add: lockApp_def) (simp add: gate_ok_def gate_vault_def gate_db_def Let_def on_manager_def)
qed (use assms in \<open>simp_all add: mount_checked_def continueFromIntro_def lock_released_def lock_shown_def wipeAllLocal_def wipe_done_def
      doUnlock_def clearAllLocalData_def log_effect_def set_vault_def pin_screen_def on_manager_def on_db_def gate_ok_def gate_vault_def
      gate_db_def hasVault_def Let_def split: option.splits gate_op.splits\<close>)

interpretation gate: event_system "gate_step p" gate_enabled gate_ok
  by unfold_locales (rule gate_ok_step)

lemma mount_ok: "gate_ok (mount d v st)"
  by (simp add: mount_def Let_def) (simp add: gate_ok_def gate_vault_def gate_db_def new_manager_def)

section \<open>Properties\<close>

text \<open>The only ways into the app: the PIN that the vault accepts, or a new vault.\<close>

lemma only_pins_open:
  assumes "gate_ok g" "gate_enabled ev g" "gt_mode g \<noteq> GateReady" "gt_mode (gate_step p ev g) = GateReady"
  shows "(\<exists>fresh pin meta salt. ev = UnlockAnswered fresh \<and> gt_op g = Some (Unlocking pin) \<and>
            getMetaFromDb (gate_db g) = Some meta \<and> check_pin (pf_pbkdf2 p) pin meta = Inr (Some salt)) \<or>
         (\<exists>salt sid pin. ev = SetupAnswered salt sid \<and> gt_op g = Some (SettingUp pin) \<and> app_pin_ok pin)"
proof (cases ev)
  case (UnlockAnswered fresh)
  then obtain pin where op: "gt_op g = Some (Unlocking pin)" using assms(2) by auto
  then have has: "hasVault (gate_db g)" using assms(1) by (simp add: gate_ok_def Let_def)
  obtain v d where "unlockVault (pf_pbkdf2 p) fresh pin (gate_vault g) (gate_db g) = Inr (True, v, d)"
    using assms(3,4) by (auto simp: UnlockAnswered op unlock_answered_def Let_def on_manager_def split: sum.splits if_splits)
  from unlock_True(2) [OF this has] show ?thesis using UnlockAnswered op by blast
next
  case (SetupAnswered salt sid)
  then obtain pin where op: "gt_op g = Some (SettingUp pin)" using assms(2) by auto
  then have "app_pin_ok pin" using assms(1) by (simp add: gate_ok_def Let_def)
  then show ?thesis using SetupAnswered op by blast
qed (use assms in \<open>auto simp: on_manager_def mount_checked_def continueFromIntro_def lockApp_def lock_released_def lock_shown_def
      wipeAllLocal_def wipe_done_def doUnlock_def doSetup_def restore_goes_on_def pin_screen_def Let_def
      split: option.splits gate_op.splits list.splits if_splits\<close>)


text \<open>A first visit: the introduction, a PIN typed twice, and the vault made.\<close>

definition toy_first_visit :: "gate_event list" where
  "toy_first_visit = [MountChecked, IntroDone, TypePin (js ''1234''), TypeConfirm (js ''1234''), SubmitSetup]"

lemma toy_first_visit_ok:
  "run_ok gate_enabled (gate_step toy_platform) toy_first_visit (mount empty_db new_vault (Some []))"
  "gt_op (run (gate_step toy_platform) toy_first_visit (mount empty_db new_vault (Some []))) = Some (SettingUp (js ''1234''))"
  "gt_mode (run (gate_step toy_platform) toy_first_visit (mount empty_db new_vault (Some []))) = GateSetup"
  by (simp_all add: toy_first_visit_def mount_def Let_def isVaultUnlocked_def new_vault_def mount_checked_def gate_db_def
      new_manager_def on_manager_def on_db_def hasVault_def getMetaFromDb_def getMetaEntry_def empty_db_def hasSeenIntro_def
      markIntroSeen_def setMetaEntry_def pin_screen_def continueFromIntro_def doSetup_def app_pin_ok_def js_def unit_of_def
      vault_meta_key_def is_digit_def)


text \<open>What the end of a lock leaves.\<close>

lemma rooms_after_close:
  "the_room b (fold (\<lambda>b m. closeRoomConnection b (upd_runtime b f m)) ids m) = (if b \<in> set ids then None else the_room b m)"
proof (induction ids arbitrary: m)
  case Nil
  then show ?case by simp
next
  case (Cons i js)
  have "the_room b (upd_runtime i f m) = the_room b m" if "b \<noteq> i"
    using that by (simp add: upd_runtime_def upd_room_def the_room_def update_conv' split: option.split)
  then show ?case by (simp add: Cons closed_room)
qed

text \<open>The wait of \<open>releaseAllConnections\<close>: nothing but its end changes what the gate waits for.\<close>

lemma still_releasing:
  assumes "gt_op g = Some (Releasing ids)" "gate_enabled ev g" "ev \<noteq> LockReleased"
  shows "gt_op (gate_step p ev g) = Some (Releasing ids)"
  using assms
  by (cases ev) (auto simp: on_manager_def continueFromIntro_def doSetup_def restore_goes_on_def Let_def
      split: option.split list.split)

lemma releasing_lasts:
  assumes "gt_op g = Some (Releasing ids)" "run_ok gate_enabled (gate_step p) evs g" "LockReleased \<notin> set evs"
  shows "gt_op (run (gate_step p) evs g) = Some (Releasing ids)"
  using assms by (induction evs arbitrary: g) (auto simp: still_releasing)

text \<open>C21
  Locking the app closes the rooms that were open when the button was pressed, and no other. When the wait of
  \<open>releaseAllConnections\<close> is over the vault is locked and no credentials are cached, but a room that was entered
  into the map during that wait, by a connection attempt then under way, keeps its connection (the flag \<open>appLocked\<close>
  that would have stopped the attempt is not set by \<open>lockApp\<close>). The witness runs such an attempt on: the room is
  connected while the PIN screen is shown.
\<close>

theorem lock_misses_an_opening_room:
  assumes "run_ok gate_enabled (gate_step p) (LockPressed # evs) g" "LockReleased \<notin> set evs"
    and "g1 = run (gate_step p) (LockPressed # evs) g" "g2 = gate_step p LockReleased g1"
  shows "\<not> isVaultUnlocked (gate_vault g2) \<and> m_creds (gt_manager g2) = Map.empty \<and> vt_session (gate_vault g2) = [] \<and>
    the_room b (gt_manager g2) = (if the_room b (gt_manager g) \<noteq> None then None else the_room b (gt_manager g1))"
proof -
  let ?ids = "map fst (m_rooms (gt_manager g))"
  have "gt_op (lockApp g) = Some (Releasing ?ids)" by (simp add: lockApp_def)
  then have op: "gt_op g1 = Some (Releasing ?ids)"
    using releasing_lasts [of "lockApp g" ?ids p evs] assms(1-3) by simp
  have "the_room b (gt_manager g2) = the_room b (release_all_end ?ids (gt_manager g1))"
    using op assms(4) by (simp add: lock_released_def Let_def on_manager_def set_vault_def the_room_def)
  also have "\<dots> = (if b \<in> set ?ids then None else the_room b (gt_manager g1))"
    using rooms_after_close [of b "\<lambda>rt. rt\<lparr>rt_bucketFull := False\<rparr>" ?ids "gt_manager g1"]
    by (simp add: release_all_end_def Let_def the_room_def)
  also have "b \<in> set ?ids \<longleftrightarrow> the_room b (gt_manager g) \<noteq> None" by (simp add: the_room_def map_of_eq_None_iff)
  finally show ?thesis
    using op assms(4) by (simp add: lock_released_def Let_def on_manager_def set_vault_def gate_vault_def release_all_end_def
        lockVault_def isVaultUnlocked_def clearSessionCredentials_def)
qed

text \<open>The vault is open and a room is being opened when the app is locked; its socket opens after the lock.\<close>

definition toy_open_manager :: manager where
  "toy_open_manager =
     (new_manager
        (empty_db\<lparr>db_rooms := [([], \<lparr>rec_bucketId = [], rec_nickname = [], rec_roomHash = [], rec_relayUrl = [1],
           rec_createdAt = 0, rec_lastActiveAt = 0, rec_lastPreview = None, rec_unread = False, rec_credentialsEnc = None,
           rec_legacy = None, rec_isCreator = None, rec_seatReleased = False, rec_lastPeerDeviceFp = None\<rparr>)]\<rparr>)
        \<lparr>vt_key = Some [1], vt_sid = Some [1], vt_session = []\<rparr> (Some []))
     \<lparr>m_creds := [[] \<mapsto> \<lparr>cr_roomHash = toy_hash, cr_roomPin = Some (js ''1''), cr_legacyToken = None\<rparr>],
      m_open := [[] \<mapsto> 0], m_flows := [\<lparr>fl_bucket = [], fl_pc = OpenRecord, fl_then = Nothing\<rparr>]\<rparr>"

definition toy_locking :: gate where
  "toy_locking =
     (mount empty_db new_vault (Some []))\<lparr>gt_op := None, gt_mode := GateReady, gt_manager := toy_open_manager\<rparr>"

definition toy_lock_wait :: "gate_event list" where
  "toy_lock_wait = [ManagerDoes (toy_context, FlowGoesOn 0)]"

definition toy_after_lock :: "gate_event list" where
  "toy_after_lock = LockShown # map (\<lambda>e. ManagerDoes (toy_context, ClientEvent 0 e)) [PowDone 1 None, SocketOpen 0]"

lemma toy_token: "deriveRelayToken (pf_hkdf toy_platform) (replicate 32 7) pin b i \<noteq> []"
proof
  assume "deriveRelayToken (pf_hkdf toy_platform) (replicate 32 7) pin b i = []"
  then have "base64UrlToBytes (bytesToBase64Url (replicate 32 7)) = base64UrlToBytes []"
    by (simp add: deriveRelayToken_def toy_platform_def)
  moreover have "base64UrlToBytes [] = Inr []" by code_simp
  ultimately show False by (simp add: base64url_roundtrip)
qed

lemmas toy_defs = toy_open_manager_def new_manager_def flow_step_def seat_released_def getRoom_def empty_db_def doOpenRoom_def
  the_room_def open_fresh_def MAX_OPEN_ROOMS_def getRoomCredentials_def resolveExistingCredentials_def
  cached_credentials_def toy_parsed aes_key_def listMessages_def syncMessages_def resumePendingOutgoing_def
  getPendingOutgoing_def getMetaEntry_def syncRuntimes_def Let_def to_relay_def relayTokenForRoom_def live_room_def
  connectRelay_def getDeviceSessionId_def upd_runtime_def upd_room_def make_client_def upd_same_def client_happens_def
  on_client_def connect_def call_def new_client_def clearReconnectTimer_def onStatus_def waitForRelay_def
  is_connected_def set_pc_def new_runtime_def client_of_def connected_def ready_state_def toy_token truthy_def flow_enabled_def
  lockApp_def release_all_begin_def cancelAllManagedReconnects_def stopAllHeartbeats_def toy_locking_def on_manager_def

lemma toy_locking_run:
  "run_ok gate_enabled (gate_step toy_platform) (LockPressed # toy_lock_wait) toy_locking"
  "LockReleased \<notin> set toy_lock_wait"
  by (simp_all add: toy_lock_wait_def toy_defs)

lemmas toy_more_defs = lock_released_def lock_shown_def release_all_end_def clearSessionCredentials_def lockVault_def set_vault_def
  openSocket_solved_def onopen_def resetReconnectState_def cancelManagedReconnect_def startHeartbeat_def
  setTransfers_def stopHeartbeat_def gate_vault_def gate_db_def pin_screen_def hasVault_def getMetaFromDb_def

text \<open>The opening of a socket: of the rooms and the clients only what the callback is told changes.\<close>

definition wires :: "manager \<Rightarrow> (jstr \<times> nat option) list \<times> (jstr option \<times> client) list" where
  "wires m = (map (\<lambda>(b, r). (b, ir_client r)) (m_rooms m), m_clients m)"

lemma wires_upd_runtime [simp]: "wires (upd_runtime b f m) = wires m"
  by (simp add: wires_def upd_runtime_def upd_room_def the_room_def map_update_same [where h = ir_client] split: option.split)

lemma wires_fields [simp]:
  "wires (m\<lparr>m_runtimes := x1\<rparr>) = wires m" "wires (m\<lparr>m_timers := x2\<rparr>) = wires m" "wires (m\<lparr>m_attempts := x3\<rparr>) = wires m"
  "wires (m\<lparr>m_heartbeats := x4\<rparr>) = wires m" "wires (m\<lparr>m_pings := x5\<rparr>) = wires m" "wires (m\<lparr>m_engine := x6\<rparr>) = wires m"
  "wires (m\<lparr>m_transfers := x7\<rparr>) = wires m" "wires (m\<lparr>m_creds := x8\<rparr>) = wires m"
  "wires (m\<lparr>m_vault := x9\<rparr>) = wires m"
  by (simp_all add: wires_def)

lemma wires_open:
  assumes "m_engine m = new_engine lm"
  shows "wires (onStatus p cx k b StOpen d m) = wires m"
proof -
  have quiet: "with_engine p (onConnected v b) m = setTransfers b [] (m\<lparr>m_engine := emit (Published b []) (new_engine lm)\<rparr>)"
    if "m_engine m = new_engine lm" for v m
    using that by (simp add: with_engine_def Let_def onConnected_def new_engine_def room_keys_def room_entries_def publish_def
        list_transfers_def reg_values_def emit_def)
  have "m_engine (upd_runtime b f m') = m_engine m'" for f m' by (simp add: upd_runtime_def upd_room_def split: option.split)
  with assms show ?thesis
    by (simp add: onStatus_def Let_def engine_connected_def quiet setTransfers_def startHeartbeat_def stopHeartbeat_def
        resetReconnectState_def cancelManagedReconnect_def syncRuntimes_def)
qed

lemma wires_connected:
  "wires m = (rs, cs) \<Longrightarrow> map_of rs b = Some (Some k) \<Longrightarrow> is_connected b m = connected (snd (cs ! k))"
  by (auto simp: wires_def is_connected_def client_of_def the_room_def map_of_map split: option.splits)

text \<open>A client whose proof of work is solved and whose socket opens, in a room that stays in the map.\<close>

lemma solved_and_opened:
  assumes "wires m = (rs, [(Some b, c)])" "m_engine m = new_engine lm" "map_of rs b = Some (Some 0)"
    and "c_gen c = 1" "c_socks c = []"
    and "m' = run (manager_step p) [(cx, ClientEvent 0 (PowDone 1 pow)), (cx, ClientEvent 0 (SocketOpen 0))] m"
  shows "is_connected b m'"
proof -
  let ?c = "client_step (PowDone 1 pow) c"
  let ?m1 = "on_client 0 (client_step (PowDone 1 pow)) m" and ?m2 = "\<lambda>m. on_client 0 (client_step (SocketOpen 0)) m"
  have cs: "m_clients m = [(Some b, c)]" using assms(1) by (simp add: wires_def)
  have "manager_step p (cx, ClientEvent 0 (PowDone 1 pow)) m = ?m1"
    using assms(4) by (simp add: client_happens_def cs openSocket_solved_def call_def Let_def)
  moreover have cs1: "m_clients ?m1 = [(Some b, ?c)]" by (simp add: on_client_def cs)
  moreover have "manager_step p (cx, ClientEvent 0 (SocketOpen 0)) ?m1 = onStatus p cx 0 b StOpen None (?m2 ?m1)"
    unfolding manager_step.simps client_happens_def cs1 by (simp add: onopen_def call_def Let_def)
  ultimately have m': "m' = onStatus p cx 0 b StOpen None (?m2 ?m1)" using assms(6) by simp
  have "m_engine (?m2 ?m1) = new_engine lm" using assms(2) by (simp add: on_client_def)
  moreover have "wires (?m2 ?m1) = (rs, [(Some b, onopen 0 ?c)])"
    using assms(1) by (simp add: wires_def on_client_def cs)
  ultimately have "wires m' = (rs, [(Some b, onopen 0 ?c)])" unfolding m' by (simp only: wires_open)
  from wires_connected [OF this assms(3)] show ?thesis
    using assms(4,5) by (simp add: connected_def ready_state_def onopen_def call_def openSocket_solved_def Let_def)
qed

lemma toy_waited:
  assumes "m = gt_manager (run (gate_step toy_platform) (LockPressed # toy_lock_wait) toy_locking)"
  shows "\<exists>c. wires m = ([([], Some 0)], [(Some [], c)]) \<and> c_gen c = 1 \<and> c_socks c = []"
    and "m_engine m = new_engine DEFAULT_TRANSFER_LIMITS"
  unfolding assms by (simp_all add: toy_lock_wait_def toy_defs wires_def)

theorem lock_misses_an_opening_room_witness:
  "let g = gate_step toy_platform LockReleased (run (gate_step toy_platform) (LockPressed # toy_lock_wait) toy_locking);
       g' = run (gate_step toy_platform) toy_after_lock g
   in \<not> isVaultUnlocked (gate_vault g) \<and> the_room [] (gt_manager g) \<noteq> None \<and> gt_mode g' = GateSetup \<and>
      is_connected [] (gt_manager g')"
proof -
  let ?g1 = "run (gate_step toy_platform) (LockPressed # toy_lock_wait) toy_locking" and ?m0 = "gt_manager toy_locking"
  obtain g where g: "g = gate_step toy_platform LockReleased ?g1" by blast
  define g' where "g' = run (gate_step toy_platform) toy_after_lock g"
  have op: "gt_op ?g1 = Some (Releasing [])" and before: "the_room [] ?m0 = None"
    and db: "m_db (gt_manager ?g1) = m_db ?m0"
    by (simp_all add: toy_lock_wait_def toy_defs)
  have locked: "\<not> isVaultUnlocked (gate_vault g) \<and> the_room [] (gt_manager g) = the_room [] (gt_manager ?g1)"
    using lock_misses_an_opening_room [OF toy_locking_run refl g, of "[]"] before by simp
  obtain c where c: "wires (gt_manager ?g1) = ([([], Some 0)], [(Some [], c)])" "c_gen c = 1" "c_socks c = []"
    using toy_waited(1) [OF refl] by blast
  have m: "gt_manager g = set_vault (lockVault (gate_vault (on_manager (release_all_end []) ?g1)))
             (release_all_end [] (gt_manager ?g1))"
    unfolding g using op by (simp add: lock_released_def on_manager_def Let_def)
  have wires: "wires (gt_manager g) = ([([], Some 0)], [(Some [], c)])"
    and engine: "m_engine (gt_manager g) = new_engine DEFAULT_TRANSFER_LIMITS" and "m_db (gt_manager g) = m_db ?m0"
    unfolding m using c(1) db toy_waited(2) [OF refl] by (simp_all add: release_all_end_def set_vault_def Let_def)
  then have "gt_mode g' = GateSetup"
    by (simp add: g'_def toy_after_lock_def lock_shown_def on_manager_def pin_screen_def gate_db_def hasVault_def
        getMetaFromDb_def toy_locking_def toy_open_manager_def new_manager_def empty_db_def getMetaEntry_def)
  moreover have "is_connected [] (gt_manager g')"
    by (rule solved_and_opened [OF wires engine _ c(2,3), where p = toy_platform and cx = toy_context and pow = None])
      (simp_all add: g'_def toy_after_lock_def lock_shown_def on_manager_def)
  moreover have "the_room [] (gt_manager g) \<noteq> None" using wires by (auto simp: wires_def the_room_def map_of_eq_None_iff)
  ultimately show ?thesis using locked unfolding g [symmetric] Let_def g'_def [symmetric] by blast
qed

end
