(* ===== verification/Lines.thy ===== *)
theory Lines
  imports ManagerInv
begin

text \<open>
  New lines and the relays they use: \<open>web/src/lib/servers/directory.ts\<close>, the relay preference of
  \<open>web/src/lib/storage/history.ts\<close>, \<open>web/src/lib/rooms/start-line.ts\<close>, and the invite's text of
  \<open>web/src/lib/share.ts\<close>. The browser's \<open>location.hostname\<close> and the host name \<open>new URL(u).hostname\<close> are
  parameters (the latter absent when the constructor throws).
\<close>

section \<open>Relays\<close>

definition contains :: "jstr \<Rightarrow> jstr \<Rightarrow> bool" where
  "contains s part \<longleftrightarrow> list_ex (\<lambda>k. take (length part) (drop k s) = part) [0..<Suc (length s)]"

record directory_server =
  ds_url :: jstr
  ds_name :: jstr
  ds_region :: "jstr option"
  ds_maintainer :: "jstr option"

definition DEFAULT_PUBLIC_RELAY :: jstr where "DEFAULT_PUBLIC_RELAY = js ''wss://byteln.com''"
definition DEFAULT_LOCAL_RELAY :: jstr where "DEFAULT_LOCAL_RELAY = js ''ws://127.0.0.1:8990''"

definition LOCAL_DEV :: directory_server where
  "LOCAL_DEV = \<lparr>ds_url = DEFAULT_LOCAL_RELAY, ds_name = js ''Local Dev Relay'', ds_region = Some (js ''local''),
     ds_maintainer = Some (js ''github:byteln'')\<rparr>"

definition PUBLIC_SERVER :: directory_server where
  "PUBLIC_SERVER = \<lparr>ds_url = DEFAULT_PUBLIC_RELAY, ds_name = js ''byteln.com'', ds_region = Some (js ''global''),
     ds_maintainer = Some (js ''github:byteln'')\<rparr>"

definition local_host :: "jstr \<Rightarrow> bool" where
  "local_host h \<longleftrightarrow> h = js ''localhost'' \<or> h = js ''127.0.0.1'' \<or> h = js ''[::1]''"

definition isUiOnLocalhost :: "jstr \<Rightarrow> bool" where
  "isUiOnLocalhost here \<longleftrightarrow> local_host here"

definition ws_to_http :: "jstr \<Rightarrow> jstr" where
  "ws_to_http url = (case after_word ''ws'' url of None \<Rightarrow> url | Some rest \<Rightarrow> js ''http'' @ rest)"

definition isLocalRelayUrl :: "(jstr \<Rightarrow> jstr option) \<Rightarrow> jstr \<Rightarrow> bool" where
  "isLocalRelayUrl host_of url \<longleftrightarrow>
     (case host_of (ws_to_http url) of
        Some h \<Rightarrow> local_host h
      | None \<Rightarrow> contains url (js ''localhost'') \<or> contains url (js ''127.0.0.1''))"

definition defaultRelayUrl :: "jstr \<Rightarrow> jstr option \<Rightarrow> jstr" where
  "defaultRelayUrl here envOverride =
     (case truthy envOverride of
        Some url \<Rightarrow> url
      | None \<Rightarrow> if isUiOnLocalhost here then DEFAULT_LOCAL_RELAY else DEFAULT_PUBLIC_RELAY)"

definition drop_slash :: "jstr \<Rightarrow> jstr" where
  "drop_slash s = (if s \<noteq> [] \<and> last s = 0x2F then butlast s else s)"

definition filterDirectoryForUi ::
  "(jstr \<Rightarrow> jstr option) \<Rightarrow> jstr \<Rightarrow> directory_server list \<Rightarrow> directory_server list" where
  "filterDirectoryForUi host_of here servers =
     (let on_local = isUiOnLocalhost here;
          l1 = filter (\<lambda>s. on_local \<or> \<not> isLocalRelayUrl host_of (ds_url s)) servers;
          l2 = (if on_local \<and> \<not> list_ex (\<lambda>s. isLocalRelayUrl host_of (ds_url s)) l1 then LOCAL_DEV # l1 else l1)
      in if \<not> list_ex (\<lambda>s. drop_slash (ds_url s) = DEFAULT_PUBLIC_RELAY) l2 then PUBLIC_SERVER # l2 else l2)"

text \<open>
  The directory's cache in the local storage. \<open>None\<close> is a browser whose local storage throws. What \<open>fetch\<close> has
  brought is an argument: absent when it failed, timed out, was refused or was no array.
\<close>

type_synonym directory_cache = "directory_server list option option"

definition readCache :: "directory_cache \<Rightarrow> directory_server list option" where
  "readCache cache = (case cache of None \<Rightarrow> None | Some c \<Rightarrow> c)"

definition loadDirectory ::
  "(jstr \<Rightarrow> jstr option) \<Rightarrow> jstr \<Rightarrow> jstr option \<Rightarrow> directory_server list option \<Rightarrow> directory_cache \<Rightarrow>
     directory_server list \<times> directory_cache" where
  "loadDirectory host_of here directoryUrl fetched cache =
     (let cached = (case readCache cache of None \<Rightarrow> [] | Some c \<Rightarrow> c)
      in case (truthy directoryUrl, fetched, cache) of
           (Some url, Some data, Some c) \<Rightarrow> (filterDirectoryForUi host_of here data, Some (Some data))
         | _ \<Rightarrow> (filterDirectoryForUi host_of here cached, cache))"

text \<open>The relay preference.\<close>

definition getRelayUrl :: "db \<Rightarrow> jstr option" where
  "getRelayUrl d = getMetaEntry (js ''relayUrl'') d"

definition setRelayUrl :: "jstr \<Rightarrow> db \<Rightarrow> db" where
  "setRelayUrl url d = setMetaEntry (js ''relayUrl'') (trim url) d"

definition resolveRelayUrl :: "jstr \<Rightarrow> db \<Rightarrow> jstr \<times> db" where
  "resolveRelayUrl fallback d =
     (case truthy (getRelayUrl d) of
        None \<Rightarrow> (fallback, d)
      | Some saved \<Rightarrow>
          (let has = (\<lambda>s. contains saved (js s)) in
           if (has ''localhost:8080'' \<or> has ''127.0.0.1:8080'' \<or> has ''localhost:8990'' \<or> has ''127.0.0.1:8990'') \<and>
              \<not> (contains fallback (js ''localhost'') \<or> contains fallback (js ''127.0.0.1''))
           then (fallback, setRelayUrl fallback d)
           else if has ''localhost:8080'' \<or> has ''127.0.0.1:8080'' then (fallback, setRelayUrl fallback d)
           else (saved, d)))"

section \<open>A new line\<close>

text \<open>What the random source gives: eight bytes for the id, the AES key, the word of the PIN and its salt.\<close>

record line_random =
  lr_id :: bytes
  lr_key :: bytes
  lr_pin :: "32 word"
  lr_salt :: bytes

record line =
  ln_id :: jstr
  ln_hash :: jstr
  ln_pin :: jstr

definition createSecureLine ::
  "platform \<Rightarrow> context_now \<Rightarrow> line_random \<Rightarrow> jstr \<Rightarrow> jstr option \<Rightarrow> jstr option \<Rightarrow> manager \<Rightarrow> line \<times> manager" where
  "createSecureLine p cx rand fallback relayUrl nickname m =
     (let (chosen, m1) = (case truthy (map_option trim relayUrl) of
            Some url \<Rightarrow> (url, m)
          | None \<Rightarrow> (let (url, d) = resolveRelayUrl fallback (m_db m) in (url, m\<lparr>m_db := d\<rparr>)));
          relay = trim chosen;
          m2 = (if relay \<noteq> [] then on_db (setRelayUrl relay) m1 else m1);
          i = randomBucketId (lr_id rand);
          pin = generateRoomPin (lr_pin rand);
          pv = createPinVerifier (pf_pbkdf2 p) pin (lr_salt rand) i;
          hash = buildRoomHash (lr_key rand) pv (lr_salt rand) (Some 0);
          m3 = registerRoom p cx
                 \<lparr>ro_bucketId = i, ro_roomHash = hash, ro_relayUrl = relay,
                  ro_nickname = Some (case nickname of None \<Rightarrow> defaultNickname i | Some n \<Rightarrow> n),
                  ro_roomPin = Some pin, ro_legacy = None, ro_legacyToken = None, ro_isCreator = Some True\<rparr> m2
      in (\<lparr>ln_id = i, ln_hash = hash, ln_pin = pin\<rparr>, m3))"

text \<open>\<open>startSecureLine\<close>: the line, the PIN for the page that opens, and the address of that page.\<close>

definition startSecureLine ::
  "platform \<Rightarrow> context_now \<Rightarrow> line_random \<Rightarrow> jstr \<Rightarrow> jstr option \<Rightarrow> manager \<Rightarrow> jstr \<times> manager" where
  "startSecureLine p cx rand fallback relayUrl m =
     (let (l, m1) = createSecureLine p cx rand fallback relayUrl None m
      in (js ''/b/'' @ ln_id l @ ln_hash l, m1\<lparr>m_storage := stashCreatorPin (ln_id l) (ln_pin l) (m_storage m1)\<rparr>))"

text \<open>The em dash of the text is written as its code.\<close>

definition inviteText :: "jstr \<Rightarrow> jstr option \<Rightarrow> bool \<Rightarrow> jstr" where
  "inviteText url pin withQr =
     (let lead = (if withQr then js ''Open this link in your browser (or scan the QR):''
                  else js ''Open this link in your browser:'')
      in case truthy pin of
           None \<Rightarrow> lead @ 0x0A # url
         | Some d \<Rightarrow>
             lead @ 0x0A # url @ [0x0A, 0x0A] @ js ''Room PIN (enter separately '' @ 0x2014 #
               js '' do not paste into the URL):'' @ 0x0A # d)"

section \<open>A line can be entered\<close>

lemma pin_shape: "length (generateRoomPin w) = 6" "list_all is_digit (generateRoomPin w)"
  using pad_left_facts [of 6 "unat w mod 1000000"] by (simp_all add: generateRoomPin_def del: pad_left.simps)

lemma id_shape: "colon \<notin> set (randomBucketId bs)"
proof -
  have "\<forall>i \<in> set [0..<36]. bucket_alphabet ! i \<noteq> colon" by code_simp
  then have "bucket_alphabet ! (k mod 36) \<noteq> colon" for k by simp
  moreover have "length bucket_alphabet = 36" by (simp add: bucket_alphabet_def js_def)
  ultimately show ?thesis by (auto simp: randomBucketId_def) metis
qed

text \<open>The record that is written, and what keeps it.\<close>

lemma record_kept [simp]:
  "m_db (closeRoomConnection b m) = m_db m" "m_db (openRoom b th m) = m_db m"
  by (simp_all add: closeRoomConnection_def stopHeartbeat_def cancelManagedReconnect_def syncRuntimes_def upd_room_def
      on_client_def openRoom_def start_flow_def Let_def split: option.split)

lemma registered:
  "\<exists>rec. getRoom (ro_bucketId opts) (m_db (registerRoom p cx opts m)) = Some rec \<and> rec_roomHash rec = ro_roomHash opts \<and>
     rec_relayUrl rec = ro_relayUrl opts \<and>
     (\<forall>c. ro_isCreator opts = Some c \<longrightarrow> rec_isCreator rec = Some c)"
  by (simp add: registerRoom_def Let_def case_prod_beta log_effect_def on_db_def upsertRoom_def getRoom_def or_else_def update_conv')

lemma registered_pin:
  "ro_roomPin opts = Some pin \<Longrightarrow>
     \<exists>c. m_creds (registerRoom p cx opts m) (ro_bucketId opts) = Some c \<and> cr_roomPin c = Some pin \<and> cr_roomHash c = ro_roomHash opts"
  by (simp add: registerRoom_def Let_def case_prod_beta log_effect_def on_db_def encrypt_creds_def draw_bytes_def
      keep_credentials_def or_else_def)

lemma unreleased:
  "getRoom b d = Some rec \<Longrightarrow> \<exists>rec'. getRoom b (setSeatReleased b r d) = Some rec' \<and> rec_isCreator rec' = rec_isCreator rec"
  by (cases "rec_bucketId rec = b") (auto simp: setSeatReleased_def with_room_def getRoom_def upsertRoom_def update_conv')

text \<open>The two ends of a new line: its creator, and a partner who connects with the link and a PIN.\<close>

lemma created:
  assumes "createSecureLine p cx rand fallback url nickname m = (l, m')"
  obtains opts m0 where "m' = registerRoom p cx opts m0" "ro_bucketId opts = ln_id l" "ro_roomHash opts = ln_hash l"
    "ro_roomPin opts = Some (ln_pin l)" "ro_isCreator opts = Some True"
    "ln_id l = randomBucketId (lr_id rand)" "ln_pin l = generateRoomPin (lr_pin rand)"
    "ln_hash l = buildRoomHash (lr_key rand) (createPinVerifier (pf_pbkdf2 p) (ln_pin l) (lr_salt rand) (ln_id l)) (lr_salt rand) (Some 0)"
proof -
  let ?id = "randomBucketId (lr_id rand)" and ?pin = "generateRoomPin (lr_pin rand)"
  let ?hash = "buildRoomHash (lr_key rand) (createPinVerifier (pf_pbkdf2 p) ?pin (lr_salt rand) ?id) (lr_salt rand) (Some 0)"
  have "l = \<lparr>ln_id = ?id, ln_hash = ?hash, ln_pin = ?pin\<rparr> \<and>
    (\<exists>relay n m0. m' = registerRoom p cx
       \<lparr>ro_bucketId = ?id, ro_roomHash = ?hash, ro_relayUrl = relay, ro_nickname = n, ro_roomPin = Some ?pin,
        ro_legacy = None, ro_legacyToken = None, ro_isCreator = Some True\<rparr> m0)"
    using assms by (auto simp: createSecureLine_def Let_def case_prod_beta)
  then show thesis using that by fastforce
qed

lemma guest_enters:
  assumes "parseRoomFragment h = Some f" "\<not> fr_legacy f" "fr_seat f = None" "getRoom b (m_db m) = None"
  shows "fst (connectWithPin p cx b pin h url m) \<longleftrightarrow> createPinVerifier (pf_pbkdf2 p) pin (fr_salt f) b = fr_pv f"
    and "createPinVerifier (pf_pbkdf2 p) pin (fr_salt f) b = fr_pv f \<Longrightarrow>
      \<exists>rec. getRoom b (m_db (snd (connectWithPin p cx b pin h url m))) = Some rec \<and> rec_isCreator rec = Some False"
proof -
  let ?opts = "\<lparr>ro_bucketId = b, ro_roomHash = h, ro_relayUrl = url, ro_nickname = None, ro_roomPin = Some pin,
     ro_legacy = Some False, ro_legacyToken = None, ro_isCreator = Some False\<rparr>"
  show "fst (connectWithPin p cx b pin h url m) \<longleftrightarrow> createPinVerifier (pf_pbkdf2 p) pin (fr_salt f) b = fr_pv f"
    using assms by (simp add: connectWithPin_def verifyRoomPin_def Let_def)
  show "\<exists>rec. getRoom b (m_db (snd (connectWithPin p cx b pin h url m))) = Some rec \<and> rec_isCreator rec = Some False"
    if "createPinVerifier (pf_pbkdf2 p) pin (fr_salt f) b = fr_pv f"
  proof -
    obtain rec where "getRoom b (m_db (registerRoom p cx ?opts m)) = Some rec" "rec_isCreator rec = Some False"
      using registered [of ?opts p cx m] by auto
    from unreleased [OF this(1), of False] this(2) assms that show ?thesis
      by (simp add: connectWithPin_def verifyRoomPin_def Let_def resolveSeat_def or_else_def on_db_def)
  qed
qed

lemma token_seat:
  assumes "getRoom b (m_db m) = Some rec" "rec_isCreator rec = Some c" "\<not> fr_legacy (ir_fragment r)"
    and "ir_roomPin r = Some pin" "pin \<noteq> []"
  shows "fst (relayTokenForRoom p b r m) =
     Some (deriveRelayToken (pf_hkdf p) (fr_keyRaw (ir_fragment r)) pin b (if c then 0 else 1))"
  using assms by (simp add: relayTokenForRoom_def truthy_def)

text \<open>C8
  A new line can be entered, by the invited partner only. Its id can be a room's name and its PIN has six digits. The
  creator's record has the link, and the PIN is kept. The shared link carries the same key without the seat. A
  partner who connects with it is let through exactly for a PIN with the verifier of the line's; then the two derive
  their relay tokens from the same key, PIN and id, the creator for seat 0 and the partner for seat 1.
\<close>

theorem line_can_be_joined:
  assumes "lr_key rand \<noteq> []" "lr_salt rand \<noteq> []" "\<forall>w s. pf_pbkdf2 p w s \<noteq> []"
    and "createSecureLine p cx rand fallback url nickname m = (l, m')"
    and "getRoom (ln_id l) (m_db guest) = None"
    and "entered = connectWithPin p cx' (ln_id l) pin (shareRoomHash (ln_hash l)) url' guest"
  shows "colon \<notin> set (ln_id l) \<and> length (ln_pin l) = 6 \<and> list_all is_digit (ln_pin l) \<and>
    (\<exists>rec. getRoom (ln_id l) (m_db m') = Some rec \<and> rec_roomHash rec = ln_hash l) \<and>
    (\<exists>c. m_creds m' (ln_id l) = Some c \<and> cr_roomPin c = Some (ln_pin l)) \<and>
    (fst entered \<longleftrightarrow> createPinVerifier (pf_pbkdf2 p) pin (lr_salt rand) (ln_id l) =
                  createPinVerifier (pf_pbkdf2 p) (ln_pin l) (lr_salt rand) (ln_id l)) \<and>
    (\<exists>f. parseRoomFragment (ln_hash l) = Some f \<and> parseRoomFragment (shareRoomHash (ln_hash l)) = Some (f\<lparr>fr_seat := None\<rparr>) \<and>
       (\<forall>r. ir_fragment r = f \<and> ir_roomPin r = Some (ln_pin l) \<longrightarrow>
          fst (relayTokenForRoom p (ln_id l) r m') = Some (deriveRelayToken (pf_hkdf p) (lr_key rand) (ln_pin l) (ln_id l) 0)) \<and>
       (\<forall>r. pin = ln_pin l \<and> ir_fragment r = f\<lparr>fr_seat := None\<rparr> \<and> ir_roomPin r = Some pin \<longrightarrow>
          fst (relayTokenForRoom p (ln_id l) r (snd entered)) =
            Some (deriveRelayToken (pf_hkdf p) (lr_key rand) (ln_pin l) (ln_id l) 1)))"
proof -
  obtain opts m0 where made: "m' = registerRoom p cx opts m0" "ro_bucketId opts = ln_id l" "ro_roomHash opts = ln_hash l"
      "ro_roomPin opts = Some (ln_pin l)" "ro_isCreator opts = Some True"
    and l: "ln_id l = randomBucketId (lr_id rand)" "ln_pin l = generateRoomPin (lr_pin rand)"
    and hash: "ln_hash l = buildRoomHash (lr_key rand) (createPinVerifier (pf_pbkdf2 p) (ln_pin l) (lr_salt rand) (ln_id l)) (lr_salt rand) (Some 0)"
    using created [OF assms(4)] .
  let ?pv = "createPinVerifier (pf_pbkdf2 p) (ln_pin l) (lr_salt rand) (ln_id l)"
  let ?f = "\<lambda>seat. \<lparr>fr_keyRaw = lr_key rand, fr_pv = ?pv, fr_salt = lr_salt rand, fr_seat = seat, fr_legacy = False\<rparr>"
  have pv: "?pv \<noteq> []" using assms(3) by (simp add: createPinVerifier_def)
  have link: "parseRoomFragment (buildRoomHash (lr_key rand) ?pv (lr_salt rand) x) = Some (?f x)" if "seat_ok x" for x
    using assms(1) pv assms(2) that by (rule built_clean(2))
  have own: "parseRoomFragment (ln_hash l) = Some (?f (Some 0))" unfolding hash by (rule link) (simp add: seat_ok_def)
  have shared: "parseRoomFragment (shareRoomHash (ln_hash l)) = Some (?f None)"
    unfolding hash by (simp add: share_link seat_ok_def link)
  obtain rec where rec: "getRoom (ln_id l) (m_db m') = Some rec" "rec_roomHash rec = ln_hash l" "rec_isCreator rec = Some True"
    using registered [of opts p cx m0] made by auto
  obtain c where c: "m_creds m' (ln_id l) = Some c" "cr_roomPin c = Some (ln_pin l)"
    using registered_pin [OF made(4), of p cx m0] made by auto
  have guest: "fst entered \<longleftrightarrow> createPinVerifier (pf_pbkdf2 p) pin (lr_salt rand) (ln_id l) = ?pv"
    using guest_enters(1) [OF shared _ _ assms(5)] by (simp add: assms(6))
  have grec: "\<exists>rec. getRoom (ln_id l) (m_db (snd entered)) = Some rec \<and> rec_isCreator rec = Some False" if "pin = ln_pin l"
    using guest_enters(2) [OF shared _ _ assms(5)] that by (simp add: assms(6))
  have "ln_pin l \<noteq> []" using pin_shape(1) [of "lr_pin rand"] l(2) by auto
  then have tokens:
    "fst (relayTokenForRoom p (ln_id l) r m') = Some (deriveRelayToken (pf_hkdf p) (lr_key rand) (ln_pin l) (ln_id l) 0)"
    if "ir_fragment r = ?f (Some 0)" "ir_roomPin r = Some (ln_pin l)" for r
    using token_seat [OF rec(1,3), of r "ln_pin l" p] that by simp
  have gtokens: "fst (relayTokenForRoom p (ln_id l) r (snd entered)) =
      Some (deriveRelayToken (pf_hkdf p) (lr_key rand) (ln_pin l) (ln_id l) 1)"
    if "pin = ln_pin l" "ir_fragment r = ?f None" "ir_roomPin r = Some pin" for r
    using grec [OF that(1)] token_seat [of "ln_id l" "snd entered" _ False r "ln_pin l" p] that \<open>ln_pin l \<noteq> []\<close> by auto
  show ?thesis
    using pin_shape [of "lr_pin rand"] id_shape [of "lr_id rand"] rec c guest own shared tokens gtokens by (simp add: l(1,2) [symmetric])
qed

text \<open>A concrete line, made and joined.\<close>

definition toy_line_platform :: platform where
  "toy_line_platform = toy_platform\<lparr>pf_pbkdf2 := \<lambda>w s. 1 # w @ s\<rparr>"

definition toy_random :: line_random where
  "toy_random = \<lparr>lr_id = replicate 8 3, lr_key = replicate 32 7, lr_pin = 123456, lr_salt = [2]\<rparr>"

abbreviation toy_manager :: manager where
  "toy_manager \<equiv> new_manager empty_db new_vault (Some [])"

theorem line_can_be_joined_witness:
  "\<exists>l m'. createSecureLine toy_line_platform toy_context toy_random (js ''wss://r'') None None toy_manager = (l, m') \<and>
     length (ln_pin l) = 6 \<and>
     fst (connectWithPin toy_line_platform toy_context (ln_id l) (ln_pin l) (shareRoomHash (ln_hash l)) (js ''wss://r'') toy_manager)"
proof -
  obtain l m' where l: "createSecureLine toy_line_platform toy_context toy_random (js ''wss://r'') None None toy_manager = (l, m')"
    by (cases "createSecureLine toy_line_platform toy_context toy_random (js ''wss://r'') None None toy_manager")
  have kdf: "\<forall>w s. pf_pbkdf2 toy_line_platform w s \<noteq> []" by (simp add: toy_line_platform_def)
  have fresh: "getRoom (ln_id l) (m_db toy_manager) = None" by (simp add: new_manager_def empty_db_def getRoom_def)
  have rand: "lr_key toy_random \<noteq> []" "lr_salt toy_random \<noteq> []" by (simp_all add: toy_random_def)
  from line_can_be_joined [OF rand kdf l fresh refl, where pin = "ln_pin l" and cx' = toy_context and url' = "js ''wss://r''"] l show ?thesis by auto
qed

end
