(* ===== verification/StoredLinks.thy ===== *)
theory StoredLinks
  imports Gate Lines
begin

text \<open>
  What the app PIN protects. A room's record is written by \<open>registerRoom\<close> (\<open>connection-manager.ts\<close>) into the
  database, and \<open>lockApp\<close> of \<open>VaultGate.svelte\<close> leaves the database as it is. The record's \<open>roomHash\<close> is the link
  with its key.
\<close>

section \<open>Locking leaves the database\<close>

lemma released_db [simp]: "m_db (release_all_begin m) = m_db m" "m_db (release_all_end ids m) = m_db m"
proof -
  have "m_db (closeRoomConnection b (upd_runtime b f m)) = m_db m" for b f m
    by (simp add: upd_runtime_def upd_room_def split: option.split)
  then show "m_db (release_all_end ids m) = m_db m"
    by (simp add: release_all_end_def Let_def fold_frame [where P = m_db])
  show "m_db (release_all_begin m) = m_db m"
    by (simp add: release_all_begin_def Let_def cancelAllManagedReconnects_def stopAllHeartbeats_def fold_frame [where P = m_db]
        cancelManagedReconnect_def stopHeartbeat_def upd_room_def on_client_def split: option.split)
qed

lemma released_secrets [simp]:
  "m_creds (release_all_end ids m) = Map.empty" "vt_session (m_vault (release_all_end ids m)) = []"
  by (simp_all add: release_all_end_def Let_def clearSessionCredentials_def)

text \<open>The three steps of a lock.\<close>

lemma locked_gate:
  assumes "g' = run (gate_step p) [LockPressed, LockReleased, LockShown] g"
  shows "gate_db g' = gate_db g" "\<not> isVaultUnlocked (gate_vault g')" "m_creds (gt_manager g') = Map.empty"
    "vt_session (gate_vault g') = []" "gt_mode g' = pin_screen (gate_db g)"
  unfolding assms
  by (simp_all add: lockApp_def lock_released_def lock_shown_def on_manager_def set_vault_def gate_db_def gate_vault_def Let_def
      lockVault_def isVaultUnlocked_def)

section \<open>What the record tells\<close>

text \<open>Of the PIN itself a registration writes nothing but the sealed credentials.\<close>

lemma sealed_pin_only:
  "\<exists>sealed. getRoom b (m_db (registerRoom p cx (opts\<lparr>ro_roomPin := pin\<rparr>) m)) =
     map_option (\<lambda>rec. rec\<lparr>rec_credentialsEnc := sealed\<rparr>) (getRoom b (m_db (registerRoom p cx opts m)))"
  if "b = ro_bucketId opts"
  using that by (simp add: registerRoom_def Let_def case_prod_beta log_effect_def on_db_def upsertRoom_def getRoom_def update_conv'
      encrypt_creds_def draw_bytes_def keep_credentials_def)



end
