(* ===== verification/RelayUrl.thy ===== *)
theory RelayUrl
  imports Lines
begin

text \<open>
  The addresses the program builds from a room's id: the constructor of \<open>RelayClient\<close> (\<open>web/src/lib/relay/client.ts\<close>),
  the health request of \<open>web/src/lib/servers/directory.ts\<close>, and the mail that reports a line
  (\<open>web/src/routes/(app)/b/[id]/+page.svelte\<close>). \<open>encodeURIComponent\<close> is the language's; a lone surrogate makes it
  throw, which is \<open>None\<close>.
\<close>

section \<open>encodeURIComponent\<close>

definition uri_plain :: "nat \<Rightarrow> bool" where
  "uri_plain n \<longleftrightarrow> form_plain n \<or> n = 0x21 \<or> n = 0x7E \<or> 0x27 \<le> n \<and> n \<le> 0x29"

definition uri_byte :: "byte \<Rightarrow> bytes" where
  "uri_byte b =
     (if uri_plain (unat b) then [b] else [0x25, pct_digit (unat b div 16), pct_digit (unat b mod 16)])"

definition uri_bytes :: "bytes \<Rightarrow> bytes" where
  "uri_bytes bs = concat (map uri_byte bs)"

definition encodeURIComponent :: "jstr \<Rightarrow> jstr option" where
  "encodeURIComponent s = (if well_formed s then Some (ascii_text (uri_bytes (utf8_encode s))) else None)"

lemma uri_plain_code: "uri_plain (unat (b :: byte)) \<Longrightarrow> b \<noteq> 0x25 \<and> unat b < 128"
  by (auto simp: uri_plain_def form_plain_def)

lemma decode_uri_byte: "percent_decode (uri_byte b @ bs) = b # percent_decode bs"
proof (cases "uri_plain (unat b)")
  case True
  then show ?thesis using uri_plain_code [OF True] by (simp add: uri_byte_def percent_decode.simps(2))
next
  case False
  have "unat b div 16 < 16" "unat b mod 16 < 16" using unat_byte [of b] by auto
  moreover have "(of_nat (16 * (unat b div 16) + unat b mod 16) :: byte) = b"
    by (simp only: mult_div_mod_eq) simp
  ultimately show ?thesis
    using False pct_table
    by (simp add: uri_byte_def percent_decode.simps(2) pct_pair_def del: of_nat_add of_nat_mult)
qed

lemma decode_uri_bytes: "percent_decode (uri_bytes bs) = bs"
proof (induction bs)
  case Nil
  then show ?case by (simp add: uri_bytes_def)
next
  case (Cons b bs)
  have "uri_bytes (b # bs) = uri_byte b @ uri_bytes bs" by (simp add: uri_bytes_def)
  then show ?case using Cons.IH decode_uri_byte by (simp only:)
qed

lemma uri_bytes_units:
  assumes "x \<in> set (uri_bytes bs)"
  shows "uri_plain (unat x) \<or> x = 0x25"
proof -
  have "uri_plain (unat (pct_digit n))" if "n < 16" for n
  proof -
    have "\<forall>n \<in> set [0..<16]. uri_plain (unat (pct_digit n))" by code_simp
    with that show ?thesis by simp
  qed
  moreover obtain b where "x \<in> set (uri_byte b)" using assms by (auto simp: uri_bytes_def)
  moreover have "unat b div 16 < 16" "unat b mod 16 < 16" using unat_byte [of b] by auto
  ultimately show ?thesis by (auto simp: uri_byte_def split: if_splits)
qed

text \<open>
  What is encoded stays in its part of the address: no slash, question mark, number sign or ampersand comes out, and
  decoding gives the text's bytes back.
\<close>

lemma encoded_is_one_part:
  assumes "encodeURIComponent s = Some t"
  shows "set t \<inter> {0x2F, 0x3F, 0x23, 0x26} = {}" "percent_decode (utf8_encode t) = utf8_encode s"
proof -
  have t: "t = ascii_text (uri_bytes (utf8_encode s))" using assms by (auto simp: encodeURIComponent_def split: if_splits)
  have small: "\<forall>x \<in> set (uri_bytes (utf8_encode s)). unat x < 128"
    using uri_bytes_units uri_plain_code by fastforce
  show "set t \<inter> {0x2F, 0x3F, 0x23, 0x26} = {}"
  proof (rule ccontr)
    assume "set t \<inter> {0x2F, 0x3F, 0x23, 0x26} \<noteq> {}"
    then obtain x where x: "x \<in> set (uri_bytes (utf8_encode s))"
      "(of_nat (unat x) :: 16 word) \<in> {0x2F, 0x3F, 0x23, 0x26}" by (auto simp: t ascii_text_def)
    then have "unat x \<in> {0x2F, 0x3F, 0x23, 0x26}" using unat_widened [of x] by auto
    moreover have "unat (0x25 :: byte) = 0x25" by simp
    ultimately show False using uri_bytes_units [OF x(1)] by (auto simp: uri_plain_def form_plain_def)
  qed
  show "percent_decode (utf8_encode t) = utf8_encode s"
    using ascii_append [OF small, of "[]"] by (simp add: t decode_uri_bytes utf8_encode_def)
qed

section \<open>The relay's address\<close>

definition has_prefix :: "string \<Rightarrow> jstr \<Rightarrow> bool" where
  "has_prefix part s \<longleftrightarrow> take (length part) s = js part"

definition wsBase :: "jstr \<Rightarrow> jstr" where
  "wsBase relayBase =
     (let base = drop_slash relayBase
      in if has_prefix ''http'' base then js ''ws'' @ drop 4 base
         else if has_prefix ''ws'' base then base
         else js ''ws://'' @ base)"

definition relay_params :: "jstr \<Rightarrow> jstr \<Rightarrow> params" where
  "relay_params token sid =
     (if sid = [] then [(js ''token'', token)] else param_set (js ''sid'') sid [(js ''token'', token)])"

definition relay_url :: "jstr \<Rightarrow> jstr \<Rightarrow> jstr \<Rightarrow> jstr \<Rightarrow> jstr option" where
  "relay_url relayBase bucketId token sid =
     map_option (\<lambda>b. wsBase relayBase @ js ''/bucket/'' @ b @ 0x3F # params_text (relay_params token sid))
       (encodeURIComponent bucketId)"

text \<open>
  The relay reads from the query what the client was made with, the token and, when there is one, the device's
  session id.
\<close>

lemma relay_reads_token:
  assumes "relay_url base b token sid = Some u" "well_formed token" "well_formed sid"
  obtains path query where "u = path @ 0x3F # query" "param_get (js ''token'') (parse_params query) = Some token"
    "param_get (js ''sid'') (parse_params query) = (if sid = [] then None else Some sid)"
proof -
  have names: "js ''token'' \<noteq> js ''sid''" "well_formed (js ''token'')" "well_formed (js ''sid'')"
    by (simp_all add: js_def unit_of_def is_high_def is_low_def)
  have "parse_params (params_text (relay_params token sid)) = relay_params token sid"
    using assms(2,3) names by (intro params_roundtrip) (auto simp: relay_params_def)
  moreover obtain t where "u = (wsBase base @ js ''/bucket/'' @ t) @ 0x3F # params_text (relay_params token sid)"
    using assms(1) by (auto simp: relay_url_def)
  moreover have "param_get (js ''token'') (relay_params token sid) = Some token"
    "param_get (js ''sid'') (relay_params token sid) = (if sid = [] then None else Some sid)"
    using names(1) by (simp_all add: relay_params_def)
  ultimately show ?thesis using that by metis
qed

text \<open>
  A base without a scheme gets one, unless its host's name begins with the letters of a scheme: such a host is taken
  for an address as it stands.
\<close>

lemma bare_host:
  "wsBase (js ''relay.example'') = js ''ws://relay.example''"
  "wsBase (js ''wschat.example/'') = js ''wschat.example''"
  "wsBase (js ''httpd.example'') = js ''wsd.example''"
  by code_simp+

text \<open>\<open>pingServer\<close>: the address it asks, and its answer; \<open>None\<close> is a request that failed or took too long.\<close>

definition health_url :: "jstr \<Rightarrow> jstr" where
  "health_url wsUrl =
     drop_slash (if has_prefix ''ws'' wsUrl then js ''http'' @ drop 2 wsUrl else wsUrl) @ js ''/health''"

definition pingServer :: "(jstr \<Rightarrow> bool option) \<Rightarrow> jstr \<Rightarrow> bool" where
  "pingServer fetched wsUrl = (fetched (health_url wsUrl) = Some True)"

section \<open>Reporting a line\<close>

definition report_subject :: "jstr \<Rightarrow> jstr" where
  "report_subject b = js ''byteln report: '' @ b"

definition report_body :: "jstr \<Rightarrow> jstr \<Rightarrow> jstr" where
  "report_body b note =
     js ''Line ID: '' @ b @ 0x0A # js ''Note: '' @ (if note = [] then js ''(none)'' else note) @
       [0x0A, 0x0A] @ js ''No message content included.''"

definition reportLine :: "jstr \<Rightarrow> jstr \<Rightarrow> jstr option" where
  "reportLine b note =
     (case (encodeURIComponent (report_subject b), encodeURIComponent (report_body b note)) of
        (Some s, Some t) \<Rightarrow> Some (js ''mailto:?subject='' @ s @ js ''&body='' @ t)
      | _ \<Rightarrow> None)"

text \<open>The note cannot add a recipient or another field to the mail: the address has one question mark and one ampersand.\<close>

lemma report_has_two_fields:
  assumes "reportLine b note = Some m"
  shows "length (filter (\<lambda>u. u = 0x3F) m) = 1" "length (filter (\<lambda>u. u = 0x26) m) = 1"
proof -
  obtain s t where parts: "encodeURIComponent (report_subject b) = Some s" "encodeURIComponent (report_body b note) = Some t"
    and m: "m = js ''mailto:?subject='' @ s @ js ''&body='' @ t"
    using assms by (auto simp: reportLine_def split: option.splits)
  have none: "filter (\<lambda>u. u = 0x3F) s = []" "filter (\<lambda>u. u = 0x26) s = []" "filter (\<lambda>u. u = 0x3F) t = []" "filter (\<lambda>u. u = 0x26) t = []"
    using encoded_is_one_part(1) [OF parts(1)] encoded_is_one_part(1) [OF parts(2)] by (auto simp: filter_empty_conv)
  show "length (filter (\<lambda>u. u = 0x3F) m) = 1" "length (filter (\<lambda>u. u = 0x26) m) = 1"
    by (simp_all add: m none js_def unit_of_def)
qed

end
