(* ===== verification/Handoff.thy ===== *)
theory Handoff
  imports Client Backup Room
begin

text \<open>
  Handing a room to another device: \<open>web/src/lib/handoff.ts\<close>. The receiving device shows a QR code with a fresh
  relay bucket and a one-time key; the sending device scans it and pushes the room link and the PIN through that
  bucket, sealed. The cipher is Web Crypto's AES-GCM with additional data: its key is the pair of the channel's key
  and the additional data. \<open>new URL(value).pathname\<close> of the browser is the parameter \<open>url_path\<close> (absent when the
  constructor throws).
\<close>

section \<open>The channel\<close>

record handoff_channel =
  ch_channelId :: jstr
  ch_keyRaw :: bytes
  ch_relayUrl :: jstr

record handoff_room =
  hr_bucketId :: jstr
  hr_roomHash :: jstr
  hr_pin :: jstr

datatype handoff_message = RoomMessage handoff_room | AckMessage

definition bucket_id_ok :: "jstr \<Rightarrow> bool" where
  "bucket_id_ok s \<longleftrightarrow> 4 \<le> length s \<and> length s \<le> 32 \<and> list_all url_safe s"

definition relay_url_ok :: "jstr \<Rightarrow> bool" where
  "relay_url_ok s \<longleftrightarrow> after_word ''ws://'' s \<noteq> None \<or> after_word ''wss://'' s \<noteq> None"

text \<open>The arguments are the outcomes of \<open>crypto.getRandomValues\<close>, of 20 and of 32 bytes.\<close>

definition createHandoffChannel :: "bytes \<Rightarrow> bytes \<Rightarrow> jstr \<Rightarrow> handoff_channel" where
  "createHandoffChannel rand key relayUrl =
     \<lparr>ch_channelId = randomBucketId rand, ch_keyRaw = key, ch_relayUrl = relayUrl\<rparr>"

definition channel_params :: "handoff_channel \<Rightarrow> params" where
  "channel_params ch =
     [(js ''ch'', ch_channelId ch), (js ''k'', bytesToBase64Url (ch_keyRaw ch)), (js ''r'', ch_relayUrl ch)]"

definition handoffUrl :: "jstr \<Rightarrow> handoff_channel \<Rightarrow> jstr" where
  "handoffUrl origin ch = origin @ js ''/handoff#'' @ params_text (channel_params ch)"

definition parseHandoffFragment :: "jstr \<Rightarrow> handoff_channel option" where
  "parseHandoffFragment hash =
     (let params = parse_params (strip_hash hash);
          read = (\<lambda>n. case param_get (js n) params of None \<Rightarrow> [] | Some v \<Rightarrow> v);
          channelId = read ''ch''; k = read ''k''; relayUrl = read ''r''
      in if \<not> bucket_id_ok channelId \<or> \<not> relay_url_ok relayUrl then None
         else (case base64UrlToBytes k of
                 Inl e \<Rightarrow> None
               | Inr keyRaw \<Rightarrow>
                   if length keyRaw \<noteq> 32 then None
                   else Some \<lparr>ch_channelId = channelId, ch_keyRaw = keyRaw, ch_relayUrl = relayUrl\<rparr>))"

definition starts_with :: "jstr \<Rightarrow> jstr \<Rightarrow> bool" where
  "starts_with p s \<longleftrightarrow> take (length p) s = p"

definition parseHandoffScan :: "(jstr \<Rightarrow> jstr option) \<Rightarrow> jstr \<Rightarrow> handoff_channel option" where
  "parseHandoffScan url_path value =
     (let before = takeWhile (\<lambda>u. u \<noteq> 0x23) value; rest = dropWhile (\<lambda>u. u \<noteq> 0x23) value
      in if rest = [] then None
         else if before \<noteq> [] \<and>
            (case url_path value of None \<Rightarrow> True | Some path \<Rightarrow> \<not> starts_with (js ''/handoff'') path) then None
         else parseHandoffFragment rest)"

section \<open>Frames\<close>

type_synonym channel_seal = "bytes \<times> bytes \<Rightarrow> bytes \<Rightarrow> bytes \<Rightarrow> bytes"
type_synonym channel_unseal = "bytes \<times> bytes \<Rightarrow> bytes \<Rightarrow> bytes \<Rightarrow> bytes option"

definition channel_key :: "handoff_channel \<Rightarrow> bytes \<times> bytes" where
  "channel_key ch = (ch_keyRaw ch, utf8_encode (ch_channelId ch))"

fun message_json :: "handoff_message \<Rightarrow> json" where
  "message_json (RoomMessage r) =
     JObj [(js ''t'', JStr (js ''room'')), (js ''bucketId'', JStr (hr_bucketId r)),
           (js ''roomHash'', JStr (hr_roomHash r)), (js ''pin'', JStr (hr_pin r))]"
| "message_json AckMessage = JObj [(js ''t'', JStr (js ''ack''))]"

definition sealHandoff :: "channel_seal \<Rightarrow> handoff_channel \<Rightarrow> bytes \<Rightarrow> handoff_message \<Rightarrow> bytes" where
  "sealHandoff seal ch iv msg = 1 # iv @ seal (channel_key ch) iv (utf8_encode (stringify (message_json msg)))"

definition validateMessage :: "json \<Rightarrow> handoff_message option" where
  "validateMessage raw =
     (if member raw (js ''t'') = Some (JStr (js ''ack'')) then Some AckMessage
      else if member raw (js ''t'') \<noteq> Some (JStr (js ''room'')) then None
      else (case (member raw (js ''bucketId''), member raw (js ''pin''), member raw (js ''roomHash'')) of
              (Some (JStr b), Some (JStr pin), Some (JStr h)) \<Rightarrow>
                if \<not> bucket_id_ok b \<or> length pin \<noteq> 6 \<or> \<not> list_all is_digit pin then None
                else (case parseRoomFragment h of
                        None \<Rightarrow> None
                      | Some f \<Rightarrow>
                          if fr_legacy f then None
                          else Some (RoomMessage \<lparr>hr_bucketId = b, hr_roomHash = shareRoomHash h, hr_pin = pin\<rparr>))
            | _ \<Rightarrow> None))"

definition openHandoff :: "channel_unseal \<Rightarrow> handoff_channel \<Rightarrow> bytes \<Rightarrow> handoff_message option" where
  "openHandoff unseal ch data =
     (if length data < 14 \<or> data ! 0 \<noteq> 1 then None
      else (case unseal (channel_key ch) (take 12 (drop 1 data)) (drop 13 data) of
              None \<Rightarrow> None
            | Some plain \<Rightarrow> Option.bind (parse (utf8_decode plain)) validateMessage))"

section \<open>The receiving side\<close>

text \<open>
  Where the continuation of \<open>onBinary\<close> stands that has taken a room: it seals the acknowledgement, waits for the
  relay to let go of the socket, and hands the room over.
\<close>

datatype handing = Waiting | SealingAck handoff_room | ClosingRelay handoff_room | HandedOver

datatype listener_call = ShowStatus status | RoomGiven handoff_room

record listener =
  li_client :: client
  li_done :: bool
  li_opening :: "bytes list"
  li_phase :: handing
  li_calls :: "listener_call list"

definition listener_call :: "listener_call \<Rightarrow> listener \<Rightarrow> listener" where
  "listener_call x l = l\<lparr>li_calls := li_calls l @ [x]\<rparr>"

text \<open>What the client calls back, in order.\<close>

fun listener_hears :: "client_effect \<Rightarrow> listener \<Rightarrow> listener" where
  "listener_hears (StatusCall s detail) l =
     (if li_done l then l else listener_call (ShowStatus (if s = StClosed then StReconnecting else s)) l)"
| "listener_hears (BinaryCall data) l = (if li_done l then l else l\<lparr>li_opening := li_opening l @ [data]\<rparr>)"
| "listener_hears CloseResolved l =
     (case li_phase l of
        ClosingRelay r \<Rightarrow> listener_call (RoomGiven r) (l\<lparr>li_phase := HandedOver\<rparr>)
      | _ \<Rightarrow> l)"
| "listener_hears _ l = l"

definition listener_client :: "(client \<Rightarrow> client) \<Rightarrow> listener \<Rightarrow> listener" where
  "listener_client f l =
     (let c = f (li_client l)
      in fold listener_hears (drop (length (c_log (li_client l))) (c_log c)) (l\<lparr>li_client := c\<rparr>))"

definition listenForHandoff :: listener where
  "listenForHandoff =
     listener_client connect
       \<lparr>li_client = new_client True 30000, li_done = False, li_opening = [], li_phase = Waiting, li_calls = []\<rparr>"

text \<open>A frame's decryption is over; frames overtake each other.\<close>

definition listener_opened :: "channel_unseal \<Rightarrow> handoff_channel \<Rightarrow> nat \<Rightarrow> listener \<Rightarrow> listener" where
  "listener_opened unseal ch j l =
     (let l1 = l\<lparr>li_opening := take j (li_opening l) @ drop (Suc j) (li_opening l)\<rparr>
      in case openHandoff unseal ch (li_opening l ! j) of
           Some (RoomMessage r) \<Rightarrow> if li_done l1 then l1 else l1\<lparr>li_done := True, li_phase := SealingAck r\<rparr>
         | _ \<Rightarrow> l1)"

definition ack_sealed :: "channel_seal \<Rightarrow> handoff_channel \<Rightarrow> bytes \<Rightarrow> listener \<Rightarrow> listener" where
  "ack_sealed seal ch iv l =
     (case li_phase l of
        SealingAck r \<Rightarrow>
          listener_client closeAndWait
            (listener_client (sendBinary (sealHandoff seal ch iv AckMessage)) (l\<lparr>li_phase := ClosingRelay r\<rparr>))
      | _ \<Rightarrow> l)"

definition close_listener :: "listener \<Rightarrow> listener" where
  "close_listener l = listener_client close (l\<lparr>li_done := True\<rparr>)"

datatype listener_event = RelayDoes client_event | FrameOpened nat | AckSealed bytes | CloseListener

fun from_browser :: "client_event \<Rightarrow> bool" where
  "from_browser CallConnect = False"
| "from_browser CallClose = False"
| "from_browser CallCloseAndWait = False"
| "from_browser (CallSendBinary buf) = False"
| "from_browser (CallSendControl msg) = False"
| "from_browser _ = True"

fun listener_step :: "channel_seal \<Rightarrow> channel_unseal \<Rightarrow> handoff_channel \<Rightarrow> listener_event \<Rightarrow> listener \<Rightarrow> listener" where
  "listener_step seal unseal ch (RelayDoes e) l = listener_client (client_step e) l"
| "listener_step seal unseal ch (FrameOpened j) l = listener_opened unseal ch j l"
| "listener_step seal unseal ch (AckSealed iv) l = ack_sealed seal ch iv l"
| "listener_step seal unseal ch CloseListener l = close_listener l"

fun listener_enabled :: "listener_event \<Rightarrow> listener \<Rightarrow> bool" where
  "listener_enabled (RelayDoes e) l \<longleftrightarrow> from_browser e \<and> client_enabled e (li_client l)"
| "listener_enabled (FrameOpened j) l \<longleftrightarrow> j < length (li_opening l)"
| "listener_enabled (AckSealed iv) l \<longleftrightarrow> length iv = 12 \<and> (\<exists>r. li_phase l = SealingAck r)"
| "listener_enabled CloseListener l \<longleftrightarrow> True"

section \<open>The sending side\<close>

datatype handoff_result = Resolved | Rejected jstr

record sender =
  se_client :: client
  se_room :: handoff_room
  se_settled :: bool
  se_timer :: bool
  se_sealing :: nat
  se_opening :: "bytes list"
  se_results :: "handoff_result list"

definition sender_finish :: "handoff_result \<Rightarrow> sender \<Rightarrow> sender" where
  "sender_finish x s =
     (if se_settled s then s
      else s\<lparr>se_settled := True, se_timer := False, se_client := close (se_client s), se_results := se_results s @ [x]\<rparr>)"

text \<open>
  The callbacks. \<open>finish\<close> closes the client, which calls nobody back; the client does not reconnect, so that it makes
  no difference whether it is closed during its own callback or right after it.
\<close>

fun sender_hears :: "client_effect \<Rightarrow> sender \<Rightarrow> sender" where
  "sender_hears (StatusCall st detail) s =
     (if st = StOpen then s\<lparr>se_sealing := Suc (se_sealing s)\<rparr>
      else if st = StClosed \<or> st = StError then
        sender_finish (Rejected (if detail = Some (js ''bucket full'')
          then js ''This QR code was already used. Refresh it on the other device.''
          else js ''Could not reach the relay.'')) s
      else s)"
| "sender_hears (BinaryCall data) s = s\<lparr>se_opening := se_opening s @ [data]\<rparr>"
| "sender_hears _ s = s"

definition sender_client :: "(client \<Rightarrow> client) \<Rightarrow> sender \<Rightarrow> sender" where
  "sender_client f s =
     (let c = f (se_client s)
      in fold sender_hears (drop (length (c_log (se_client s))) (c_log c)) (s\<lparr>se_client := c\<rparr>))"

definition sendHandoff :: "handoff_room \<Rightarrow> sender" where
  "sendHandoff r =
     sender_client connect
       \<lparr>se_client = new_client False 30000, se_room = r, se_settled = False, se_timer = True, se_sealing = 0,
        se_opening = [], se_results = []\<rparr>"

datatype sender_event = RelayActs client_event | FrameSealed bytes | AnswerOpened nat | AnswerTimeout

fun sender_step :: "channel_seal \<Rightarrow> channel_unseal \<Rightarrow> handoff_channel \<Rightarrow> sender_event \<Rightarrow> sender \<Rightarrow> sender" where
  "sender_step seal unseal ch (RelayActs e) s = sender_client (client_step e) s"
| "sender_step seal unseal ch (FrameSealed iv) s =
     sender_client (sendBinary (sealHandoff seal ch iv (RoomMessage (se_room s)))) (s\<lparr>se_sealing := se_sealing s - 1\<rparr>)"
| "sender_step seal unseal ch (AnswerOpened j) s =
     (let s1 = s\<lparr>se_opening := take j (se_opening s) @ drop (Suc j) (se_opening s)\<rparr>
      in if openHandoff unseal ch (se_opening s ! j) = Some AckMessage then sender_finish Resolved s1 else s1)"
| "sender_step seal unseal ch AnswerTimeout s =
     sender_finish (Rejected (js ''The other device did not answer. Is its QR page still open?'')) s"

fun sender_enabled :: "sender_event \<Rightarrow> sender \<Rightarrow> bool" where
  "sender_enabled (RelayActs e) s \<longleftrightarrow> from_browser e \<and> client_enabled e (se_client s)"
| "sender_enabled (FrameSealed iv) s \<longleftrightarrow> length iv = 12 \<and> 0 < se_sealing s"
| "sender_enabled (AnswerOpened j) s \<longleftrightarrow> j < length (se_opening s)"
| "sender_enabled AnswerTimeout s \<longleftrightarrow> se_timer s"

section \<open>Round trips\<close>

text \<open>The QR code is read back as the channel it was made from.\<close>

lemma url_safe_hash: "list_all url_safe s \<Longrightarrow> 0x23 \<notin> set s"
  by (auto simp: list_all_iff url_safe_def is_digit_def)

lemma created_channel:
  assumes "length rand = 20"
  shows "bucket_id_ok (ch_channelId (createHandoffChannel rand key url))"
proof -
  have "\<forall>i \<in> set [0..<36]. url_safe (bucket_alphabet ! i)" by code_simp
  then have "url_safe (bucket_alphabet ! (k mod 36))" for k by simp
  moreover have "length bucket_alphabet = 36" by (simp add: bucket_alphabet_def js_def)
  ultimately show ?thesis
    using assms by (simp add: createHandoffChannel_def bucket_id_ok_def randomBucketId_def list_all_iff)
qed

lemma qr_roundtrip:
  assumes "bucket_id_ok (ch_channelId ch)" "length (ch_keyRaw ch) = 32" "relay_url_ok (ch_relayUrl ch)"
    and "well_formed (ch_relayUrl ch)"
  shows "parseHandoffFragment (0x23 # params_text (channel_params ch)) = Some ch"
    and "0x23 \<notin> set origin \<Longrightarrow> url_path (handoffUrl origin ch) = Some (js ''/handoff'') \<Longrightarrow>
      parseHandoffScan url_path (handoffUrl origin ch) = Some ch"
proof -
  have names: "list_all url_safe (js ''ch'')" "list_all url_safe (js ''k'')" "list_all url_safe (js ''r'')"
    by (simp_all add: js_def unit_of_def url_safe_def is_digit_def)
  have params_back: "parse_params (params_text (channel_params ch)) = channel_params ch"
    using assms names url_safe_well_formed base64url_safe
    by (intro params_roundtrip) (auto simp: channel_params_def bucket_id_ok_def)
  show fragment: "parseHandoffFragment (0x23 # params_text (channel_params ch)) = Some ch"
    using assms params_back
    by (simp add: parseHandoffFragment_def strip_hash_def Let_def) (simp add: channel_params_def)
  show "parseHandoffScan url_path (handoffUrl origin ch) = Some ch"
    if "0x23 \<notin> set origin" "url_path (handoffUrl origin ch) = Some (js ''/handoff'')"
  proof -
    have "takeWhile (\<lambda>u. u \<noteq> 0x23) (handoffUrl origin ch) = origin @ js ''/handoff''"
      "dropWhile (\<lambda>u. u \<noteq> 0x23) (handoffUrl origin ch) = 0x23 # params_text (channel_params ch)"
      using that(1) by (auto simp: handoffUrl_def js_def unit_of_def takeWhile_append dropWhile_append)
    then show ?thesis using that(2) fragment by (simp add: parseHandoffScan_def starts_with_def)
  qed
qed

text \<open>A sealed message is opened as what \<open>validateMessage\<close> makes of it; what opens was sealed under the channel.\<close>

lemma message_good: "good_json (message_json m)"
  by (cases m) (simp_all add: js_def unit_of_def)

lemma open_sealed:
  assumes "aead seal unseal" "length iv = 12"
  shows "openHandoff unseal ch (sealHandoff seal ch iv m) = validateMessage (message_json m)"
proof -
  have "parse (utf8_decode (utf8_encode (stringify (message_json m)))) = Some (message_json m)"
    using json_roundtrip [OF message_good [of m]] by (simp add: json_of_bytes_def json_bytes_def)
  then show ?thesis using assms by (simp add: openHandoff_def sealHandoff_def)
qed

definition sealed_under :: "channel_seal \<Rightarrow> handoff_channel \<Rightarrow> bytes \<Rightarrow> bytes \<Rightarrow> bool" where
  "sealed_under seal ch data pt \<longleftrightarrow> (\<exists>iv. length iv = 12 \<and> data = 1 # iv @ seal (channel_key ch) iv pt)"

lemma open_genuine:
  assumes "aead seal unseal" "openHandoff unseal ch data = Some m"
  obtains pt where "sealed_under seal ch data pt" "Option.bind (parse (utf8_decode pt)) validateMessage = Some m"
proof -
  obtain pt where data: "\<not> length data < 14" "data ! 0 = 1"
      and pt: "unseal (channel_key ch) (take 12 (drop 1 data)) (drop 13 data) = Some pt"
    and m: "Option.bind (parse (utf8_decode pt)) validateMessage = Some m"
    using assms(2) by (auto simp: openHandoff_def split: if_splits option.splits)
  have "drop 13 data = seal (channel_key ch) (take 12 (drop 1 data)) pt"
    using assms(1) pt unfolding aead_def by blast
  moreover have "data = 1 # take 12 (drop 1 data) @ drop 13 data"
    using data by (cases data) simp_all
  moreover have "length (take 12 (drop 1 data)) = 12" using data(1) by simp
  ultimately have "sealed_under seal ch data pt" unfolding sealed_under_def by metis
  with m show thesis by (rule that [rotated])
qed

text \<open>What a valid room is, and what validation leaves of it.\<close>

definition room_ok :: "handoff_room \<Rightarrow> bool" where
  "room_ok r \<longleftrightarrow> bucket_id_ok (hr_bucketId r) \<and> length (hr_pin r) = 6 \<and> list_all is_digit (hr_pin r) \<and>
     (\<exists>h f. hr_roomHash r = shareRoomHash h \<and> parseRoomFragment h = Some f \<and> \<not> fr_legacy f)"

lemma validate_room: "validateMessage j = Some (RoomMessage r) \<Longrightarrow> room_ok r"
  by (auto simp: validateMessage_def room_ok_def split: if_splits option.splits json.splits)

lemma validate_sent:
  assumes "bucket_id_ok (hr_bucketId r)" "length (hr_pin r) = 6" "list_all is_digit (hr_pin r)"
    and "parseRoomFragment (hr_roomHash r) = Some f" "\<not> fr_legacy f"
  shows "validateMessage (message_json (RoomMessage r)) =
     Some (RoomMessage (r\<lparr>hr_roomHash := shareRoomHash (hr_roomHash r)\<rparr>))"
  using assms by (simp add: validateMessage_def js_def unit_of_def Json.member.simps)

section \<open>The receiver in every run\<close>

text \<open>The client's log only grows.\<close>

lemma log_grows: "\<exists>xs. c_log (client_step e c) = c_log c @ xs"
  by (cases e)
    (simp_all add: client_ops fold_finish call_def close_socket_def split: option.split message.split)

definition news :: "(client \<Rightarrow> client) \<Rightarrow> client \<Rightarrow> client_effect list" where
  "news f c = drop (length (c_log c)) (c_log (f c))"

lemma log_news: "c_log (client_step e c) = c_log c @ news (client_step e) c"
  using log_grows [of e c] by (auto simp: news_def)

lemma hears_client: "li_client (listener_hears x l) = li_client l"
  by (cases x) (auto simp: listener_call_def split: handing.split)

lemma hears_done: "li_done (listener_hears x l) = li_done l"
  by (cases x) (auto simp: listener_call_def split: handing.split)

lemma heard_client [simp]: "li_client (fold listener_hears xs l) = li_client l" "li_done (fold listener_hears xs l) = li_done l"
  by (induction xs arbitrary: l) (simp_all add: hears_client hears_done)

lemma heard_opening: "set (li_opening (fold listener_hears xs l)) \<subseteq> set (li_opening l) \<union> {d. BinaryCall d \<in> set xs}"
proof (induction xs arbitrary: l)
  case (Cons x xs)
  have "set (li_opening (listener_hears x l)) \<subseteq> set (li_opening l) \<union> {d. BinaryCall d = x}"
    by (cases x) (auto simp: listener_call_def split: handing.split)
  with Cons [of "listener_hears x l"] show ?case by auto
qed simp

fun rooms_given :: "listener_call list \<Rightarrow> handoff_room list" where
  "rooms_given [] = []"
| "rooms_given (RoomGiven r # xs) = r # rooms_given xs"
| "rooms_given (_ # xs) = rooms_given xs"

lemma rooms_given_append [simp]: "rooms_given (xs @ ys) = rooms_given xs @ rooms_given ys"
  by (induction xs rule: rooms_given.induct) simp_all

text \<open>Only a settled \<open>closeAndWait\<close> hands a room over, and once.\<close>

lemma heard_phase:
  "(\<forall>r. li_phase l \<noteq> ClosingRelay r) \<or> CloseResolved \<notin> set xs \<Longrightarrow>
    li_phase (fold listener_hears xs l) = li_phase l \<and>
    rooms_given (li_calls (fold listener_hears xs l)) = rooms_given (li_calls l)"
proof (induction xs arbitrary: l)
  case (Cons x xs)
  have "li_phase (listener_hears x l) = li_phase l \<and>
      rooms_given (li_calls (listener_hears x l)) = rooms_given (li_calls l)"
    using Cons.prems by (cases x) (auto simp: listener_call_def split: handing.split)
  with Cons.IH [of "listener_hears x l"] Cons.prems show ?case by auto
qed simp

lemma heard_close:
  "li_phase l = ClosingRelay r \<Longrightarrow> CloseResolved \<in> set xs \<Longrightarrow>
    li_phase (fold listener_hears xs l) = HandedOver \<and>
    rooms_given (li_calls (fold listener_hears xs l)) = rooms_given (li_calls l) @ [r]"
proof (induction xs arbitrary: l)
  case (Cons x xs)
  show ?case
  proof (cases "x = CloseResolved")
    case True
    then show ?thesis
      using Cons.prems heard_phase [of "listener_hears x l" xs] by (simp add: listener_call_def)
  next
    case False
    then have "li_phase (listener_hears x l) = li_phase l \<and>
        rooms_given (li_calls (listener_hears x l)) = rooms_given (li_calls l)"
      by (cases x) (auto simp: listener_call_def split: handing.split)
    with Cons.IH [of "listener_hears x l"] Cons.prems False show ?thesis by auto
  qed
qed simp

text \<open>A client that is closing: nothing will reconnect it.\<close>

definition quiet :: "client \<Rightarrow> bool" where
  "quiet c \<longleftrightarrow> client_inv c \<and> \<not> c_auto c \<and> c_timer c = None \<and> c_gen c \<notin> set (c_solving c)"

definition resolves :: "(client \<Rightarrow> client) \<Rightarrow> client \<Rightarrow> bool" where
  "resolves f c \<longleftrightarrow> CloseResolved \<in> set (news f c)"

lemma at_rest_quiet: "at_rest c \<longleftrightarrow> quiet c \<and> c_ws c = None"
  by (auto simp: at_rest_def quiet_def)

lemma quiet_step:
  assumes "quiet c" "client_enabled e c" "from_browser e"
  shows "quiet (client_step e c)" "resolves (client_step e) c \<Longrightarrow> c_ws (client_step e c) = None"
proof -
  have inv: "client_inv (client_step e c)" using assms(1,2) by (simp add: quiet_def client_inv_step)
  have bound: "\<forall>g \<in> set (c_solving c). g \<le> c_gen c" using assms(1) by (simp add: quiet_def client_inv_def)
  show "quiet (client_step e c)"
    using assms inv bound
    by (cases e)
      (auto simp: quiet_def client_ops fold_finish call_def split: message.splits if_splits dest: notin_set_remove1)
  show "c_ws (client_step e c) = None" if "resolves (client_step e) c"
    using assms that
    by (cases e) (auto simp: quiet_def resolves_def news_def client_ops fold_finish call_def split: message.splits if_splits)
qed

lemma closing_quiet:
  assumes "client_inv c"
  shows "quiet (closeAndWait c)" "resolves closeAndWait c \<Longrightarrow> c_ws (closeAndWait c) = None"
  using assms client_inv_step [of c CallCloseAndWait]
  by (auto simp: quiet_def resolves_def news_def client_ops call_def close_socket_def client_inv_def split: option.split)

lemma sendBinary_same:
  "c_ws (sendBinary buf c) = c_ws c" "quiet (sendBinary buf c) = quiet c" "\<not> resolves (sendBinary buf) c"
  "client_inv (sendBinary buf c) = client_inv c" "BinaryCall d \<in> set (c_log (sendBinary buf c)) \<longleftrightarrow> BinaryCall d \<in> set (c_log c)"
  by (auto simp: sendBinary_def quiet_def resolves_def news_def call_def client_inv_def)

text \<open>What holds in every run: of the frames received one has brought the room that is being handed over.\<close>

definition frames :: "listener \<Rightarrow> bytes set" where
  "frames l = {d. BinaryCall d \<in> set (c_log (li_client l))}"

definition brought :: "channel_seal \<Rightarrow> handoff_channel \<Rightarrow> bytes set \<Rightarrow> handoff_room \<Rightarrow> bool" where
  "brought seal ch fs r \<longleftrightarrow>
     (\<exists>data pt. data \<in> fs \<and> sealed_under seal ch data pt \<and> Option.bind (parse (utf8_decode pt)) validateMessage = Some (RoomMessage r))"

lemma brought_mono: "brought seal ch fs r \<Longrightarrow> fs \<subseteq> fs' \<Longrightarrow> brought seal ch fs' r"
  by (auto simp: brought_def)

text \<open>With \<open>q\<close> off, the client of a listener that hands over need not be closing yet.\<close>

definition handing_ok :: "bool \<Rightarrow> (handoff_room \<Rightarrow> bool) \<Rightarrow> listener \<Rightarrow> bool" where
  "handing_ok q from_peer l \<longleftrightarrow>
     (case li_phase l of
        Waiting \<Rightarrow> rooms_given (li_calls l) = []
      | SealingAck r \<Rightarrow> li_done l \<and> rooms_given (li_calls l) = [] \<and> from_peer r
      | ClosingRelay r \<Rightarrow> li_done l \<and> rooms_given (li_calls l) = [] \<and> from_peer r \<and> (q \<longrightarrow> quiet (li_client l))
      | HandedOver \<Rightarrow> li_done l \<and> (\<exists>r. rooms_given (li_calls l) = [r] \<and> from_peer r) \<and> at_rest (li_client l))"

definition listener_inv :: "bool \<Rightarrow> channel_seal \<Rightarrow> handoff_channel \<Rightarrow> listener \<Rightarrow> bool" where
  "listener_inv q seal ch l \<longleftrightarrow>
     client_inv (li_client l) \<and> set (li_opening l) \<subseteq> frames l \<and> handing_ok q (brought seal ch (frames l)) l"

text \<open>A step of the client, with what it calls back.\<close>

lemma listener_client_inv:
  assumes "listener_inv False seal ch l" "c_log (f (li_client l)) = c_log (li_client l) @ news f (li_client l)"
    and "client_inv (f (li_client l))"
    and "\<And>r. li_phase l = ClosingRelay r \<Longrightarrow> quiet (f (li_client l))"
    and "\<And>r. li_phase l = ClosingRelay r \<Longrightarrow> resolves f (li_client l) \<Longrightarrow> c_ws (f (li_client l)) = None"
    and "li_phase l = HandedOver \<Longrightarrow> at_rest (f (li_client l))"
  shows "listener_inv True seal ch (listener_client f l)"
proof -
  let ?c = "f (li_client l)" and ?xs = "news f (li_client l)"
  let ?l = "l\<lparr>li_client := ?c\<rparr>"
  have after: "listener_client f l = fold listener_hears ?xs ?l"
    by (simp add: listener_client_def Let_def news_def)
  have fs: "frames (listener_client f l) = frames l \<union> {d. BinaryCall d \<in> set ?xs}"
    by (auto simp: after frames_def assms(2))
  have pending: "set (li_opening (listener_client f l)) \<subseteq> frames (listener_client f l)"
    using heard_opening [of ?xs ?l] assms(1) by (auto simp: after fs [unfolded after] listener_inv_def)
  have peer: "brought seal ch (frames l) r \<Longrightarrow> brought seal ch (frames (listener_client f l)) r" for r
    by (erule brought_mono) (simp add: fs)
  have old: "handing_ok False (brought seal ch (frames l)) l" using assms(1) by (simp add: listener_inv_def)
  have "handing_ok True (brought seal ch (frames (listener_client f l))) (listener_client f l)"
  proof (cases "(\<exists>r. li_phase l = ClosingRelay r) \<and> resolves f (li_client l)")
    case True
    then obtain r where r: "li_phase l = ClosingRelay r" "CloseResolved \<in> set ?xs" by (auto simp: resolves_def)
    then have "li_phase (listener_client f l) = HandedOver \<and> rooms_given (li_calls (listener_client f l)) = rooms_given (li_calls l) @ [r]"
      using heard_close [of ?l r ?xs] by (simp add: after)
    moreover have "at_rest (li_client (listener_client f l))"
      using assms(4,5) [OF r(1)] True by (simp add: at_rest_quiet after)
    moreover have "li_done (listener_client f l)" using old r(1) by (simp add: handing_ok_def after)
    ultimately show ?thesis using old r(1) peer by (simp add: handing_ok_def)
  next
    case False
    then have same: "li_phase (listener_client f l) = li_phase l"
      "rooms_given (li_calls (listener_client f l)) = rooms_given (li_calls l)"
      "li_done (listener_client f l) = li_done l" "li_client (listener_client f l) = ?c"
      using heard_phase [of ?l ?xs] by (auto simp: after resolves_def)
    show ?thesis
      using old peer assms(4,6) unfolding handing_ok_def same by (auto split: handing.splits)
  qed
  with pending assms(3) show ?thesis by (simp add: listener_inv_def after)
qed

lemma inv_loose: "listener_inv True seal ch l \<Longrightarrow> listener_inv False seal ch l"
  by (auto simp: listener_inv_def handing_ok_def split: handing.splits)

text \<open>The acknowledgement goes out and the client closes.\<close>

lemma ack_sent:
  "listener_client (sendBinary buf) l = l\<lparr>li_client := sendBinary buf (li_client l)\<rparr>"
  by (simp add: listener_client_def sendBinary_def call_def Let_def)

lemma log_closing: "c_log (closeAndWait c) = c_log c @ news closeAndWait c" "c_log (close c) = c_log c @ news close c"
  using log_grows [of CallCloseAndWait c] log_grows [of CallClose c] by (auto simp: news_def)

lemma ack_sealed_inv:
  assumes "listener_inv True seal ch l" "li_phase l = SealingAck r"
  shows "listener_inv True seal ch (ack_sealed seal ch iv l)"
proof -
  let ?l = "l\<lparr>li_phase := ClosingRelay r, li_client := sendBinary (sealHandoff seal ch iv AckMessage) (li_client l)\<rparr>"
  have "listener_inv False seal ch ?l"
    using assms by (simp add: listener_inv_def handing_ok_def frames_def sendBinary_same)
  moreover have "client_inv (li_client ?l)" using assms(1) by (simp add: listener_inv_def sendBinary_same)
  ultimately have "listener_inv True seal ch (listener_client closeAndWait ?l)"
    using client_inv_step [of "li_client ?l" CallCloseAndWait]
    by (intro listener_client_inv) (auto simp: log_closing closing_quiet)
  then show ?thesis using assms(2) by (simp add: ack_sealed_def ack_sent)
qed

lemma close_listener_inv:
  assumes "listener_inv True seal ch l"
  shows "listener_inv True seal ch (close_listener l)"
proof -
  let ?l = "l\<lparr>li_done := True\<rparr>"
  have inv: "client_inv (li_client l)" using assms by (simp add: listener_inv_def)
  have "listener_inv True seal ch ?l"
    using assms by (auto simp: listener_inv_def handing_ok_def frames_def split: handing.splits)
  then have "listener_inv True seal ch (listener_client close ?l)"
    using inv close_at_rest [OF inv] client_inv_step [of "li_client l" CallClose]
    by (intro listener_client_inv inv_loose) (auto simp: log_closing at_rest_quiet)
  then show ?thesis by (simp add: close_listener_def)
qed

lemma frame_opened_inv:
  assumes "aead seal unseal" "listener_inv True seal ch l" "j < length (li_opening l)"
  shows "listener_inv True seal ch (listener_opened unseal ch j l)"
proof -
  let ?rest = "take j (li_opening l) @ drop (Suc j) (li_opening l)"
  have "set ?rest \<subseteq> set (li_opening l)" by (auto dest: in_set_takeD in_set_dropD)
  then have rest: "listener_inv True seal ch (l\<lparr>li_opening := ?rest\<rparr>)"
    using assms(2) by (auto simp: listener_inv_def handing_ok_def frames_def split: handing.splits)
  have came: "brought seal ch (frames l) r" if opened: "openHandoff unseal ch (li_opening l ! j) = Some (RoomMessage r)" for r
  proof -
    obtain pt where "sealed_under seal ch (li_opening l ! j) pt" "Option.bind (parse (utf8_decode pt)) validateMessage = Some (RoomMessage r)"
      using open_genuine [OF assms(1) opened] .
    moreover have "li_opening l ! j \<in> frames l" using assms(2,3) by (auto simp: listener_inv_def)
    ultimately show ?thesis by (auto simp: brought_def)
  qed
  have "listener_inv True seal ch (l\<lparr>li_opening := ?rest, li_done := True, li_phase := SealingAck r\<rparr>)"
    if "\<not> li_done l" "openHandoff unseal ch (li_opening l ! j) = Some (RoomMessage r)" for r
    using rest that came [OF that(2)] by (auto simp: listener_inv_def handing_ok_def frames_def split: handing.splits)
  with rest show ?thesis
    by (auto simp: listener_opened_def Let_def split: option.split handoff_message.split)
qed

lemma listener_step_inv:
  assumes "aead seal unseal" "listener_inv True seal ch l" "listener_enabled e l"
  shows "listener_inv True seal ch (listener_step seal unseal ch e l)"
proof (cases e)
  case (RelayDoes x)
  have x: "from_browser x" "client_enabled x (li_client l)" using assms(3) by (simp_all add: RelayDoes)
  have inv: "client_inv (li_client l)" and phase: "handing_ok True (brought seal ch (frames l)) l"
    using assms(2) by (simp_all add: listener_inv_def)
  have calm: "quiet (li_client l)" if "li_phase l = ClosingRelay r" for r using phase that by (simp add: handing_ok_def)
  have rest: "at_rest (li_client l)" if "li_phase l = HandedOver" using phase that by (simp add: handing_ok_def)
  have "no_connect x" using x(1) by (cases x) simp_all
  then have "listener_inv True seal ch (listener_client (client_step x) l)"
    using assms(2) client_inv_step [OF inv x(2)] quiet_step [OF calm x(2,1)] at_rest_step [OF rest x(2)]
    by (intro listener_client_inv inv_loose) (auto simp: log_news)
  then show ?thesis by (simp add: RelayDoes)
qed (use assms ack_sealed_inv close_listener_inv frame_opened_inv in auto)

interpretation listener: event_system
  "listener_step (fst su) (snd su) ch" "listener_enabled"
  "\<lambda>l. aead (fst su) (snd su) \<and> listener_inv True (fst su) ch l"
  for su :: "channel_seal \<times> channel_unseal"
  by unfold_locales (simp add: listener_step_inv)

lemma listen_inv: "listener_inv True seal ch listenForHandoff"
  unfolding listenForHandoff_def
  using client_inv_step [OF client_inv_new, of CallConnect] log_grows [of CallConnect "new_client True 30000"]
  by (intro listener_client_inv)
    (auto simp: listener_inv_def handing_ok_def client_inv_new news_def)

section \<open>The sender in every run\<close>

text \<open>A sender that has settled has one result and no timer; one that has not has none.\<close>

definition settled_once :: "sender \<Rightarrow> bool" where
  "settled_once s \<longleftrightarrow> (if se_settled s then length (se_results s) = 1 \<and> \<not> se_timer s else se_results s = [] \<and> se_timer s)"

lemma settled_finish: "settled_once s \<Longrightarrow> settled_once (sender_finish x s)"
  by (simp add: settled_once_def sender_finish_def)

lemma settled_hears: "settled_once s \<Longrightarrow> settled_once (fold sender_hears xs s)"
proof (induction xs arbitrary: s)
  case (Cons x xs)
  have "settled_once (sender_hears x s)"
    using Cons.prems by (cases x) (auto simp: settled_finish, simp_all add: settled_once_def)
  with Cons.IH show ?case by simp
qed simp

lemma settled_client: "settled_once s \<Longrightarrow> settled_once (sender_client f s)"
  unfolding sender_client_def Let_def by (intro settled_hears) (simp add: settled_once_def)

lemma settled_step: "settled_once s \<Longrightarrow> settled_once (sender_step seal unseal ch e s)"
  by (cases e) (auto simp: Let_def intro!: settled_client settled_finish, simp_all add: settled_once_def)

interpretation sender: event_system "sender_step seal unseal ch" sender_enabled settled_once
  by unfold_locales (rule settled_step)

lemma send_settled: "settled_once (sendHandoff r)"
  unfolding sendHandoff_def by (rule settled_client) (simp add: settled_once_def)

section \<open>A room is handed over\<close>

text \<open>C40
  The handoff. Whatever the relay, the peers in the bucket, the timers and the page do, the receiver hands over at
  most one room; that room is valid, it came in a frame sealed under the key and the id of the QR code, and by
  then the relay socket is gone for good. When the only thing ever sealed under that key is the sender's room, what
  is handed over is that room without its seat, so that the receiver joins as the guest.
\<close>

theorem handoff_is_genuine:
  assumes "aead seal unseal" "run_ok listener_enabled (listener_step seal unseal ch) evs listenForHandoff"
    and "l = run (listener_step seal unseal ch) evs listenForHandoff"
  shows "length (rooms_given (li_calls l)) \<le> 1 \<and>
    (\<forall>r \<in> set (rooms_given (li_calls l)).
       room_ok r \<and> (\<exists>data \<in> frames l. \<exists>pt. sealed_under seal ch data pt) \<and>
       c_ws (li_client l) = None \<and> c_timer (li_client l) = None \<and> \<not> c_auto (li_client l) \<and>
       (\<forall>r0. (\<forall>data \<in> frames l. \<forall>pt. sealed_under seal ch data pt \<longrightarrow>
            pt = utf8_encode (stringify (message_json (RoomMessage r0)))) \<longrightarrow>
          r = r0\<lparr>hr_roomHash := shareRoomHash (hr_roomHash r0)\<rparr>))"
proof -
  have "listener_inv True seal ch l"
    using listener.run_inv [of "(seal, unseal)" ch listenForHandoff evs] listen_inv assms by simp
  then have ok: "handing_ok True (brought seal ch (frames l)) l" by (simp add: listener_inv_def)
  have sent: "r = r0\<lparr>hr_roomHash := shareRoomHash (hr_roomHash r0)\<rparr>"
    if "validateMessage (message_json (RoomMessage r0)) = Some (RoomMessage r)" for r r0
    using that by (auto simp: validateMessage_def Json.member.simps js_def unit_of_def split: if_splits option.splits)
  have decoded: "Option.bind (parse (utf8_decode (utf8_encode (stringify (message_json m))))) validateMessage =
      validateMessage (message_json m)" for m
    using json_roundtrip [OF message_good [of m]] by (simp add: json_of_bytes_def json_bytes_def)
  have peer: "room_ok r \<and> (\<exists>data \<in> frames l. \<exists>pt. sealed_under seal ch data pt) \<and>
       (\<forall>r0. (\<forall>data \<in> frames l. \<forall>pt. sealed_under seal ch data pt \<longrightarrow>
            pt = utf8_encode (stringify (message_json (RoomMessage r0)))) \<longrightarrow>
          r = r0\<lparr>hr_roomHash := shareRoomHash (hr_roomHash r0)\<rparr>)"
    if room: "brought seal ch (frames l) r" for r
  proof -
    obtain data pt where came: "data \<in> frames l" "sealed_under seal ch data pt"
        "Option.bind (parse (utf8_decode pt)) validateMessage = Some (RoomMessage r)"
      using room unfolding brought_def by blast
    then have "room_ok r" by (auto simp: bind_eq_Some_conv intro: validate_room)
    with came decoded sent show ?thesis by metis
  qed
  show ?thesis
    using ok peer by (cases "li_phase l") (auto simp: handing_ok_def at_rest_def)
qed

text \<open>A concrete handoff.\<close>

definition toy_channel :: handoff_channel where
  "toy_channel = \<lparr>ch_channelId = js ''abcd'', ch_keyRaw = replicate 32 1, ch_relayUrl = js ''wss://relay''\<rparr>"

definition toy_room :: handoff_room where
  "toy_room = \<lparr>hr_bucketId = js ''room'', hr_roomHash = buildRoomHash [7] [1] [2] (Some 0), hr_pin = js ''123456''\<rparr>"

definition toy_handoff :: "listener_event list" where
  "toy_handoff =
     [RelayDoes (PowDone 1 None), RelayDoes (SocketOpen 0),
      RelayDoes (SocketMessage 0 (Bytes (sealHandoff (\<lambda>k. toy_seal ()) toy_channel (replicate 12 3) (RoomMessage toy_room)))),
      FrameOpened 0, AckSealed (replicate 12 4), RelayDoes (SocketClosed 0 1000)]"

lemma toy_seals: "aead (\<lambda>k. toy_seal ()) (\<lambda>k. toy_unseal ())"
  using toy_aead by (simp add: aead_def)

lemma toy_opens:
  "openHandoff (\<lambda>k. toy_unseal ()) toy_channel
     (sealHandoff (\<lambda>k. toy_seal ()) toy_channel (replicate 12 3) (RoomMessage toy_room)) =
   Some (RoomMessage (toy_room\<lparr>hr_roomHash := buildRoomHash [7] [1] [2] None\<rparr>))"
proof -
  have seat: "seat_ok (Some 0)" by (simp add: seat_ok_def)
  have "parseRoomFragment (buildRoomHash [7] [1] [2] (Some 0)) =
      Some \<lparr>fr_keyRaw = [7], fr_pv = [1], fr_salt = [2], fr_seat = Some 0, fr_legacy = False\<rparr>"
    using seat by (intro built_clean(2)) simp_all
  moreover have "bucket_id_ok (js ''room'')" "list_all is_digit (js ''123456'')" "length (js ''123456'') = 6"
    by (simp_all add: bucket_id_ok_def js_def unit_of_def url_safe_def is_digit_def)
  ultimately show ?thesis
    using validate_sent [of toy_room]
    by (simp add: open_sealed [OF toy_seals] toy_room_def share_link [OF seat] del: message_json.simps)
qed

lemma toy_handoff_runs:
  "run_ok listener_enabled (listener_step (\<lambda>k. toy_seal ()) (\<lambda>k. toy_unseal ()) toy_channel) toy_handoff listenForHandoff"
  "rooms_given (li_calls (run (listener_step (\<lambda>k. toy_seal ()) (\<lambda>k. toy_unseal ()) toy_channel) toy_handoff listenForHandoff)) =
     [toy_room\<lparr>hr_roomHash := buildRoomHash [7] [1] [2] None\<rparr>]"
  by (simp_all add: toy_handoff_def listenForHandoff_def listener_client_def new_client_def client_ops call_def listener_call_def
      listener_opened_def toy_opens ack_sealed_def ack_sent connected_def ready_state_def close_socket_def)

theorem handoff_is_genuine_witness:
  "\<exists>r. rooms_given (li_calls (run (listener_step (\<lambda>k. toy_seal ()) (\<lambda>k. toy_unseal ()) toy_channel) toy_handoff listenForHandoff)) = [r] \<and>
     room_ok r \<and> hr_pin r = js ''123456''"
  using handoff_is_genuine [OF toy_seals toy_handoff_runs(1) refl] toy_handoff_runs(2) by (simp add: toy_room_def)

end
