(* ===== verification/HandoffPage.thy ===== *)
theory HandoffPage
  imports Handoff Lines
begin

text \<open>
  The page that links a device, \<open>web/src/routes/(app)/handoff/+page.svelte\<close>. Its listeners are those of \<open>Handoff\<close>,
  of which the page knows whether they are open; \<open>hp_listener\<close> is the one its variable holds. What a call waits for
  is in \<open>hp_waits\<close>: the relay's address, the list of candidates, a new line, or the other device's answer. The
  random source, the rooms' PINs and the end of \<open>sendHandoff\<close> come with the event.
\<close>

section \<open>State\<close>

datatype handoff_mode = ModeReceive | ModeScan | ModeSend

record candidate =
  cd_rec :: room_record
  cd_pin :: "jstr option"
  cd_partnerJoined :: bool

text \<open>What is being sent: an existing room, or a new line; and how the function that waits goes on.\<close>

datatype handoff_wait =
    RelayAsked jstr
  | CandidatesAsked "candidate list"
  | CandidatesAgain "candidate list"
  | LineAsked
  | Delivering bool handoff_room

record handoff_page =
  hp_manager :: manager
  hp_preselect :: "jstr option"
  hp_mode :: handoff_mode
  hp_qr :: jstr
  hp_status :: status
  hp_joining :: bool
  hp_listener :: "nat option"
  hp_open :: "(handoff_channel \<times> bool) list"
  hp_channel :: "handoff_channel option"
  hp_candidates :: "candidate list"
  hp_sendingId :: "jstr option"
  hp_sendError :: jstr
  hp_waits :: "handoff_wait list"
  hp_sent :: "handoff_room list"
  hp_gone :: "jstr list"

definition start_wait :: "handoff_wait \<Rightarrow> handoff_page \<Rightarrow> handoff_page" where
  "start_wait w s = s\<lparr>hp_waits := hp_waits s @ [w]\<rparr>"

text \<open>\<open>listener?.close()\<close>: the variable keeps the closed listener.\<close>

definition close_current :: "handoff_page \<Rightarrow> handoff_page" where
  "close_current s =
     (case hp_listener s of
        None \<Rightarrow> s
      | Some k \<Rightarrow> s\<lparr>hp_open := (hp_open s)[k := (fst (hp_open s ! k), False)]\<rparr>)"

definition goto :: "jstr \<Rightarrow> handoff_page \<Rightarrow> handoff_page" where
  "goto addr s = s\<lparr>hp_gone := hp_gone s @ [addr]\<rparr>"

section \<open>Receiving\<close>

definition startReceive :: "jstr \<Rightarrow> handoff_page \<Rightarrow> handoff_page" where
  "startReceive fallback s =
     (let s1 = (close_current s)\<lparr>hp_mode := ModeReceive, hp_qr := []\<rparr>;
          (url, d) = resolveRelayUrl fallback (m_db (hp_manager s1))
      in start_wait (RelayAsked url) (s1\<lparr>hp_manager := on_db (\<lambda>_. d) (hp_manager s1)\<rparr>))"

definition relay_resolved :: "jstr \<Rightarrow> bytes \<Rightarrow> bytes \<Rightarrow> jstr \<Rightarrow> handoff_page \<Rightarrow> handoff_page" where
  "relay_resolved origin rand key url s =
     (let ch = createHandoffChannel rand key url
      in s\<lparr>hp_qr := handoffUrl origin ch, hp_status := StConnecting, hp_listener := Some (length (hp_open s)),
           hp_open := hp_open s @ [(ch, True)]\<rparr>)"

text \<open>A listener calls back, whichever it is.\<close>

definition onRoom :: "handoff_room \<Rightarrow> handoff_page \<Rightarrow> handoff_page" where
  "onRoom r s =
     (let m = hp_manager s
      in goto (js ''/b/'' @ hr_bucketId r @ hr_roomHash r)
           (s\<lparr>hp_listener := None, hp_joining := True,
              hp_manager := m\<lparr>m_storage := stashJoinPin (hr_bucketId r) (hr_pin r) (m_storage m)\<rparr>\<rparr>))"

definition startScan :: "handoff_page \<Rightarrow> handoff_page" where
  "startScan s = (close_current s)\<lparr>hp_listener := None, hp_mode := ModeScan\<rparr>"

section \<open>Sending\<close>

definition loadCandidates :: "platform \<Rightarrow> manager \<Rightarrow> candidate list" where
  "loadCandidates p m =
     map (\<lambda>r. \<lparr>cd_rec = r, cd_pin = getRoomPin p (rec_bucketId r) m,
               cd_partnerJoined = truthy (rec_lastPeerDeviceFp r) \<noteq> None \<or>
                 (case m_runtimes m (rec_bucketId r) of None \<Rightarrow> False | Some rt \<Rightarrow> rt_peerPresent rt)\<rparr>)
       (filter (\<lambda>r. rec_isCreator r = Some True \<and> rec_legacy r \<noteq> Some True \<and> contains (rec_roomHash r) (js ''key=''))
         (listRooms (m_db m)))"

definition enterSend :: "platform \<Rightarrow> handoff_channel \<Rightarrow> handoff_page \<Rightarrow> handoff_page" where
  "enterSend p ch s =
     start_wait (CandidatesAsked (loadCandidates p (hp_manager s)))
       (s\<lparr>hp_mode := ModeSend, hp_channel := Some ch, hp_sendError := []\<rparr>)"

definition room_of :: "candidate \<Rightarrow> jstr \<Rightarrow> handoff_room" where
  "room_of c pin = \<lparr>hr_bucketId = rec_bucketId (cd_rec c), hr_roomHash = rec_roomHash (cd_rec c), hr_pin = pin\<rparr>"

definition sending_done :: "handoff_page \<Rightarrow> handoff_page" where
  "sending_done s = s\<lparr>hp_sendingId := None\<rparr>"

text \<open>\<open>deliver\<close> does nothing without a channel.\<close>

definition deliver :: "bool \<Rightarrow> handoff_room \<Rightarrow> handoff_page \<Rightarrow> handoff_page" where
  "deliver fresh r s =
     (if hp_channel s = None then sending_done s
      else start_wait (Delivering fresh r) (s\<lparr>hp_sent := hp_sent s @ [r]\<rparr>))"

definition sendRoom :: "candidate \<Rightarrow> handoff_page \<Rightarrow> handoff_page" where
  "sendRoom c s =
     (case truthy (cd_pin c) of
        None \<Rightarrow> s
      | Some pin \<Rightarrow>
          if truthy (hp_sendingId s) \<noteq> None then s
          else deliver False (room_of c pin) (s\<lparr>hp_sendingId := Some (rec_bucketId (cd_rec c)), hp_sendError := []\<rparr>))"

definition pick :: "handoff_page \<Rightarrow> candidate option" where
  "pick s =
     List.find (\<lambda>c. Some (rec_bucketId (cd_rec c)) = hp_preselect s \<and> truthy (cd_pin c) \<noteq> None \<and> \<not> cd_partnerJoined c)
       (hp_candidates s)"

definition candidates_read :: "candidate list \<Rightarrow> handoff_page \<Rightarrow> handoff_page" where
  "candidates_read cs s =
     (let s1 = s\<lparr>hp_candidates := cs\<rparr> in case pick s1 of None \<Rightarrow> s1 | Some c \<Rightarrow> sendRoom c s1)"

definition sendNewLine :: "handoff_page \<Rightarrow> handoff_page" where
  "sendNewLine s =
     (if truthy (hp_sendingId s) \<noteq> None then s
      else start_wait LineAsked (s\<lparr>hp_sendingId := Some (js ''new''), hp_sendError := []\<rparr>))"

definition laptop_name :: jstr where "laptop_name = js ''My laptop''"

definition line_made ::
  "platform \<Rightarrow> context_now \<Rightarrow> line_random \<Rightarrow> jstr \<Rightarrow> handoff_page \<Rightarrow> handoff_page" where
  "line_made p cx rand fallback s =
     (let (l, m) = createSecureLine p cx rand fallback None (Some laptop_name) (hp_manager s)
      in deliver True \<lparr>hr_bucketId = ln_id l, hr_roomHash = ln_hash l, hr_pin = ln_pin l\<rparr>
           (s\<lparr>hp_manager := log_effect BumpRooms m\<rparr>))"

text \<open>
  The answer of \<open>sendHandoff\<close>: the page goes to the room, or shows the error; after a new line has failed the
  candidates are read again before the next send can begin.
\<close>

definition delivered :: "platform \<Rightarrow> bool \<Rightarrow> handoff_room \<Rightarrow> handoff_result \<Rightarrow> handoff_page \<Rightarrow> handoff_page" where
  "delivered p fresh r res s =
     (case res of
        Resolved \<Rightarrow> sending_done (goto (js ''/b/'' @ hr_bucketId r @ hr_roomHash r) s)
      | Rejected e \<Rightarrow>
          (let s1 = s\<lparr>hp_sendError := e\<rparr>
           in if fresh then start_wait (CandidatesAgain (loadCandidates p (hp_manager s1))) s1 else sending_done s1))"

section \<open>The page as a state machine\<close>

definition new_handoff_page :: "jstr option \<Rightarrow> manager \<Rightarrow> handoff_page" where
  "new_handoff_page preselect m =
     \<lparr>hp_manager = m, hp_preselect = preselect, hp_mode = ModeReceive, hp_qr = [], hp_status = StConnecting, hp_joining = False,
      hp_listener = None, hp_open = [], hp_channel = None, hp_candidates = [], hp_sendingId = None, hp_sendError = [],
      hp_waits = [], hp_sent = [], hp_gone = []\<rparr>"

text \<open>\<open>onMount\<close>: the fragment of the address, and the parameter \<open>scan\<close>.\<close>

definition mount_handoff :: "platform \<Rightarrow> jstr \<Rightarrow> jstr \<Rightarrow> jstr option \<Rightarrow> handoff_page \<Rightarrow> handoff_page" where
  "mount_handoff p fallback hash scan s =
     (case parseHandoffFragment hash of
        Some ch \<Rightarrow> enterSend p ch s
      | None \<Rightarrow> if scan = Some (js ''1'') then s\<lparr>hp_mode := ModeScan\<rparr> else startReceive fallback s)"

datatype handoff_event =
    HpReceive
  | HpRelay nat bytes bytes
  | HpStatus nat status
  | HpRoom nat handoff_room
  | HpScan
  | HpScanned jstr
  | HpCandidates nat
  | HpSend nat
  | HpNewLine
  | HpLine nat context_now line_random
  | HpAnswer nat handoff_result
  | HpLeave
  | HpManager "manager \<Rightarrow> manager"

record handoff_env =
  he_platform :: platform
  he_origin :: jstr
  he_fallback :: jstr
  he_path :: "jstr \<Rightarrow> jstr option"

definition end_wait :: "nat \<Rightarrow> handoff_page \<Rightarrow> handoff_page" where
  "end_wait j s = s\<lparr>hp_waits := take j (hp_waits s) @ drop (Suc j) (hp_waits s)\<rparr>"

fun handoff_step :: "handoff_env \<Rightarrow> handoff_event \<Rightarrow> handoff_page \<Rightarrow> handoff_page" where
  "handoff_step he HpReceive s = startReceive (he_fallback he) s"
| "handoff_step he (HpRelay j rand key) s =
     (case hp_waits s ! j of RelayAsked url \<Rightarrow> relay_resolved (he_origin he) rand key url (end_wait j s) | _ \<Rightarrow> s)"
| "handoff_step he (HpStatus k st) s = s\<lparr>hp_status := st\<rparr>"
| "handoff_step he (HpRoom k r) s = onRoom r (s\<lparr>hp_open := (hp_open s)[k := (fst (hp_open s ! k), False)]\<rparr>)"
| "handoff_step he HpScan s = startScan s"
| "handoff_step he (HpScanned value) s =
     (case parseHandoffScan (he_path he) value of None \<Rightarrow> s | Some ch \<Rightarrow> enterSend (he_platform he) ch s)"
| "handoff_step he (HpCandidates j) s =
     (case hp_waits s ! j of
        CandidatesAsked cs \<Rightarrow> candidates_read cs (end_wait j s)
      | CandidatesAgain cs \<Rightarrow> sending_done ((end_wait j s)\<lparr>hp_candidates := cs\<rparr>)
      | _ \<Rightarrow> s)"
| "handoff_step he (HpSend i) s = sendRoom (hp_candidates s ! i) s"
| "handoff_step he HpNewLine s = sendNewLine s"
| "handoff_step he (HpLine j cx rand) s =
     (case hp_waits s ! j of LineAsked \<Rightarrow> line_made (he_platform he) cx rand (he_fallback he) (end_wait j s) | _ \<Rightarrow> s)"
| "handoff_step he (HpAnswer j res) s =
     (case hp_waits s ! j of Delivering fresh r \<Rightarrow> delivered (he_platform he) fresh r res (end_wait j s) | _ \<Rightarrow> s)"
| "handoff_step he HpLeave s = close_current s"
| "handoff_step he (HpManager f) s = s\<lparr>hp_manager := f (hp_manager s)\<rparr>"

text \<open>
  What can happen when: the buttons of the three screens, an open listener's callbacks, and the ends of waits. The
  rest of the app may do what it likes to the manager, but every room has a name.
\<close>

definition rooms_named :: "db \<Rightarrow> bool" where
  "rooms_named d \<longleftrightarrow> (\<forall>(i, r) \<in> set (db_rooms d). rec_bucketId r \<noteq> [])"

fun handoff_enabled :: "handoff_event \<Rightarrow> handoff_page \<Rightarrow> bool" where
  "handoff_enabled HpReceive s \<longleftrightarrow> hp_mode s = ModeReceive \<and> \<not> hp_joining s \<and> hp_qr s \<noteq> [] \<or> hp_mode s = ModeScan"
| "handoff_enabled (HpRelay j rand key) s \<longleftrightarrow> j < length (hp_waits s) \<and> length rand = 20 \<and> length key = 32"
| "handoff_enabled (HpStatus k st) s \<longleftrightarrow> k < length (hp_open s) \<and> snd (hp_open s ! k)"
| "handoff_enabled (HpRoom k r) s \<longleftrightarrow> k < length (hp_open s) \<and> snd (hp_open s ! k)"
| "handoff_enabled HpScan s \<longleftrightarrow> hp_mode s = ModeReceive \<and> \<not> hp_joining s \<and> hp_qr s \<noteq> []"
| "handoff_enabled (HpScanned value) s \<longleftrightarrow> hp_mode s = ModeScan"
| "handoff_enabled (HpCandidates j) s \<longleftrightarrow> j < length (hp_waits s)"
| "handoff_enabled (HpSend i) s \<longleftrightarrow>
     hp_mode s = ModeSend \<and> i < length (hp_candidates s) \<and> truthy (cd_pin (hp_candidates s ! i)) \<noteq> None \<and>
     \<not> cd_partnerJoined (hp_candidates s ! i) \<and> hp_sendingId s = None"
| "handoff_enabled HpNewLine s \<longleftrightarrow> hp_mode s = ModeSend \<and> hp_sendingId s = None"
| "handoff_enabled (HpLine j cx rand) s \<longleftrightarrow> j < length (hp_waits s) \<and> length (lr_id rand) = 8"
| "handoff_enabled (HpAnswer j res) s \<longleftrightarrow> j < length (hp_waits s)"
| "handoff_enabled HpLeave s \<longleftrightarrow> True"
| "handoff_enabled (HpManager f) s \<longleftrightarrow> rooms_named (m_db (f (hp_manager s)))"

section \<open>What is sent, in every run\<close>

text \<open>Names of rooms.\<close>

lemma rooms_listed: "rooms_named d \<Longrightarrow> r \<in> set (listRooms d) \<Longrightarrow> rec_bucketId r \<noteq> []"
  by (auto simp: rooms_named_def listRooms_def)

lemma rooms_same: "db_rooms d' = db_rooms d \<Longrightarrow> rooms_named d' = rooms_named d"
  by (simp add: rooms_named_def)

lemma relay_rooms: "db_rooms (snd (resolveRelayUrl fallback d)) = db_rooms d" "db_rooms (setRelayUrl url d) = db_rooms d"
  by (simp_all add: resolveRelayUrl_def setRelayUrl_def setMetaEntry_def Let_def split: option.split)

lemma rooms_upsert: "rooms_named d \<Longrightarrow> rec_bucketId r \<noteq> [] \<Longrightarrow> rooms_named (upsertRoom r d)"
proof -
  assume d: "rooms_named d" "rec_bucketId r \<noteq> []"
  have "set (AList.update k v xs) \<subseteq> insert (k, v) (set xs)" for k :: jstr and v :: room_record and xs
    by (induction xs) auto
  from this [of "rec_bucketId r" r "db_rooms d"] show ?thesis using d by (auto simp: rooms_named_def upsertRoom_def)
qed

lemma rooms_made:
  assumes "rooms_named (m_db m)" "lr_id rand \<noteq> []" "createSecureLine p cx rand fallback url n m = (l, m')"
  shows "rooms_named (m_db m')" "ln_id l \<noteq> []" "length (ln_pin l) = 6" "list_all is_digit (ln_pin l)"
proof -
  have id: "randomBucketId (lr_id rand) \<noteq> []" using assms(2) by (simp add: randomBucketId_def)
  have registering: "rooms_named (m_db (registerRoom p cx opts m))" if "rooms_named (m_db m)" "ro_bucketId opts \<noteq> []" for opts m
  proof -
    have "m_db (snd (encrypt_creds p c m1)) = m_db m1" for c m1 by (simp add: encrypt_creds_def draw_bytes_def)
    then show ?thesis
      using that by (simp add: registerRoom_def Let_def case_prod_beta log_effect_def on_db_def keep_credentials_def rooms_upsert)
  qed
  have "rooms_named (m_db (snd (createSecureLine p cx rand fallback url n m)))"
    using assms(1) id by (cases "truthy (map_option trim url)")
      (auto simp: createSecureLine_def Let_def case_prod_beta on_db_def relay_rooms intro!: registering
        intro: rooms_same [THEN iffD2])
  then show "rooms_named (m_db m')" using assms(3) by simp
  have l: "l = fst (createSecureLine p cx rand fallback url n m)" using assms(3) by simp
  show "ln_id l \<noteq> []" "length (ln_pin l) = 6" "list_all is_digit (ln_pin l)"
    unfolding l using id pin_shape [of "lr_pin rand"] by (simp_all add: createSecureLine_def Let_def case_prod_beta)
qed

text \<open>
  A room may be sent when it is the user's own with its PIN known and nobody is known to have joined it, or when it
  has just been made, which its six-digit PIN stands for.
\<close>

definition own_room :: "candidate \<Rightarrow> bool" where
  "own_room c \<longleftrightarrow> rec_bucketId (cd_rec c) \<noteq> [] \<and> rec_isCreator (cd_rec c) = Some True \<and> rec_legacy (cd_rec c) \<noteq> Some True \<and>
     contains (rec_roomHash (cd_rec c)) (js ''key='')"

definition may_be_sent :: "handoff_room \<Rightarrow> bool" where
  "may_be_sent r \<longleftrightarrow>
     (\<exists>c. own_room c \<and> \<not> cd_partnerJoined c \<and> truthy (cd_pin c) = Some (hr_pin r) \<and> r = room_of c (hr_pin r)) \<or>
     length (hr_pin r) = 6 \<and> list_all is_digit (hr_pin r)"

fun is_sending :: "handoff_wait \<Rightarrow> bool" where
  "is_sending LineAsked = True"
| "is_sending (CandidatesAgain cs) = True"
| "is_sending (Delivering fresh r) = True"
| "is_sending _ = False"

fun wait_ok :: "handoff_wait \<Rightarrow> bool" where
  "wait_ok (CandidatesAsked cs) = list_all own_room cs"
| "wait_ok (CandidatesAgain cs) = list_all own_room cs"
| "wait_ok (Delivering fresh r) = may_be_sent r"
| "wait_ok _ = True"

definition send_ok :: "handoff_page \<Rightarrow> bool" where
  "send_ok s \<longleftrightarrow>
     length (filter is_sending (hp_waits s)) = (if hp_sendingId s = None then 0 else 1) \<and> hp_sendingId s \<noteq> Some [] \<and>
     rooms_named (m_db (hp_manager s)) \<and> list_all own_room (hp_candidates s) \<and> list_all wait_ok (hp_waits s) \<and>
     list_all may_be_sent (hp_sent s)"

lemma candidates_ok: "rooms_named (m_db m) \<Longrightarrow> list_all own_room (loadCandidates p m)"
  using rooms_listed by (fastforce simp: loadCandidates_def list_all_iff own_room_def)

text \<open>A wait that ends.\<close>

lemma ended_waits:
  assumes "j < length ws" "w = ws ! j"
  shows "list_all P ws = (P w \<and> list_all P (take j ws @ drop (Suc j) ws))"
    and "length (filter Q ws) = (if Q w then 1 else 0) + length (filter Q (take j ws @ drop (Suc j) ws))"
proof -
  have ws: "ws = take j ws @ w # drop (Suc j) ws" using assms id_take_nth_drop by blast
  show "list_all P ws = (P w \<and> list_all P (take j ws @ drop (Suc j) ws))" by (subst ws) auto
  show "length (filter Q ws) = (if Q w then 1 else 0) + length (filter Q (take j ws @ drop (Suc j) ws))" by (subst ws) auto
qed

lemma send_ok_fields [simp]:
  "send_ok (s\<lparr>hp_mode := x1\<rparr>) = send_ok s" "send_ok (s\<lparr>hp_qr := x2\<rparr>) = send_ok s" "send_ok (s\<lparr>hp_status := x3\<rparr>) = send_ok s"
  "send_ok (s\<lparr>hp_joining := x4\<rparr>) = send_ok s" "send_ok (s\<lparr>hp_listener := x5\<rparr>) = send_ok s" "send_ok (s\<lparr>hp_open := x6\<rparr>) = send_ok s"
  "send_ok (s\<lparr>hp_channel := x7\<rparr>) = send_ok s" "send_ok (s\<lparr>hp_sendError := x8\<rparr>) = send_ok s" "send_ok (s\<lparr>hp_gone := x9\<rparr>) = send_ok s"
  by (simp_all add: send_ok_def)

lemma send_ok_closed [simp]: "send_ok (close_current s) = send_ok s" "send_ok (goto addr s) = send_ok s"
  "hp_manager (close_current s) = hp_manager s"
  by (simp_all add: close_current_def goto_def split: option.split)

lemma send_ok_manager: "send_ok s \<Longrightarrow> rooms_named (m_db m) \<Longrightarrow> send_ok (s\<lparr>hp_manager := m\<rparr>)"
  by (simp add: send_ok_def)

lemma send_ok_waits: "send_ok s \<Longrightarrow> \<not> is_sending w \<Longrightarrow> wait_ok w \<Longrightarrow> send_ok (start_wait w s)"
  by (simp add: send_ok_def start_wait_def)

lemma send_ok_receives: "send_ok s \<Longrightarrow> send_ok (startReceive fallback s)"
  by (auto simp: startReceive_def Let_def case_prod_beta on_db_def relay_rooms rooms_same [OF relay_rooms(1)]
      intro!: send_ok_waits send_ok_manager) (simp add: send_ok_def)

lemma send_ok_enters: "send_ok s \<Longrightarrow> send_ok (enterSend p ch s)"
  unfolding enterSend_def by (intro send_ok_waits) (simp_all add: send_ok_def candidates_ok)

lemma send_ok_sends:
  assumes "send_ok s" "own_room c" "\<not> cd_partnerJoined c"
  shows "send_ok (sendRoom c s)"
proof (cases "truthy (cd_pin c)")
  case (Some pin)
  then have "may_be_sent (room_of c pin)" using assms(2,3) by (auto simp: may_be_sent_def room_of_def)
  moreover have "rec_bucketId (cd_rec c) \<noteq> []" using assms(2) by (simp add: own_room_def)
  ultimately show ?thesis
    using Some assms(1) by (cases "hp_sendingId s")
      (auto simp: sendRoom_def deliver_def start_wait_def sending_done_def send_ok_def truthy_def)
qed (use assms(1) in \<open>simp add: sendRoom_def\<close>)

lemma send_ok_ends:
  assumes "send_ok s" "j < length (hp_waits s)" "hp_waits s ! j = w"
  shows "\<not> is_sending w \<Longrightarrow> send_ok (end_wait j s)" "wait_ok w"
    and "is_sending w \<Longrightarrow> filter is_sending (hp_waits (end_wait j s)) = [] \<and> hp_sendingId s \<noteq> None"
    and "list_all wait_ok (hp_waits (end_wait j s))"
  using assms ended_waits(1) [of j "hp_waits s" w wait_ok] ended_waits(2) [of j "hp_waits s" w is_sending]
  by (auto simp: send_ok_def end_wait_def split: if_splits)

text \<open>The end of a send: another one can begin.\<close>

lemma send_ok_free:
  assumes "send_ok s" "filter is_sending ws = []" "list_all wait_ok ws" "list_all own_room cs"
  shows "send_ok (s\<lparr>hp_candidates := cs, hp_sendingId := None, hp_waits := ws\<rparr>)"
  using assms by (simp add: send_ok_def)

lemma send_ok_reads:
  assumes "send_ok s" "list_all own_room cs"
  shows "send_ok (candidates_read cs s)"
proof -
  have read: "send_ok (s\<lparr>hp_candidates := cs\<rparr>)" using assms by (simp add: send_ok_def)
  show ?thesis
  proof (cases "pick (s\<lparr>hp_candidates := cs\<rparr>)")
    case (Some c)
    then have "own_room c" "\<not> cd_partnerJoined c" using assms(2) by (auto simp: pick_def find_Some_iff list_all_length)
    then show ?thesis using Some read by (simp add: candidates_read_def send_ok_sends)
  qed (use read in \<open>simp add: candidates_read_def\<close>)
qed

lemma send_ok_delivers:
  assumes "send_ok s" "j < length (hp_waits s)" "hp_waits s ! j = w" "is_sending w" "rooms_named (m_db m)" "may_be_sent r"
  shows "send_ok (deliver fresh r ((end_wait j s)\<lparr>hp_manager := m\<rparr>))"
  using assms(1,5,6) send_ok_ends(3,4) [OF assms(1-3)] assms(4)
  by (auto simp: deliver_def start_wait_def sending_done_def send_ok_def end_wait_def)

lemma send_ok_answered:
  assumes "send_ok s" "j < length (hp_waits s)" "hp_waits s ! j = Delivering fresh r"
  shows "send_ok (delivered p fresh r res (end_wait j s))"
  using assms(1) send_ok_ends(3,4) [OF assms] candidates_ok [of "hp_manager s" p]
  by (auto simp: delivered_def sending_done_def goto_def start_wait_def send_ok_def end_wait_def Let_def split: handoff_result.split)

lemma send_ok_step:
  assumes "send_ok s" "handoff_enabled ev s"
  shows "send_ok (handoff_step he ev s)"
proof (cases ev)
  case (HpRelay j rand key)
  show ?thesis
  proof (cases "hp_waits s ! j")
    case (RelayAsked url)
    then have "send_ok (end_wait j s)" using send_ok_ends(1) [OF assms(1)] assms(2) HpRelay by simp
    then show ?thesis using HpRelay RelayAsked by (simp add: relay_resolved_def Let_def)
  qed (use HpRelay assms(1) in simp_all)
next
  case (HpCandidates j)
  then have j: "j < length (hp_waits s)" using assms(2) by simp
  show ?thesis
  proof (cases "hp_waits s ! j")
    case (CandidatesAsked cs)
    then show ?thesis using send_ok_ends(1,2) [OF assms(1) j CandidatesAsked] HpCandidates by (simp add: send_ok_reads)
  next
    case (CandidatesAgain cs)
    then show ?thesis using assms(1) send_ok_ends(2,3,4) [OF assms(1) j CandidatesAgain] HpCandidates
      by (simp add: sending_done_def send_ok_def end_wait_def)
  qed (use HpCandidates assms(1) in simp_all)
next
  case (HpSend i)
  then have "own_room (hp_candidates s ! i)" "\<not> cd_partnerJoined (hp_candidates s ! i)"
    using assms by (auto simp: send_ok_def list_all_length)
  then show ?thesis using HpSend assms(1) by (simp add: send_ok_sends)
next
  case HpNewLine
  then show ?thesis using assms by (auto simp: sendNewLine_def start_wait_def send_ok_def js_def truthy_def)
next
  case (HpLine j cx rand)
  then have j: "j < length (hp_waits s)" and "lr_id rand \<noteq> []" using assms(2) by auto
  show ?thesis
  proof (cases "hp_waits s ! j")
    case LineAsked
    let ?made = "createSecureLine (he_platform he) cx rand (he_fallback he) None (Some laptop_name) (hp_manager s)"
    have made: "?made = (fst ?made, snd ?made)" by simp
    have rooms: "rooms_named (m_db (hp_manager s))" using assms(1) by (simp add: send_ok_def)
    note made = rooms_made [OF rooms \<open>lr_id rand \<noteq> []\<close> made]
    then show ?thesis
      using send_ok_delivers [OF assms(1) j LineAsked, where m = "log_effect BumpRooms (snd ?made)" and fresh = True] HpLine LineAsked
      by (simp add: line_made_def case_prod_beta may_be_sent_def log_effect_def) (simp add: end_wait_def)
  qed (use HpLine assms(1) in simp_all)
next
  case (HpAnswer j res)
  then show ?thesis using assms by (auto simp: send_ok_answered split: handoff_wait.split)
next
  case (HpRoom k r)
  moreover have "rooms_named (m_db (hp_manager s))" using assms(1) by (simp add: send_ok_def)
  ultimately show ?thesis using assms(1) by (simp add: onRoom_def Let_def send_ok_manager)
qed (use assms in \<open>auto simp: send_ok_receives send_ok_enters onRoom_def startScan_def Let_def send_ok_manager
      intro!: send_ok_manager split: option.split\<close>)

interpretation handoff_page: event_system "handoff_step he" handoff_enabled send_ok
  by unfold_locales (rule send_ok_step)


text \<open>A code is scanned, and a new line made and sent.\<close>

definition toy_handoff_env :: handoff_env where
  "toy_handoff_env = \<lparr>he_platform = toy_line_platform, he_origin = js ''https://x'', he_fallback = js ''wss://r'',
     he_path = \<lambda>u. Some (js ''/handoff'')\<rparr>"

definition toy_sending :: "handoff_event list" where
  "toy_sending = [HpScanned (handoffUrl (js ''https://x'') toy_channel), HpCandidates 0, HpNewLine, HpLine 0 toy_context toy_random]"

abbreviation toy_linking :: handoff_page where
  "toy_linking \<equiv> mount_handoff toy_line_platform (js ''wss://r'') [] (Some (js ''1'')) (new_handoff_page None toy_manager)"

lemma toy_room_sent:
  "run_ok handoff_enabled (handoff_step toy_handoff_env) toy_sending toy_linking \<and>
   length (hp_sent (run (handoff_step toy_handoff_env) toy_sending toy_linking)) = 1"
proof -
  have "parseHandoffScan (\<lambda>u. Some (js ''/handoff'')) (handoffUrl (js ''https://x'') toy_channel) = Some toy_channel"
    by (rule qr_roundtrip(2)) (simp_all add: toy_channel_def bucket_id_ok_def relay_url_ok_def js_def unit_of_def url_safe_def is_digit_def
        is_high_def is_low_def starts_with_def after_word_def lower_ascii_def)
  moreover have "parseHandoffFragment [] = None" by code_simp
  moreover have "loadCandidates p toy_manager = []" for p
    by (simp add: loadCandidates_def listRooms_def new_manager_def empty_db_def)
  ultimately show ?thesis
    by (simp add: toy_sending_def toy_handoff_env_def mount_handoff_def new_handoff_page_def enterSend_def start_wait_def end_wait_def
        candidates_read_def pick_def sendNewLine_def truthy_def line_made_def case_prod_beta deliver_def toy_random_def)
qed


section \<open>Leaving the page\<close>

text \<open>
  The clean-up closes the listener there is; one that is still to come, because the relay's address is being read,
  opens afterwards and stays open.
\<close>

lemma listener_outlives_the_page:
  assumes "hp_waits s = [RelayAsked url]" "hp_listener s = None"
  shows "hp_open (run (handoff_step he) [HpLeave, HpRelay 0 rand key] s) = hp_open s @ [(createHandoffChannel rand key url, True)]"
  using assms by (simp add: close_current_def end_wait_def relay_resolved_def Let_def)

end
