(* ===== verification/PageViews.thy ===== *)
theory PageViews
  imports Lines "HOL-Library.Product_Lexorder"
begin

text \<open>
  The page of a line, \<open>web/src/routes/(app)/b/[id]/+page.svelte\<close>: the values it derives from its state and from the
  stores of the connection manager, with \<open>partnerDisplayName\<close> of \<open>web/src/lib/brand.ts\<close>. A derived value is a
  function of the values it reads. The texts' typographic characters are written as their codes.
\<close>

section \<open>Names and texts\<close>

definition partnerDisplayName :: "jstr \<Rightarrow> jstr \<Rightarrow> jstr" where
  "partnerDisplayName nickname b =
     (let trimmed = trim nickname
      in if trimmed = [] \<or> trimmed = defaultNickname b then js ''Partner'' else trimmed)"

text \<open>
  \<open>toUpperCase\<close>, for a comparison with capital Latin letters: beside the small Latin letters only the long s
  (017F) and the dotless i (0131) become one.
\<close>

definition upper_unit :: "16 word \<Rightarrow> 16 word" where
  "upper_unit u = (if 97 \<le> unat u \<and> unat u \<le> 122 then u - 32 else if u = 0x17F then 0x53 else if u = 0x131 then 0x49 else u)"

section \<open>The timeline\<close>

datatype timeline_item = MessageItem stored_message | RecvItem transfer

fun item_id :: "timeline_item \<Rightarrow> jstr" where
  "item_id (MessageItem m) = sm_id m"
| "item_id (RecvItem t) = t_id t"

fun item_ts :: "timeline_item \<Rightarrow> jsnum" where
  "item_ts (MessageItem m) = sm_ts m"
| "item_ts (RecvItem t) = t_ts t"

text \<open>\<open>a - b\<close> orders numbers as their values do; the infinities lie outside, and time stamps are never \<open>NaN\<close>.\<close>

fun num_rank :: "jsnum \<Rightarrow> int" where
  "num_rank (NumInf neg) = (if neg then - 1 else 1)"
| "num_rank _ = 0"

fun num_value :: "jsnum \<Rightarrow> rat" where
  "num_value (NumI i) = of_int i"
| "num_value (NumF m e) = of_int m / 10 ^ e"
| "num_value _ = 0"

definition ts_key :: "jsnum \<Rightarrow> int \<times> rat" where
  "ts_key n = (num_rank n, num_value n)"

fun add_messages :: "jstr list \<Rightarrow> stored_message list \<Rightarrow> jstr list \<times> timeline_item list" where
  "add_messages seen [] = (seen, [])"
| "add_messages seen (m # ms) =
     (if sm_id m \<in> set seen then add_messages seen ms
      else (let (s, items) = add_messages (sm_id m # seen) ms in (s, MessageItem m # items)))"

fun add_transfers :: "jstr list \<Rightarrow> transfer list \<Rightarrow> timeline_item list" where
  "add_transfers seen [] = []"
| "add_transfers seen (t # ts) =
     (if t_direction t = Recv \<and> t_id t \<notin> set seen then RecvItem t # add_transfers (t_id t # seen) ts
      else add_transfers seen ts)"

definition timeline :: "stored_message list \<Rightarrow> transfer list \<Rightarrow> timeline_item list" where
  "timeline messages transfers =
     (let (seen, items) = add_messages [] messages
      in sort_key (\<lambda>i. ts_key (item_ts i)) (items @ add_transfers seen transfers))"

text \<open>Maps built by \<open>map.set\<close> in a loop: the last entry of a key stays.\<close>

definition messageById :: "stored_message list \<Rightarrow> jstr \<rightharpoonup> stored_message" where
  "messageById messages = foldl (\<lambda>f m. f(sm_id m \<mapsto> m)) Map.empty messages"

definition sendTransferById :: "transfer list \<Rightarrow> jstr \<rightharpoonup> transfer" where
  "sendTransferById transfers =
     foldl (\<lambda>f t. if t_direction t = Send then f(t_id t \<mapsto> t) else f) Map.empty transfers"

section \<open>Connection\<close>

datatype page_phase = PgLoading | PgCreatorShare | PgLinePin | PgChat

record conn_view =
  cv_phase :: page_phase
  cv_offline :: bool
  cv_state :: conn_state
  cv_attempt :: nat
  cv_stalled :: bool
  cv_peerPresent :: bool
  cv_peerWrote :: bool
  cv_partner :: jstr
  cv_isCreator :: bool

definition partnerConnected :: "conn_view \<Rightarrow> bool" where
  "partnerConnected v \<longleftrightarrow> cv_peerPresent v \<or> cv_peerWrote v"

definition presenceLabel :: "conn_view \<Rightarrow> jstr" where
  "presenceLabel v =
     (if cv_phase v \<noteq> PgChat then js ''Enter room PIN''
      else if cv_offline v then js ''Offline''
      else if cv_state v = CsConnecting then js ''Connecting'' @ ellipsis
      else if cv_state v = CsReconnecting then
        (if 1 < cv_attempt v then js ''Reconnecting'' @ ellipsis @ js '' ('' @ decimal (cv_attempt v) @ js '')''
         else js ''Reconnecting'' @ ellipsis)
      else if cv_stalled v \<or> cv_state v = CsError then js ''Connection lost''
      else if cv_state v = CsClosed then js ''Disconnected''
      else if partnerConnected v then cv_partner v @ js '' connected''
      else js ''Waiting for '' @ cv_partner v)"

definition presenceWaiting :: "conn_view \<Rightarrow> bool" where
  "presenceWaiting v \<longleftrightarrow>
     cv_phase v = PgChat \<and> \<not> cv_offline v \<and> cv_state v = CsOpen \<and> \<not> partnerConnected v \<and> \<not> cv_stalled v"

definition presenceHint :: "conn_view \<Rightarrow> jstr" where
  "presenceHint v =
     (if cv_phase v = PgCreatorShare then js ''Share the link and PIN with your partner separately.''
      else if cv_phase v = PgLinePin then
        js ''The PIN is not in the link '' @ 0x2014 # js '' ask whoever invited you.''
      else if cv_offline v then js ''Waiting for network '' @ 0x2014 # js '' will retry when you are back online.''
      else if cv_state v = CsOpen \<and> partnerConnected v then cv_partner v @ js '' is in this chat.''
      else if cv_state v = CsOpen \<and> cv_isCreator v then js ''Share the link and room PIN with your partner.''
      else if cv_state v = CsOpen then
        js ''Connected '' @ 0x2014 # js '' waiting for '' @ cv_partner v @ js '' to join.''
      else if cv_state v = CsReconnecting then js ''Restoring your secure connection automatically.''
      else if cv_stalled v then js ''Automatic retry stopped '' @ 0x2014 # js '' tap Reconnect below.''
      else if cv_state v = CsConnecting then js ''Opening a secure channel to the relay.''
      else if cv_state v = CsClosed \<or> cv_state v = CsError then js ''Trying to restore your connection.''
      else js ''Opening a secure channel to the relay.'')"

definition showConnBanner :: "conn_view \<Rightarrow> bool" where
  "showConnBanner v \<longleftrightarrow>
     cv_phase v = PgChat \<and>
     (cv_offline v \<or> cv_stalled v \<or> cv_state v = CsReconnecting \<or> cv_state v = CsClosed \<or> cv_state v = CsError)"

fun connStateLabel :: "conn_state \<Rightarrow> jstr" where
  "connStateLabel CsOpen = js ''Connected''"
| "connStateLabel CsConnecting = js ''Connecting''"
| "connStateLabel CsReconnecting = js ''Reconnecting''"
| "connStateLabel CsError = js ''Error''"
| "connStateLabel _ = js ''Disconnected''"

section \<open>The approval of a synchronisation\<close>

definition resyncNeedsConfirm :: "resync_prompt option \<Rightarrow> bool" where
  "resyncNeedsConfirm prompt \<longleftrightarrow>
     (case prompt of None \<Rightarrow> False | Some pr \<Rightarrow> rp_deviceTrust pr = TrustNew \<or> rp_deviceTrust pr = TrustUnknown)"

definition resyncConfirmOk :: "resync_prompt option \<Rightarrow> jstr \<Rightarrow> bool" where
  "resyncConfirmOk prompt typed \<longleftrightarrow> \<not> resyncNeedsConfirm prompt \<or> map upper_unit (trim typed) = js ''SYNC''"

definition deviceTrustLabel :: "resync_prompt option \<Rightarrow> jstr" where
  "deviceTrustLabel prompt =
     (case prompt of
        None \<Rightarrow> []
      | Some pr \<Rightarrow>
          (case rp_deviceTrust pr of
             TrustSame \<Rightarrow> js ''Same device as last time''
           | TrustNew \<Rightarrow> js ''Different device than last time''
           | TrustUnknown \<Rightarrow> js ''Unknown / first-seen device''))"

section \<open>Attachments\<close>

text \<open>\<open>t.detail ?? 'Failed'\<close>; a detail that is an inherited property is shown as what it converts to.\<close>

definition transferStatusText :: "transfer option \<Rightarrow> detail" where
  "transferStatusText t =
     (case t of
        None \<Rightarrow> Detail []
      | Some t \<Rightarrow>
          (case t_status t of
             Failed \<Rightarrow> (case t_detail t of None \<Rightarrow> Detail (js ''Failed'') | Some d \<Rightarrow> d)
           | Waiting \<Rightarrow> Detail (js ''Waiting for partner'' @ ellipsis)
           | Active \<Rightarrow> Detail ((if t_direction t = Send then js ''Sending'' else js ''Receiving'') @ ellipsis)))"

definition hasOtherUnread :: "room_record list \<Rightarrow> jstr \<Rightarrow> bool" where
  "hasOtherUnread rooms b \<longleftrightarrow> list_ex (\<lambda>r. rec_unread r \<and> rec_bucketId r \<noteq> b) rooms"

section \<open>The timeline shows everything once\<close>

lemma add_messages_sound:
  assumes "add_messages seen ms = (seen', items)"
  shows "set seen' = set seen \<union> sm_id ` set ms \<and> distinct (map item_id items) \<and>
    item_id ` set items = sm_id ` set ms - set seen \<and> set items \<subseteq> MessageItem ` set ms"
  using assms
proof (induction ms arbitrary: seen seen' items)
  case (Cons m ms)
  show ?case
  proof (cases "sm_id m \<in> set seen")
    case True
    then show ?thesis using Cons.prems Cons.IH [of seen seen' items] by auto
  next
    case False
    then obtain items' where items: "items = MessageItem m # items'" and rest: "add_messages (sm_id m # seen) ms = (seen', items')"
      using Cons.prems by (auto split: prod.splits)
    have "sm_id m \<notin> item_id ` set items'" using Cons.IH [OF rest] by auto
    then show ?thesis using Cons.IH [OF rest] False by (auto simp: items)
  qed
qed simp

lemma add_transfers_sound:
  "distinct (map item_id (add_transfers seen ts)) \<and>
   item_id ` set (add_transfers seen ts) = t_id ` {t \<in> set ts. t_direction t = Recv} - set seen \<and>
   set (add_transfers seen ts) \<subseteq> RecvItem ` {t \<in> set ts. t_direction t = Recv}"
proof (induction ts arbitrary: seen)
  case (Cons t ts)
  show ?case
  proof (cases "t_direction t = Recv \<and> t_id t \<notin> set seen")
    case True
    have "t_id t \<notin> item_id ` set (add_transfers (t_id t # seen) ts)" using Cons [of "t_id t # seen"] by auto
    then show ?thesis using Cons [of "t_id t # seen"] True by auto
  next
    case False
    then show ?thesis using Cons [of seen] by auto
  qed
qed simp

text \<open>C7
  The timeline. Whatever messages and transfers the stores hold, the page lists every message and every incoming
  transfer exactly once, each id once, a transfer only while there is no message of its id, in the order of their
  time stamps; and it lists nothing else.
\<close>

theorem timeline_shows_all_once:
  "distinct (map item_id (timeline ms ts)) \<and>
   set (map item_id (timeline ms ts)) = sm_id ` set ms \<union> t_id ` {t \<in> set ts. t_direction t = Recv} \<and>
   set (timeline ms ts) \<subseteq> MessageItem ` set ms \<union>
     RecvItem ` {t \<in> set ts. t_direction t = Recv \<and> t_id t \<notin> sm_id ` set ms} \<and>
   sorted (map (\<lambda>i. ts_key (item_ts i)) (timeline ms ts))"
proof -
  obtain seen items where ms: "add_messages [] ms = (seen, items)" by (cases "add_messages [] ms")
  let ?recv = "add_transfers seen ts"
  have tl: "timeline ms ts = sort_key (\<lambda>i. ts_key (item_ts i)) (items @ ?recv)" by (simp add: timeline_def ms)
  have m: "set seen = sm_id ` set ms" "distinct (map item_id items)" "item_id ` set items = sm_id ` set ms"
    "set items \<subseteq> MessageItem ` set ms"
    using add_messages_sound [OF ms] by auto
  have t: "distinct (map item_id ?recv)" "item_id ` set ?recv = t_id ` {t \<in> set ts. t_direction t = Recv} - sm_id ` set ms"
    "set ?recv \<subseteq> RecvItem ` {t \<in> set ts. t_direction t = Recv}"
    using add_transfers_sound [of seen ts] m(1) by auto
  have "distinct (map item_id (items @ ?recv))" using m(2,3) t(1,2) by auto
  then have "distinct (map item_id (timeline ms ts))"
    unfolding tl distinct_map by (auto simp: inj_on_def)
  moreover have "set (map item_id (timeline ms ts)) = sm_id ` set ms \<union> t_id ` {t \<in> set ts. t_direction t = Recv}"
    by (simp add: tl image_Un m(3) t(2))
  moreover have "set (timeline ms ts) \<subseteq> MessageItem ` set ms \<union>
     RecvItem ` {t \<in> set ts. t_direction t = Recv \<and> t_id t \<notin> sm_id ` set ms}"
  proof -
    have "t_id x \<notin> sm_id ` set ms" if "RecvItem x \<in> set ?recv" for x
    proof -
      have "item_id (RecvItem x) \<in> item_id ` set ?recv" using that by (rule imageI)
      then show ?thesis unfolding t(2) by simp
    qed
    then have "set ?recv \<subseteq> RecvItem ` {t \<in> set ts. t_direction t = Recv \<and> t_id t \<notin> sm_id ` set ms}"
      using t(3) by blast
    then show ?thesis using m(4) unfolding tl set_sort set_append by blast
  qed
  moreover have "sorted (map (\<lambda>i. ts_key (item_ts i)) (timeline ms ts))" by (simp add: tl)
  ultimately show ?thesis by blast
qed

end
