(* ===== verification/RoomPage.thy ===== *)
theory RoomPage
  imports PageViews
begin

text \<open>
  The page of a line, \<open>web/src/routes/(app)/b/[id]/+page.svelte\<close>: its state and what its script does. A call of one of
  the page's asynchronous functions is a stack of frames, one for each function that waits; \<open>resume\<close> runs the code
  from one \<open>await\<close> to the next. What an \<open>await\<close> on the database brings is read when the call is made; a call of
  \<open>openRoom\<close>, \<open>rejoinRoom\<close>, \<open>reconnectRoom\<close> or \<open>connectWithPin\<close> waits for the manager's flow. The page's id and
  the URL's hash are read where the source reads them, so that a call that outlives a navigation acts on the new
  room. Scrolling, highlighting, dragging, the flashes of the copy and share buttons and the permission for
  notifications are left out.
\<close>

section \<open>State\<close>

text \<open>\<open>Boot\<close> is \<open>bootstrapRoom\<close>, with the generation and the id it was called with, after the given \<open>await\<close>.\<close>

datatype boot_pc =
    BtActivated
  | BtNamed
  | BtStored "room_record option" "credentials option"
  | BtOwn jstr "jstr option" room_fragment "room_record option"
  | BtKey jstr "jstr option" room_fragment bytes
  | BtKeyFailed
  | BtRelay "jstr option" room_fragment jstr
  | BtMessages "jstr option" room_fragment "stored_message list"
  | BtLegacy room_fragment
  | BtRecord "jstr option" room_fragment "room_record option"
  | BtOpening "jstr option" room_fragment nat
  | BtEnsured
  | BtAskPin "jstr option"
  | BtTried

datatype wipe_kind = WipeMine | WipeBoth

datatype frame =
    Boot nat jstr boot_pc
  | MetaRead "room_record option"
  | EnterChat bool
  | NameRead "room_record option"
  | LegacyToken "jstr option"
  | LegacyRegister jstr
  | LegacyOpen
  | LegacyOpening nat
  | PinChecking "nat option"
  | EnsureRead "room_record option" room_fragment
  | EnsureCreds "credentials option" room_fragment
  | RoomsRead "room_record list"
  | NameSaved jstr
  | ShareRead "room_record option"
  | Rejoining nat
  | RejoinNext bool
  | RejoinEnd
  | ReconnectAnswer nat
  | ReconnectEnd
  | SendAnswer "bool result"
  | AttachAnswer "bool result"
  | DeleteAnswer jstr "bool result"
  | WipeNext wipe_kind "bool result"
  | WipeEnd

record page =
  pg_manager :: manager
  pg_bucket :: jstr
  pg_hash :: jstr
  pg_gen :: nat
  pg_phase :: page_phase
  pg_key :: "bytes option"
  pg_room :: "room_fragment option"
  pg_creatorPin :: jstr
  pg_pinInput :: jstr
  pg_pinError :: jstr
  pg_nickname :: jstr
  pg_editNickname :: jstr
  pg_draft :: jstr
  pg_error :: jstr
  pg_relayUrl :: jstr
  pg_legacyMode :: bool
  pg_isCreator :: bool
  pg_showNicknamePrompt :: bool
  pg_imageBusy :: bool
  pg_imageError :: jstr
  pg_replyTarget :: "stored_message option"
  pg_seatReleased :: bool
  pg_rejoinBusy :: bool
  pg_reconnectBusy :: bool
  pg_resyncConfirm :: jstr
  pg_wipeBusy :: bool
  pg_shareRoom :: "room_record option"
  pg_rooms :: "room_record list"
  pg_offline :: bool
  pg_calls :: "frame list list"

text \<open>The page before its effect has run for the first time.\<close>

definition new_page :: "jstr \<Rightarrow> jstr \<Rightarrow> manager \<Rightarrow> page" where
  "new_page i hash m =
     \<lparr>pg_manager = m, pg_bucket = i, pg_hash = hash, pg_gen = 0, pg_phase = PgLoading, pg_key = None, pg_room = None,
      pg_creatorPin = [], pg_pinInput = [], pg_pinError = [], pg_nickname = [], pg_editNickname = [], pg_draft = [],
      pg_error = [], pg_relayUrl = [], pg_legacyMode = False, pg_isCreator = False, pg_showNicknamePrompt = False,
      pg_imageBusy = False, pg_imageError = [], pg_replyTarget = None, pg_seatReleased = False, pg_rejoinBusy = False,
      pg_reconnectBusy = False, pg_resyncConfirm = [], pg_wipeBusy = False, pg_shareRoom = None, pg_rooms = [],
      pg_offline = False, pg_calls = []\<rparr>"

text \<open>
  The surroundings: \<open>location.hostname\<close>, the relay of the build's environment, and the text of an error that the
  engine raises.
\<close>

record page_env =
  pe_here :: jstr
  pe_relay :: "jstr option"
  pe_text :: "js_error \<Rightarrow> jstr"

definition page_manager :: "(manager \<Rightarrow> manager) \<Rightarrow> page \<Rightarrow> page" where
  "page_manager f pg = pg\<lparr>pg_manager := f (pg_manager pg)\<rparr>"

definition page_db :: "page \<Rightarrow> db" where "page_db pg = m_db (pg_manager pg)"

definition error_text :: "page_env \<Rightarrow> js_error \<Rightarrow> jstr" where
  "error_text env e = (case e of Error s \<Rightarrow> js s | _ \<Rightarrow> pe_text env e)"

section \<open>What the page shows\<close>

definition page_runtime :: "page \<Rightarrow> runtime option" where
  "page_runtime pg = m_runtimes (pg_manager pg) (pg_bucket pg)"

definition connState :: "page \<Rightarrow> conn_state" where
  "connState pg = (case page_runtime pg of None \<Rightarrow> CsConnecting | Some rt \<Rightarrow> rt_connState rt)"

definition page_messages :: "page \<Rightarrow> stored_message list" where
  "page_messages pg = getMessages (pg_bucket pg) (pg_manager pg)"

definition page_transfers :: "page \<Rightarrow> transfer list" where
  "page_transfers pg = (case m_transfers (pg_manager pg) (pg_bucket pg) of None \<Rightarrow> [] | Some ts \<Rightarrow> ts)"

definition page_view :: "page \<Rightarrow> conn_view" where
  "page_view pg =
     (let rt = page_runtime pg
      in \<lparr>cv_phase = pg_phase pg, cv_offline = pg_offline pg, cv_state = connState pg,
          cv_attempt = (case rt of None \<Rightarrow> 0 | Some r \<Rightarrow> rt_reconnectAttempt r),
          cv_stalled = (case rt of None \<Rightarrow> False | Some r \<Rightarrow> rt_reconnectStalled r),
          cv_peerPresent = (case rt of None \<Rightarrow> False | Some r \<Rightarrow> rt_peerPresent r),
          cv_peerWrote = list_ex (\<lambda>s. sm_from s = Peer) (page_messages pg),
          cv_partner = partnerDisplayName (pg_nickname pg) (pg_bucket pg), cv_isCreator = pg_isCreator pg\<rparr>)"

definition page_timeline :: "page \<Rightarrow> timeline_item list" where
  "page_timeline pg = timeline (page_messages pg) (page_transfers pg)"

definition page_prompt :: "page \<Rightarrow> resync_prompt option" where
  "page_prompt pg = m_prompts (pg_manager pg) (pg_bucket pg)"

definition composerCanSend :: "page \<Rightarrow> bool" where
  "composerCanSend pg \<longleftrightarrow>
     trim (pg_draft pg) \<noteq> [] \<and> pg_key pg \<noteq> None \<and> pg_error pg = [] \<and> connState pg = CsOpen \<and> \<not> pg_imageBusy pg"

definition shareUrl :: "jstr \<Rightarrow> page \<Rightarrow> jstr" where
  "shareUrl origin pg = origin @ js ''/b/'' @ pg_bucket pg @ shareRoomHash (pg_hash pg)"

section \<open>Entering a room\<close>

text \<open>
  A function that is called answers the frames it waits in, none when it returns at once, and the page.
\<close>

type_synonym call_result = "frame list \<times> page"

definition page_record :: "page \<Rightarrow> room_record option" where
  "page_record pg = getRoom (pg_bucket pg) (page_db pg)"

definition loadRoomMeta :: "page \<Rightarrow> call_result" where
  "loadRoomMeta pg = ([MetaRead (page_record pg)], pg)"

definition meta_read :: "room_record option \<Rightarrow> page \<Rightarrow> page" where
  "meta_read rec pg =
     (let name = (case rec of None \<Rightarrow> defaultNickname (pg_bucket pg) | Some r \<Rightarrow> rec_nickname r);
          creator = Option.bind rec rec_isCreator
      in pg\<lparr>pg_nickname := name, pg_editNickname := name,
            pg_isCreator := creator = Some True \<or> creator \<noteq> Some False \<and> Option.bind (pg_room pg) fr_seat = Some 0,
            pg_seatReleased := (case rec of None \<Rightarrow> False | Some r \<Rightarrow> rec_seatReleased r)\<rparr>)"

definition enterChatPhase :: "bool \<Rightarrow> page \<Rightarrow> call_result" where
  "enterChatPhase promptName pg = (if promptName then [NameRead (page_record pg)] else [], pg\<lparr>pg_phase := PgChat\<rparr>)"

definition name_read :: "room_record option \<Rightarrow> page \<Rightarrow> page" where
  "name_read rec pg =
     (if rec = None \<or> map_option rec_nickname rec = Some (defaultNickname (pg_bucket pg))
      then pg\<lparr>pg_showNicknamePrompt := True, pg_editNickname := pg_nickname pg\<rparr> else pg)"

definition connectLegacy :: "page \<Rightarrow> call_result" where
  "connectLegacy pg =
     (if pg_room pg = None then ([], pg)
      else ([LegacyToken (getSessionToken (pg_bucket pg) (m_storage (pg_manager pg)))], pg))"

definition legacy_token :: "platform \<Rightarrow> jstr option \<Rightarrow> page \<Rightarrow> call_result" where
  "legacy_token p token pg =
     (case truthy token of
        Some t \<Rightarrow> ([LegacyRegister t], pg)
      | None \<Rightarrow>
          (let (bs, m) = draw_bytes p (pg_manager pg); t = randomToken bs
           in ([LegacyRegister t], pg\<lparr>pg_manager := m\<lparr>m_storage := setSessionToken (pg_bucket pg) t (m_storage m)\<rparr>\<rparr>)))"

definition legacy_register :: "platform \<Rightarrow> context_now \<Rightarrow> jstr \<Rightarrow> page \<Rightarrow> page" where
  "legacy_register p cx token pg =
     page_manager (registerRoom p cx
       \<lparr>ro_bucketId = pg_bucket pg, ro_roomHash = pg_hash pg, ro_relayUrl = pg_relayUrl pg, ro_nickname = None,
        ro_roomPin = None, ro_legacy = Some True, ro_legacyToken = Some token,
        ro_isCreator = Some (Option.bind (pg_room pg) fr_seat = Some 0)\<rparr>) pg"

text \<open>A call of the manager that starts a flow; its number is that of the new flow.\<close>

definition page_flow :: "(manager \<Rightarrow> manager) \<Rightarrow> page \<Rightarrow> nat \<times> page" where
  "page_flow f pg = (let m = f (pg_manager pg) in (length (m_flows m) - 1, pg\<lparr>pg_manager := m\<rparr>))"

definition page_connectWithPin :: "platform \<Rightarrow> context_now \<Rightarrow> jstr \<Rightarrow> page \<Rightarrow> call_result" where
  "page_connectWithPin p cx pin pg =
     (if pg_key pg = None \<or> (case pg_room pg of None \<Rightarrow> True | Some f \<Rightarrow> fr_legacy f) then ([], pg)
      else
        (let (checked, m) = connectWithPin p cx (pg_bucket pg) pin (pg_hash pg) (pg_relayUrl pg) (pg_manager pg)
         in ([PinChecking (if checked then Some (length (m_flows m) - 1) else None)],
             pg\<lparr>pg_pinError := [], pg_manager := m\<rparr>)))"

definition page_full :: "page \<Rightarrow> bool" where
  "page_full pg \<longleftrightarrow>
     (case getRuntime (pg_bucket pg) (pg_manager pg) of None \<Rightarrow> False | Some rt \<Rightarrow> rt_bucketFull rt)"

definition wrong_pin :: jstr where
  "wrong_pin = js ''Wrong room PIN. Check with whoever shared the link.''"

definition pin_checked :: "bool \<Rightarrow> page \<Rightarrow> call_result" where
  "pin_checked ok pg =
     (if ok then ([MetaRead (page_record pg), EnterChat True], pg)
      else if page_full pg then ([], pg\<lparr>pg_phase := PgChat\<rparr>)
      else ([], pg\<lparr>pg_pinError := wrong_pin\<rparr>))"

definition six_digit_pin :: "jstr \<Rightarrow> bool" where
  "six_digit_pin pin \<longleftrightarrow> length pin = 6 \<and> list_all is_digit pin"

definition submitPin :: "platform \<Rightarrow> context_now \<Rightarrow> page \<Rightarrow> call_result" where
  "submitPin p cx pg =
     (let pin = trim (pg_pinInput pg)
      in if \<not> six_digit_pin pin then ([], pg\<lparr>pg_pinError := js ''Enter the 6-digit room PIN.''\<rparr>)
         else page_connectWithPin p cx pin pg)"

definition continueFromCreatorModal :: "platform \<Rightarrow> context_now \<Rightarrow> page \<Rightarrow> call_result" where
  "continueFromCreatorModal p cx pg =
     (if pg_creatorPin pg = [] then ([], pg)
      else page_connectWithPin p cx (pg_creatorPin pg) (pg\<lparr>pg_pinInput := pg_creatorPin pg\<rparr>))"

definition ensureRoomRegistered :: "room_fragment \<Rightarrow> page \<Rightarrow> call_result" where
  "ensureRoomRegistered f pg = ([EnsureRead (page_record pg) f], pg)"

definition ensure_read :: "platform \<Rightarrow> room_record option \<Rightarrow> room_fragment \<Rightarrow> page \<Rightarrow> call_result" where
  "ensure_read p rec f pg =
     (if (case rec of None \<Rightarrow> False | Some r \<Rightarrow> contains (rec_roomHash r) (js ''key='')) then ([], pg)
      else ([EnsureCreds (getRoomCredentials p (pg_bucket pg) (pg_manager pg)) f], pg))"

definition ensure_creds :: "platform \<Rightarrow> context_now \<Rightarrow> credentials option \<Rightarrow> room_fragment \<Rightarrow> page \<Rightarrow> page" where
  "ensure_creds p cx creds f pg =
     page_manager (registerRoom p cx
       \<lparr>ro_bucketId = pg_bucket pg, ro_roomHash = pg_hash pg, ro_relayUrl = pg_relayUrl pg, ro_nickname = None,
        ro_roomPin = Option.bind creds cr_roomPin, ro_legacy = Some (fr_legacy f), ro_legacyToken = None,
        ro_isCreator = Some (fr_seat f = Some 0)\<rparr>) pg"

section \<open>bootstrapRoom\<close>

definition resetRoomUi :: "page \<Rightarrow> page" where
  "resetRoomUi pg =
     pg\<lparr>pg_phase := PgLoading, pg_key := None, pg_room := None, pg_creatorPin := [], pg_pinInput := [], pg_pinError := [],
        pg_error := [], pg_draft := [], pg_legacyMode := False, pg_isCreator := False, pg_showNicknamePrompt := False,
        pg_nickname := [], pg_editNickname := [], pg_imageBusy := False, pg_imageError := [], pg_replyTarget := None\<rparr>"

definition missing_key :: jstr where
  "missing_key = js ''Missing #key= in the URL. Ask the creator for the full share link.''"

definition own_invite :: jstr where
  "own_invite = js ''This is the invite link for a chat you created in this browser. Open it in a different browser or a private window to join as your partner.''"

text \<open>The pieces of \<open>bootstrapRoom\<close> between its waits.\<close>

definition boot_key :: "nat \<Rightarrow> jstr \<Rightarrow> jstr \<Rightarrow> jstr option \<Rightarrow> room_fragment \<Rightarrow> page \<Rightarrow> call_result" where
  "boot_key gen i hash hint f pg =
     ([Boot gen i (if aes_key (fr_keyRaw f) then BtKey hash hint f (fr_keyRaw f) else BtKeyFailed)],
      pg\<lparr>pg_room := Some f\<rparr>)"

definition boot_hash :: "nat \<Rightarrow> jstr \<Rightarrow> jstr \<Rightarrow> page \<Rightarrow> call_result" where
  "boot_hash gen i hash0 pg =
     (let (clean, hint) = sanitizeRoomFragmentInput hash0;
          keyed = contains clean (js ''key='');
          hash = (if keyed then clean else hash0);
          pg1 = (if keyed then pg\<lparr>pg_hash := clean\<rparr> else pg);
          pg2 = (case hint of None \<Rightarrow> pg1 | Some d \<Rightarrow> pg1\<lparr>pg_pinInput := d\<rparr>)
      in case parseRoomFragment hash of
           None \<Rightarrow> ([], pg2\<lparr>pg_error := missing_key\<rparr>)
         | Some f \<Rightarrow>
             if fr_seat f = None \<and> \<not> fr_legacy f then ([Boot gen i (BtOwn hash hint f (getRoom i (page_db pg2)))], pg2)
             else boot_key gen i hash hint f pg2)"

definition boot_named :: "platform \<Rightarrow> nat \<Rightarrow> jstr \<Rightarrow> page \<Rightarrow> call_result" where
  "boot_named p gen i pg =
     (if contains (pg_hash pg) (js ''key='') then boot_hash gen i (pg_hash pg) pg
      else ([Boot gen i (BtStored (getRoom i (page_db pg)) (getRoomCredentials p i (pg_manager pg)))], pg))"

definition boot_stored ::
  "nat \<Rightarrow> jstr \<Rightarrow> room_record option \<Rightarrow> credentials option \<Rightarrow> page \<Rightarrow> call_result" where
  "boot_stored gen i rec creds pg =
     (let found = (case or_else (truthy (map_option cr_roomHash creds)) (truthy (map_option rec_roomHash rec)) of
                     None \<Rightarrow> [] | Some h \<Rightarrow> h);
          hash = (if found \<noteq> [] \<and> take 1 found \<noteq> js ''#'' then js ''#'' @ found else found)
      in boot_hash gen i hash (if contains hash (js ''key='') then pg\<lparr>pg_hash := hash\<rparr> else pg))"

definition boot_keyed :: "page_env \<Rightarrow> nat \<Rightarrow> jstr \<Rightarrow> jstr \<Rightarrow> jstr option \<Rightarrow> room_fragment \<Rightarrow> page \<Rightarrow> call_result" where
  "boot_keyed env gen i hash hint f pg =
     (let (url, d) = resolveRelayUrl (defaultRelayUrl (pe_here env) (pe_relay env)) (page_db pg)
      in ([Boot gen i (BtRelay hint f url)], (page_manager (on_db (\<lambda>_. d)) pg)\<lparr>pg_hash := hash\<rparr>))"

definition boot_enter :: "nat \<Rightarrow> jstr \<Rightarrow> jstr option \<Rightarrow> room_fragment \<Rightarrow> page \<Rightarrow> call_result" where
  "boot_enter gen i hint f pg =
     (if fr_legacy f then
        (let (fs, pg1) = connectLegacy (pg\<lparr>pg_legacyMode := True\<rparr>) in (fs @ [Boot gen i (BtLegacy f)], pg1))
      else
        (let (once, st) = takeCreatorPin i (m_storage (pg_manager pg));
             pg1 = page_manager (\<lambda>m. m\<lparr>m_storage := st\<rparr>) pg
         in case truthy once of
              Some pin \<Rightarrow>
                ensureRoomRegistered f (pg1\<lparr>pg_creatorPin := pin, pg_isCreator := True, pg_phase := PgCreatorShare\<rparr>)
            | None \<Rightarrow>
                if (case getRuntime i (pg_manager pg1) of None \<Rightarrow> False | Some rt \<Rightarrow> rt_bucketFull rt)
                then loadRoomMeta (pg1\<lparr>pg_phase := PgChat\<rparr>)
                else ([Boot gen i (BtRecord hint f (getRoom i (page_db pg1)))], pg1)))"

definition boot_relay ::
  "platform \<Rightarrow> nat \<Rightarrow> jstr \<Rightarrow> jstr option \<Rightarrow> room_fragment \<Rightarrow> page \<Rightarrow> call_result" where
  "boot_relay p gen i hint f pg =
     (if isOpen i (pg_manager pg) then boot_enter gen i hint f pg
      else ([Boot gen i (BtMessages hint f (listMessages (pf_nfc p) i (page_db pg)))], pg))"

definition boot_messages ::
  "nat \<Rightarrow> jstr \<Rightarrow> jstr option \<Rightarrow> room_fragment \<Rightarrow> stored_message list \<Rightarrow> page \<Rightarrow> call_result" where
  "boot_messages gen i hint f msgs pg =
     boot_enter gen i hint f (page_manager (\<lambda>m. m\<lparr>m_messages := (m_messages m)(i \<mapsto> msgs)\<rparr>) pg)"

definition boot_record ::
  "nat \<Rightarrow> jstr \<Rightarrow> jstr option \<Rightarrow> room_fragment \<Rightarrow> room_record option \<Rightarrow> page \<Rightarrow> call_result" where
  "boot_record gen i hint f rec pg =
     (if (case rec of None \<Rightarrow> False | Some r \<Rightarrow> rec_seatReleased r) then
        (let (fs, pg1) = ensureRoomRegistered f (pg\<lparr>pg_seatReleased := True\<rparr>) in (fs @ [Boot gen i BtEnsured], pg1))
      else (let (n, pg1) = page_flow (openRoom i Nothing) pg in ([Boot gen i (BtOpening hint f n)], pg1)))"

definition boot_opened ::
  "nat \<Rightarrow> jstr \<Rightarrow> jstr option \<Rightarrow> room_fragment \<Rightarrow> bool \<Rightarrow> page \<Rightarrow> call_result" where
  "boot_opened gen i hint f opened pg =
     (let (fs, pg1) = ensureRoomRegistered f pg
      in if opened then (fs @ [Boot gen i BtEnsured], pg1)
         else if (case getRuntime i (pg_manager pg) of None \<Rightarrow> False | Some rt \<Rightarrow> rt_bucketFull rt)
         then ([], pg\<lparr>pg_phase := PgChat\<rparr>)
         else (fs @ [Boot gen i (BtAskPin hint)], pg1))"

definition boot_ensured :: "page \<Rightarrow> call_result" where
  "boot_ensured pg = (let (fs, pg1) = loadRoomMeta pg in (fs @ [EnterChat False], pg1))"

definition boot_ask_pin :: "platform \<Rightarrow> context_now \<Rightarrow> nat \<Rightarrow> jstr \<Rightarrow> jstr option \<Rightarrow> page \<Rightarrow> call_result" where
  "boot_ask_pin p cx gen i hint pg =
     (let (autoPin, pg1) =
            (case hint of
               Some d \<Rightarrow> (Some d, pg)
             | None \<Rightarrow> (let (pin, st) = takeJoinPin i (m_storage (pg_manager pg))
                        in (pin, page_manager (\<lambda>m. m\<lparr>m_storage := st\<rparr>) pg)))
      in case autoPin of
           Some pin \<Rightarrow>
             if six_digit_pin pin
             then (let (fs, pg2) = page_connectWithPin p cx pin (pg1\<lparr>pg_pinInput := pin\<rparr>)
                   in (fs @ [Boot gen i BtTried], pg2))
             else ([], pg1\<lparr>pg_phase := PgLinePin\<rparr>)
         | None \<Rightarrow> ([], pg1\<lparr>pg_phase := PgLinePin\<rparr>))"

text \<open>The answer of a flow, once there is one.\<close>

definition flow_answer :: "nat \<Rightarrow> manager \<Rightarrow> bool result option" where
  "flow_answer n m =
     (if n < length (m_flows m) then (case fl_pc (m_flows m ! n) of FlowDone res \<Rightarrow> Some res | _ \<Rightarrow> None) else None)"

text \<open>
  After an \<open>await\<close> the function stops when another room has been entered meanwhile. The key is assigned before
  that check, and the relay's URL too.
\<close>

definition boot_step ::
  "page_env \<Rightarrow> platform \<Rightarrow> context_now \<Rightarrow> nat \<Rightarrow> jstr \<Rightarrow> boot_pc \<Rightarrow> page \<Rightarrow> frame list result \<times> page" where
  "boot_step env p cx gen i pc pg =
     (let stale = (gen \<noteq> pg_gen pg);
          unless_stale = (\<lambda>(r :: call_result). if stale then (Inr [], pg) else (Inr (fst r), snd r))
      in case pc of
           BtActivated \<Rightarrow>
             unless_stale (let (fs, pg1) = loadRoomMeta pg in (fs @ [Boot gen i BtNamed], pg1))
         | BtNamed \<Rightarrow> unless_stale (boot_named p gen i pg)
         | BtStored rec creds \<Rightarrow> unless_stale (boot_stored gen i rec creds pg)
         | BtOwn hash hint f own \<Rightarrow>
             unless_stale (if Option.bind own rec_isCreator = Some True then ([], pg\<lparr>pg_error := own_invite\<rparr>)
                           else boot_key gen i hash hint f pg)
         | BtKey hash hint f raw \<Rightarrow>
             (let pg1 = pg\<lparr>pg_key := Some raw\<rparr>
              in if stale then (Inr [], pg1)
                 else (let (fs, pg2) = boot_keyed env gen i hash hint f pg1 in (Inr fs, pg2)))
         | BtKeyFailed \<Rightarrow> (Inl DataError, pg)
         | BtRelay hint f url \<Rightarrow>
             (let pg1 = pg\<lparr>pg_relayUrl := url\<rparr>
              in if stale then (Inr [], pg1)
                 else (let (fs, pg2) = boot_relay p gen i hint f pg1 in (Inr fs, pg2)))
         | BtMessages hint f msgs \<Rightarrow> unless_stale (boot_messages gen i hint f msgs pg)
         | BtLegacy f \<Rightarrow> unless_stale (ensureRoomRegistered f pg)
         | BtRecord hint f rec \<Rightarrow> unless_stale (boot_record gen i hint f rec pg)
         | BtOpening hint f n \<Rightarrow>
             (case flow_answer n (pg_manager pg) of
                None \<Rightarrow> (Inr [Boot gen i pc], pg)
              | Some (Inl e) \<Rightarrow> (Inl e, pg)
              | Some (Inr opened) \<Rightarrow> unless_stale (boot_opened gen i hint f opened pg))
         | BtEnsured \<Rightarrow> unless_stale (boot_ensured pg)
         | BtAskPin hint \<Rightarrow> unless_stale (boot_ask_pin p cx gen i hint pg)
         | BtTried \<Rightarrow> unless_stale ([], if pg_phase pg = PgLoading then pg\<lparr>pg_phase := PgLinePin\<rparr> else pg))"

end
