(* ===== verification/PageSystem.thy ===== *)
theory PageSystem
  imports RoomPage
begin

text \<open>
  The page of a line as a state machine: the calls that wait and their continuation, what the user does, and the
  events of the connection manager.
\<close>

section \<open>Continuing a call\<close>

definition rejoin_answered :: "bool \<Rightarrow> page \<Rightarrow> call_result" where
  "rejoin_answered opened pg =
     (let (fs, pg1) = loadRoomMeta (pg\<lparr>pg_seatReleased := False\<rparr>) in (fs @ [RejoinNext opened], pg1))"

definition rejoin_next :: "bool \<Rightarrow> page \<Rightarrow> call_result" where
  "rejoin_next opened pg =
     (if opened then enterChatPhase False pg
      else ([], pg\<lparr>pg_phase := if page_full pg then PgChat else PgLinePin\<rparr>))"

definition reconnect_answered :: "bool \<Rightarrow> page \<Rightarrow> call_result" where
  "reconnect_answered opened pg = (if opened then loadRoomMeta (pg\<lparr>pg_phase := PgChat\<rparr>) else ([], pg))"

definition attach_answered :: "page_env \<Rightarrow> bool result \<Rightarrow> page \<Rightarrow> page" where
  "attach_answered env res pg =
     (case res of
        Inl e \<Rightarrow> pg\<lparr>pg_imageError := error_text env e, pg_imageBusy := False\<rparr>
      | Inr False \<Rightarrow> pg\<lparr>pg_imageError := js ''Could not send attachment.'', pg_imageBusy := False\<rparr>
      | Inr True \<Rightarrow> pg\<lparr>pg_replyTarget := None, pg_imageBusy := False\<rparr>)"

definition send_answered :: "bool \<Rightarrow> page \<Rightarrow> page" where
  "send_answered ok pg = (if ok then pg\<lparr>pg_draft := [], pg_replyTarget := None\<rparr> else pg)"

definition delete_answered :: "jstr \<Rightarrow> page \<Rightarrow> page" where
  "delete_answered i pg =
     (if map_option sm_id (pg_replyTarget pg) = Some i then pg\<lparr>pg_replyTarget := None\<rparr> else pg)"

definition wipe_next :: "platform \<Rightarrow> context_now \<Rightarrow> wipe_kind \<Rightarrow> page \<Rightarrow> frame list result \<times> page" where
  "wipe_next p cx kind pg =
     (case kind of
        WipeMine \<Rightarrow> (Inr [], page_manager (wipeLocalHistory p (pg_bucket pg)) pg)
      | WipeBoth \<Rightarrow>
          (let (res, m) = wipeBothHistories p cx (pg_bucket pg) (pg_manager pg); pg1 = pg\<lparr>pg_manager := m\<rparr>
           in case res of Inl e \<Rightarrow> (Inl e, pg1) | Inr ok \<Rightarrow> (Inr [], pg1)))"

definition share_read :: "room_record option \<Rightarrow> page \<Rightarrow> page" where
  "share_read rec pg =
     (case rec of
        None \<Rightarrow> pg
      | Some r \<Rightarrow> if rec_isCreator r = Some True \<and> rec_legacy r \<noteq> Some True then pg\<lparr>pg_shareRoom := Some r\<rparr> else pg)"

definition name_saved :: "jstr \<Rightarrow> page \<Rightarrow> page" where
  "name_saved partner pg =
     page_manager (log_effect BumpRooms) (pg\<lparr>pg_nickname := partner, pg_showNicknamePrompt := False\<rparr>)"

text \<open>A frame that waits for a flow goes on with its answer, or with its error.\<close>

definition with_answer ::
  "nat \<Rightarrow> frame \<Rightarrow> (bool \<Rightarrow> page \<Rightarrow> call_result) \<Rightarrow> page \<Rightarrow> frame list result \<times> page" where
  "with_answer n fr go pg =
     (case flow_answer n (pg_manager pg) of
        None \<Rightarrow> (Inr [fr], pg)
      | Some (Inl e) \<Rightarrow> (Inl e, pg)
      | Some (Inr ok) \<Rightarrow> (Inr (fst (go ok pg)), snd (go ok pg)))"

definition returns :: "page \<Rightarrow> frame list result \<times> page" where "returns pg = (Inr [], pg)"

definition goes_on :: "call_result \<Rightarrow> frame list result \<times> page" where "goes_on r = (Inr (fst r), snd r)"

text \<open>The code of a frame after its \<open>await\<close>: the frames that take its place, or the error it throws.\<close>

fun frame_step ::
  "page_env \<Rightarrow> platform \<Rightarrow> context_now \<Rightarrow> frame \<Rightarrow> page \<Rightarrow> frame list result \<times> page" where
  "frame_step env p cx (Boot gen i pc) pg = boot_step env p cx gen i pc pg"
| "frame_step env p cx (MetaRead rec) pg = returns (meta_read rec pg)"
| "frame_step env p cx (EnterChat promptName) pg = goes_on (enterChatPhase promptName pg)"
| "frame_step env p cx (NameRead rec) pg = returns (name_read rec pg)"
| "frame_step env p cx (LegacyToken token) pg = goes_on (legacy_token p token pg)"
| "frame_step env p cx (LegacyRegister token) pg = (Inr [LegacyOpen], legacy_register p cx token pg)"
| "frame_step env p cx LegacyOpen pg =
     (let (n, pg1) = page_flow (openRoom (pg_bucket pg) Nothing) pg in (Inr [LegacyOpening n], pg1))"
| "frame_step env p cx (LegacyOpening n) pg = with_answer n (LegacyOpening n) (\<lambda>opened. enterChatPhase True) pg"
| "frame_step env p cx (PinChecking None) pg = goes_on (pin_checked False pg)"
| "frame_step env p cx (PinChecking (Some n)) pg = with_answer n (PinChecking (Some n)) pin_checked pg"
| "frame_step env p cx (EnsureRead rec f) pg = goes_on (ensure_read p rec f pg)"
| "frame_step env p cx (EnsureCreds creds f) pg = returns (ensure_creds p cx creds f pg)"
| "frame_step env p cx (RoomsRead rs) pg = returns (pg\<lparr>pg_rooms := rs\<rparr>)"
| "frame_step env p cx (NameSaved partner) pg = returns (name_saved partner pg)"
| "frame_step env p cx (ShareRead rec) pg = returns (share_read rec pg)"
| "frame_step env p cx (Rejoining n) pg = with_answer n (Rejoining n) rejoin_answered pg"
| "frame_step env p cx (RejoinNext opened) pg = goes_on (rejoin_next opened pg)"
| "frame_step env p cx RejoinEnd pg = returns (pg\<lparr>pg_rejoinBusy := False\<rparr>)"
| "frame_step env p cx (ReconnectAnswer n) pg = with_answer n (ReconnectAnswer n) reconnect_answered pg"
| "frame_step env p cx ReconnectEnd pg = returns (pg\<lparr>pg_reconnectBusy := False\<rparr>)"
| "frame_step env p cx (SendAnswer res) pg =
     (case res of Inl e \<Rightarrow> (Inl e, pg) | Inr ok \<Rightarrow> returns (send_answered ok pg))"
| "frame_step env p cx (AttachAnswer res) pg = returns (attach_answered env res pg)"
| "frame_step env p cx (DeleteAnswer i res) pg =
     (case res of Inl e \<Rightarrow> (Inl e, pg) | Inr ok \<Rightarrow> returns (delete_answered i pg))"
| "frame_step env p cx (WipeNext kind res) pg =
     (case res of Inl e \<Rightarrow> (Inl e, pg) | Inr ok \<Rightarrow> wipe_next p cx kind pg)"
| "frame_step env p cx WipeEnd pg = returns (pg\<lparr>pg_wipeBusy := False\<rparr>)"

text \<open>
  An error leaves the functions it is not caught in, running their \<open>finally\<close> blocks; \<open>bootstrapRoom\<close> catches it.
\<close>

fun unwind :: "page_env \<Rightarrow> js_error \<Rightarrow> frame list \<Rightarrow> page \<Rightarrow> page" where
  "unwind env e [] pg = pg"
| "unwind env e (Boot gen i pc # fs) pg = (if gen \<noteq> pg_gen pg then pg else pg\<lparr>pg_error := error_text env e\<rparr>)"
| "unwind env e (RejoinEnd # fs) pg = unwind env e fs (pg\<lparr>pg_rejoinBusy := False\<rparr>)"
| "unwind env e (ReconnectEnd # fs) pg = unwind env e fs (pg\<lparr>pg_reconnectBusy := False\<rparr>)"
| "unwind env e (WipeEnd # fs) pg = unwind env e fs (pg\<lparr>pg_wipeBusy := False\<rparr>)"
| "unwind env e (fr # fs) pg = unwind env e fs pg"

definition set_call :: "nat \<Rightarrow> frame list \<Rightarrow> page \<Rightarrow> page" where
  "set_call k fs pg =
     pg\<lparr>pg_calls := if fs = [] then take k (pg_calls pg) @ drop (Suc k) (pg_calls pg) else (pg_calls pg)[k := fs]\<rparr>"

definition resume :: "page_env \<Rightarrow> platform \<Rightarrow> context_now \<Rightarrow> nat \<Rightarrow> page \<Rightarrow> page" where
  "resume env p cx k pg =
     (case pg_calls pg ! k of
        [] \<Rightarrow> set_call k [] pg
      | fr # rest \<Rightarrow>
          (let (res, pg1) = frame_step env p cx fr pg
           in case res of
                Inl e \<Rightarrow> set_call k [] (unwind env e (fr # rest) pg1)
              | Inr fs \<Rightarrow> set_call k (fs @ rest) pg1))"

definition start_call :: "call_result \<Rightarrow> page" where
  "start_call r = (snd r)\<lparr>pg_calls := pg_calls (snd r) @ (if fst r = [] then [] else [fst r])\<rparr>"

section \<open>What the user does\<close>

text \<open>
  A new address. When the id is another one the effect runs that depends on it: a new generation, an empty page, and
  \<open>bootstrapRoom\<close>. A page that has just been made has no id yet.
\<close>

definition navigate :: "jstr \<Rightarrow> jstr \<Rightarrow> page \<Rightarrow> page" where
  "navigate i hash pg =
     (let pg1 = pg\<lparr>pg_bucket := i, pg_hash := hash\<rparr>
      in if i = [] \<or> i = pg_bucket pg then pg1
         else (let pg2 = page_manager (setActive (Some i)) (resetRoomUi (pg1\<lparr>pg_gen := Suc (pg_gen pg)\<rparr>))
               in start_call ([Boot (pg_gen pg2) i BtActivated], pg2)))"

definition savePartnerName :: "page \<Rightarrow> page" where
  "savePartnerName pg =
     (let partner = (if trim (pg_editNickname pg) = [] then defaultNickname (pg_bucket pg) else trim (pg_editNickname pg))
      in start_call ([NameSaved partner], page_manager (on_db (setNickname (pg_bucket pg) partner)) pg))"

definition reply_opts :: "page \<Rightarrow> reply_ref option" where
  "reply_opts pg =
     map_option (\<lambda>s. \<lparr>rr_id = sm_id s, rr_preview = replyPreview (Content (Some (sm_id s)) (sm_content s))\<rparr>) (pg_replyTarget pg)"

definition send_pressed :: "platform \<Rightarrow> context_now \<Rightarrow> page \<Rightarrow> page" where
  "send_pressed p cx pg =
     (let body = trim (pg_draft pg)
      in if body = [] \<or> pg_key pg = None \<or> connState pg \<noteq> CsOpen \<or> pg_imageBusy pg then pg
         else (let (res, m) = send_text p cx (pg_bucket pg) body (reply_opts pg) (pg_manager pg)
               in start_call ([SendAnswer res], pg\<lparr>pg_manager := m\<rparr>)))"

text \<open>A picked, pasted or dropped file; \<open>at_prepared\<close> is what \<open>prepareImage\<close> makes of it.\<close>

record attachment =
  at_name :: "jstr option"
  at_type :: jstr
  at_bytes :: bytes
  at_prepared :: "(image_mime \<times> bytes \<times> jsnum option \<times> jsnum option) result"

definition sendImageOrFile ::
  "platform \<Rightarrow> context_now \<Rightarrow> jstr \<Rightarrow> attachment \<Rightarrow> reply_ref option \<Rightarrow> manager \<Rightarrow> bool result \<times> manager" where
  "sendImageOrFile p cx b x reply m =
     (let type = map lower_ascii (at_type x);
          as_file = sendFile p cx b (at_name x) (at_type x) (at_bytes x) reply
      in if take 6 type \<noteq> js ''image/'' \<or> type = js ''image/svg+xml'' then as_file m
         else (let (res, m1) = sendImage p cx b (at_prepared x) reply m
               in case res of
                    Inr ok \<Rightarrow> (Inr ok, m1)
                  | Inl e \<Rightarrow> if MAX_TRANSFER_BYTES < length (at_bytes x) then (Inl e, m1) else as_file m1))"

definition sendAttachment :: "platform \<Rightarrow> context_now \<Rightarrow> attachment \<Rightarrow> page \<Rightarrow> page" where
  "sendAttachment p cx x pg =
     (if pg_key pg = None \<or> connState pg \<noteq> CsOpen \<or> pg_imageBusy pg then pg
      else if \<not> canStartTransfer (pg_bucket pg) (pg_manager pg)
      then pg\<lparr>pg_imageError := js ''Wait for the current uploads to finish.''\<rparr>
      else (let (res, m) = sendImageOrFile p cx (pg_bucket pg) x (reply_opts pg) (pg_manager pg)
            in start_call ([AttachAnswer res], pg\<lparr>pg_imageError := [], pg_imageBusy := True, pg_manager := m\<rparr>)))"

definition deleteMessage_pressed :: "platform \<Rightarrow> context_now \<Rightarrow> stored_message \<Rightarrow> bool \<Rightarrow> page \<Rightarrow> page" where
  "deleteMessage_pressed p cx s confirmed pg =
     (if sm_from s \<noteq> Self \<or> pg_key pg = None \<or> connState pg \<noteq> CsOpen \<or> \<not> confirmed then pg
      else (let (res, m) = sendDelete p cx (pg_bucket pg) (sm_id s) (pg_manager pg)
            in start_call ([DeleteAnswer (sm_id s) res], pg\<lparr>pg_manager := m\<rparr>)))"

definition retryReconnect :: "page \<Rightarrow> page" where
  "retryReconnect pg =
     (let (n, pg1) = page_flow (reconnectRoom (pg_bucket pg) Nothing) (pg\<lparr>pg_reconnectBusy := True\<rparr>)
      in start_call ([ReconnectAnswer n, ReconnectEnd], pg1))"

definition rejoinSeat :: "page \<Rightarrow> page" where
  "rejoinSeat pg =
     (if pg_rejoinBusy pg then pg
      else (let (n, pg1) = page_flow (rejoinRoom (pg_bucket pg)) (pg\<lparr>pg_rejoinBusy := True\<rparr>)
            in start_call ([Rejoining n, RejoinEnd], pg1)))"

definition page_respond :: "platform \<Rightarrow> context_now \<Rightarrow> bool \<Rightarrow> page \<Rightarrow> bool result \<times> page" where
  "page_respond p cx accept pg =
     (let (res, m) = respondResync p cx (pg_bucket pg) accept (pg_manager pg)
      in (res, pg\<lparr>pg_resyncConfirm := [], pg_manager := m\<rparr>))"

definition approveResync :: "platform \<Rightarrow> context_now \<Rightarrow> page \<Rightarrow> page" where
  "approveResync p cx pg =
     (if \<not> resyncConfirmOk (page_prompt pg) (pg_resyncConfirm pg) then pg else snd (page_respond p cx True pg))"

definition denyResync :: "platform \<Rightarrow> context_now \<Rightarrow> page \<Rightarrow> page" where
  "denyResync p cx pg = snd (page_respond p cx False pg)"

definition wipe_pressed :: "platform \<Rightarrow> context_now \<Rightarrow> wipe_kind \<Rightarrow> page \<Rightarrow> page" where
  "wipe_pressed p cx kind pg =
     (if pg_wipeBusy pg then pg
      else (let (res, pg1) = page_respond p cx False (pg\<lparr>pg_wipeBusy := True\<rparr>)
            in start_call ([WipeNext kind res, WipeEnd], pg1)))"

text \<open>The subscription to \<open>roomsRevision\<close>, whose callback also runs when it is made.\<close>

definition rooms_bumped :: "page \<Rightarrow> page" where
  "rooms_bumped pg = start_call ([RoomsRead (listRooms (page_db pg))], start_call (loadRoomMeta pg))"

section \<open>Events\<close>

datatype page_event =
    PageManager "context_now \<times> manager_event"
  | PgResume nat
  | PgNavigate jstr jstr
  | PgBumped
  | PgOffline bool
  | PgTypesPin jstr
  | PgTypesDraft jstr
  | PgTypesName jstr
  | PgTypesConfirm jstr
  | PgSubmitsPin
  | PgEntersChat
  | PgSavesName
  | PgOpensShare
  | PgReplies stored_message
  | PgClearsReply
  | PgSends
  | PgAttaches attachment
  | PgDeletes stored_message bool
  | PgReconnects
  | PgRejoins
  | PgApproves
  | PgDenies
  | PgWipes wipe_kind

fun page_step :: "page_env \<Rightarrow> platform \<Rightarrow> context_now \<times> page_event \<Rightarrow> page \<Rightarrow> page" where
  "page_step env p (cx, PageManager e) pg = page_manager (manager_step p e) pg"
| "page_step env p (cx, PgResume k) pg = resume env p cx k pg"
| "page_step env p (cx, PgNavigate i hash) pg = navigate i hash pg"
| "page_step env p (cx, PgBumped) pg = rooms_bumped pg"
| "page_step env p (cx, PgOffline off) pg = pg\<lparr>pg_offline := off\<rparr>"
| "page_step env p (cx, PgTypesPin s) pg = pg\<lparr>pg_pinInput := s\<rparr>"
| "page_step env p (cx, PgTypesDraft s) pg = pg\<lparr>pg_draft := s\<rparr>"
| "page_step env p (cx, PgTypesName s) pg = pg\<lparr>pg_editNickname := s\<rparr>"
| "page_step env p (cx, PgTypesConfirm s) pg = pg\<lparr>pg_resyncConfirm := s\<rparr>"
| "page_step env p (cx, PgSubmitsPin) pg = start_call (submitPin p cx pg)"
| "page_step env p (cx, PgEntersChat) pg = start_call (continueFromCreatorModal p cx pg)"
| "page_step env p (cx, PgSavesName) pg = savePartnerName pg"
| "page_step env p (cx, PgOpensShare) pg = start_call ([ShareRead (page_record pg)], pg)"
| "page_step env p (cx, PgReplies s) pg = pg\<lparr>pg_replyTarget := Some s\<rparr>"
| "page_step env p (cx, PgClearsReply) pg = pg\<lparr>pg_replyTarget := None\<rparr>"
| "page_step env p (cx, PgSends) pg = send_pressed p cx pg"
| "page_step env p (cx, PgAttaches x) pg = sendAttachment p cx x pg"
| "page_step env p (cx, PgDeletes s confirmed) pg = deleteMessage_pressed p cx s confirmed pg"
| "page_step env p (cx, PgReconnects) pg = retryReconnect pg"
| "page_step env p (cx, PgRejoins) pg = rejoinSeat pg"
| "page_step env p (cx, PgApproves) pg = approveResync p cx pg"
| "page_step env p (cx, PgDenies) pg = denyResync p cx pg"
| "page_step env p (cx, PgWipes kind) pg = wipe_pressed p cx kind pg"

text \<open>
  What can happen when: the manager's events as the manager allows them, a call when what it waits for is there,
  and the user's actions as the markup offers them.
\<close>

fun waits_for :: "frame \<Rightarrow> nat option" where
  "waits_for (Boot gen i (BtOpening hint f n)) = Some n"
| "waits_for (LegacyOpening n) = Some n"
| "waits_for (PinChecking n) = n"
| "waits_for (Rejoining n) = Some n"
| "waits_for (ReconnectAnswer n) = Some n"
| "waits_for _ = None"

definition can_resume :: "nat \<Rightarrow> page \<Rightarrow> bool" where
  "can_resume k pg \<longleftrightarrow>
     k < length (pg_calls pg) \<and>
     (case pg_calls pg ! k of
        [] \<Rightarrow> True
      | fr # rest \<Rightarrow> (case waits_for fr of None \<Rightarrow> True | Some n \<Rightarrow> flow_answer n (pg_manager pg) \<noteq> None))"

definition chat_shown :: "page \<Rightarrow> bool" where
  "chat_shown pg \<longleftrightarrow> \<not> page_full pg \<and> (pg_phase pg = PgChat \<or> pg_phase pg = PgLoading \<and> pg_error pg = [])"

fun page_enabled :: "context_now \<times> page_event \<Rightarrow> page \<Rightarrow> bool" where
  "page_enabled (cx, PageManager e) pg \<longleftrightarrow> manager_enabled e (pg_manager pg)"
| "page_enabled (cx, PgResume k) pg \<longleftrightarrow> can_resume k pg"
| "page_enabled (cx, PgTypesPin s) pg \<longleftrightarrow> pg_phase pg = PgLinePin"
| "page_enabled (cx, PgSubmitsPin) pg \<longleftrightarrow> pg_phase pg = PgLinePin"
| "page_enabled (cx, PgEntersChat) pg \<longleftrightarrow> pg_phase pg = PgCreatorShare"
| "page_enabled (cx, PgTypesDraft s) pg \<longleftrightarrow> chat_shown pg \<and> pg_key pg \<noteq> None \<and> pg_error pg = [] \<and> connState pg = CsOpen"
| "page_enabled (cx, PgSends) pg \<longleftrightarrow> chat_shown pg"
| "page_enabled (cx, PgTypesConfirm s) pg \<longleftrightarrow> chat_shown pg \<and> resyncNeedsConfirm (page_prompt pg)"
| "page_enabled (cx, PgApproves) pg \<longleftrightarrow>
     chat_shown pg \<and> page_prompt pg \<noteq> None \<and> resyncConfirmOk (page_prompt pg) (pg_resyncConfirm pg) \<and> \<not> pg_wipeBusy pg"
| "page_enabled (cx, PgDenies) pg \<longleftrightarrow> chat_shown pg \<and> page_prompt pg \<noteq> None \<and> \<not> pg_wipeBusy pg"
| "page_enabled (cx, PgWipes kind) pg \<longleftrightarrow>
     chat_shown pg \<and> page_prompt pg \<noteq> None \<and> \<not> pg_wipeBusy pg \<and> (kind = WipeBoth \<longrightarrow> connState pg = CsOpen)"
| "page_enabled (cx, PgReplies s) pg \<longleftrightarrow> chat_shown pg \<and> pg_key pg \<noteq> None \<and> pg_error pg = [] \<and> connState pg = CsOpen"
| "page_enabled (cx, PgDeletes s confirmed) pg \<longleftrightarrow>
     chat_shown pg \<and> pg_key pg \<noteq> None \<and> pg_error pg = [] \<and> connState pg = CsOpen \<and> sm_from s = Self"
| "page_enabled (cx, PgReconnects) pg \<longleftrightarrow> \<not> pg_reconnectBusy pg"
| "page_enabled (cx, PgRejoins) pg \<longleftrightarrow> chat_shown pg \<and> pg_seatReleased pg \<and> \<not> pg_rejoinBusy pg"
| "page_enabled (cx, PgOpensShare) pg \<longleftrightarrow> chat_shown pg \<and> pg_isCreator pg \<and> \<not> pg_legacyMode pg"
| "page_enabled _ pg \<longleftrightarrow> True"

end
