(* ===== verification/Widgets.thy ===== *)
theory Widgets
  imports Lines
begin

text \<open>
  The parts of the interface that compute something of their own: the file and image bubbles
  (\<open>web/src/lib/components/FileBubble.svelte\<close>, \<open>ImageBubble.svelte\<close>), the preparation of a picked image
  (\<open>web/src/lib/media/image.ts\<close>), notifications (\<open>web/src/lib/notify.ts\<close>), the sharing of an invite
  (\<open>web/src/lib/share.ts\<close>), the reference-counted loader (\<open>web/src/lib/stores/global-loader.svelte.ts\<close>), and the
  placing of the chat list's menu (\<open>web/src/lib/components/ConversationTabs.svelte\<close>). What only the browser can do,
  decoding, drawing, asking, is an argument.
\<close>

section \<open>File and image bubbles\<close>

definition RISKY_EXTENSIONS :: "jstr set" where
  "RISKY_EXTENSIONS = js ` {''apk'', ''app'', ''bat'', ''cmd'', ''com'', ''cpl'', ''dll'', ''dmg'', ''docm'', ''exe'', ''hta'', ''htm'',
     ''html'', ''jar'', ''js'', ''jse'', ''lnk'', ''mjs'', ''msi'', ''pkg'', ''potm'', ''pptm'', ''ps1'', ''reg'', ''scr'', ''sh'', ''svg'',
     ''vbe'', ''vbs'', ''wsf'', ''xhtml'', ''xlsm''}"

text \<open>
  \<open>toLowerCase\<close>, for a comparison with small Latin letters: beside the capital Latin letters only the Kelvin sign
  (212A) becomes one.
\<close>

definition lower_unit :: "16 word \<Rightarrow> 16 word" where
  "lower_unit u = (if 65 \<le> unat u \<and> unat u \<le> 90 then u + 32 else if u = 0x212A then 0x6B else u)"

definition dot :: "16 word" where "dot = 0x2E"

definition bubble_ext :: "jstr \<Rightarrow> jstr" where
  "bubble_ext name = (if dot \<in> set name then map lower_unit (rev (takeWhile (\<lambda>u. u \<noteq> dot) (rev name))) else [])"

definition risky :: "jstr \<Rightarrow> bool" where
  "risky name \<longleftrightarrow> bubble_ext name \<in> RISKY_EXTENSIONS"

text \<open>A percentage: \<open>Math.round\<close> rounds halves upwards.\<close>

definition bubble_percent :: "rat \<Rightarrow> int" where
  "bubble_percent progress = \<lfloor>min 1 (max 0 progress) * 100 + 1 / 2\<rfloor>"

definition canDownload :: "bytes option \<Rightarrow> rat option \<Rightarrow> bool" where
  "canDownload data progress \<longleftrightarrow> data \<noteq> None \<and> progress = None"

text \<open>\<open>(n / unit).toFixed(1)\<close>: the nearest tenth, the larger one of two.\<close>

definition one_decimal :: "nat \<Rightarrow> nat \<Rightarrow> jstr" where
  "one_decimal n unit =
     (let tenths = (20 * n + unit) div (2 * unit) in decimal (tenths div 10) @ dot # decimal (tenths mod 10))"

definition formatSize :: "nat \<Rightarrow> jstr" where
  "formatSize n =
     (if n < 1024 then decimal n @ js '' B''
      else if n < 1024 * 1024 then one_decimal n 1024 @ js '' KB''
      else one_decimal n (1024 * 1024) @ js '' MB'')"

text \<open>The saved file: its name and its bytes, with the type that keeps the browser from rendering it.\<close>

definition download :: "jstr \<Rightarrow> bytes option \<Rightarrow> bool \<Rightarrow> (jstr \<times> jstr \<times> bytes) option" where
  "download name data confirmed =
     (case data of
        None \<Rightarrow> None
      | Some bs \<Rightarrow> if risky name \<and> \<not> confirmed then None else Some (name, js ''application/octet-stream'', bs))"

definition image_placeholder :: "bool \<Rightarrow> bytes option \<Rightarrow> bool" where
  "image_placeholder placeholder data \<longleftrightarrow> placeholder \<or> data = None \<or> data = Some []"

definition image_box :: "nat option \<Rightarrow> nat option \<Rightarrow> (nat \<times> nat) option" where
  "image_box w h = (case (w, h) of (Some a, Some b) \<Rightarrow> if 0 < a \<and> 0 < b then Some (a, b) else None | _ \<Rightarrow> None)"

section \<open>Preparing an image\<close>

definition MAX_EDGE :: nat where "MAX_EDGE = 2560"

text \<open>\<open>Math.max(1, Math.round(x * Math.min(1, MAX_EDGE / Math.max(width, height))))\<close>\<close>

definition scaled :: "nat \<Rightarrow> nat \<Rightarrow> nat" where
  "scaled longest x = max 1 (if longest \<le> MAX_EDGE then x else (2 * x * MAX_EDGE + longest) div (2 * longest))"

type_synonym prepared_image = "image_mime \<times> bytes \<times> jsnum option \<times> jsnum option"

definition of_pixels :: "nat \<Rightarrow> jsnum option" where "of_pixels n = Some (NumI (int n))"

text \<open>
  \<open>decoded\<close> are the bitmap's sides or the decoder's error, \<open>canvas\<close> tells whether there is a drawing context, and
  \<open>blobs\<close> is what the canvas gives for the qualities in their order.
\<close>

definition recompress :: "(nat \<times> nat) result \<Rightarrow> bool \<Rightarrow> bytes option list \<Rightarrow> prepared_image result" where
  "recompress decoded canvas blobs =
     (case decoded of
        Inl e \<Rightarrow> Inl e
      | Inr (width, height) \<Rightarrow>
          (let longest = max width height; w = scaled longest width; h = scaled longest height
           in if \<not> canvas then Inl (Error ''canvas unavailable'')
              else (case List.find (\<lambda>b. case b of None \<Rightarrow> False | Some bs \<Rightarrow> length bs \<le> MAX_IMAGE_BYTES) (take 5 blobs) of
                      Some (Some bs) \<Rightarrow> Inr (Jpeg, bs, of_pixels w, of_pixels h)
                    | _ \<Rightarrow> Inl (Error ''image too large after compress''))))"

definition prepareImage ::
  "jstr \<Rightarrow> bytes \<Rightarrow> (nat \<times> nat) result \<Rightarrow> bool \<Rightarrow> bytes option list \<Rightarrow> prepared_image result" where
  "prepareImage type bs decoded canvas blobs =
     (let rawMime = map lower_unit type
      in case imageMimeOf rawMime of
           Some mime \<Rightarrow>
             if length bs \<le> MAX_IMAGE_BYTES then
               (case decoded of
                  Inr (w, h) \<Rightarrow> Inr (mime, bs, of_pixels w, of_pixels h)
                | Inl e \<Rightarrow> Inr (mime, bs, None, None))
             else if mime = Gif then Inl (Error ''GIF too large (max 10 MB)'')
             else recompress decoded canvas blobs
         | None \<Rightarrow>
             if take 6 rawMime \<noteq> js ''image/'' then Inl (Error ''unsupported file type'')
             else recompress decoded canvas blobs)"

lemma scaled_bound: "x \<le> longest \<Longrightarrow> 1 \<le> scaled longest x \<and> scaled longest x \<le> MAX_EDGE"
proof -
  assume x: "x \<le> longest"
  have "(2 * x * MAX_EDGE + longest) div (2 * longest) \<le> MAX_EDGE" if "MAX_EDGE < longest"
  proof -
    have "2 * x * MAX_EDGE + longest < (MAX_EDGE + 1) * (2 * longest)"
    proof -
      have "2 * x * MAX_EDGE \<le> 2 * longest * MAX_EDGE" using x by (intro mult_le_mono) simp_all
      moreover have "0 < longest" using that by simp
      moreover have "(MAX_EDGE + 1) * (2 * longest) = 2 * longest * MAX_EDGE + 2 * longest" by (simp add: algebra_simps)
      ultimately show ?thesis by linarith
    qed
    then have "(2 * x * MAX_EDGE + longest) div (2 * longest) < MAX_EDGE + 1"
      using that by (intro less_mult_imp_div_less) simp
    then show ?thesis by simp
  qed
  then show ?thesis using x by (auto simp: scaled_def MAX_EDGE_def)
qed

text \<open>
  What is sent is never longer than a message may be, whatever the canvas yields; a recompressed image has sides
  of one to \<open>MAX_EDGE\<close> pixels.
\<close>

lemma prepared_fits:
  "prepareImage type bs decoded canvas blobs = Inr (mime, data, w, h) \<Longrightarrow> length data \<le> MAX_IMAGE_BYTES"
  by (auto simp: prepareImage_def recompress_def Let_def find_Some_iff split: option.splits sum.splits if_splits prod.splits)

lemma recompressed_sides:
  assumes "recompress decoded canvas blobs = Inr (mime, data, w, h)"
  obtains a b where "w = Some (NumI (int a))" "h = Some (NumI (int b))" "1 \<le> a" "a \<le> MAX_EDGE" "1 \<le> b" "b \<le> MAX_EDGE"
proof -
  obtain width height where "decoded = Inr (width, height)"
    using assms by (auto simp: recompress_def split: sum.splits)
  with assms have "w = of_pixels (scaled (max width height) width)" "h = of_pixels (scaled (max width height) height)"
    by (auto simp: recompress_def Let_def split: option.splits if_splits)
  then show ?thesis using scaled_bound [of width "max width height"] scaled_bound [of height "max width height"]
    by (intro that [of "scaled (max width height) width" "scaled (max width height) height"]) (simp_all add: of_pixels_def)
qed

section \<open>Notifications\<close>

datatype permission = Unsupported | Undecided | Granted | Denied

record notification =
  nt_title :: jstr
  nt_body :: jstr
  nt_tag :: jstr

definition label_of :: "jstr option \<Rightarrow> jstr" where
  "label_of nickname = (case truthy (map_option trim nickname) of None \<Rightarrow> js ''Partner'' | Some n \<Rightarrow> n)"

definition ensureNotifyPermission :: "permission \<Rightarrow> permission result \<Rightarrow> permission" where
  "ensureNotifyPermission now answer =
     (case now of
        Undecided \<Rightarrow> (case answer of Inr p \<Rightarrow> p | Inl e \<Rightarrow> now)
      | _ \<Rightarrow> now)"

text \<open>The middle dot of the title is B7, the dots that end a long text are one character, 2026.\<close>

definition shortened :: "jstr \<Rightarrow> jstr" where
  "shortened body = (if 120 < length body then take 117 body @ [0x2026] else body)"

definition notifyPartnerMessage :: "permission \<Rightarrow> jstr \<Rightarrow> jstr \<Rightarrow> jstr option \<Rightarrow> notification option" where
  "notifyPartnerMessage p body b nickname =
     (if p \<noteq> Granted then None
      else Some \<lparr>nt_title = js ''byteln '' @ 0xB7 # 0x20 # label_of nickname, nt_body = shortened body,
                 nt_tag = js ''byteln:'' @ b\<rparr>)"

definition notifyPartnerJoined :: "permission \<Rightarrow> bool \<Rightarrow> jstr \<Rightarrow> jstr option \<Rightarrow> notification option" where
  "notifyPartnerJoined p visible b nickname =
     (if p \<noteq> Granted \<or> visible then None
      else Some \<lparr>nt_title = js ''byteln'', nt_body = label_of nickname @ js '' joined the chat'',
                 nt_tag = js ''byteln-join:'' @ b\<rparr>)"

lemma shortened_length: "length (shortened body) \<le> 120"
  by (simp add: shortened_def)

section \<open>Sharing an invite\<close>

text \<open>
  What the browser does: whether the QR code can be drawn, whether it can share at all and share files, how the
  share that is tried ends, and whether the clipboard takes the text.
\<close>

datatype share_end = ShareOk | ShareAborted | ShareFailed

record share_browser =
  sb_qr :: "unit result"
  sb_share :: bool
  sb_files :: bool
  sb_end :: share_end
  sb_clipboard :: "unit result"

datatype share_action = SharesFile jstr jstr | SharesLink jstr jstr | Copies jstr | Downloads jstr

datatype share_result = Shared | Copied | Downloaded | Cancelled

definition copy_or_download ::
  "share_browser \<Rightarrow> jstr \<Rightarrow> jstr option \<Rightarrow> share_action list \<times> share_result result" where
  "copy_or_download sb text qr =
     (case sb_clipboard sb of
        Inl e \<Rightarrow> ([Copies text], Inl e)
      | Inr _ \<Rightarrow> (case qr of Some name \<Rightarrow> ([Copies text, Downloads name], Inr Downloaded) | None \<Rightarrow> ([Copies text], Inr Copied)))"

definition shareInvite ::
  "share_browser \<Rightarrow> jstr \<Rightarrow> jstr option \<Rightarrow> bool \<Rightarrow> jstr option \<Rightarrow> share_action list \<times> share_result result" where
  "shareInvite sb url pin withQr qrFilename =
     (let body = inviteText url pin withQr;
          name = (case qrFilename of None \<Rightarrow> js ''byteln-qr.png'' | Some n \<Rightarrow> n);
          qr = (if withQr then Some name else None)
      in case (withQr, sb_qr sb) of
           (True, Inl e) \<Rightarrow> ([], Inl e)
         | _ \<Rightarrow>
             if \<not> sb_share sb then copy_or_download sb body qr
             else
               (let as_file = (withQr \<and> sb_files sb);
                    tried = (if as_file then SharesFile body name else SharesLink body url)
                in case sb_end sb of
                     ShareOk \<Rightarrow>
                       if \<not> as_file \<and> withQr then ([tried, Downloads name], Inr Downloaded) else ([tried], Inr Shared)
                   | ShareAborted \<Rightarrow> ([tried], Inr Cancelled)
                   | ShareFailed \<Rightarrow> (let (acts, res) = copy_or_download sb body qr in (tried # acts, res))))"

text \<open>
  Every way of sharing gives the same text, and what is cancelled goes nowhere else; with the QR code the link is
  never given beside the file, for the applications that would drop the text.
\<close>

fun action_text :: "share_action \<Rightarrow> jstr option" where
  "action_text (SharesFile t n) = Some t"
| "action_text (SharesLink t u) = Some t"
| "action_text (Copies t) = Some t"
| "action_text (Downloads n) = None"

lemma shared_text:
  assumes "x \<in> set (fst (shareInvite sb url pin withQr name))"
  shows "action_text x = None \<or> action_text x = Some (inviteText url pin withQr)"
  using assms by (auto simp: shareInvite_def copy_or_download_def Let_def split: bool.splits sum.splits share_end.splits option.splits if_splits)

lemma cancelled_alone:
  "snd (shareInvite sb url pin withQr name) = Inr Cancelled \<Longrightarrow> \<exists>x. fst (shareInvite sb url pin withQr name) = [x]"
  by (auto simp: shareInvite_def copy_or_download_def Let_def split: bool.splits sum.splits share_end.splits option.splits if_splits)

section \<open>The global loader\<close>

record loader =
  ld_count :: nat
  ld_message :: jstr

definition working :: jstr where "working = js ''Working'' @ [0x2026]"

definition new_loader :: loader where "new_loader = \<lparr>ld_count = 0, ld_message = working\<rparr>"

definition loader_visible :: "loader \<Rightarrow> bool" where "loader_visible l \<longleftrightarrow> 0 < ld_count l"

definition loader_show :: "jstr \<Rightarrow> loader \<Rightarrow> loader" where
  "loader_show message l = l\<lparr>ld_count := Suc (ld_count l), ld_message := message\<rparr>"

definition loader_hide :: "loader \<Rightarrow> loader" where
  "loader_hide l = (if 0 < ld_count l then l\<lparr>ld_count := ld_count l - 1\<rparr> else l)"

text \<open>Overlapping calls of \<open>wrap\<close>: each shows the loader with its message when it begins and hides it when it ends.\<close>

datatype loader_event = Begins jstr | Ends

fun loader_step :: "loader_event \<Rightarrow> loader \<Rightarrow> loader" where
  "loader_step (Begins message) l = loader_show message l"
| "loader_step Ends l = loader_hide l"

fun under_way :: "loader_event list \<Rightarrow> nat \<Rightarrow> nat option" where
  "under_way [] n = Some n"
| "under_way (Begins message # evs) n = under_way evs (Suc n)"
| "under_way (Ends # evs) n = (if n = 0 then None else under_way evs (n - 1))"

lemma loader_counts:
  "under_way evs (ld_count l) = Some n \<Longrightarrow> ld_count (fold loader_step evs l) = n"
  by (induction evs "ld_count l" arbitrary: l rule: under_way.induct)
    (auto simp: loader_show_def loader_hide_def split: if_splits)

text \<open>So it is shown exactly while one of the calls is under way.\<close>

lemma loader_shown: "under_way evs 0 = Some n \<Longrightarrow> loader_visible (fold loader_step evs new_loader) \<longleftrightarrow> 0 < n"
  using loader_counts [of evs new_loader n] by (simp add: loader_visible_def new_loader_def)

section \<open>The sound of a message\<close>

record sound =
  so_enabled :: bool
  so_lastPlayedAt :: int

definition MIN_GAP_MS :: int where "MIN_GAP_MS = 1500"

text \<open>The module's variable follows the stored preference; a reading that fails leaves it as it is.\<close>

definition loadSoundPreference :: "bool result \<Rightarrow> sound \<Rightarrow> bool \<times> sound" where
  "loadSoundPreference read s =
     (let s1 = (case read of Inl e \<Rightarrow> s | Inr on \<Rightarrow> s\<lparr>so_enabled := on\<rparr>) in (so_enabled s1, s1))"

definition updateSoundEnabled :: "bool \<Rightarrow> sound \<Rightarrow> db \<Rightarrow> sound \<times> db" where
  "updateSoundEnabled on s d = (s\<lparr>so_enabled := on\<rparr>, setSoundEnabled on d)"

lemma preference_is_kept:
  "loadSoundPreference (Inr (getSoundEnabled (snd (updateSoundEnabled on s d)))) s' = (on, s'\<lparr>so_enabled := on\<rparr>)"
  by (simp add: loadSoundPreference_def updateSoundEnabled_def getSoundEnabled_def setSoundEnabled_def setMetaEntry_def
      getMetaEntry_def update_conv')

text \<open>\<open>running\<close> is the state of the audio context; the sound is played or not.\<close>

definition playMessageSound :: "int \<Rightarrow> bool \<Rightarrow> sound \<Rightarrow> bool \<times> sound" where
  "playMessageSound now running s =
     (if \<not> so_enabled s \<or> now - so_lastPlayedAt s < MIN_GAP_MS \<or> \<not> running then (False, s)
      else (True, s\<lparr>so_lastPlayedAt := now\<rparr>))"

fun played_at :: "(int \<times> bool) list \<Rightarrow> sound \<Rightarrow> int list" where
  "played_at [] s = []"
| "played_at ((now, running) # rest) s =
     (let (played, s') = playMessageSound now running s in (if played then [now] else []) @ played_at rest s')"

lemma played_after: "t \<in> set (played_at asked s) \<Longrightarrow> so_lastPlayedAt s + MIN_GAP_MS \<le> t"
proof (induction asked arbitrary: s)
  case (Cons x asked)
  then show ?case by (cases x) (fastforce simp: playMessageSound_def MIN_GAP_MS_def split: if_splits)
qed simp

lemma sounds_are_spaced: "sorted_wrt (\<lambda>t u. t + MIN_GAP_MS \<le> u) (played_at asked s)"
proof (induction asked arbitrary: s)
  case (Cons x asked)
  then show ?case
    using played_after [of _ asked "s\<lparr>so_lastPlayedAt := fst x\<rparr>"] by (cases x) (simp add: playMessageSound_def)
qed simp

section \<open>The chat list's menu\<close>

record anchor =
  an_top :: rat
  an_bottom :: rat
  an_right :: rat

definition js_round :: "rat \<Rightarrow> int" where "js_round x = \<lfloor>x + 1 / 2\<rfloor>"

text \<open>The menu's size and the window's; the answer is the distance from the top and from the left.\<close>

definition place_menu :: "anchor \<Rightarrow> rat \<Rightarrow> rat \<Rightarrow> rat \<Rightarrow> rat \<Rightarrow> int \<times> int" where
  "place_menu a width height innerWidth innerHeight =
     (let pad = 8; gap = 4;
          x = max pad (min (an_right a - width) (innerWidth - width - pad));
          below = an_bottom a + gap;
          y = (if innerHeight < below + height + pad then an_top a - height - gap else below);
          y = max pad (min y (innerHeight - height - pad))
      in (js_round y, js_round x))"

text \<open>Where there is room for it, the menu is inside the window, wherever its button is.\<close>

lemma menu_inside:
  assumes "place_menu a (of_int w) (of_int h) (of_int W) (of_int H) = (y, x)" "w + 16 \<le> W" "h + 16 \<le> H"
  shows "8 \<le> y" "y + h \<le> H - 8" "8 \<le> x" "x + w \<le> W - 8"
proof -
  have inside: "8 \<le> js_round (max 8 (min x (of_int b))) \<and> js_round (max 8 (min x (of_int b))) \<le> b" if "8 \<le> b" for x :: rat and b :: int
    using that unfolding js_round_def by (auto simp: le_floor_iff floor_le_iff max_def min_def)
  obtain t where "x = js_round (max 8 (min (an_right a - of_int w) (of_int (W - w - 8))))"
    and "y = js_round (max 8 (min t (of_int (H - h - 8))))"
    using assms(1) by (auto simp: place_menu_def Let_def)
  then show "8 \<le> y" "y + h \<le> H - 8" "8 \<le> x" "x + w \<le> W - 8"
    using inside [of "W - w - 8" "an_right a - of_int w"] inside [of "H - h - 8" t] assms(2,3) by linarith+
qed

end
