(* ===== verification/PageActions.thy ===== *)
theory PageActions
  imports PageSystem Widgets
begin

text \<open>
  The rest of what the user does on the page of a line, \<open>web/src/routes/(app)/b/[id]/+page.svelte\<close>: copying and
  sharing the invite of a new line, exporting the history, and the ways to pick a file or to press Enter, each over
  the page of \<open>RoomPage\<close>.
\<close>

section \<open>The invite of a new line\<close>

datatype copied_kind = CopiedLink | CopiedPin | CopiedBoth

text \<open>What goes to the clipboard, and which of the marks flashes.\<close>

definition copyCreatorLink :: "jstr \<Rightarrow> page \<Rightarrow> jstr \<times> copied_kind" where
  "copyCreatorLink origin pg = (shareUrl origin pg, CopiedLink)"

definition copyCreatorPinOnly :: "page \<Rightarrow> (jstr \<times> copied_kind) option" where
  "copyCreatorPinOnly pg = (if pg_creatorPin pg = [] then None else Some (pg_creatorPin pg, CopiedPin))"

definition copyCreatorShare :: "jstr \<Rightarrow> page \<Rightarrow> jstr \<times> copied_kind" where
  "copyCreatorShare origin pg =
     (if pg_creatorPin pg = [] then copyCreatorLink origin pg
      else (inviteText (shareUrl origin pg) (Some (pg_creatorPin pg)) False, CopiedBoth))"

text \<open>The two buttons that share, one at a time; a button is busy until its call has ended.\<close>

datatype share_kind = ShareCode | ShareText

record sharing =
  sg_busy :: "share_kind option"
  sg_flash :: "share_kind option"

definition share_started :: "share_kind \<Rightarrow> page \<Rightarrow> sharing \<Rightarrow> sharing option" where
  "share_started k pg s =
     (if sg_busy s \<noteq> None \<or> k = ShareText \<and> pg_creatorPin pg = [] then None else Some (s\<lparr>sg_busy := Some k\<rparr>))"

definition share_ended :: "share_kind \<Rightarrow> share_result result \<Rightarrow> sharing \<Rightarrow> sharing" where
  "share_ended k res s =
     s\<lparr>sg_busy := None, sg_flash := (case res of Inl e \<Rightarrow> sg_flash s | Inr r \<Rightarrow> if r = Cancelled then sg_flash s else Some k)\<rparr>"

definition flash_over :: "share_kind \<Rightarrow> sharing \<Rightarrow> sharing" where
  "flash_over k s = (if sg_flash s = Some k then s\<lparr>sg_flash := None\<rparr> else s)"

definition shareCreatorQr :: "share_browser \<Rightarrow> jstr \<Rightarrow> page \<Rightarrow> share_action list \<times> share_result result" where
  "shareCreatorQr sb origin pg =
     shareInvite sb (shareUrl origin pg) (truthy (Some (pg_creatorPin pg))) True
       (Some (js ''byteln-'' @ pg_bucket pg @ js ''-qr.png''))"

definition shareCreatorInvite :: "share_browser \<Rightarrow> jstr \<Rightarrow> page \<Rightarrow> share_action list \<times> share_result result" where
  "shareCreatorInvite sb origin pg = shareInvite sb (shareUrl origin pg) (Some (pg_creatorPin pg)) False None"

text \<open>
  What leaves the page by a copied or shared text is one invite: the link as a guest gets it, without the creator's
  seat and with the PIN beside it, never in it.
\<close>

lemma invite_leaves_as_one:
  assumes "pg_creatorPin pg = d" "d \<noteq> []"
  shows "fst (copyCreatorShare origin pg) = inviteText (shareUrl origin pg) (Some d) False"
    and "x \<in> set (fst (shareCreatorInvite sb origin pg)) \<Longrightarrow>
      action_text x \<in> {None, Some (fst (copyCreatorShare origin pg))}"
    and "x \<in> set (fst (shareCreatorQr sb origin pg)) \<Longrightarrow>
      action_text x \<in> {None, Some (inviteText (shareUrl origin pg) (Some d) True)}"
proof -
  show copied: "fst (copyCreatorShare origin pg) = inviteText (shareUrl origin pg) (Some d) False"
    using assms by (simp add: copyCreatorShare_def)
  show "action_text x \<in> {None, Some (fst (copyCreatorShare origin pg))}" if "x \<in> set (fst (shareCreatorInvite sb origin pg))"
    using shared_text that assms(1) unfolding copied shareCreatorInvite_def by blast
  show "action_text x \<in> {None, Some (inviteText (shareUrl origin pg) (Some d) True)}" if "x \<in> set (fst (shareCreatorQr sb origin pg))"
    using shared_text that assms unfolding shareCreatorQr_def by (fastforce simp: truthy_def)
qed

section \<open>Exporting the history\<close>

text \<open>
  The name of the saved file and its object. \<open>kd\<close> derives keys, \<open>rand\<close> and \<open>nonce\<close> are random and \<open>now\<close> is the time;
  a tick for the passphrase alone counts only when there is a passphrase.
\<close>

definition doExport ::
  "platform \<Rightarrow> kdf \<Rightarrow> bytes \<Rightarrow> bytes \<Rightarrow> jstr \<Rightarrow> bool \<Rightarrow> jstr \<Rightarrow> page \<Rightarrow> (jstr \<times> export_file) option" where
  "doExport p kd rand nonce now passOnly exportPass pg =
     map_option (\<lambda>key.
       (js ''byteln-'' @ pg_bucket pg @ js ''.json'',
        if passOnly \<and> exportPass \<noteq> []
        then exportHistoryWithPassphraseOnly (pf_seal p) kd rand nonce now (pg_bucket pg) (page_messages pg) exportPass
        else exportHistory (pf_seal p) kd rand nonce now (pg_bucket pg) key (page_messages pg) (truthy (Some exportPass))))
       (pg_key pg)"

text \<open>
  What the page shows comes back from the file: with the passphrase where it was to be enough, and otherwise with
  the room's key and the same passphrase.
\<close>

lemma exported_comes_back:
  assumes "aead (pf_seal p) (pf_unseal p)" "length rand = 16" "list_all (storable (pf_nfc p)) (page_messages pg)"
    and "doExport p kd rand nonce now passOnly exportPass pg = Some (name, f)"
  shows "importHistory (pf_nfc p) (pf_unseal p) kd f
      (if passOnly \<and> exportPass \<noteq> [] then None else pg_key pg) (truthy (Some exportPass)) = Inr (pg_bucket pg, page_messages pg)"
proof (cases "passOnly \<and> exportPass \<noteq> []")
  case True
  then have "f = exportHistoryWithPassphraseOnly (pf_seal p) kd rand nonce now (pg_bucket pg) (page_messages pg) exportPass"
    using assms(4) by (auto simp: doExport_def)
  with True show ?thesis
    using import_payload [OF assms(1,3) import_same_key(2) [OF assms(2), of "Some exportPass"]]
    by (auto simp: exportHistoryWithPassphraseOnly_def truthy_def)
next
  case False
  then obtain key where key: "pg_key pg = Some key"
    "f = exportHistory (pf_seal p) kd rand nonce now (pg_bucket pg) key (page_messages pg) (truthy (Some exportPass))"
    using assms(4) by (auto simp: doExport_def)
  have "importHistory (pf_nfc p) (pf_unseal p) kd f (Some key) (truthy (Some exportPass)) = Inr (pg_bucket pg, page_messages pg)"
    using import_payload [OF assms(1,3) import_same_key(1) [OF assms(2)]]
    unfolding key(2) by (auto simp: exportHistory_def Let_def split: prod.splits)
  then show ?thesis unfolding if_not_P [OF False] key(1) .
qed

section \<open>Files and keys\<close>

text \<open>The clipboard's items up to the first file, which the browser may refuse to give.\<close>

datatype clip_item = ClipOther | ClipFile "attachment option"

fun pasted_file :: "clip_item list \<Rightarrow> attachment option" where
  "pasted_file [] = None"
| "pasted_file (ClipOther # items) = pasted_file items"
| "pasted_file (ClipFile x # items) = x"

definition onPaste :: "platform \<Rightarrow> context_now \<Rightarrow> clip_item list option \<Rightarrow> page \<Rightarrow> page" where
  "onPaste p cx items pg =
     (if pg_phase pg \<noteq> PgChat \<or> connState pg \<noteq> CsOpen then pg
      else (case Option.bind items pasted_file of None \<Rightarrow> pg | Some x \<Rightarrow> sendAttachment p cx x pg))"

definition onPickFile :: "platform \<Rightarrow> context_now \<Rightarrow> attachment list \<Rightarrow> page \<Rightarrow> page" where
  "onPickFile p cx files pg = (case files of [] \<Rightarrow> pg | x # rest \<Rightarrow> sendAttachment p cx x pg)"

definition canAcceptDrop :: "jstr list option \<Rightarrow> page \<Rightarrow> bool" where
  "canAcceptDrop types pg \<longleftrightarrow>
     pg_phase pg = PgChat \<and> pg_key pg \<noteq> None \<and> pg_error pg = [] \<and> connState pg = CsOpen \<and> \<not> pg_imageBusy pg \<and>
     (case types of None \<Rightarrow> False | Some ts \<Rightarrow> js ''Files'' \<in> set ts)"

definition onPageDrop :: "platform \<Rightarrow> context_now \<Rightarrow> attachment list \<Rightarrow> page \<Rightarrow> page" where
  "onPageDrop p cx files pg =
     (if pg_phase pg \<noteq> PgChat \<or> connState pg \<noteq> CsOpen \<or> pg_imageBusy pg then pg
      else (case files of [] \<Rightarrow> pg | x # rest \<Rightarrow> sendAttachment p cx x pg))"

definition onKey :: "platform \<Rightarrow> context_now \<Rightarrow> jstr \<Rightarrow> bool \<Rightarrow> page \<Rightarrow> page" where
  "onKey p cx key shift pg = (if key = js ''Enter'' \<and> \<not> shift then send_pressed p cx pg else pg)"

definition onPinKey :: "platform \<Rightarrow> context_now \<Rightarrow> jstr \<Rightarrow> page \<Rightarrow> page" where
  "onPinKey p cx key pg = (if key = js ''Enter'' then start_call (submitPin p cx pg) else pg)"

text \<open>
  However a file comes to the page, while one is being prepared no other one is taken, and none without a key and an
  open connection.
\<close>

lemma one_attachment_at_a_time:
  assumes "pg_imageBusy pg \<or> pg_key pg = None \<or> connState pg \<noteq> CsOpen"
  shows "onPaste p cx items pg = pg" "onPickFile p cx files pg = pg" "onPageDrop p cx files pg = pg"
  using assms by (auto simp: onPaste_def onPickFile_def onPageDrop_def sendAttachment_def split: option.split list.split)

text \<open>A file the page offers to take is taken, or the page says that it has to wait.\<close>

lemma offered_drop_is_taken:
  assumes "canAcceptDrop types pg" "pg' = onPageDrop p cx (x # files) pg"
  shows "pg_imageBusy pg' \<or> pg_imageError pg' = js ''Wait for the current uploads to finish.''"
  using assms by (auto simp: canAcceptDrop_def onPageDrop_def sendAttachment_def start_call_def Let_def case_prod_beta)

text \<open>A picture that could run code is never sent as one.\<close>

lemma svg_is_a_file:
  "map lower_ascii (at_type x) = js ''image/svg+xml'' \<Longrightarrow>
     sendImageOrFile p cx b x reply m = sendFile p cx b (at_name x) (at_type x) (at_bytes x) reply m"
  by (simp add: sendImageOrFile_def)

end
