(* ===== verification/Consent.thy ===== *)
theory Consent
  imports GateFrames
begin

text \<open>
  The history of a room leaves the device only in a synchronisation the user has asked for or approved.
  \<open>unshared b rid\<close> says that there is no synchronisation \<open>rid\<close> in the room \<open>b\<close> and that no part of its history has
  been queued for it; every operation of the manager keeps it, but for \<open>requestResync\<close> and \<open>respondResync\<close>.
\<close>

section \<open>No synchronisation\<close>

definition unshared :: "jstr \<Rightarrow> jstr \<Rightarrow> manager \<Rightarrow> bool" where
  "unshared b rid m \<longleftrightarrow>
     (\<forall>s. m_sessions m b = Some s \<longrightarrow> ss_requestId s \<noteq> rid) \<and>
     (\<forall>pu \<in> set (m_pushes m). pu_bucket pu = b \<longrightarrow> pu_requestId pu \<noteq> rid)"

lemma unshared_fold: "unshared kb kr m \<Longrightarrow> (\<And>x m. unshared kb kr m \<Longrightarrow> unshared kb kr (f x m)) \<Longrightarrow> unshared kb kr (fold f xs m)"
  by (induction xs arbitrary: m) simp_all

lemma share_fields [simp]:
  "unshared kb kr (m\<lparr>m_rooms := u0\<rparr>) = unshared kb kr m"
  "unshared kb kr (m\<lparr>m_clients := u1\<rparr>) = unshared kb kr m"
  "unshared kb kr (m\<lparr>m_creds := u2\<rparr>) = unshared kb kr m"
  "unshared kb kr (m\<lparr>m_open := u3\<rparr>) = unshared kb kr m"
  "unshared kb kr (m\<lparr>m_flows := u4\<rparr>) = unshared kb kr m"
  "unshared kb kr (m\<lparr>m_timers := u5\<rparr>) = unshared kb kr m"
  "unshared kb kr (m\<lparr>m_attempts := u6\<rparr>) = unshared kb kr m"
  "unshared kb kr (m\<lparr>m_heartbeats := u7\<rparr>) = unshared kb kr m"
  "unshared kb kr (m\<lparr>m_pings := u8\<rparr>) = unshared kb kr m"
  "unshared kb kr (m\<lparr>m_suppress := u9\<rparr>) = unshared kb kr m"
  "unshared kb kr (m\<lparr>m_locked := u10\<rparr>) = unshared kb kr m"
  "unshared kb kr (m\<lparr>m_pacers := u11\<rparr>) = unshared kb kr m"
  "unshared kb kr (m\<lparr>m_engine := u12\<rparr>) = unshared kb kr m"
  "unshared kb kr (m\<lparr>m_jobs := u13\<rparr>) = unshared kb kr m"
  "unshared kb kr (m\<lparr>m_pendingHistory := u15\<rparr>) = unshared kb kr m"
  "unshared kb kr (m\<lparr>m_peerDigests := u17\<rparr>) = unshared kb kr m"
  "unshared kb kr (m\<lparr>m_peerFp := u18\<rparr>) = unshared kb kr m"
  "unshared kb kr (m\<lparr>m_digestTimers := u19\<rparr>) = unshared kb kr m"
  "unshared kb kr (m\<lparr>m_expected := u20\<rparr>) = unshared kb kr m"
  "unshared kb kr (m\<lparr>m_active := u21\<rparr>) = unshared kb kr m"
  "unshared kb kr (m\<lparr>m_messages := u22\<rparr>) = unshared kb kr m"
  "unshared kb kr (m\<lparr>m_runtimes := u23\<rparr>) = unshared kb kr m"
  "unshared kb kr (m\<lparr>m_transfers := u24\<rparr>) = unshared kb kr m"
  "unshared kb kr (m\<lparr>m_mismatch := u25\<rparr>) = unshared kb kr m"
  "unshared kb kr (m\<lparr>m_prompts := u26\<rparr>) = unshared kb kr m"
  "unshared kb kr (m\<lparr>m_status := u27\<rparr>) = unshared kb kr m"
  "unshared kb kr (m\<lparr>m_storage := u28\<rparr>) = unshared kb kr m"
  "unshared kb kr (m\<lparr>m_oids := u29\<rparr>) = unshared kb kr m"
  "unshared kb kr (m\<lparr>m_draws := u30\<rparr>) = unshared kb kr m"
  "unshared kb kr (m\<lparr>m_log := u31\<rparr>) = unshared kb kr m"
  "unshared kb kr (m\<lparr>m_db := u32\<rparr>) = unshared kb kr m"
  "unshared kb kr (m\<lparr>m_vault := u33\<rparr>) = unshared kb kr m"
  by (simp_all add: unshared_def)

text \<open>Sessions that are dropped, continued or begun.\<close>

lemma share_sessions [simp]:
  "unshared kb kr m \<Longrightarrow> unshared kb kr m' \<Longrightarrow> unshared kb kr (m\<lparr>m_sessions := (m_sessions m')(b := None)\<rparr>)"
  "unshared kb kr m \<Longrightarrow> unshared kb kr m' \<Longrightarrow> b = kb \<longrightarrow> ss_requestId s \<noteq> kr \<Longrightarrow>
     unshared kb kr (m\<lparr>m_sessions := (m_sessions m')(b \<mapsto> s)\<rparr>)"
  "unshared kb kr m \<Longrightarrow> unshared kb kr (m\<lparr>m_sessions := Map.empty\<rparr>)"
  by (auto simp: unshared_def)

lemma share_session: "unshared kb kr m \<Longrightarrow> m_sessions m b = Some s \<Longrightarrow> b = kb \<longrightarrow> ss_requestId s \<noteq> kr"
  by (auto simp: unshared_def)

lemma share_push:
  assumes "unshared kb kr m" "unshared kb kr m'" "b = kb \<longrightarrow> pu_requestId pu \<noteq> kr" "pu_bucket pu = b"
  shows "unshared kb kr (m\<lparr>m_pushes := m_pushes m' @ [pu]\<rparr>)"
  using assms by (auto simp: unshared_def)

lemma share_goes_on [simp]:
  assumes "unshared kb kr m"
  shows "unshared kb kr (m\<lparr>m_pushes := (m_pushes m)[j := (m_pushes m ! j)\<lparr>pu_chunks := cs\<rparr>]\<rparr>)"
    and "unshared kb kr (m\<lparr>m_pushes := (m_pushes m)[j := (m_pushes m ! j)\<lparr>pu_chunks := cs, pu_sent := n\<rparr>]\<rparr>)"
proof -
  have "unshared kb kr (m\<lparr>m_pushes := (m_pushes m)[j := x]\<rparr>)"
    if "pu_bucket x = pu_bucket (m_pushes m ! j)" "pu_requestId x = pu_requestId (m_pushes m ! j)" for x
  proof (cases "j < length (m_pushes m)")
    case True
    then have "m_pushes m ! j \<in> set (m_pushes m)" by simp
    then have "pu = x \<or> pu \<in> set (m_pushes m)" if "pu \<in> set ((m_pushes m)[j := x])" for pu
      using that set_update_subset_insert [of "m_pushes m" j x] by blast
    with assms that \<open>m_pushes m ! j \<in> set (m_pushes m)\<close> show ?thesis unfolding unshared_def by fastforce
  qed (use assms in \<open>simp add: unshared_def list_update_beyond\<close>)
  then show "unshared kb kr (m\<lparr>m_pushes := (m_pushes m)[j := (m_pushes m ! j)\<lparr>pu_chunks := cs\<rparr>]\<rparr>)"
    "unshared kb kr (m\<lparr>m_pushes := (m_pushes m)[j := (m_pushes m ! j)\<lparr>pu_chunks := cs, pu_sent := n\<rparr>]\<rparr>)" by simp_all
qed

lemma share_on_db [simp]: "unshared kb kr (on_db f m) = unshared kb kr m"
  by (simp add: on_db_def)

lemma share_rooms [simp]:
  "unshared kb kr m \<Longrightarrow> unshared kb kr (upd_room b f m)" "unshared kb kr m \<Longrightarrow> unshared kb kr (on_client k h m)"
  by (simp_all add: upd_room_def on_client_def split: option.split)

lemma share_basic [simp]:
  "unshared kb kr m \<Longrightarrow> unshared kb kr (upd_runtime b g m)" "unshared kb kr m \<Longrightarrow> unshared kb kr (syncRuntimes m)" "unshared kb kr m \<Longrightarrow> unshared kb kr (log_effect e m)"
  "unshared kb kr m \<Longrightarrow> unshared kb kr (syncMessages b ms m)" "unshared kb kr m \<Longrightarrow> unshared kb kr (setTransfers b ts m)"
  "unshared kb kr m \<Longrightarrow> unshared kb kr (setResyncStatus b st m)" "unshared kb kr m \<Longrightarrow> unshared kb kr (setHistoryMismatch b mis m)"
  "unshared kb kr m \<Longrightarrow> unshared kb kr (schedulePublishDigest b m)" "unshared kb kr m \<Longrightarrow> unshared kb kr (snd (appendMessage b s m))"
  "unshared kb kr m \<Longrightarrow> unshared kb kr (snd (draw_bytes p m))" "unshared kb kr m \<Longrightarrow> unshared kb kr (snd (draw_uuid p m))"
  "unshared kb kr m \<Longrightarrow> unshared kb kr (set_pc n pc m)"
  by (simp_all add: upd_runtime_def syncRuntimes_def log_effect_def syncMessages_def setTransfers_def setResyncStatus_def
      setHistoryMismatch_def schedulePublishDigest_def appendMessage_def draw_bytes_def draw_uuid_def set_pc_def)

lemma share_sending [simp]:
  "unshared kb kr m \<Longrightarrow> unshared kb kr (setActive ab m)" "unshared kb kr m \<Longrightarrow> unshared kb kr (sendPaced p b msg w m)"
  "unshared kb kr m \<Longrightarrow> unshared kb kr (paced_turn now j m)" "unshared kb kr m \<Longrightarrow> unshared kb kr (snd (transmit p r msg m))"
  by (simp_all add: setActive_def sendPaced_def paced_turn_def transmit_def draw_bytes_def frame_simps
      split: option.split sum.split prod.split turn.split)

lemma share_all [simp]:
  "unshared kb kr m \<Longrightarrow> unshared kb kr (cancelAllManagedReconnects m)" "unshared kb kr m \<Longrightarrow> unshared kb kr (stopAllHeartbeats m)"
  "unshared kb kr m \<Longrightarrow> unshared kb kr (went_offline m)" "unshared kb kr m \<Longrightarrow> unshared kb kr (restore_begin m)"
  by (simp_all add: cancelAllManagedReconnects_def stopAllHeartbeats_def went_offline_def restore_begin_def frame_simps
      unshared_fold split: frame_splits)

section \<open>The manager's operations\<close>

lemma share_ops_1a [simp]:
  "unshared kb kr m \<Longrightarrow> unshared kb kr (notify_unless_seen cx b b' m)"
  "unshared kb kr m \<Longrightarrow> unshared kb kr (keep_credentials b x13 m)"
  "unshared kb kr m \<Longrightarrow> unshared kb kr (onPeerDigest p b x16 b' os m)"
  "unshared kb kr m \<Longrightarrow> unshared kb kr (trustPeerDeviceFp b os m)"
  "unshared kb kr m \<Longrightarrow> unshared kb kr (forget_session b m)"
  "unshared kb kr m \<Longrightarrow> unshared kb kr (onResyncRequest b b' x16 os m)"
  "unshared kb kr m \<Longrightarrow> unshared kb kr (onResyncReject b b' os m)"
  "unshared kb kr m \<Longrightarrow> unshared kb kr (push_failed b b' b'' m)"
  by (simp_all add: notify_unless_seen_def keep_credentials_def onPeerDigest_def trustPeerDeviceFp_def forget_session_def onResyncRequest_def onResyncReject_def push_failed_def frame_simps split: frame_splits)

lemma share_ops_1b [simp]:
  "unshared kb kr m \<Longrightarrow> unshared kb kr (cancelManagedReconnect b m)"
  "unshared kb kr m \<Longrightarrow> unshared kb kr (markReconnectStalled b m)"
  "unshared kb kr m \<Longrightarrow> unshared kb kr (start_flow x19 b x20 m)"
  "unshared kb kr m \<Longrightarrow> unshared kb kr (stopHeartbeat b m)"
  "unshared kb kr m \<Longrightarrow> unshared kb kr (onHeartbeatPong b m)"
  "unshared kb kr m \<Longrightarrow> unshared kb kr (suppress b m)"
  "unshared kb kr m \<Longrightarrow> unshared kb kr (unsuppress b m)"
  "unshared kb kr m \<Longrightarrow> unshared kb kr (upd_same b x1 x26 m)"
  by (simp_all add: cancelManagedReconnect_def markReconnectStalled_def start_flow_def stopHeartbeat_def onHeartbeatPong_def suppress_def unsuppress_def upd_same_def frame_simps split: frame_splits)

lemma share_ops_2a [simp]:
  "unshared kb kr m \<Longrightarrow> unshared kb kr (deliverIncoming cx b x0 m)"
  "unshared kb kr m \<Longrightarrow> unshared kb kr (receive_content p cx b os x12 m)"
  "unshared kb kr m \<Longrightarrow> unshared kb kr (snd (revealRoomPin p b b' m))"
  "unshared kb kr m \<Longrightarrow> unshared kb kr (snd (encrypt_creds p x13 m))"
  "unshared kb kr m \<Longrightarrow> unshared kb kr (finishResyncIfDone b b' m)"
  "unshared kb kr m \<Longrightarrow> unshared kb kr (resetReconnectState b m)"
  "unshared kb kr m \<Longrightarrow> unshared kb kr (scheduleManagedReconnect b m)"
  "unshared kb kr m \<Longrightarrow> unshared kb kr (openRoom b x20 m)"
  by (simp_all add: deliverIncoming_def receive_content_def revealRoomPin_def encrypt_creds_def finishResyncIfDone_def resetReconnectState_def scheduleManagedReconnect_def openRoom_def frame_simps split: frame_splits)

lemma share_ops_2b [simp]:
  "unshared kb kr m \<Longrightarrow> unshared kb kr (reconnectRoom b x20 m)"
  "unshared kb kr m \<Longrightarrow> unshared kb kr (startHeartbeat b m)"
  "unshared kb kr m \<Longrightarrow> unshared kb kr (snd (relayTokenForRoom p b x1 m))"
  "unshared kb kr m \<Longrightarrow> unshared kb kr (doReconnectRoom n b m)"
  "unshared kb kr m \<Longrightarrow> unshared kb kr (closeRoomConnection b m)"
  "unshared kb kr m \<Longrightarrow> unshared kb kr (release_begin b m)"
  by (simp_all add: reconnectRoom_def startHeartbeat_def relayTokenForRoom_def doReconnectRoom_def closeRoomConnection_def release_begin_def frame_simps split: frame_splits)

lemma share_ops_3a [simp]:
  "unshared kb kr m \<Longrightarrow> unshared kb kr (snd (send_text p cx b b' x9 m))"
  "unshared kb kr m \<Longrightarrow> unshared kb kr (persist_one p x14 m)"
  "unshared kb kr m \<Longrightarrow> unshared kb kr (registerRoom p cx x15 m)"
  "unshared kb kr m \<Longrightarrow> unshared kb kr (publishDigest p cx b m)"
  "unshared kb kr m \<Longrightarrow> unshared kb kr (push_next p n m)"
  "unshared kb kr m \<Longrightarrow> unshared kb kr (apply_history p b b' x10 m)"
  by (simp_all add: send_text_def persist_one_def registerRoom_def publishDigest_def push_next_def apply_history_def frame_simps split: frame_splits)

lemma share_ops_3b [simp]:
  "unshared kb kr m \<Longrightarrow> unshared kb kr (handleDisconnectForReconnect b m)"
  "unshared kb kr m \<Longrightarrow> unshared kb kr (reconnect_timer_fires b m)"
  "unshared kb kr m \<Longrightarrow> unshared kb kr (forceStaleReconnect b m)"
  "unshared kb kr m \<Longrightarrow> unshared kb kr (rejoinRoom b m)"
  "unshared kb kr m \<Longrightarrow> unshared kb kr (restore_one p x14 m)"
  by (simp_all add: handleDisconnectForReconnect_def reconnect_timer_fires_def forceStaleReconnect_def rejoinRoom_def restore_one_def frame_simps split: frame_splits)

lemma share_asks [simp]:
  "unshared kb kr m \<Longrightarrow> b \<noteq> kb \<Longrightarrow> unshared kb kr (snd (requestResync p cx b m))"
  "unshared kb kr m \<Longrightarrow> b = kb \<and> q \<longrightarrow> (\<forall>pr. m_prompts m kb = Some pr \<longrightarrow> rp_requestId pr \<noteq> kr) \<Longrightarrow>
     unshared kb kr (snd (respondResync p cx b q m))"
  by (cases "b = kb"; auto simp: requestResync_def respondResync_def new_session_def frame_simps split: frame_splits)+

lemma share_pushes: "unshared kb kr m \<Longrightarrow> b = kb \<longrightarrow> rid \<noteq> kr \<Longrightarrow> unshared kb kr (runDifferentialPush p b rid ms ids m)"
  by (simp add: runDifferentialPush_def frame_simps share_push split: frame_splits)

lemma share_answers [simp]:
  assumes "unshared kb kr m"
  shows "unshared kb kr (onResyncAccept p cx b rid ids m)" "unshared kb kr (onResyncIds p cx b rid ids m)"
  using assms share_session [OF assms]
  by (auto simp: onResyncAccept_def onResyncIds_def with_peer_ids_def frame_simps share_pushes split: option.split sum.split)

lemma share_absorb: "unshared kb kr m \<Longrightarrow> unshared kb kr (absorb_effect p e m)"
  by (cases e) simp_all

lemma share_engine [simp]: "unshared kb kr m \<Longrightarrow> unshared kb kr (with_engine p ef m)"
  by (simp add: with_engine_def frame_simps unshared_fold share_absorb)

lemma share_releasing [simp]:
  "unshared kb kr m \<Longrightarrow> unshared kb kr (release_all_begin m)" "unshared kb kr m \<Longrightarrow> unshared kb kr (release_all_end ids m)" "unshared kb kr m \<Longrightarrow> unshared kb kr (lock m)"
  by (simp_all add: release_all_begin_def release_all_end_def lock_def frame_simps unshared_fold split: option.split)

lemma share_persist [simp]: "unshared kb kr m \<Longrightarrow> unshared kb kr (persistAllCredentials p m)"
  by (simp add: persistAllCredentials_def unshared_fold)

lemma share_ops_4a [simp]:
  "unshared kb kr m \<Longrightarrow> unshared kb kr (digest_timer_fires p cx b m)"
  "unshared kb kr m \<Longrightarrow> unshared kb kr (push_settled p n q m)"
  "unshared kb kr m \<Longrightarrow> unshared kb kr (handleHistoryChunk p cx b x18 m)"
  "unshared kb kr m \<Longrightarrow> unshared kb kr (sendHeartbeatPing b m)"
  "unshared kb kr m \<Longrightarrow> unshared kb kr (heartbeat_timeout b m)"
  "unshared kb kr m \<Longrightarrow> unshared kb kr (snd (connectWithPin p cx b b' b'' b''' m))"
  by (simp_all add: digest_timer_fires_def push_settled_def handleHistoryChunk_def sendHeartbeatPing_def heartbeat_timeout_def connectWithPin_def frame_simps split: frame_splits)

lemma share_flow [simp]: "unshared kb kr m \<Longrightarrow> unshared kb kr (after_done th b r m)" "unshared kb kr m \<Longrightarrow> unshared kb kr (finish_flow n q r m)"
  by (simp_all add: after_done_def finish_flow_def frame_simps split: frame_splits)

lemma share_ops_5a [simp]:
  "unshared kb kr m \<Longrightarrow> unshared kb kr (retryTransfer p cx b b' m)"
  "unshared kb kr m \<Longrightarrow> unshared kb kr (cancelTransfer p cx b b' m)"
  "unshared kb kr m \<Longrightarrow> unshared kb kr (snd (start_transfer p cx b x7 q m))"
  "unshared kb kr m \<Longrightarrow> unshared kb kr (applyDelete p b b' m)"
  "unshared kb kr m \<Longrightarrow> unshared kb kr (wipeLocalHistory p b m)"
  "unshared kb kr m \<Longrightarrow> unshared kb kr (clearTransfersForBucket p b m)"
  by (simp_all add: retryTransfer_def cancelTransfer_def start_transfer_def applyDelete_def wipeLocalHistory_def clearTransfersForBucket_def frame_simps split: frame_splits)

lemma share_ops_5b [simp]:
  "unshared kb kr m \<Longrightarrow> unshared kb kr (heartbeat_tick cx b m)"
  "unshared kb kr m \<Longrightarrow> unshared kb kr (ensure_connected b m)"
  "unshared kb kr m \<Longrightarrow> unshared kb kr (engine_connected p cx b m)"
  "unshared kb kr m \<Longrightarrow> unshared kb kr (waitForRelay cx n b x6 m)"
  by (simp_all add: heartbeat_tick_def ensure_connected_def engine_connected_def waitForRelay_def frame_simps split: frame_splits)

lemma share_all_connected [simp]: "unshared kb kr m \<Longrightarrow> unshared kb kr (ensureAllConnected m)"
  by (simp add: ensureAllConnected_def unshared_fold)

lemma share_control [simp]: "unshared kb kr m \<Longrightarrow> unshared kb kr (onControl p cx b msg m)"
  by (cases msg) (simp add: onControl_def frame_simps split: option.split bool.split)

lemma share_ops_6a [simp]:
  "unshared kb kr m \<Longrightarrow> unshared kb kr (snd (startOutgoing p cx b x0 m))"
  "unshared kb kr m \<Longrightarrow> unshared kb kr (snd (sendDelete p cx b b' m))"
  "unshared kb kr m \<Longrightarrow> unshared kb kr (snd (wipeBothHistories p cx b m))"
  "unshared kb kr m \<Longrightarrow> unshared kb kr (applyWipeHistory p b m)"
  "unshared kb kr m \<Longrightarrow> unshared kb kr (onStatus p cx n b x21 os m)"
  "unshared kb kr m \<Longrightarrow> unshared kb kr (closeRoom p b m)"
  "unshared kb kr m \<Longrightarrow> unshared kb kr (release_end p b m)"
  by (simp_all add: startOutgoing_def sendDelete_def wipeBothHistories_def applyWipeHistory_def onStatus_def closeRoom_def release_end_def frame_simps split: frame_splits)

lemma share_resume [simp]: "unshared kb kr m \<Longrightarrow> unshared kb kr (snd (resume_loop p cx b ids m))"
  by (induction ids arbitrary: m) (simp_all add: frame_simps split: option.split side.split sum.split)

lemma share_clear [simp]: "unshared kb kr m \<Longrightarrow> unshared kb kr (clear_everything p m)"
  by (simp add: clear_everything_def frame_simps unshared_fold)

lemma share_receive [simp]: "unshared kb kr m \<Longrightarrow> unshared kb kr (receive p cx b msg m)"
  by (cases "(p, cx, b, msg, m)" rule: receive.cases) simp_all

lemma share_ops_7a [simp]:
  "unshared kb kr m \<Longrightarrow> unshared kb kr (snd (sendImage p cx b x8 x9 m))"
  "unshared kb kr m \<Longrightarrow> unshared kb kr (snd (sendFile p cx b os b' x10 x9 m))"
  "unshared kb kr m \<Longrightarrow> unshared kb kr (resumePendingOutgoing p cx b m)"
  "unshared kb kr m \<Longrightarrow> unshared kb kr (forgetRoom p b m)"
  by (simp_all add: sendImage_def sendFile_def resumePendingOutgoing_def forgetRoom_def frame_simps split: frame_splits)

lemma share_ops_8a [simp]:
  "unshared kb kr m \<Longrightarrow> unshared kb kr (onBinary p cx b x10 m)"
  by (simp_all add: onBinary_def frame_simps split: frame_splits)

lemma share_dispatch: "unshared kb kr m \<Longrightarrow> unshared kb kr (dispatch_call p cx n b e m)"
  by (cases e) simp_all

lemma share_client [simp]: "unshared kb kr m \<Longrightarrow> unshared kb kr (client_happens p cx n ev m)"
  by (simp add: client_happens_def frame_simps unshared_fold share_dispatch split: option.split)

lemma share_ops_11a [simp]:
  "unshared kb kr m \<Longrightarrow> unshared kb kr (make_client p cx n b x1 m)"
  by (simp_all add: make_client_def frame_simps split: frame_splits)

lemma share_ops_12a [simp]:
  "unshared kb kr m \<Longrightarrow> unshared kb kr (connectRelay p cx n b b' m)"
  by (simp_all add: connectRelay_def frame_simps split: frame_splits)

lemma share_ops_13a [simp]:
  "unshared kb kr m \<Longrightarrow> unshared kb kr (to_relay p cx n b x1 q m)"
  by (simp_all add: to_relay_def frame_simps split: frame_splits)

lemma share_ops_14a [simp]:
  "unshared kb kr m \<Longrightarrow> unshared kb kr (open_fresh p cx n b m)"
  "unshared kb kr m \<Longrightarrow> unshared kb kr (connectRoom p cx n b m)"
  by (simp_all add: open_fresh_def connectRoom_def frame_simps split: frame_splits)

lemma share_ops_15a [simp]:
  "unshared kb kr m \<Longrightarrow> unshared kb kr (doOpenRoom p cx n b m)"
  "unshared kb kr m \<Longrightarrow> unshared kb kr (after_pause p cx n b m)"
  by (simp_all add: doOpenRoom_def after_pause_def frame_simps split: frame_splits)

lemma share_flow_step [simp]: "unshared kb kr m \<Longrightarrow> unshared kb kr (flow_step p cx n m)"
  by (simp add: flow_step_def frame_simps split: flow_pc.split)

lemma share_settles [simp]: "unshared kb kr m \<Longrightarrow> unshared kb kr (engine_does p cx ev m)" "unshared kb kr m \<Longrightarrow> unshared kb kr (send_settles p cx j m)"
  by (simp_all add: engine_does_def send_settles_def frame_simps split: frame_splits)

text \<open>So whatever happens to the manager, unless the user asks for a synchronisation or approves one.\<close>

lemma share_step:
  assumes "unshared kb kr m" "snd e \<noteq> UserRequestsSync kb"
    and "snd e = UserAnswersSync kb True \<longrightarrow> (\<forall>pr. m_prompts m kb = Some pr \<longrightarrow> rp_requestId pr \<noteq> kr)"
  shows "unshared kb kr (manager_step p e m)"
  using assms by (cases "(p, e, m)" rule: manager_step.cases) simp_all

end
