(* ===== verification/Screens.thy ===== *)
theory Screens
  imports Lines
begin

text \<open>
  The screens around the chat: the chat list (\<open>web/src/lib/components/ConversationTabs.svelte\<close>) with
  \<open>navigateToRoom\<close> of \<open>connection-manager.ts\<close>, the invite panel (\<open>ShareInvitePanel.svelte\<close>), the hub
  (\<open>routes/(app)/app/+page.svelte\<close>), the import page (\<open>routes/(app)/import/+page.svelte\<close>), and the settings
  (\<open>AppSettings.svelte\<close>, \<open>DeviceSettings.svelte\<close>). A handler is cut where another one can run during its wait and
  is not kept out by a flag of the component; the address a handler goes to is its answer.
\<close>

section \<open>Going to a room\<close>

definition navigateToRoom :: "platform \<Rightarrow> jstr \<Rightarrow> manager \<Rightarrow> jstr option \<times> manager" where
  "navigateToRoom p b m =
     (case getRoom b (m_db m) of
        None \<Rightarrow> (None, m)
      | Some rec \<Rightarrow>
          (let from_creds = truthy (map_option cr_roomHash (cached_credentials b m));
               sealed = (if rec_roomHash rec = [] \<and> isVaultUnlocked (m_vault m)
                         then Option.bind (rec_credentialsEnc rec) (\<lambda>blob. decryptCredentials (pf_unseal p) blob (m_vault m))
                         else None);
               hash = (case from_creds of
                         Some h \<Rightarrow> h
                       | None \<Rightarrow> (case sealed of Some c \<Rightarrow> cr_roomHash c | None \<Rightarrow> rec_roomHash rec))
           in if \<not> contains hash (js ''key='') then (Some (js ''/b/'' @ b), m)
              else (Some (js ''/b/'' @ b @ hash), setActive (Some b) m)))"

section \<open>The chat list\<close>

datatype conn_dot = DotLive | DotWait | DotReconnecting | DotOff

definition connDot :: "jstr \<Rightarrow> manager \<Rightarrow> conn_dot" where
  "connDot b m =
     (case m_runtimes m b of
        None \<Rightarrow> DotOff
      | Some rt \<Rightarrow>
          if rt_connState rt = CsOpen \<and> rt_peerPresent rt then DotLive
          else if rt_connState rt = CsReconnecting then DotReconnecting
          else if rt_connState rt = CsOpen \<or> rt_connState rt = CsConnecting then DotWait
          else DotOff)"

definition roomHasPeerTraffic :: "jstr \<Rightarrow> manager \<Rightarrow> bool" where
  "roomHasPeerTraffic b m = list_ex (\<lambda>s. sm_from s = Peer) (getMessages b m)"

definition connDotForRoom :: "room_record \<Rightarrow> manager \<Rightarrow> conn_dot" where
  "connDotForRoom rec m =
     (let dot = connDot (rec_bucketId rec) m
      in if dot = DotWait \<and> roomHasPeerTraffic (rec_bucketId rec) m then DotLive else dot)"

text \<open>A room shows as live without a partner, and even without a relay, as soon as the partner has ever written.\<close>

lemma live_while_connecting:
  assumes "m_runtimes m (rec_bucketId rec) = Some rt" "rt_connState rt = CsConnecting" "\<not> rt_peerPresent rt"
    and "s \<in> set (getMessages (rec_bucketId rec) m)" "sm_from s = Peer"
  shows "connDotForRoom rec m = DotLive"
  using assms by (auto simp: connDotForRoom_def connDot_def roomHasPeerTraffic_def list_ex_iff)

text \<open>The list's state; \<open>tb_menu\<close> is the room whose menu is open.\<close>

record tabs =
  tb_rooms :: "room_record list"
  tb_loaded :: bool
  tb_editing :: "room_record option"
  tb_editName :: jstr
  tb_menu :: "jstr option"
  tb_forget :: "room_record option"
  tb_switch :: "room_record option"
  tb_switchBusy :: bool
  tb_share :: "room_record option"

definition loadRooms :: "db \<Rightarrow> tabs \<Rightarrow> tabs" where
  "loadRooms d t = t\<lparr>tb_rooms := listRooms d, tb_loaded := True\<rparr>"

definition menuRoom :: "tabs \<Rightarrow> room_record option" where
  "menuRoom t = Option.bind (tb_menu t) (\<lambda>b. List.find (\<lambda>r. rec_bucketId r = b) (tb_rooms t))"

definition openChat :: "platform \<Rightarrow> room_record \<Rightarrow> tabs \<Rightarrow> manager \<Rightarrow> jstr option \<times> tabs \<times> manager" where
  "openChat p rec t m = (let (addr, m') = navigateToRoom p (rec_bucketId rec) m in (addr, t\<lparr>tb_menu := None\<rparr>, m'))"

definition startRename :: "room_record \<Rightarrow> tabs \<Rightarrow> tabs" where
  "startRename rec t = t\<lparr>tb_editing := Some rec, tb_editName := rec_nickname rec, tb_menu := None\<rparr>"

definition commitRename :: "tabs \<Rightarrow> manager \<Rightarrow> tabs \<times> manager" where
  "commitRename t m =
     (case tb_editing t of
        None \<Rightarrow> (t, m)
      | Some rec \<Rightarrow>
          (let b = rec_bucketId rec;
               partner = (if trim (tb_editName t) = [] then defaultNickname b else trim (tb_editName t));
               m1 = log_effect BumpRooms (on_db (setNickname b partner) m)
           in (loadRooms (m_db m1) (t\<lparr>tb_editing := None\<rparr>), m1)))"

definition cancelRename :: "tabs \<Rightarrow> tabs" where "cancelRename t = t\<lparr>tb_editing := None, tb_editName := []\<rparr>"

definition askForget :: "room_record \<Rightarrow> tabs \<Rightarrow> tabs" where
  "askForget rec t = t\<lparr>tb_forget := Some rec, tb_menu := None\<rparr>"

definition askSwitchDevice :: "room_record \<Rightarrow> tabs \<Rightarrow> tabs" where
  "askSwitchDevice rec t = t\<lparr>tb_switch := Some rec, tb_menu := None\<rparr>"

definition startShare :: "room_record \<Rightarrow> tabs \<Rightarrow> tabs" where
  "startShare rec t = t\<lparr>tb_share := Some rec, tb_menu := None\<rparr>"

definition room_path :: "jstr \<Rightarrow> jstr" where "room_path b = js ''/b/'' @ b"

text \<open>\<open>path\<close> is the address of the page when the button is pressed.\<close>

definition confirmForget :: "platform \<Rightarrow> jstr \<Rightarrow> tabs \<Rightarrow> manager \<Rightarrow> jstr option \<times> tabs \<times> manager" where
  "confirmForget p path t m =
     (case tb_forget t of
        None \<Rightarrow> (None, t, m)
      | Some rec \<Rightarrow>
          (let b = rec_bucketId rec; m1 = forgetRoom p b m
           in (if path = room_path b then Some (js ''/app'') else None,
               loadRooms (m_db m1) (t\<lparr>tb_forget := None\<rparr>), log_effect BumpRooms m1)))"

text \<open>\<open>confirmSwitchDevice\<close> up to the wait in \<open>releaseSeatForSwitch\<close>, and from there on.\<close>

definition switch_begin :: "tabs \<Rightarrow> manager \<Rightarrow> tabs \<times> manager" where
  "switch_begin t m =
     (case tb_switch t of
        None \<Rightarrow> (t, m)
      | Some rec \<Rightarrow>
          if tb_switchBusy t then (t, m) else (t\<lparr>tb_switchBusy := True\<rparr>, release_begin (rec_bucketId rec) m))"

definition switch_end :: "platform \<Rightarrow> jstr \<Rightarrow> jstr \<Rightarrow> tabs \<Rightarrow> manager \<Rightarrow> jstr option \<times> tabs \<times> manager" where
  "switch_end p path b t m =
     (let m1 = release_end p b m
      in (if path = room_path b then Some (room_path b) else None,
          loadRooms (m_db m1) (t\<lparr>tb_switch := None, tb_switchBusy := False\<rparr>), log_effect BumpRooms m1))"

text \<open>A room that is forgotten is no longer in the list, and has no record, whatever else the list shows.\<close>

lemma forgotten_db: "getRoom b (m_db (forgetRoom p b m)) = None"
proof -
  have "getRoom b (removeRoom b d) = None" for d by (simp add: getRoom_def removeRoom_def delete_conv')
  moreover have "db_rooms (deleteMessagesForBucket nfc b d) = db_rooms d" for nfc d
    by (simp add: deleteMessagesForBucket_def fold_frame [where P = db_rooms] deleteMessage_def)
  ultimately show ?thesis
    by (simp add: forgetRoom_def Let_def on_db_def log_effect_def getRoom_def)
qed

section \<open>The invite panel\<close>

record share_panel =
  sp_bucket :: jstr
  sp_room :: "room_record option"
  sp_roomPin :: "jstr option"
  sp_appPin :: jstr
  sp_error :: jstr
  sp_busy :: bool
  sp_needsAppPin :: bool
  sp_unrecoverable :: bool

definition load_panel :: "platform \<Rightarrow> manager \<Rightarrow> share_panel \<Rightarrow> share_panel" where
  "load_panel p m s =
     (let rec = getRoom (sp_bucket s) (m_db m); s1 = s\<lparr>sp_error := [], sp_room := rec\<rparr>
      in if Option.bind rec rec_isCreator \<noteq> Some True then s1
         else (case truthy (getRoomPin p (sp_bucket s) m) of
                 Some pin \<Rightarrow> s1\<lparr>sp_roomPin := Some pin, sp_needsAppPin := False\<rparr>
               | None \<Rightarrow>
                   if Option.bind rec rec_credentialsEnc \<noteq> None then s1\<lparr>sp_needsAppPin := True\<rparr>
                   else s1\<lparr>sp_unrecoverable := True\<rparr>))"

definition app_pin_hint :: jstr where
  "app_pin_hint = js ''Enter your 4'' @ 0x2013 # js ''8 digit app PIN.''"

definition no_room_pin :: jstr where
  "no_room_pin = js ''Wrong app PIN, or room PIN was never saved on this device.''"

definition four_to_eight_digits :: "jstr \<Rightarrow> bool" where
  "four_to_eight_digits s \<longleftrightarrow> 4 \<le> length s \<and> length s \<le> 8 \<and> list_all is_digit s"

text \<open>An exception of \<open>revealRoomPin\<close> leaves the function; only its \<open>finally\<close> block runs.\<close>

definition revealWithAppPin :: "platform \<Rightarrow> share_panel \<Rightarrow> manager \<Rightarrow> share_panel \<times> manager" where
  "revealWithAppPin p s m =
     (if \<not> four_to_eight_digits (sp_appPin s) then (s\<lparr>sp_error := app_pin_hint, sp_busy := False\<rparr>, m)
      else (let (res, m1) = revealRoomPin p (sp_bucket s) (sp_appPin s) m
            in (case res of
                  Inl e \<Rightarrow> s\<lparr>sp_error := [], sp_busy := False\<rparr>
                | Inr found \<Rightarrow>
                    (case truthy found of
                       None \<Rightarrow> s\<lparr>sp_error := no_room_pin, sp_busy := False\<rparr>
                     | Some pin \<Rightarrow>
                         s\<lparr>sp_roomPin := Some pin, sp_appPin := [], sp_error := [], sp_busy := False, sp_needsAppPin := False\<rparr>),
                m1)))"

definition with_hash :: "jstr \<Rightarrow> jstr" where
  "with_hash h = (if take 1 h = js ''#'' then h else js ''#'' @ h)"

definition panel_url :: "jstr \<Rightarrow> share_panel \<Rightarrow> jstr" where
  "panel_url origin s =
     (case truthy (map_option rec_roomHash (sp_room s)) of
        None \<Rightarrow> origin @ room_path (sp_bucket s)
      | Some h \<Rightarrow> origin @ room_path (sp_bucket s) @ shareRoomHash (with_hash h))"

section \<open>The hub\<close>

datatype hub_start = HubCreates | HubOpens jstr | HubStays

text \<open>What the hub does when it is opened: the search parameters, and the rooms.\<close>

definition hub_boot :: "jstr option \<Rightarrow> jstr option \<Rightarrow> jstr option \<Rightarrow> db \<Rightarrow> hub_start" where
  "hub_boot create new_line list_only d =
     (if create = Some (js ''1'') \<or> new_line = Some (js ''1'') then HubCreates
      else (case listRooms d of
              latest # _ \<Rightarrow>
                if list_only \<noteq> Some (js ''1'') then HubOpens (room_path (rec_bucketId latest) @ rec_roomHash latest) else HubStays
            | [] \<Rightarrow> HubStays))"

section \<open>The settings\<close>

record app_settings =
  as_relay :: jstr
  as_servers :: "directory_server list"

definition selectedServer :: "app_settings \<Rightarrow> directory_server option" where
  "selectedServer s = List.find (\<lambda>x. drop_slash (ds_url x) = drop_slash (trim (as_relay s))) (as_servers s)"

definition persistRelay :: "app_settings \<Rightarrow> db \<Rightarrow> db" where
  "persistRelay s d = (if trim (as_relay s) = [] then d else setRelayUrl (trim (as_relay s)) d)"

definition selectServer :: "jstr \<Rightarrow> app_settings \<Rightarrow> db \<Rightarrow> app_settings \<times> db" where
  "selectServer url s d = (let s1 = s\<lparr>as_relay := url\<rparr> in (s1, persistRelay s1 d))"

definition pinged :: "app_settings \<Rightarrow> jstr list" where
  "pinged s = fold set_add (map ds_url (as_servers s) @ (if trim (as_relay s) = [] then [] else [trim (as_relay s)])) []"

record device_settings =
  dv_hasVaultPin :: bool
  dv_hasChats :: bool

definition refresh_device :: "db \<Rightarrow> device_settings" where
  "refresh_device d = \<lparr>dv_hasVaultPin = hasVault d, dv_hasChats = listRooms d \<noteq> []\<rparr>"

section \<open>The import page\<close>

lemma contains_here: "contains (xs @ part @ ys) part"
  unfolding contains_def list_ex_iff by (intro bexI [where x = "length xs"]) simp_all

record import_page =
  im_file :: "export_file option"
  im_passphrase :: jstr
  im_keyFrag :: jstr
  im_error :: jstr
  im_ok :: jstr
  im_imported :: "stored_message list"
  im_bucketId :: jstr

text \<open>A picked file that is no JSON text is \<open>None\<close>.\<close>

definition onFile :: "export_file option \<Rightarrow> import_page \<Rightarrow> import_page" where
  "onFile picked s =
     (let s1 = s\<lparr>im_error := [], im_ok := []\<rparr>
      in case picked of
           None \<Rightarrow> s1\<lparr>im_file := None, im_error := js ''Could not parse export file''\<rparr>
         | Some f \<Rightarrow> s1\<lparr>im_file := Some f, im_bucketId := ef_bucket_id f\<rparr>)"

definition typed_fragment :: "jstr \<Rightarrow> jstr" where
  "typed_fragment typed = (if take 1 typed = js ''#'' then typed else js ''#key='' @ typed)"

text \<open>The session key: from what was typed, or, when nothing was, from the address.\<close>

definition import_session_key :: "jstr \<Rightarrow> jstr \<Rightarrow> bytes option result" where
  "import_session_key typed here =
     (let raw = (case keyFromFragment (typed_fragment typed) of
                   Some k \<Rightarrow> Some k
                 | None \<Rightarrow> if typed = [] then keyFromFragment here else None)
      in case raw of
           Some k \<Rightarrow> if aes_key k then Inr (Some k) else Inl DataError
         | None \<Rightarrow>
             if typed \<noteq> [] \<and> 0x3D \<notin> set typed
             then bind_result (base64UrlToBytes typed) (\<lambda>k. if aes_key k then Inr (Some k) else Inl DataError)
             else Inr None)"

definition import_done :: "nat \<Rightarrow> jstr \<Rightarrow> jstr" where
  "import_done n b = js ''Imported '' @ decimal n @ js '' messages for '' @ b"

definition runImport ::
  "platform \<Rightarrow> kdf \<Rightarrow> (js_error \<Rightarrow> jstr) \<Rightarrow> jstr \<Rightarrow> import_page \<Rightarrow> db \<Rightarrow> import_page \<times> db" where
  "runImport p kd error_of here s d =
     (case im_file s of
        None \<Rightarrow> (s, d)
      | Some f \<Rightarrow>
          (case bind_result (import_session_key (im_keyFrag s) here)
                  (\<lambda>k. importHistory (pf_nfc p) (pf_unseal p) kd f k (truthy (Some (im_passphrase s)))) of
             Inl e \<Rightarrow> (s\<lparr>im_error := error_of e\<rparr>, d)
           | Inr (b, ms) \<Rightarrow>
               (s\<lparr>im_error := [], im_ok := import_done (length ms) b, im_imported := ms, im_bucketId := b\<rparr>,
                mergeMessages (pf_nfc p) b ms d)))"

definition reconnect_fragment :: "jstr \<Rightarrow> jstr \<Rightarrow> jstr" where
  "reconnect_fragment typed here =
     (if typed = [] then here
      else (case keyFromFragment (typed_fragment typed) of
              Some raw \<Rightarrow> js ''#key='' @ keyToFragment raw
            | None \<Rightarrow> if \<not> contains typed (js ''key='') then js ''#key='' @ strip_hash typed else here))"

definition need_key :: jstr where "need_key = js ''Need session key in fragment to reconnect live.''"

definition import_reconnect ::
  "platform \<Rightarrow> context_now \<Rightarrow> jstr \<Rightarrow> jstr \<Rightarrow> import_page \<Rightarrow> manager \<Rightarrow> jstr option \<times> import_page \<times> manager" where
  "import_reconnect p cx fallback here s m =
     (let b = im_bucketId s; frag = reconnect_fragment (im_keyFrag s) here
      in if b = [] then (None, s, m)
         else if \<not> contains frag (js ''key='') then (None, s\<lparr>im_error := need_key\<rparr>, m)
         else
           (let (url, d) = resolveRelayUrl fallback (m_db m);
                m1 = registerRoom p cx
                       \<lparr>ro_bucketId = b, ro_roomHash = frag, ro_relayUrl = url, ro_nickname = Some (defaultNickname b),
                        ro_roomPin = None, ro_legacy = None, ro_legacyToken = None,
                        ro_isCreator = Some (Option.bind (parseRoomFragment frag) fr_seat = Some 0)\<rparr> (m\<lparr>m_db := d\<rparr>)
            in (Some (room_path b @ frag), s, log_effect BumpRooms m1)))"

text \<open>A fragment with the key alone.\<close>

lemma safe_text: "list_all url_safe v \<Longrightarrow> ascii_text (form_bytes (utf8_encode v)) = v"
proof (induction v)
  case Nil
  then show ?case by (simp add: utf8_encode_def form_bytes_def ascii_text_def)
next
  case (Cons u v)
  then have u: "unat u < 128" "\<not> is_high u" "\<not> is_low u" "form_plain (unat u)"
    using url_safe_code [of u] by (auto simp: url_safe_def is_digit_def form_plain_def)
  have b: "unat (of_nat (unat u) :: byte) = unat u" using u(1) by (simp add: unsigned_ucast_eq take_bit_nat_eq_self)
  then have "(of_nat (unat u) :: byte) \<noteq> 0x20" using u(4) by (auto simp: form_plain_def)
  then have "form_bytes (utf8_encode (u # v)) = of_nat (unat u) # form_bytes (utf8_encode v)"
    using u b by (cases v) (simp_all add: utf8_encode_def encode_point_def form_bytes_def form_byte_def)
  moreover have "of_nat (unat (of_nat (unat u) :: byte)) = u" unfolding b by simp
  ultimately show ?case using Cons by (simp add: ascii_text_def)
qed

lemma key_fragment:
  assumes "key \<noteq> []"
  shows "parseRoomFragment (js ''#key='' @ bytesToBase64Url key) =
      Some \<lparr>fr_keyRaw = key, fr_pv = [], fr_salt = [], fr_seat = None, fr_legacy = True\<rparr>"
proof -
  let ?b = "bytesToBase64Url key" and ?ps = "[(js ''key'', bytesToBase64Url key)]"
  have written: "0x23 # params_text ?ps = js ''#key='' @ ?b"
    using safe_text [OF name_safe(1)] safe_text [OF base64url_safe, of key]
    by (simp add: params_text_def pair_bytes_def ascii_text_def js_def unit_of_def)
  have parsed: "parse_params (params_text ?ps) = ?ps"
    using name_safe(1) base64url_safe [of key] by (intro params_roundtrip) (auto intro: url_safe_well_formed)
  have "cleanB64UrlParam ?b = ?b" using assms clean_safe [of ?b "[]"] by (simp add: base64url_safe)
  then have "fst (sanitizeRoomFragmentInput (js ''#key='' @ ?b)) = 0x23 # params_text ?ps"
    using assms parsed unfolding written [symmetric]
    by (simp add: sanitizeRoomFragmentInput_def strip_hash_def clean_param_def truthy_def param_delete_def js_def unit_of_def Let_def)
  then show ?thesis
    using assms parsed by (simp add: parseRoomFragment_def strip_hash_def truthy_def bytes_of_def base64url_roundtrip js_def unit_of_def)
qed

text \<open>C11
  An import loses the PIN. Reconnecting from the import page with the full link of a line, as it was typed, writes a
  record whose link has the key only: the line is a legacy one from now on, without the verifier of its PIN, and this
  browser is no longer its creator, whatever the record has said before. The address it goes to has the same link.
\<close>

theorem import_forgets_the_pin:
  assumes "key \<noteq> []" "pv \<noteq> []" "salt \<noteq> []" "seat_ok seat" "im_bucketId s \<noteq> []"
    and "im_keyFrag s = buildRoomHash key pv salt seat"
    and "import_reconnect p cx fallback here s m = (addr, s', m')"
  shows "(\<exists>f. parseRoomFragment (im_keyFrag s) = Some f \<and> \<not> fr_legacy f \<and> fr_pv f = pv) \<and>
    addr = Some (room_path (im_bucketId s) @ js ''#key='' @ keyToFragment key) \<and>
    (\<exists>rec. getRoom (im_bucketId s) (m_db m') = Some rec \<and> rec_roomHash rec = js ''#key='' @ keyToFragment key \<and>
       rec_isCreator rec = Some False \<and>
       parseRoomFragment (rec_roomHash rec) =
         Some \<lparr>fr_keyRaw = key, fr_pv = [], fr_salt = [], fr_seat = None, fr_legacy = True\<rparr>)"
proof -
  let ?typed = "buildRoomHash key pv salt seat" and ?frag = "js ''#key='' @ bytesToBase64Url key"
  note whole = built_clean(2) [OF assms(1-4)] and short = key_fragment [OF assms(1)]
  have "keyFromFragment ?typed = Some key"
    using assms(1,4) by (simp add: keyFromFragment_def built_params link_params_def truthy_def bytes_of_def base64url_roundtrip)
  moreover have "typed_fragment ?typed = ?typed" by (simp add: typed_fragment_def build_link js_def unit_of_def)
  moreover have "?typed \<noteq> []" by (simp add: build_link)
  ultimately have frag: "reconnect_fragment ?typed here = ?frag"
    by (simp add: reconnect_fragment_def keyToFragment_def)
  have "contains ?frag (js ''key='')" using contains_here [of "js ''#''" "js ''key=''"] by (simp add: js_def unit_of_def)
  then obtain opts m0 where m': "m' = log_effect BumpRooms (registerRoom p cx opts m0)" and addr: "addr = Some (room_path (im_bucketId s) @ ?frag)"
    and opts: "ro_bucketId opts = im_bucketId s" "ro_roomHash opts = ?frag" "ro_isCreator opts = Some False"
    using assms(5-7) frag short by (auto simp: import_reconnect_def Let_def case_prod_beta)
  obtain rec where "getRoom (im_bucketId s) (m_db (registerRoom p cx opts m0)) = Some rec" "rec_roomHash rec = ?frag" "rec_isCreator rec = Some False"
    using registered [of opts p cx m0] opts by auto
  then show ?thesis using whole short addr assms(6) by (simp add: m' log_effect_def keyToFragment_def)
qed

text \<open>A concrete link, typed on the import page.\<close>

definition toy_import :: import_page where
  "toy_import = \<lparr>im_file = None, im_passphrase = [], im_keyFrag = toy_hash, im_error = [], im_ok = [], im_imported = [],
     im_bucketId = js ''room''\<rparr>"

theorem import_forgets_the_pin_witness:
  "\<exists>addr s' m' rec. import_reconnect toy_platform toy_context (js ''wss://r'') [] toy_import toy_manager = (addr, s', m') \<and>
     getRoom (js ''room'') (m_db m') = Some rec \<and> rec_isCreator rec = Some False \<and>
     rec_roomHash rec = js ''#key='' @ keyToFragment (replicate 32 7)"
proof -
  let ?did = "import_reconnect toy_platform toy_context (js ''wss://r'') [] toy_import toy_manager"
  obtain addr s' m' where did: "?did = (addr, s', m')" by (cases ?did)
  have link: "replicate 32 7 \<noteq> ([] :: bytes)" "[1] \<noteq> ([] :: bytes)" "[2] \<noteq> ([] :: bytes)" "seat_ok (Some 0)"
    "im_bucketId toy_import \<noteq> []" "im_keyFrag toy_import = buildRoomHash (replicate 32 7) [1] [2] (Some 0)"
    by (simp_all add: seat_ok_def toy_import_def toy_hash_def js_def)
  from import_forgets_the_pin [OF link did] did show ?thesis by (auto simp: toy_import_def)
qed

end
