(* ===== verification/PageProps.thy ===== *)
theory PageProps
  imports PageSystem Consent Screens
begin

text \<open>
  What holds of the page of a line: how a new line is shown to its creator, that a history is shared with the user's
  consent only, and what becomes of the calls that outlive a navigation.
\<close>

section \<open>A new line\<close>

lemma built_has_key: "contains (buildRoomHash key pv salt seat) (js ''key='')"
proof -
  have "ascii_text (form_bytes (utf8_encode (js ''key'')) @ [0x3D]) = js ''key=''"
    by (simp add: js_def unit_of_def utf8_encode_def encode_point_def is_high_def is_low_def form_bytes_def form_byte_def form_plain_def ascii_text_def)
  then have "ascii_text (pair_bytes (js ''key'', k) @ bs) = js ''key='' @ ascii_text (form_bytes (utf8_encode k) @ bs)" for k bs
    by (simp add: pair_bytes_def ascii_text_def)
  then have "params_text (link_params k p s seat) =
      js ''key='' @ ascii_text (form_bytes (utf8_encode k) @ 0x26 #
        joined 0x26 (map pair_bytes ((js ''pv'', p) # (js ''salt'', s) # seat_params seat)))" for k p s
    by (simp only: params_text_def link_params_def append_Cons append_Nil list.map joined.simps)
  then obtain rest where rest: "buildRoomHash key pv salt seat = [0x23] @ js ''key='' @ rest"
    unfolding build_link append_Cons append_Nil by blast
  show ?thesis unfolding rest by (rule contains_here)
qed

text \<open>What survives the manager's part of a boot: the room's record, but for its unread mark.\<close>

lemma record_read: "getRoom b d = Some rec \<Longrightarrow> \<exists>rec'. getRoom b (markRead b d) = Some rec' \<and> rec_roomHash rec' = rec_roomHash rec"
  by (cases "rec_bucketId rec = b") (auto simp: markRead_def getRoom_def upsertRoom_def update_conv')

lemma record_relay: "getRoom b (snd (resolveRelayUrl fallback d)) = getRoom b d"
  by (simp add: resolveRelayUrl_def Let_def setRelayUrl_def setMetaEntry_def getRoom_def split: option.split)

text \<open>
  A page that boots the room \<open>b\<close>: the frames of its only call, its key so far, and the session storage. A step keeps
  the rest.
\<close>

definition booting :: "nat \<Rightarrow> jstr \<Rightarrow> jstr \<Rightarrow> (jstr, jstr) jsmap \<Rightarrow> bytes option \<Rightarrow> frame list \<Rightarrow> page \<Rightarrow> bool" where
  "booting g b hash st k fs pg \<longleftrightarrow>
     pg_gen pg = g \<and> pg_bucket pg = b \<and> pg_hash pg = hash \<and> pg_error pg = [] \<and> pg_key pg = k \<and> pg_calls pg = [fs] \<and>
     the_room b (pg_manager pg) = None \<and> m_storage (pg_manager pg) = Some st \<and>
     (\<exists>rec. getRoom b (page_db pg) = Some rec \<and> contains (rec_roomHash rec) (js ''key=''))"

lemmas boot_simps = booting_def resume_def set_call_def boot_step_def Let_def page_manager_def page_db_def on_db_def the_room_def

lemma boot_navigates:
  assumes "b \<noteq> []" "b \<noteq> pg_bucket pg" "the_room b (pg_manager pg) = None" "m_storage (pg_manager pg) = Some st" "pg_calls pg = []"
    and "getRoom b (page_db pg) = Some rec" "contains (rec_roomHash rec) (js ''key='')"
  shows "booting (Suc (pg_gen pg)) b hash st None [Boot (Suc (pg_gen pg)) b BtActivated] (navigate b hash pg)"
proof -
  obtain rec' where "getRoom b (markRead b (m_db (pg_manager pg))) = Some rec'" "rec_roomHash rec' = rec_roomHash rec"
    using record_read assms(6) unfolding page_db_def by blast
  then show ?thesis
    using assms by (simp add: boot_simps navigate_def start_call_def resetRoomUi_def setActive_def truthy_def log_effect_def)
qed

lemma boot_activated:
  "booting g b hash st k [Boot g b BtActivated] pg \<Longrightarrow>
     booting g b hash st k [MetaRead (page_record pg), Boot g b BtNamed] (resume env p cx 0 pg)"
  by (simp add: boot_simps loadRoomMeta_def)

lemma boot_meta: "booting g b hash st k (MetaRead r # fr # fs) pg \<Longrightarrow> booting g b hash st k (fr # fs) (resume env p cx 0 pg)"
  by (simp add: boot_simps returns_def meta_read_def)

lemma boot_parses:
  assumes "booting g b hash st k [Boot g b BtNamed] pg" "contains hash (js ''key='')"
    and "sanitizeRoomFragmentInput hash = (hash, hint)" "parseRoomFragment hash = Some f" "fr_seat f \<noteq> None" "aes_key (fr_keyRaw f)"
  shows "booting g b hash st k [Boot g b (BtKey hash hint f (fr_keyRaw f))] (resume env p cx 0 pg)"
  using assms by (simp add: boot_simps boot_named_def boot_hash_def boot_key_def split: option.split)

lemma boot_has_key:
  assumes "booting g b hash st k [Boot g b (BtKey hash hint f raw)] pg"
  shows "\<exists>url. booting g b hash st (Some raw) [Boot g b (BtRelay hint f url)] (resume env p cx 0 pg)"
  using assms record_relay by (simp add: boot_simps boot_keyed_def case_prod_beta)

lemma boot_has_relay:
  assumes "booting g b hash st k [Boot g b (BtRelay hint f url)] pg"
  shows "\<exists>msgs. booting g b hash st k [Boot g b (BtMessages hint f msgs)] (resume env p cx 0 pg)"
  using assms by (simp add: boot_simps boot_relay_def isOpen_def is_connected_def)

lemma boot_finds_pin:
  assumes "booting g b hash st k [Boot g b (BtMessages hint f msgs)] pg"
    and "\<not> fr_legacy f" "map_of st (pin_once_key b) = Some pin" "pin \<noteq> []"
    and "pg' = resume env p cx 0 pg"
  shows "booting g b hash (AList.delete (pin_once_key b) st) k [EnsureRead (page_record pg') f] pg' \<and>
    pg_phase pg' = PgCreatorShare \<and> pg_creatorPin pg' = pin \<and> pg_isCreator pg'"
  using assms
  by (simp add: boot_simps boot_messages_def boot_enter_def takeCreatorPin_def take_item_def getItem_def removeItem_def
      truthy_def ensureRoomRegistered_def page_record_def)

lemma boot_registered:
  assumes "booting g b hash st k [EnsureRead (page_record pg) f] pg" "pg' = resume env p cx 0 pg"
  shows "pg' = pg\<lparr>pg_calls := []\<rparr>"
  using assms by (auto simp: boot_simps page_record_def goes_on_def ensure_read_def)

text \<open>The boot of a page whose creator's PIN waits in the session storage.\<close>

lemma boot_to_share:
  assumes "parseRoomFragment hash = Some f" "fst (sanitizeRoomFragmentInput hash) = hash" "contains hash (js ''key='')"
    and "fr_seat f \<noteq> None" "\<not> fr_legacy f" "aes_key (fr_keyRaw f)"
    and "b \<noteq> []" "b \<noteq> pg_bucket pg" "the_room b (pg_manager pg) = None" "m_storage (pg_manager pg) = Some st" "pg_calls pg = []"
    and "getRoom b (page_db pg) = Some rec" "contains (rec_roomHash rec) (js ''key='')"
    and "map_of st (pin_once_key b) = Some pin" "pin \<noteq> []"
    and "pg' = run (page_step env p) ((cx, PgNavigate b hash) # replicate 7 (cx, PgResume 0)) pg"
  shows "pg_phase pg' = PgCreatorShare \<and> pg_creatorPin pg' = pin \<and> pg_isCreator pg' \<and> pg_key pg' = Some (fr_keyRaw f) \<and>
    pg_error pg' = [] \<and> pg_bucket pg' = b \<and> pg_hash pg' = hash \<and> pg_calls pg' = [] \<and>
    m_storage (pg_manager pg') = Some (AList.delete (pin_once_key b) st)"
proof -
  let ?r = "resume env p cx 0" and ?g = "Suc (pg_gen pg)"
  let ?p1 = "navigate b hash pg" and ?p4 = "?r (?r (?r (navigate b hash pg)))"
  obtain hint where hint: "sanitizeRoomFragmentInput hash = (hash, hint)" using assms(2) by (metis prod.collapse)
  have "booting ?g b hash st None [Boot ?g b (BtKey hash hint f (fr_keyRaw f))] ?p4"
    by (rule boot_parses boot_meta boot_activated boot_navigates hint assms)+
  from boot_has_key [OF this] obtain url
    where "booting ?g b hash st (Some (fr_keyRaw f)) [Boot ?g b (BtRelay hint f url)] (?r ?p4)" by blast
  from boot_has_relay [OF this] obtain msgs
    where "booting ?g b hash st (Some (fr_keyRaw f)) [Boot ?g b (BtMessages hint f msgs)] (?r (?r ?p4))" by blast
  from boot_finds_pin [OF this assms(5,14,15) refl]
  have shown: "booting ?g b hash (AList.delete (pin_once_key b) st) (Some (fr_keyRaw f))
      [EnsureRead (page_record (?r (?r (?r ?p4)))) f] (?r (?r (?r ?p4))) \<and>
    pg_phase (?r (?r (?r ?p4))) = PgCreatorShare \<and> pg_creatorPin (?r (?r (?r ?p4))) = pin \<and> pg_isCreator (?r (?r (?r ?p4)))" .
  have "pg' = ?r (?r (?r (?r ?p4)))" unfolding assms(16) by (simp add: eval_nat_numeral)
  also have "\<dots> = (?r (?r (?r ?p4)))\<lparr>pg_calls := []\<rparr>" using shown by (blast intro: boot_registered [OF _ refl])
  finally show ?thesis using shown by (simp add: booting_def)
qed

lemma registers_elsewhere:
  "m_rooms (registerRoom p cx opts m) = m_rooms m" "m_storage (registerRoom p cx opts m) = m_storage m"
proof -
  have "m_rooms (snd (encrypt_creds p c m0)) = m_rooms m0 \<and> m_storage (snd (encrypt_creds p c m0)) = m_storage m0" for c m0
    by (simp add: encrypt_creds_def draw_bytes_def)
  then show "m_rooms (registerRoom p cx opts m) = m_rooms m" "m_storage (registerRoom p cx opts m) = m_storage m"
    by (simp_all add: registerRoom_def Let_def case_prod_beta keep_credentials_def log_effect_def on_db_def)
qed

lemma made_elsewhere:
  assumes "createSecureLine p cx rand fallback url nickname m = (l, m')"
  shows "the_room b m' = the_room b m" "m_storage m' = m_storage m"
proof -
  have m': "m' = snd (createSecureLine p cx rand fallback url nickname m)" using assms by simp
  show "the_room b m' = the_room b m" "m_storage m' = m_storage m"
    unfolding m' by (cases "truthy (map_option trim url)";
      simp add: createSecureLine_def Let_def case_prod_beta registers_elsewhere the_room_def on_db_def)+
qed

text \<open>Surroundings for the concrete pages below.\<close>

definition toy_page_env :: page_env where
  "toy_page_env = \<lparr>pe_here = js ''byteln.com'', pe_relay = None, pe_text = \<lambda>e. []\<rparr>"

text \<open>C13
  From the button to the share screen. \<open>startSecureLine\<close> makes a line and leads to its page. Whatever the page has
  shown before, its seven steps end on the share screen: with the line's own PIN and key, as its creator, and with a
  link to share that opens the same key for the other seat. The PIN is in the session storage for that one showing: it
  is not found there again.
\<close>

theorem new_line_shows_its_pin:
  assumes draws: "length (lr_key rand) = 32" "lr_id rand \<noteq> []" "lr_salt rand \<noteq> []" "\<forall>w s. pf_pbkdf2 p w s \<noteq> []"
    and line: "createSecureLine p cx rand fallback url None m = (l, m1)"
    and started: "startSecureLine p cx rand fallback url m = (addr, m2)"
    and idle: "pg_bucket pg \<noteq> ln_id l" "the_room (ln_id l) m = None" "m_storage m \<noteq> None" "pg_manager pg = m2" "pg_calls pg = []"
    and shown: "pg' = run (page_step env p) ((cx, PgNavigate (ln_id l) (ln_hash l)) # replicate 7 (cx, PgResume 0)) pg"
  shows "addr = js ''/b/'' @ ln_id l @ ln_hash l \<and> pg_phase pg' = PgCreatorShare \<and> pg_creatorPin pg' = ln_pin l \<and>
    pg_isCreator pg' \<and> pg_key pg' = Some (lr_key rand) \<and> pg_error pg' = [] \<and> pg_calls pg' = [] \<and>
    shareUrl origin pg' = origin @ js ''/b/'' @ ln_id l @ shareRoomHash (ln_hash l) \<and>
    (\<exists>f. parseRoomFragment (shareRoomHash (ln_hash l)) = Some f \<and> fr_keyRaw f = lr_key rand \<and> resolveSeat f = 1) \<and>
    fst (takeCreatorPin (ln_id l) (m_storage (pg_manager pg'))) = None"
proof -
  obtain opts m0 where made: "m1 = registerRoom p cx opts m0" "ro_bucketId opts = ln_id l" "ro_roomHash opts = ln_hash l"
    and l: "ln_id l = randomBucketId (lr_id rand)" "ln_pin l = generateRoomPin (lr_pin rand)"
    and hash: "ln_hash l = buildRoomHash (lr_key rand) (createPinVerifier (pf_pbkdf2 p) (ln_pin l) (lr_salt rand) (ln_id l)) (lr_salt rand) (Some 0)"
    using created [OF line] .
  let ?pv = "createPinVerifier (pf_pbkdf2 p) (ln_pin l) (lr_salt rand) (ln_id l)"
  let ?f = "\<lambda>seat. \<lparr>fr_keyRaw = lr_key rand, fr_pv = ?pv, fr_salt = lr_salt rand, fr_seat = seat, fr_legacy = False\<rparr>"
  have parts: "lr_key rand \<noteq> []" "?pv \<noteq> []" "lr_salt rand \<noteq> []"
    using draws by (auto simp: createPinVerifier_def)
  have seats: "seat_ok (Some 0)" "seat_ok None" by (simp_all add: seat_ok_def)
  obtain st where st: "m_storage m = Some st" using idle(3) by auto
  have m2: "m2 = m1\<lparr>m_storage := Some (AList.update (pin_once_key (ln_id l)) (ln_pin l) st)\<rparr>"
    and addr: "addr = js ''/b/'' @ ln_id l @ ln_hash l"
    using line started made_elsewhere(2) [OF line] st
    by (auto simp: startSecureLine_def Let_def stashCreatorPin_def setItem_def)
  obtain rec where rec: "getRoom (ln_id l) (m_db m1) = Some rec" "rec_roomHash rec = ln_hash l"
    using registered [of opts p cx m0] made by auto
  have keyed: "contains (ln_hash l) (js ''key='')" unfolding hash by (rule built_has_key)
  have "ln_pin l \<noteq> []" "ln_id l \<noteq> []" using pin_shape(1) [of "lr_pin rand"] draws(2) l by (auto simp: randomBucketId_def)
  have "pg_phase pg' = PgCreatorShare \<and> pg_creatorPin pg' = ln_pin l \<and> pg_isCreator pg' \<and>
      pg_key pg' = Some (fr_keyRaw (?f (Some 0))) \<and>
      pg_error pg' = [] \<and> pg_bucket pg' = ln_id l \<and> pg_hash pg' = ln_hash l \<and> pg_calls pg' = [] \<and>
      m_storage (pg_manager pg') =
        Some (AList.delete (pin_once_key (ln_id l)) (AList.update (pin_once_key (ln_id l)) (ln_pin l) st))"
  proof (rule boot_to_share [OF _ _ keyed _ _ _ \<open>ln_id l \<noteq> []\<close> _ _ _ idle(5) _ _ _ \<open>ln_pin l \<noteq> []\<close> shown])
    show "parseRoomFragment (ln_hash l) = Some (?f (Some 0))" "fst (sanitizeRoomFragmentInput (ln_hash l)) = ln_hash l"
      unfolding hash using built_clean [OF parts seats(1)] by simp_all
    show "the_room (ln_id l) (pg_manager pg) = None"
      using made_elsewhere(1) [OF line] idle(2,4) by (simp add: m2 the_room_def)
    show "contains (rec_roomHash rec) (js ''key='')" using keyed rec(2) by simp
  qed (use draws(1) idle(1,4) rec in \<open>simp_all add: m2 page_db_def aes_key_def update_conv'\<close>)
  moreover have "parseRoomFragment (shareRoomHash (ln_hash l)) = Some (?f None)"
    unfolding hash share_link [OF seats(1)] by (rule built_clean(2) [OF parts seats(2)])
  ultimately show ?thesis
    by (simp add: addr shareUrl_def takeCreatorPin_def take_item_def getItem_def resolveSeat_def delete_conv')
qed

text \<open>A concrete line, from the button to the share screen.\<close>

theorem new_line_shows_its_pin_witness:
  "\<exists>l m1 addr m2 pg'. createSecureLine toy_line_platform toy_context toy_random (js ''wss://r'') None None toy_manager = (l, m1) \<and>
     startSecureLine toy_line_platform toy_context toy_random (js ''wss://r'') None toy_manager = (addr, m2) \<and>
     pg' = run (page_step toy_page_env toy_line_platform)
       ((toy_context, PgNavigate (ln_id l) (ln_hash l)) # replicate 7 (toy_context, PgResume 0)) (new_page [] [] m2) \<and>
     pg_phase pg' = PgCreatorShare \<and> length (pg_creatorPin pg') = 6"
proof -
  let ?made = "createSecureLine toy_line_platform toy_context toy_random (js ''wss://r'') None None toy_manager"
  let ?started = "startSecureLine toy_line_platform toy_context toy_random (js ''wss://r'') None toy_manager"
  obtain l m1 where l: "?made = (l, m1)" by (cases ?made)
  obtain addr m2 where s: "?started = (addr, m2)" by (cases ?started)
  have draws: "length (lr_key toy_random) = 32" "lr_id toy_random \<noteq> []" "lr_salt toy_random \<noteq> []"
    "\<forall>w s. pf_pbkdf2 toy_line_platform w s \<noteq> []"
    by (simp_all add: toy_random_def toy_line_platform_def)
  have "ln_id l = randomBucketId (lr_id toy_random)" using created [OF l] by blast
  then have idle: "pg_bucket (new_page [] [] m2) \<noteq> ln_id l" "the_room (ln_id l) toy_manager = None" "m_storage toy_manager \<noteq> None"
    "pg_manager (new_page [] [] m2) = m2" "pg_calls (new_page [] [] m2) = []"
    by (simp_all add: the_room_def new_manager_def new_page_def randomBucketId_def toy_random_def)
  have "ln_pin l = generateRoomPin (lr_pin toy_random)" using created [OF l] by blast
  with new_line_shows_its_pin [OF draws l s idle refl, where env = toy_page_env] l s show ?thesis by (simp add: pin_shape(1))
qed

section \<open>Synchronisation prompts\<close>

text \<open>The page's own functions start no synchronisation.\<close>

lemma page_shares:
  assumes "unshared kb kr (pg_manager pg)"
  shows "unshared kb kr (pg_manager (snd (page_connectWithPin p cx pin pg)))"
    "unshared kb kr (pg_manager (snd (page_flow (openRoom b th) pg)))" "unshared kb kr (pg_manager (snd (connectLegacy pg)))"
    "unshared kb kr (pg_manager (snd (ensureRoomRegistered f pg)))" "unshared kb kr (pg_manager (snd (loadRoomMeta pg)))"
    "unshared kb kr (pg_manager (snd (enterChatPhase q pg)))" "unshared kb kr (pg_manager (navigate i hash pg))"
  using assms
  by (simp_all add: page_connectWithPin_def page_flow_def connectLegacy_def ensureRoomRegistered_def loadRoomMeta_def enterChatPhase_def
      navigate_def start_call_def page_manager_def resetRoomUi_def Let_def case_prod_beta split: option.split)

lemma boot_shares:
  assumes "unshared kb kr (pg_manager pg)"
  shows "unshared kb kr (pg_manager (snd (boot_named p gen i pg)))"
    "unshared kb kr (pg_manager (snd (boot_stored gen i rec creds pg)))"
    "unshared kb kr (pg_manager (snd (boot_key gen i hash hint f pg)))"
    "unshared kb kr (pg_manager (snd (boot_keyed env gen i hash hint f pg)))"
    "unshared kb kr (pg_manager (snd (boot_relay p gen i hint f pg)))"
    "unshared kb kr (pg_manager (snd (boot_messages gen i hint f msgs pg)))"
    "unshared kb kr (pg_manager (snd (boot_record gen i hint f rec pg)))"
    "unshared kb kr (pg_manager (snd (boot_opened gen i hint f q pg)))"
    "unshared kb kr (pg_manager (snd (boot_ensured pg)))"
    "unshared kb kr (pg_manager (snd (boot_ask_pin p cx gen i hint pg)))"
proof -
  have hashed: "unshared kb kr (pg_manager (snd (boot_hash gen i h pg)))" if "unshared kb kr (pg_manager pg)" for h pg
    using that by (simp add: boot_hash_def boot_key_def frame_simps split: option.split)
  have entered: "unshared kb kr (pg_manager (snd (boot_enter gen i hint f pg)))" if "unshared kb kr (pg_manager pg)" for pg
    using that by (simp add: boot_enter_def page_shares frame_simps page_manager_def split: option.split)
  show "unshared kb kr (pg_manager (snd (boot_named p gen i pg)))"
    "unshared kb kr (pg_manager (snd (boot_stored gen i rec creds pg)))"
    using assms by (simp_all add: boot_named_def boot_stored_def hashed frame_simps)
  show "unshared kb kr (pg_manager (snd (boot_relay p gen i hint f pg)))"
    "unshared kb kr (pg_manager (snd (boot_messages gen i hint f msgs pg)))"
    using assms by (simp_all add: boot_relay_def boot_messages_def entered page_manager_def)
  show "unshared kb kr (pg_manager (snd (boot_key gen i hash hint f pg)))"
    "unshared kb kr (pg_manager (snd (boot_keyed env gen i hash hint f pg)))"
    "unshared kb kr (pg_manager (snd (boot_record gen i hint f rec pg)))"
    "unshared kb kr (pg_manager (snd (boot_opened gen i hint f q pg)))"
    "unshared kb kr (pg_manager (snd (boot_ensured pg)))"
    "unshared kb kr (pg_manager (snd (boot_ask_pin p cx gen i hint pg)))"
    using assms by (simp_all add: boot_key_def boot_keyed_def boot_record_def boot_opened_def boot_ensured_def boot_ask_pin_def
        page_shares frame_simps page_manager_def split: option.split)
qed

lemma boot_step_shares: "unshared kb kr (pg_manager pg) \<Longrightarrow> unshared kb kr (pg_manager (snd (boot_step env p cx gen i pc pg)))"
  by (cases pc) (auto simp: boot_step_def frame_simps boot_shares page_shares split: option.split sum.split)

lemma frame_shares: "unshared kb kr (pg_manager pg) \<Longrightarrow> unshared kb kr (pg_manager (snd (frame_step env p cx fr pg)))"
  by (cases "(env, p, cx, fr, pg)" rule: frame_step.cases)
    (simp_all add: boot_step_shares page_shares returns_def goes_on_def with_answer_def frame_simps meta_read_def name_read_def
      legacy_token_def legacy_register_def pin_checked_def ensure_read_def ensure_creds_def name_saved_def share_read_def
      rejoin_answered_def rejoin_next_def reconnect_answered_def send_answered_def attach_answered_def delete_answered_def
      wipe_next_def page_manager_def split: option.split sum.split wipe_kind.split bool.split)

lemma unwind_shares: "pg_manager (unwind env e fs pg) = pg_manager pg"
  by (induction env e fs pg rule: unwind.induct) simp_all

lemma resume_shares: "unshared kb kr (pg_manager pg) \<Longrightarrow> unshared kb kr (pg_manager (resume env p cx k pg))"
  using frame_shares [of kb kr pg env p cx]
  by (simp add: resume_def set_call_def unwind_shares frame_simps split: list.split sum.split)

lemma page_event_shares:
  assumes "unshared kb kr (pg_manager pg)" "\<And>e. ev \<noteq> PageManager e" "ev \<noteq> PgApproves"
  shows "unshared kb kr (pg_manager (page_step env p (cx, ev) pg))"
proof (cases ev)
  case (PageManager e)
  with assms(2) show ?thesis by blast
qed (use assms(1,3) in \<open>simp_all add: resume_shares page_shares rooms_bumped_def start_call_def submitPin_def
      continueFromCreatorModal_def savePartnerName_def send_pressed_def sendAttachment_def sendImageOrFile_def deleteMessage_pressed_def
      retryReconnect_def rejoinSeat_def page_respond_def denyResync_def wipe_pressed_def page_flow_def frame_simps page_manager_def
      split: option.split sum.split\<close>)

text \<open>C15
  Consent. A room's history is sent, in part or whole, in a synchronisation only, and none begins without the user: if
  after a step of the page there is a synchronisation of a room, or a part of its history is queued for one, that there
  was none of before, then the user has asked for one in that room, or has approved exactly that request on the page
  of that room; and then the request came from the device last trusted, or the word SYNC had been typed. No message
  of the partner and no wait that ends starts one.
\<close>

theorem history_needs_consent:
  assumes "unshared b rid (pg_manager pg)" "\<not> unshared b rid (pg_manager (page_step env p (cx, ev) pg))"
    and "\<nexists>cx. ev = PageManager (cx, UserAnswersSync b True)"
  shows "(\<exists>cx. ev = PageManager (cx, UserRequestsSync b)) \<or>
    ev = PgApproves \<and> pg_bucket pg = b \<and>
    (\<exists>pr. page_prompt pg = Some pr \<and> rp_requestId pr = rid \<and>
      (rp_deviceTrust pr = TrustSame \<or> map upper_unit (trim (pg_resyncConfirm pg)) = js ''SYNC''))"
proof (cases "\<exists>e. ev = PageManager e")
  case True
  then obtain c e where ev: "ev = PageManager (c, e)" by fastforce
  then show ?thesis using assms share_step [OF assms(1), of "(c, e)" p] by (auto simp: page_manager_def)
next
  case False
  then have ev: "ev = PgApproves" using page_event_shares [OF assms(1)] assms(2) by blast
  then have agreed: "resyncConfirmOk (page_prompt pg) (pg_resyncConfirm pg)"
    using assms(1,2) by (cases "resyncConfirmOk (page_prompt pg) (pg_resyncConfirm pg)") (simp_all add: approveResync_def)
  with ev assms(2) have "\<not> unshared b rid (snd (respondResync p cx (pg_bucket pg) True (pg_manager pg)))"
    by (simp add: approveResync_def page_respond_def case_prod_beta)
  then have "\<not> (pg_bucket pg = b \<and> True \<longrightarrow> (\<forall>pr. m_prompts (pg_manager pg) b = Some pr \<longrightarrow> rp_requestId pr \<noteq> rid))"
    using share_asks(2) [OF assms(1), of "pg_bucket pg" True p cx] by blast
  then obtain pr where pr: "page_prompt pg = Some pr" "pg_bucket pg = b" "rp_requestId pr = rid" by (auto simp: page_prompt_def)
  with agreed show ?thesis using ev by (cases "rp_deviceTrust pr") (simp_all add: resyncConfirmOk_def resyncNeedsConfirm_def)
qed

text \<open>A connected room, whose partner's known device asks for a synchronisation.\<close>

definition toy_asked :: page where
  "toy_asked = (new_page [] [] ((new_manager empty_db new_vault (Some []))
     \<lparr>m_rooms := [([], toy_waiting_room\<lparr>ir_client := Some 0, ir_key := replicate 32 7\<rparr>)],
      m_clients := [(Some [], (new_client False 0)\<lparr>c_ws := Some 0, c_socks := [Open]\<rparr>)],
      m_prompts := [[] \<mapsto> \<lparr>rp_requestId = js ''r'', rp_ts = NumI 0, rp_deviceFp = None, rp_deviceTrust = TrustSame\<rparr>]\<rparr>))
     \<lparr>pg_phase := PgChat\<rparr>"

lemma toy_asked_before: "unshared [] (js ''r'') (pg_manager toy_asked)"
  by (simp add: toy_asked_def new_page_def new_manager_def unshared_def)

lemma approval_begins:
  assumes "the_room b m = Some r" "m_prompts m b = Some pr" "is_connected b m" "ir_client r = Some k"
    and "\<And>n ids. \<exists>buf. encryptMessage (pf_seal p) (ir_key r) (pf_bytes p n) (ResyncAccept (NumI (cx_now cx)) (rp_requestId pr) ids) = Inr buf"
  shows "\<not> unshared b (rp_requestId pr) (snd (respondResync p cx b True m))"
proof -
  have "fst (transmit p r (ResyncAccept (NumI (cx_now cx)) (rp_requestId pr) ids) m') = Inr ()" for ids m'
    using assms(4) assms(5) [of "m_draws m'" ids] by (auto simp: transmit_def draw_bytes_def)
  then show ?thesis
    using assms(1-3) by (simp add: respondResync_def frame_simps setResyncStatus_def new_session_def unshared_def)
qed

definition toy_sealing :: platform where "toy_sealing = toy_platform\<lparr>pf_seal := \<lambda>k iv pt. []\<rparr>"

lemma toy_asked_after: "\<not> unshared [] (js ''r'') (pg_manager (page_step toy_page_env toy_sealing (toy_context, PgApproves) toy_asked))"
proof -
  let ?m = "pg_manager toy_asked" and ?r = "toy_waiting_room\<lparr>ir_client := Some 0, ir_key := replicate 32 7\<rparr>"
  obtain pr where pr: "m_prompts ?m [] = Some pr" "rp_requestId pr = js ''r''" "rp_deviceTrust pr = TrustSame" and page: "pg_bucket toy_asked = []"
    by (simp add: toy_asked_def new_page_def)
  have "\<not> unshared [] (rp_requestId pr) (snd (respondResync toy_sealing toy_context [] True ?m))"
  proof (rule approval_begins)
    show "the_room [] ?m = Some ?r" "is_connected [] ?m" "ir_client ?r = Some 0"
      by (simp_all add: toy_asked_def new_page_def the_room_def is_connected_def client_of_def connected_def ready_state_def)
    show "\<exists>buf. encryptMessage (pf_seal toy_sealing) (ir_key ?r) (pf_bytes toy_sealing n)
        (ResyncAccept (NumI (cx_now toy_context)) (rp_requestId pr) ids) = Inr buf" for n ids
      by (simp add: toy_sealing_def toy_platform_def encryptMessage_def pr with_id_def json_frame_def js_def MAX_CIPHERTEXT_BYTES_def)
  qed (rule pr)
  then show ?thesis
    using pr page by (simp add: approveResync_def page_prompt_def resyncConfirmOk_def resyncNeedsConfirm_def page_respond_def case_prod_beta)
qed

theorem history_needs_consent_witness:
  "\<exists>pr. page_prompt toy_asked = Some pr \<and> rp_requestId pr = js ''r''"
  using history_needs_consent [OF toy_asked_before toy_asked_after] by auto

section \<open>Calls that outlive a navigation\<close>

text \<open>
  The word typed for a prompt that was left unanswered is not forgotten with the room: it approves the prompt of the
  next room the page shows.
\<close>

lemma typed_word_outlives_its_room:
  assumes "i \<noteq> []" "i \<noteq> pg_bucket pg" "m_prompts (pg_manager pg) i = Some pr"
    and "pg' = run (page_step env p) [(cx, PgTypesConfirm (js ''sync'')), (cx, PgNavigate i hash)] pg"
  shows "page_prompt pg' = Some pr" "resyncConfirmOk (page_prompt pg') (pg_resyncConfirm pg')"
proof -
  have word: "map upper_unit (trim (js ''sync'')) = js ''SYNC''" by code_simp
  show "page_prompt pg' = Some pr" "resyncConfirmOk (page_prompt pg') (pg_resyncConfirm pg')"
    using assms word by (simp_all add: navigate_def start_call_def resetRoomUi_def page_prompt_def page_manager_def setActive_def
        on_db_def log_effect_def truthy_def resyncConfirmOk_def Let_def)
qed

lemma navigated:
  assumes "i \<noteq> []" "i \<noteq> pg_bucket pg"
  shows "pg_bucket (navigate i hash pg) = i" "pg_key (navigate i hash pg) = None" "pg_room (navigate i hash pg) = None"
    "pg_manager (navigate i hash pg) = setActive (Some i) (pg_manager pg)" "pg_gen (navigate i hash pg) = Suc (pg_gen pg)"
    "pg_calls (navigate i hash pg) = pg_calls pg @ [[Boot (Suc (pg_gen pg)) i BtActivated]]"
  using assms by (simp_all add: navigate_def start_call_def resetRoomUi_def page_manager_def Let_def)

lemma active_keeps: "m_flows (setActive i m) = m_flows m" "getMessages b (setActive i m) = getMessages b m"
  by (simp_all add: setActive_def getMessages_def on_db_def log_effect_def Let_def split: option.split)

lemma wiped: "getMessages b (wipeLocalHistory p i m) = (if b = i then [] else getMessages b m)"
proof -
  have "m_messages (wipeLocalHistory p i m) = (m_messages m)(i \<mapsto> [])"
    using shown_engine(1) [of p "clearBucket i True" "syncMessages i [] (on_db (deleteMessagesForBucket (pf_nfc p) i) m)"]
    by (simp add: wipeLocalHistory_def Let_def shown_of_def log_effect_def schedulePublishDigest_def setHistoryMismatch_def on_db_def
        syncMessages_def by_id_def)
  then show ?thesis by (simp add: getMessages_def)
qed



section \<open>Sending\<close>

text \<open>
  Nothing marks a message as being sent: until the answer comes the draft stays, and with it all that a second press
  of Enter needs to send it again.
\<close>

lemma draft_stays_while_sending:
  "pg_draft (send_pressed p cx pg) = pg_draft pg" "pg_key (send_pressed p cx pg) = pg_key pg"
  "pg_imageBusy (send_pressed p cx pg) = pg_imageBusy pg"
  by (simp_all add: send_pressed_def start_call_def Let_def case_prod_beta)

section \<open>The address without its fragment\<close>

text \<open>C6
  After a switch of devices no PIN is right. The chat list's \<open>confirmSwitchDevice\<close> goes to the page's address
  without its fragment; the page stays as it is, but the link it gives to the manager is the one in the address.
  When the seat is taken back and the relay does not answer, the page asks for the PIN, and every PIN is refused as
  wrong, without a look at the line's verifier; nothing of the manager changes.
\<close>

theorem no_pin_after_the_switch:
  assumes "pg_bucket pg = b" "pg_key pg \<noteq> None" "pg_room pg = Some f" "\<not> fr_legacy f" "\<not> page_full pg"
    and "pg_calls pg = [[Rejoining n, RejoinEnd]]" "flow_answer n (pg_manager pg) = Some (Inr False)"
    and "six_digit_pin (trim pin)"
    and "pg' = run (page_step env p) ((cx, PgNavigate b []) # replicate 4 (cx, PgResume 0) @
           [(cx, PgTypesPin pin), (cx, PgSubmitsPin), (cx, PgResume 0)]) pg"
  shows "pg_phase pg' = PgLinePin \<and> pg_pinError pg' = wrong_pin \<and> pg_calls pg' = [] \<and> pg_manager pg' = pg_manager pg"
proof -
  let ?gone = "pg\<lparr>pg_hash := []\<rparr>"
  define pg2 where "pg2 = run (page_step env p) (replicate 4 (cx, PgResume 0)) ?gone"
  have "navigate b [] pg = ?gone" using assms(1) by (simp add: navigate_def)
  then have pg': "pg' = run (page_step env p) [(cx, PgTypesPin pin), (cx, PgSubmitsPin), (cx, PgResume 0)] pg2"
    using assms(9) by (simp add: pg2_def eval_nat_numeral)
  obtain k where "pg_key pg = Some k" using assms(2) by blast
  then have asked: "pg_bucket pg2 = b" "pg_hash pg2 = []" "pg_key pg2 = Some k" "pg_room pg2 = Some f" "pg_phase pg2 = PgLinePin"
    "pg_manager pg2 = pg_manager pg" "pg_calls pg2 = []"
    using assms(1,3,5-7) by (simp_all add: pg2_def eval_nat_numeral resume_def set_call_def with_answer_def rejoin_answered_def
        rejoin_next_def loadRoomMeta_def returns_def goes_on_def meta_read_def page_full_def Let_def)
  have "parseRoomFragment [] = None" by code_simp
  then have "connectWithPin p cx b (trim pin) [] url m = (False, m)" for url m
    by (simp add: connectWithPin_def)
  then show ?thesis
    unfolding pg' using assms(1,4,5,8) asked
    by (simp add: submitPin_def page_connectWithPin_def start_call_def resume_def set_call_def goes_on_def pin_checked_def
        page_full_def Let_def)
qed

text \<open>Such a page, and a PIN.\<close>

definition toy_switched :: page where
  "toy_switched = toy_asked\<lparr>pg_key := Some [1], pg_room := Some (ir_fragment toy_waiting_room), pg_calls := [[Rejoining 0, RejoinEnd]],
     pg_manager := toy_waiting\<lparr>m_flows := [\<lparr>fl_bucket = [], fl_pc = FlowDone (Inr False), fl_then = Nothing\<rparr>]\<rparr>\<rparr>"

theorem no_pin_after_the_switch_witness:
  "pg_pinError (run (page_step toy_page_env toy_platform) ((toy_context, PgNavigate [] []) # replicate 4 (toy_context, PgResume 0) @
     [(toy_context, PgTypesPin (js ''123456'')), (toy_context, PgSubmitsPin), (toy_context, PgResume 0)]) toy_switched) = wrong_pin"
proof -
  have page: "pg_bucket toy_switched = []" "pg_key toy_switched \<noteq> None" "pg_room toy_switched = Some (ir_fragment toy_waiting_room)"
    "\<not> fr_legacy (ir_fragment toy_waiting_room)" "pg_calls toy_switched = [[Rejoining 0, RejoinEnd]]"
    by (simp_all add: toy_switched_def toy_asked_def new_page_def toy_waiting_room_def)
  have full: "\<not> page_full toy_switched" and answer: "flow_answer 0 (pg_manager toy_switched) = Some (Inr False)"
    by (simp_all add: toy_switched_def toy_asked_def new_page_def page_full_def getRuntime_def toy_waiting_def toy_waiting_room_def
        new_manager_def the_room_def new_runtime_def flow_answer_def)
  have "six_digit_pin (trim (js ''123456''))" by code_simp
  from no_pin_after_the_switch [OF page(1-4) full page(5) answer this refl] show ?thesis by blast
qed

end
