(* ===== verification/Spec2Isabelle.thy ===== *)
theory Spec2Isabelle
  imports TransferFlow Uuid Pow Deadlock HistoryArrival StoredLinks RelayUrl HandoffPage PageActions PageProps
begin

text \<open>
  \<^bold>\<open>The byteln client\<close>

  byteln is a chat for two people over a relay that stores nothing. The program verified here is its web client, the
  TypeScript and Svelte code under \<open>web/src\<close> (all paths below start there). Two browsers join a bucket of the relay
  with one link, which carries the key, and a PIN that is told separately. Everything they exchange is encrypted
  end to end; histories are kept in each browser and brought in line with the partner's on request; pictures and files go through a
  reliable transfer protocol over the lossy relay; credentials are sealed under an app PIN.

  \<^bold>\<open>How the parts work together\<close>

  The connection manager (\<open>lib/relay/connection-manager.ts\<close>, a singleton) is the middle. Below it are one relay
  client for each open room (\<open>lib/relay/client.ts\<close>, which solves a proof of work first, \<open>pow.ts\<close>), one pacer
  for each room (\<open>pacer.ts\<close>), the transfer engine (\<open>transfer.ts\<close>), whose calls of its dependencies
  the manager carries out, the stores of the browser (\<open>lib/storage/history.ts\<close>, the session storage) and the vault
  (\<open>lib/crypto/vault.ts\<close>). What goes over the wire is made by \<open>lib/crypto/session.ts\<close>, links and PINs by
  \<open>lib/crypto/room.ts\<close>, backups by \<open>backup.ts\<close>, digests and differences of histories by \<open>history-sync.ts\<close>. Above
  it are the vault gate, which lets the app appear, the page of a line, the chat list, the hub, the import page, and
  the page that hands a room to another device through a bucket of its own (\<open>lib/handoff.ts\<close>).

  \<^bold>\<open>Theories and sources\<close>

  Each theory keeps the names of the source and the order of its functions. A class or module with variables is a
  record, and a method is a function on it; an \<open>async\<close> function is cut at its \<open>await\<close>s. Errors are values
  (\<open>js_error + 'a\<close>), strings are lists of UTF-16 code units, bytes are words of eight bits, maps are association lists in
  insertion order.

  \<^item> \<open>Prelude\<close>: strings, errors, slices, maps, runs of events; the locales \<open>keyed_store\<close>, \<open>codec\<close> and \<open>event_system\<close>.
  \<^item> The platform's text: \<open>Utf8\<close> (the two coders), \<open>Json\<close> (\<open>stringify\<close> and \<open>parse\<close>), \<open>UrlParams\<close>; \<open>Base64\<close>
    for the helpers of \<open>session.ts\<close>.
  \<^item> Wire: \<open>Messages\<close> (types, limits, names of files), \<open>Wire\<close> (every plaintext, encoded and decoded), \<open>Chunking\<close>,
    \<open>Envelope\<close> (encryption), all of \<open>session.ts\<close>; \<open>Uuid\<close> is \<open>lib/crypto/id.ts\<close>.
  \<^item> Histories: \<open>Backup\<close>, \<open>Store\<close> (\<open>history.ts\<close>), \<open>HistorySync\<close>.
  \<^item> Rooms: \<open>Room\<close> (links, verifier, seats, tokens, session storage), \<open>Vault\<close>, \<open>Lines\<close> (\<open>start-line.ts\<close>,
    \<open>lib/servers/directory.ts\<close>, the text of \<open>lib/share.ts\<close>).
  \<^item> Relay: \<open>Pow\<close>, \<open>Pacer\<close>, \<open>Client\<close>, and \<open>RelayUrl\<close> for the addresses that are made from a room's id.
  \<^item> Transfers: \<open>Registry\<close> and \<open>TransferEngine\<close> are the whole of \<open>transfer.ts\<close>; \<open>TransferInv\<close> has its invariant,
    \<open>TransferTrace\<close> where delivered bytes come from, \<open>TransferProps\<close> and \<open>TransferFlow\<close> its properties.
  \<^item> Connection manager: \<open>Manager\<close> (state, stores of the module, sending), \<open>Resync\<close>, \<open>Sending\<close>, \<open>Reconnect\<close> (timers,
    heartbeats, callbacks), \<open>Flows\<close> (\<open>openRoom\<close>, \<open>reconnectRoom\<close>, closing, locking), \<open>ManagerSystem\<close> (all of
    it as one state machine). \<open>ManagerFrames\<close>, \<open>FlowFrames\<close> and \<open>GateFrames\<close> say what each operation leaves alone;
    \<open>ManagerInv\<close>, \<open>ManagerViews\<close>, \<open>Retries\<close>, \<open>Deadlock\<close>, \<open>HistoryArrival\<close> and \<open>Consent\<close> are about its runs.
  \<^item> App PIN: \<open>Gate\<close> (\<open>lib/components/VaultGate.svelte\<close>, \<open>lib/app-session.ts\<close>), \<open>StoredLinks\<close>.
  \<^item> Handoff: \<open>Handoff\<close> (both ends as state machines over \<open>Client\<close>), \<open>HandoffPage\<close>
    (\<open>routes/(app)/handoff/+page.svelte\<close>).
  \<^item> Page of a line, \<open>routes/(app)/b/[id]/+page.svelte\<close>: \<open>PageViews\<close> (what it derives and shows), \<open>RoomPage\<close>
    (\<open>bootstrapRoom\<close>, the PIN screens), \<open>PageSystem\<close> (the waiting calls, the user's actions, the state
    machine), \<open>PageActions\<close> (invite, export, files and keys), \<open>PageProps\<close>.
  \<^item> \<open>Screens\<close>: chat list, invite panel, hub, settings, import page. \<open>Widgets\<close>: bubbles, images, notifications,
    sharing, loader, sound.

  \<^bold>\<open>State machines\<close>

  Concurrency is interleaving of events: each event runs the code from one wait to the next, in any order the guards allow.
  \<open>engine_step\<close>, \<open>client_step\<close>, \<open>manager_step\<close>, \<open>gate_step\<close>, \<open>listener_step\<close>, \<open>sender_step\<close>, \<open>handoff_step\<close>
  and \<open>page_step\<close> are the machines, with \<open>event_enabled\<close> and so on for what can happen when; the locale
  \<open>event_system\<close> lifts an invariant from steps to runs and is interpreted on them with the invariants
  \<open>engine_inv\<close>, \<open>client_inv\<close>, \<open>resources_ok\<close>, \<open>views_ok\<close>, \<open>gate_ok\<close>, \<open>listener_inv\<close>, \<open>settled_once\<close> and
  \<open>send_ok\<close>. The page holds a manager, the manager holds clients, engine and flows, so that a run of the page is
  a run of all of them.

  \<^bold>\<open>What the lemmas show\<close>

  \<^item> Transfers (C1 to C5, C9, C10): delivered bytes are those announced, made of chunks that have arrived; window,
    quota and timer; reassembly in any order; a corrupt transfer is dropped, a silent partner noticed.
  \<^item> Encodings (C23 to C26, C28 to C30, C33): round trips of base64, of every wire message, of chunks, of
    encryption, backups and links; what the decoder lets through; sizes.
  \<^item> Histories (C31, C32, C39): what a payload can do to a store, convergence of two stores by differential
    synchronisation as a refinement of their union, the arrival of a bundle.
  \<^item> Numbers and time (C12, C14, C16, C17): pacer, increasing ids, the proof of work.
  \<^item> Manager (C35 to C38): resources of rooms, what is shown is what is stored, two defects of the reconnection.
  \<^item> Relay client and lock (C18, C20 to C22, C34): the gate and the vault, what a lock leaves, two races.
  \<^item> Lines and pages (C6 to C8, C11, C13, C15, C19, C27, C40): joining a new line, its screen, the timeline, consent
    to synchronisation, calls that outlive a navigation, handing over, the import page.

  \<^bold>\<open>Bounds\<close>

  \<open>parse\<close> reads with a depth of twice the text's length plus one; \<open>read_fuel\<close> shows that more changes nothing. The search
  for a proof of work is a \<open>partial_function\<close>, and C17 shows that it returns. The pacer's loop takes the
  clock's readings as a list, and its properties hold for every list. All other recursion is structural or has a measure. Flows, calls and
  runs are not bounded.

  \<^bold>\<open>Parameters and hypotheses\<close>

  Web Crypto is a set of parameters: \<open>aead\<close> says of AES-GCM that, under a key and a nonce, it opens exactly what it
  seals and makes it 16 bytes longer; PBKDF2, HKDF and SHA-256 are functions of which nothing is assumed but, in some
  theorems, an output that is not empty; random draws and the clock come with the event. gzip is a pair of functions
  with \<open>gunzip (gzip bs) = bs\<close>. Unicode normalisation (\<open>nfc\<close>, of which file names need that it makes no separator of a
  path), the URL constructor (\<open>url_path\<close>, host names), \<open>fetch\<close>, the decoder of images and the canvas are arguments. \<open>plain_names\<close> excludes room ids that are property names every
  object inherits, \<open>rooms_named\<close> empty ones.

  An \<open>await\<close> on the database ends later, but its result is that of the moment of the call, since IndexedDB
  orders transactions. A call of the manager that a page awaits runs as the manager's own events; where the manager
  answers at its first wait the page goes on from there.

  \<^bold>\<open>Not modelled\<close>

  The relay server, written in Go. The markup of the components but for the conditions under which it offers an
  action; styles, scrolling, dragging, highlighting, flashes and local forms of dates; the static pages. Drawing and reading of QR
  codes, the audio graph, notifications and the system's share sheet, which are calls of the browser (what the code
  decides around them is modelled). Errors of IndexedDB, the storage estimate behind \<open>hasStorageFor\<close> (an argument),
  the polling of \<open>bufferedAmount\<close> (an event), and the registration of listeners. Floating-point rounding: times and
  counts are integers, and the pacer's level, progress and the sides of an image are exact.
\<close>

end
